(* ===== verification/GI_Prelude.thy ===== *)
theory GI_Prelude
  imports Main "HOL-Library.Char_ord" "HOL-Library.List_Lexorder"
begin

text \<open>
  Shared ground of the development: the types that stand for Python and Django values
  (primary keys, instants, calendar days), the exceptions the application raises, the
  QuerySet operations of the ORM on a table held as a list of rows, the ASCII part of the
  Python string methods the code calls, and the generic lemmas and locales the component
  theories build on.

  \<^item> A UUID primary key is a \<^typ>\<open>nat\<close>; \<open>uuid4\<close> is a counter in the database state, so
    a fresh key never repeats.
  \<^item> An aware \<open>datetime\<close> is an \<^typ>\<open>int\<close>: microseconds since an epoch, in UTC.
  \<^item> A calendar \<open>date\<close> is an \<^typ>\<open>int\<close>: its ordinal, so that \<open>timedelta(days=1)\<close> is \<open>1\<close>.
  \<^item> A function that may raise returns \<open>exc + 'a\<close>, with \<^term>\<open>Inl\<close> for the exception. The
    new database is part of the \<^term>\<open>Inr\<close> value only: inside \<open>transaction.atomic()\<close> an
    exception leaves the stored rows as they were.
\<close>

section \<open>Values\<close>

type_synonym uuid = nat
type_synonym datetime = int
type_synonym date = int

definition microseconds_per_ms :: int where
  "microseconds_per_ms = 1000"

definition timedelta_hours :: "int \<Rightarrow> int" where
  "timedelta_hours n = n * 3600 * 1000000"

definition timedelta_days :: "int \<Rightarrow> int" where
  "timedelta_days n = n * 86400 * 1000000"

section \<open>Exceptions\<close>

text \<open>
  One constructor per exception class that crosses a function boundary in the modelled code.
  \<open>IntegrityError\<close> carries the constraint PostgreSQL names, \<open>DataError\<close> the column whose
  value does not fit, \<open>ValidationError\<close> the field and the message, the others the message
  where the code tells several uses of one class apart by it.
\<close>

datatype exc =
    DoesNotExist | MultipleObjectsReturned
  | IntegrityError string | DataError string
  | PermissionDenied string | PyValueError string | RuntimeError string | PyTypeError
  | DuplicateClanLeaderError | MembershipClanMismatchError | DuplicateClanNameError
  | AlreadyLeadingAClanError | PrivateClanLimitExceededError | InvalidClanPrivacyError
  | InvitationLimitExceededError | InvalidInvitationCodeError | AlreadyClanMemberError
  | InvitationsNotNeededError | InvalidImageError string
  | AccountConflictError | AccountDisabledError | CannotDemoteLastAdminError
  | DomainNotAllowedError | IdentityProviderUnavailableError | InvalidIdentityTokenError
  | RequestValidationError | NicknameUnchangedError | InsufficientPointsForNicknameError
  | AccountDeactivationBlockedError string
  | ValidationError string string
  | InsufficientPointsError | AlreadyUnlockedError | ItemInactiveError string
  | PointsAlreadySpentError | Http404 | CommandError string

type_synonym 'a res = "exc + 'a"

text \<open>
  Sequencing: \<open>res_bind r f\<close> runs \<open>f\<close> on the value of \<open>r\<close> unless \<open>r\<close> raised, \<open>require b e\<close>
  raises \<open>e\<close> unless \<open>b\<close> holds, and \<open>for_each\<close> is a \<open>for\<close> loop whose body may raise, with the
  list of what its iterations appended to a result list.
\<close>

definition res_bind :: "'a res \<Rightarrow> ('a \<Rightarrow> 'b res) \<Rightarrow> 'b res" where
  "res_bind r f = (case r of Inl e \<Rightarrow> Inl e | Inr x \<Rightarrow> f x)"

definition require :: "bool \<Rightarrow> exc \<Rightarrow> unit res" where
  "require b e = (if b then Inr () else Inl e)"

fun for_each :: "('a \<Rightarrow> 's \<Rightarrow> ('b \<times> 's) res) \<Rightarrow> 'a list \<Rightarrow> 's \<Rightarrow> ('b list \<times> 's) res" where
  "for_each body [] s = Inr ([], s)"
| "for_each body (x # xs) s =
     res_bind (body x s) (\<lambda>(y, s1). res_bind (for_each body xs s1) (\<lambda>(ys, s2). Inr (y # ys, s2)))"

lemma res_bind_simps [simp]: "res_bind (Inl e) f = Inl e" "res_bind (Inr x) f = f x"
  by (simp_all add: res_bind_def)

lemma require_simps [simp]: "require True e = Inr ()" "require False e = Inl e"
  by (simp_all add: require_def)

lemma res_bind_InrE:
  assumes "res_bind r f = Inr y"
  obtains x where "r = Inr x" "f x = Inr y"
  using assms by (cases r) auto

lemma res_bind_require: "res_bind (require b e) f = (if b then f () else Inl e)"
  by simp

lemma require_Inr_iff [simp]: "require b e = Inr u \<longleftrightarrow> b" "require b e = Inl e' \<longleftrightarrow> \<not> b \<and> e' = e"
  by (auto simp: require_def)

text \<open>The state of a call that also returns a value.\<close>

definition state_of :: "('a \<times> 's) res \<Rightarrow> 's res" where
  "state_of r = map_sum id snd r"

lemma state_of_InrE: "state_of r = Inr s' \<Longrightarrow> \<exists>v. r = Inr (v, s')"
  by (cases r) (auto simp: state_of_def)

text \<open>An invariant of the body is an invariant of the loop.\<close>

lemma for_each_inv:
  assumes "for_each body xs s = Inr (ys, s')" "P s"
    "\<And>x t y t'. x \<in> set xs \<Longrightarrow> P t \<Longrightarrow> body x t = Inr (y, t') \<Longrightarrow> P t'"
  shows "P s'"
  using assms
proof (induction xs arbitrary: s ys)
  case (Cons x xs)
  then obtain y s1 zs where b: "body x s = Inr (y, s1)" "for_each body xs s1 = Inr (zs, s')"
    by (auto elim!: res_bind_InrE)
  have "P s1" using Cons.prems(2,3) b(1) by auto
  then show ?case using Cons.IH [OF b(2)] Cons.prems(3) by auto
qed simp

lemma for_each_length: "for_each body xs s = Inr (ys, s') \<Longrightarrow> length ys = length xs"
  by (induction xs arbitrary: s ys) (auto elim!: res_bind_InrE)

section \<open>QuerySet operations on a table\<close>

text \<open>
  A table is the list of its rows in insertion order. \<open>QuerySet.filter\<close>, \<open>exclude\<close>,
  \<open>exists\<close> and \<open>count\<close> are \<^const>\<open>filter\<close>, \<^const>\<open>list_ex\<close> and \<^const>\<open>length\<close>; the
  operations below are the ones that need a definition. \<open>first()\<close> on an unordered QuerySet
  orders by primary key; \<open>get()\<close> raises unless exactly one row matches; \<open>update\<close> rewrites
  the matching rows and \<open>delete\<close> drops them.
\<close>

definition qs_first :: "('r \<Rightarrow> uuid) \<Rightarrow> 'r list \<Rightarrow> 'r option" where
  "qs_first pk rows = (case rows of [] \<Rightarrow> None | _ # _ \<Rightarrow> Some (arg_min_list pk rows))"

definition qs_get :: "('r \<Rightarrow> bool) \<Rightarrow> 'r list \<Rightarrow> 'r res" where
  "qs_get P rows =
     (case filter P rows of
        [] \<Rightarrow> Inl DoesNotExist
      | [r] \<Rightarrow> Inr r
      | _ # _ # _ \<Rightarrow> Inl MultipleObjectsReturned)"

text \<open>\<open>get_object_or_404\<close>.\<close>

definition get_or_404 :: "('r \<Rightarrow> bool) \<Rightarrow> 'r list \<Rightarrow> 'r res" where
  "get_or_404 P rows = (case qs_get P rows of Inl DoesNotExist \<Rightarrow> Inl Http404 | r \<Rightarrow> r)"

definition qs_update :: "('r \<Rightarrow> bool) \<Rightarrow> ('r \<Rightarrow> 'r) \<Rightarrow> 'r list \<Rightarrow> 'r list" where
  "qs_update P f rows = map (\<lambda>r. if P r then f r else r) rows"

definition qs_delete :: "('r \<Rightarrow> bool) \<Rightarrow> 'r list \<Rightarrow> 'r list" where
  "qs_delete P rows = filter (\<lambda>r. \<not> P r) rows"

section \<open>Python strings\<close>

text \<open>
  A \<open>str\<close> is a \<^typ>\<open>string\<close>; \<open>strip\<close>, \<open>split\<close>, \<open>lower\<close> and \<open>upper\<close> are written for
  the ASCII characters, the ones the identifiers, codes and addresses the code normalises
  consist of.
\<close>

definition is_space :: "char \<Rightarrow> bool" where
  "is_space c \<longleftrightarrow> c \<in> set [CHR '' '', CHR 0x09, CHR 0x0A, CHR 0x0B, CHR 0x0C, CHR 0x0D,
                       CHR 0x1C, CHR 0x1D, CHR 0x1E, CHR 0x1F]"

definition py_strip :: "string \<Rightarrow> string" where
  "py_strip s = rev (dropWhile is_space (rev (dropWhile is_space s)))"

definition upper_char :: "char \<Rightarrow> char" where
  "upper_char c =
     (let n = (of_char c :: nat) in if 97 \<le> n \<and> n \<le> 122 then char_of (n - 32) else c)"

definition lower_char :: "char \<Rightarrow> char" where
  "lower_char c =
     (let n = (of_char c :: nat) in if 65 \<le> n \<and> n \<le> 90 then char_of (n + 32) else c)"

definition py_upper :: "string \<Rightarrow> string" where
  "py_upper s = map upper_char s"

definition py_lower :: "string \<Rightarrow> string" where
  "py_lower s = map lower_char s"

definition py_startswith :: "string \<Rightarrow> string \<Rightarrow> bool" where
  "py_startswith s p \<longleftrightarrow> take (length p) s = p"

fun py_contains :: "string \<Rightarrow> string \<Rightarrow> bool" where
  "py_contains [] p \<longleftrightarrow> p = []"
| "py_contains (c # s) p \<longleftrightarrow> py_startswith (c # s) p \<or> py_contains s p"

text \<open>\<open>s.split(sep)\<close> for a one-character separator.\<close>

fun py_split_on :: "char \<Rightarrow> string \<Rightarrow> string list" where
  "py_split_on sep [] = [[]]"
| "py_split_on sep (c # s) =
     (if c = sep then [] # py_split_on sep s
      else case py_split_on sep s of [] \<Rightarrow> [[c]] | w # ws \<Rightarrow> (c # w) # ws)"

text \<open>\<open>s.split()\<close>: the maximal runs of characters that are not white space.\<close>

fun py_split_ws :: "string \<Rightarrow> string list" where
  "py_split_ws [] = []"
| "py_split_ws (c # s) =
     (if is_space c then py_split_ws s
      else case s of
             [] \<Rightarrow> [[c]]
           | d # _ \<Rightarrow> (if is_space d then [c] # py_split_ws s
                      else case py_split_ws s of [] \<Rightarrow> [[c]] | w # ws \<Rightarrow> (c # w) # ws))"

fun py_join :: "string \<Rightarrow> string list \<Rightarrow> string" where
  "py_join sep [] = []"
| "py_join sep [w] = w"
| "py_join sep (w # v # ws) = w @ sep @ py_join sep (v # ws)"

lemma py_split_on_word: "sep \<notin> set w \<Longrightarrow> py_split_on sep w = [w]"
  by (induction w) auto

lemma py_split_on_sep: "sep \<notin> set w \<Longrightarrow> py_split_on sep (w @ sep # s) = w # py_split_on sep s"
  by (induction w) auto

lemma py_startswith_append [simp]: "py_startswith (p @ s) p"
  by (simp add: py_startswith_def)

lemma py_startswith_iff: "py_startswith s p \<longleftrightarrow> (\<exists>t. s = p @ t)"
  by (metis append_eq_conv_conj append_take_drop_id py_startswith_def)

section \<open>Lemma collections\<close>

named_theorems orm_defs \<open>definitions of the QuerySet operations\<close>
named_theorems frame \<open>which tables an operation leaves as they were\<close>
named_theorems keeps \<open>an operation keeps an invariant\<close>

declare qs_update_def [orm_defs] qs_delete_def [orm_defs]

section \<open>Lemmas on the QuerySet operations\<close>

lemma arg_min_list_in_set: "xs \<noteq> [] \<Longrightarrow> arg_min_list f xs \<in> set xs"
  by (rule arg_min_list_in)

lemma qs_first_None [simp]: "qs_first pk rows = None \<longleftrightarrow> rows = []"
  by (simp add: qs_first_def split: list.splits)

lemma qs_first_Nil [simp]: "qs_first pk [] = None"
  by (simp add: qs_first_def)

lemma qs_first_single [simp]: "qs_first pk [r] = Some r"
  by (simp add: qs_first_def)

lemma qs_first_SomeD: "qs_first pk rows = Some r \<Longrightarrow> r \<in> set rows"
  using arg_min_list_in_set [of rows pk] by (auto simp: qs_first_def split: list.splits)

lemma qs_first_filterD:
  "qs_first pk (filter P rows) = Some r \<Longrightarrow> r \<in> set rows \<and> P r"
  by (auto dest: qs_first_SomeD)

lemma qs_get_InrD:
  assumes "qs_get P rows = Inr r"
  shows "r \<in> set rows" and "P r" and "\<And>r'. r' \<in> set rows \<Longrightarrow> P r' \<Longrightarrow> r' = r"
    and "filter P rows = [r]"
proof -
  from assms show f: "filter P rows = [r]"
    by (auto simp: qs_get_def split: list.splits)
  then have "set (filter P rows) = {r}" by simp
  then show "r \<in> set rows" and "P r" and "\<And>r'. r' \<in> set rows \<Longrightarrow> P r' \<Longrightarrow> r' = r"
    by auto
qed

lemma qs_get_InlD: "qs_get P rows = Inl e \<Longrightarrow> e = DoesNotExist \<or> e = MultipleObjectsReturned"
  by (auto simp: qs_get_def split: list.splits)

lemma qs_get_DoesNotExist:
  "qs_get P rows = Inl DoesNotExist \<longleftrightarrow> (\<forall>r \<in> set rows. \<not> P r)"
proof -
  have "qs_get P rows = Inl DoesNotExist \<longleftrightarrow> filter P rows = []"
    by (simp add: qs_get_def split: list.splits)
  then show ?thesis by (simp add: filter_empty_conv)
qed

lemma set_single_distinct: "set ys = {r} \<Longrightarrow> distinct ys \<Longrightarrow> ys = [r]"
  by (cases ys rule: remdups_adj.cases) auto

lemma filter_single:
  assumes "distinct rows" "r \<in> set rows" "P r" "\<forall>r' \<in> set rows. P r' \<longrightarrow> r' = r"
  shows "filter P rows = [r]"
proof (rule set_single_distinct)
  show "set (filter P rows) = {r}" unfolding set_filter using assms(2-4) by blast
  show "distinct (filter P rows)" using assms(1) by simp
qed

lemma qs_get_eqI:
  assumes "distinct rows" "r \<in> set rows" "P r" "\<forall>r' \<in> set rows. P r' \<longrightarrow> r' = r"
  shows "qs_get P rows = Inr r"
  using filter_single [OF assms] by (simp add: qs_get_def)

lemma set_qs_update: "set (qs_update P f rows) = (\<lambda>r. if P r then f r else r) ` set rows"
  by (simp add: qs_update_def)

lemma ball_qs_update:
  "(\<forall>r \<in> set (qs_update P f rows). Q r) \<longleftrightarrow> (\<forall>r \<in> set rows. if P r then Q (f r) else Q r)"
  by (auto simp: qs_update_def)

lemma in_qs_updateI: "r \<in> set rows \<Longrightarrow> (if P r then f r else r) \<in> set (qs_update P f rows)"
  by (auto simp: qs_update_def)

lemma in_qs_updateE:
  assumes "x \<in> set (qs_update P f rows)"
  obtains r where "r \<in> set rows" "\<not> P r" "x = r" | r where "r \<in> set rows" "P r" "x = f r"
  using assms by (auto simp: qs_update_def split: if_splits)

lemma set_qs_delete [simp]: "set (qs_delete P rows) = {r \<in> set rows. \<not> P r}"
  by (simp add: qs_delete_def)

lemma qs_update_Nil [simp]: "qs_update P f [] = []"
  by (simp add: qs_update_def)

lemma length_qs_update [simp]: "length (qs_update P f rows) = length rows"
  by (simp add: qs_update_def)

lemma qs_update_none: "\<forall>r \<in> set rows. \<not> P r \<Longrightarrow> qs_update P f rows = rows"
  by (auto simp: qs_update_def intro: map_idI)

lemma map_qs_update_other [simp]:
  "(\<And>r. g (f r) = g r) \<Longrightarrow> map g (qs_update P f rows) = map g rows"
  by (auto simp: qs_update_def)

lemma filter_qs_update_other:
  "(\<And>r. r \<in> set rows \<Longrightarrow> P r \<Longrightarrow> Q (f r) = Q r) \<Longrightarrow>
   length (filter Q (qs_update P f rows)) = length (filter Q rows)"
  by (induction rows) (auto simp: qs_update_def)

lemma filter_qs_update_keep:
  "(\<And>r. r \<in> set rows \<Longrightarrow> P r \<Longrightarrow> \<not> Q r \<and> \<not> Q (f r)) \<Longrightarrow> filter Q (qs_update P f rows) = filter Q rows"
  by (induction rows) (auto simp: qs_update_def)

lemma distinct_map_qs_delete: "distinct (map g rows) \<Longrightarrow> distinct (map g (qs_delete P rows))"
  by (simp add: qs_delete_def distinct_map_filter)

lemma length_filter_qs_delete_le:
  "length (filter Q (qs_delete P rows)) \<le> length (filter Q rows)"
  by (induction rows) (auto simp: qs_delete_def)

lemma inj_on_pk: "distinct (map pk rows) \<Longrightarrow> r \<in> set rows \<Longrightarrow> r' \<in> set rows \<Longrightarrow> pk r = pk r' \<Longrightarrow> r = r'"
  by (auto simp: distinct_map dest: inj_onD)

lemma set_qs_update_key:
  assumes "distinct (map pk rows)" "r \<in> set rows"
  shows "set (qs_update (\<lambda>r'. pk r' = pk r) (f) rows) = insert (f r) (set rows - {r})"
proof -
  have same: "x = r" if "x \<in> set rows" "pk x = pk r" for x
    using assms that by (auto dest: inj_on_pk)
  have "(\<lambda>x. if pk x = pk r then f x else x) ` set rows =
        (\<lambda>x. if x = r then f r else x) ` set rows"
    by (rule image_cong) (auto dest: same)
  also have "\<dots> = insert (f r) (set rows - {r})"
    using assms(2) by force
  finally show ?thesis by (simp add: set_qs_update)
qed

text \<open>A table whose keys are unique and below the next key to be given out.\<close>

definition table_ok :: "('r \<Rightarrow> uuid) \<Rightarrow> uuid \<Rightarrow> 'r list \<Rightarrow> bool" where
  "table_ok pk n rows \<longleftrightarrow> distinct (map pk rows) \<and> (\<forall>r \<in> set rows. pk r < n)"

lemma table_ok_Nil [simp]: "table_ok pk n []"
  by (simp add: table_ok_def)

lemma table_ok_distinct: "table_ok pk n rows \<Longrightarrow> distinct (map pk rows)"
  by (simp add: table_ok_def)

lemma table_ok_mono: "table_ok pk n rows \<Longrightarrow> n \<le> m \<Longrightarrow> table_ok pk m rows"
  by (auto simp: table_ok_def)

lemma table_ok_snoc: "table_ok pk n rows \<Longrightarrow> pk r = n \<Longrightarrow> table_ok pk (Suc n) (rows @ [r])"
  by (auto simp: table_ok_def less_Suc_eq)

lemma table_ok_update: "table_ok pk n rows \<Longrightarrow> (\<And>r. pk (f r) = pk r) \<Longrightarrow> table_ok pk n (qs_update P f rows)"
  by (auto simp: table_ok_def ball_qs_update)

lemma table_ok_update_row:
  assumes "table_ok pk n rows" "pk r' = k"
  shows "table_ok pk n (qs_update (\<lambda>r. pk r = k) (\<lambda>_. r') rows)"
proof -
  have "map pk (qs_update (\<lambda>r. pk r = k) (\<lambda>_. r') rows) = map pk rows"
    using assms(2) by (auto simp: qs_update_def)
  then show ?thesis using assms by (auto simp: table_ok_def ball_qs_update)
qed

lemma table_ok_delete: "table_ok pk n rows \<Longrightarrow> table_ok pk n (qs_delete P rows)"
  by (auto simp: table_ok_def distinct_map_qs_delete)

section \<open>Rows with a primary key\<close>

text \<open>
  The contract of \<open>instance.save(update_fields=[...])\<close>: the edit writes columns of one row
  and never its primary key. Everything a service relies on about a one-row write is proved
  once here; each table interprets the locale for the columns its services write.
\<close>

locale keyed_edit =
  fixes pk :: "'r \<Rightarrow> uuid" and edit :: "'v \<Rightarrow> 'r \<Rightarrow> 'r"
  assumes pk_edit: "pk (edit v r) = pk r"
begin

lemma pks_kept: "map pk (qs_update (\<lambda>r. pk r = k) (edit v) rows) = map pk rows"
  by (simp add: pk_edit)

lemma set_saved:
  "distinct (map pk rows) \<Longrightarrow> r \<in> set rows \<Longrightarrow>
   set (qs_update (\<lambda>r'. pk r' = pk r) (edit v) rows) = insert (edit v r) (set rows - {r})"
  by (rule set_qs_update_key)

lemma count_saved_le:
  assumes "distinct (map pk rows)"
  shows "length (filter Q (qs_update (\<lambda>r. pk r = k) (edit v) rows)) \<le> Suc (length (filter Q rows))"
  using assms
proof (induction rows)
  case (Cons a rows)
  show ?case
  proof (cases "pk a = k")
    case True
    then have "\<forall>r \<in> set rows. pk r \<noteq> k"
      using Cons.prems by (auto simp: image_iff)
    then have "qs_update (\<lambda>r. pk r = k) (edit v) rows = rows" by (rule qs_update_none)
    then show ?thesis by (simp add: qs_update_def)
  next
    case False
    then show ?thesis using Cons by (auto simp: qs_update_def)
  qed
qed simp

lemma count_saved_ge:
  assumes "distinct (map pk rows)"
  shows "length (filter Q rows) \<le> Suc (length (filter Q (qs_update (\<lambda>r. pk r = k) (edit v) rows)))"
  using assms
proof (induction rows)
  case (Cons a rows)
  show ?case
  proof (cases "pk a = k")
    case True
    then have "\<forall>r \<in> set rows. pk r \<noteq> k"
      using Cons.prems by (auto simp: image_iff)
    then have "qs_update (\<lambda>r. pk r = k) (edit v) rows = rows" by (rule qs_update_none)
    then show ?thesis by (simp add: qs_update_def)
  next
    case False
    then show ?thesis using Cons by (auto simp: qs_update_def)
  qed
qed simp

lemma count_saved_same:
  "(\<And>r. r \<in> set rows \<Longrightarrow> pk r = k \<Longrightarrow> Q (edit v r) = Q r) \<Longrightarrow>
   length (filter Q (qs_update (\<lambda>r. pk r = k) (edit v) rows)) = length (filter Q rows)"
  by (rule filter_qs_update_other) simp

lemma edit_twice:
  "(\<And>v w r. edit v (edit w r) = edit v r) \<Longrightarrow>
   qs_update (\<lambda>r. pk r = k) (edit v) (qs_update (\<lambda>r. pk r = k) (edit w) rows) =
   qs_update (\<lambda>r. pk r = k) (edit v) rows"
  by (auto simp: qs_update_def pk_edit)

end

section \<open>Tables that only grow\<close>

text \<open>
  \<open>rows_le le xs ys\<close>: every row of \<open>xs\<close> is still at its place in \<open>ys\<close> and moved only along
  \<open>le\<close>; new rows come after them. The provider of a row order gets the three ways a service
  writes a table: it inserts rows, saves one row, or maps over all of them.
\<close>

definition rows_le :: "('r \<Rightarrow> 'r \<Rightarrow> bool) \<Rightarrow> 'r list \<Rightarrow> 'r list \<Rightarrow> bool" where
  "rows_le le xs ys \<longleftrightarrow> length xs \<le> length ys \<and> (\<forall>i < length xs. le (xs ! i) (ys ! i))"

locale row_order =
  fixes le :: "'r \<Rightarrow> 'r \<Rightarrow> bool"
  assumes row_refl: "le r r" and row_trans: "le a b \<Longrightarrow> le b c \<Longrightarrow> le a c"
begin

lemma rows_refl: "rows_le le xs xs"
  by (simp add: rows_le_def row_refl)

lemma rows_trans: "rows_le le xs ys \<Longrightarrow> rows_le le ys zs \<Longrightarrow> rows_le le xs zs"
  by (auto simp: rows_le_def intro: row_trans)

lemma rows_append: "rows_le le xs (xs @ ys)"
  by (simp add: rows_le_def nth_append row_refl)

lemma rows_map: "(\<And>x. x \<in> set xs \<Longrightarrow> le x (f x)) \<Longrightarrow> rows_le le xs (map f xs)"
  by (simp add: rows_le_def)

lemma rows_save:
  assumes "distinct (map pk xs)" "r \<in> set xs" "pk r' = pk r" "le r r'"
  shows "rows_le le xs (qs_update (\<lambda>x. pk x = pk r') (\<lambda>_. r') xs)"
  unfolding qs_update_def
proof (rule rows_map)
  fix x assume "x \<in> set xs"
  then show "le x (if pk x = pk r' then r' else x)"
    using inj_on_pk [OF assms(1) _ assms(2), of x] assms(3,4) row_refl by auto
qed

end

section \<open>Machines of services\<close>

text \<open>
  A sequence of service calls, each of which commits or raises. The provider shows that a
  committed call keeps the invariant; the client gets it for every sequence of calls. A call
  that raises leaves the state as it was, so a run goes on from the old state.
\<close>

definition commit :: "'s \<Rightarrow> exc + 's \<Rightarrow> 's" where
  "commit s r = (case r of Inl _ \<Rightarrow> s | Inr s' \<Rightarrow> s')"

lemma commit_simps [simp]: "commit s (Inl e) = s" "commit s (Inr s') = s'"
  by (simp_all add: commit_def)

fun run_calls :: "('ev \<Rightarrow> 's \<Rightarrow> exc + 's) \<Rightarrow> 'ev list \<Rightarrow> 's \<Rightarrow> 's" where
  "run_calls call [] s = s"
| "run_calls call (e # es) s = run_calls call es (commit s (call e s))"

locale service_machine =
  fixes call :: "'ev \<Rightarrow> 's \<Rightarrow> exc + 's" and inv :: "'s \<Rightarrow> bool"
  assumes call_inv: "inv s \<Longrightarrow> call e s = Inr s' \<Longrightarrow> inv s'"
begin

lemma commit_inv: "inv s \<Longrightarrow> inv (commit s (call e s))"
  by (cases "call e s") (auto intro: call_inv)

lemma run_inv: "inv s \<Longrightarrow> inv (run_calls call es s)"
  by (induction es arbitrary: s) (auto intro: commit_inv)

end

text \<open>
  A machine over a preorder of states: each committed call moves the state upwards, so the
  state only moves upwards along a run (a status that never goes back, a row never reused).
\<close>

locale monotone_machine = service_machine +
  fixes le :: "'s \<Rightarrow> 's \<Rightarrow> bool"
  assumes le_refl: "le s s" and le_trans: "le s t \<Longrightarrow> le t u \<Longrightarrow> le s u"
    and call_le: "inv s \<Longrightarrow> call e s = Inr s' \<Longrightarrow> le s s'"
begin

lemma commit_le: "inv s \<Longrightarrow> le s (commit s (call e s))"
  by (cases "call e s") (auto intro: call_le le_refl)

lemma run_le: "inv s \<Longrightarrow> le s (run_calls call es s)"
  by (induction es arbitrary: s) (auto intro: le_refl le_trans commit_le commit_inv)

end

end
