(* ===== verification/Schema.thy ===== *)
theory Schema
  imports GI_Prelude
begin

text \<open>
  The relational schema: one \<^theory_text>\<open>record\<close> per Django model with the columns the code
  reads or writes, one \<^theory_text>\<open>datatype\<close> per \<open>TextChoices\<close> class, the record \<open>db\<close> of all
  tables, and the inserts with the constraints the models declare in their \<open>Meta\<close> classes
  (\<open>accounts/models.py\<close>, \<open>actions/models.py\<close>, \<open>campaigns/models.py\<close>,
  \<open>gamification/models.py\<close>, \<open>notifications/models.py\<close>, \<open>feed/models.py\<close>).

  A column name is prefixed by its table where two models share it. A foreign key is the key
  of the row it points at, nullable ones are options. A JSON column is kept as the value the
  code stores in it. Decimal factors are counted in thousandths (\<open>decimal_places=3\<close>).
\<close>

section \<open>Choices\<close>

datatype user_role = STUDENT | STAFF | ADMIN

datatype clan_kind = INSTITUTIONAL | PRIVATE_CLAN

datatype clan_privacy = PUBLIC_CLAN | PRIVATE_INVITE

datatype visibility = PUBLIC_PROFILE | PRIVATE_PROFILE

datatype membership_role = LEADER | MEMBER

datatype membership_status = REQ_PENDING | REQ_ACCEPTED | REQ_REJECTED

datatype validation_type = NO_VALIDATION | PHOTO

datatype log_status = LOG_APPROVED | LOG_PENDING_AUDIT | LOG_REJECTED

datatype campaign_scope = GLOBAL_SCOPE | CLAN_SCOPE

datatype campaign_status = PROMOTION | IN_PROGRESS | FINISHED

datatype approval_status = CAMP_PENDING | CAMP_APPROVED | CAMP_REJECTED

datatype notification_type =
    AUDIT_APPROVED | AUDIT_REJECT | BADGE_EARNED | CAMPAIGN_APPROVED | CAMPAIGN_FINISHED
  | CAMPAIGN_INVITE | CAMPAIGN_REJECTED | CAMPAIGN_STARTED | CLAN_DISSOLVED
  | CLAN_JOIN_REQUEST | CLAN_KICKED | CLAN_LEADER_CHANGED | CLAN_MEMBER_JOINED
  | CLAN_MEMBER_LEFT | CLAN_REQ_ACCEPTED | CLAN_REQ_REJECTED | MISSION_COMPLETED
  | SOCIAL_FOLLOW | SYSTEM

datatype post_type = OFFICIAL_ANNOUNCEMENT | COMMUNITY_MILESTONE | SHARED_EVIDENCE

datatype item_category = FRAME | BACKGROUND | THEME | OTHER_ITEM

text \<open>The strings the API carries for the choices that services validate themselves.\<close>

definition role_of_string :: "string \<Rightarrow> user_role option" where
  "role_of_string v =
     (if v = ''STUDENT'' then Some STUDENT else if v = ''STAFF'' then Some STAFF
      else if v = ''ADMIN'' then Some ADMIN else None)"

definition privacy_of_string :: "string \<Rightarrow> clan_privacy option" where
  "privacy_of_string v =
     (if v = ''PUBLIC'' then Some PUBLIC_CLAN
      else if v = ''PRIVATE_INVITE'' then Some PRIVATE_INVITE else None)"

section \<open>Rows\<close>

record user =
  user_id :: uuid
  email :: string
  microsoft_oid :: "uuid option"
  role :: user_role
  nickname :: string
  first_name :: string
  last_name :: string
  is_active :: bool
  deactivated_at :: "datetime option"

record clan =
  clan_id :: uuid
  clan_name :: string
  clan_description :: string
  clan_avatar_object_key :: string
  clan_type :: clan_kind
  privacy :: clan_privacy
  clan_total_points :: int
  clan_created_by :: "uuid option"
  deleted_at :: "datetime option"
  clan_created_at :: datetime

record profile =
  profile_user :: uuid
  institutional_clan :: "uuid option"
  career :: string
  job_title :: string
  department :: string
  employee_id :: string
  microsoft_group_ids :: "string list"
  onboarding_completed_at :: "datetime option"
  total_points :: int
  available_points :: int
  current_streak :: nat
  last_action_date :: "date option"
  profile_visibility :: visibility
  bio :: string
  preferences :: "(string \<times> string) list"
  unlocked_cosmetics :: "string list"
  avatar_url :: string
  avatar_object_key :: string
  nickname_changes :: nat
  progress_reset_at :: "datetime option"

record membership =
  membership_id :: uuid
  member :: uuid
  member_clan :: uuid
  member_role :: membership_role
  member_status :: membership_status
  is_active_private :: bool
  joined_at :: datetime

record invitation =
  invitation_id :: uuid
  invitation_clan :: uuid
  invitation_created_by :: "uuid option"
  code_hash :: string
  code_hint :: string
  expires_at :: datetime
  invitation_created_at :: datetime
  redeemed_by :: "uuid option"
  redeemed_at :: "datetime option"
  revoked_at :: "datetime option"

record role_audit =
  audit_id :: uuid
  audit_user :: uuid
  changed_by :: "uuid option"
  previous_role :: user_role
  new_role :: user_role
  audit_created_at :: datetime

record action_category =
  category_id :: uuid
  category_code :: string
  category_name :: string
  category_description :: string
  category_icon :: string

record action_master =
  action_id :: uuid
  action_code :: string
  action_category_id :: uuid
  action_name :: string
  action_description :: string
  points :: int
  daily_limit :: nat
  validation_type :: validation_type
  co2_kg_factor :: int
  water_liters_factor :: int
  plastic_kg_factor :: int
  action_is_active :: bool

record action_log =
  log_id :: uuid
  log_user :: uuid
  log_action :: uuid
  log_institutional_clan :: uuid
  credited_private_clan :: "uuid option"
  log_campaign :: "uuid option"
  idempotency_key :: string
  points_awarded :: int
  co2_kg_factor_snapshot :: int
  water_liters_factor_snapshot :: int
  plastic_kg_factor_snapshot :: int
  log_status :: log_status
  evidence_object_key :: string
  is_shared_publicly :: bool
  log_reviewed_by :: "uuid option"
  log_reviewed_at :: "datetime option"
  log_rejection_reason :: string
  log_created_at :: datetime

record contribution =
  contribution_id :: uuid
  contribution_log :: uuid
  contribution_mission :: uuid
  contribution_created_at :: datetime

record exchangeable_item =
  item_id :: uuid
  item_key :: string
  item_name :: string
  item_description :: string
  item_category :: item_category
  points_cost :: int
  item_is_active :: bool
  item_image_url :: string

record campaign =
  campaign_id :: uuid
  title :: string
  description :: string
  scope :: campaign_scope
  status :: campaign_status
  creator :: uuid
  target_clan :: "uuid option"
  start_date :: datetime
  end_date :: datetime
  approval_status :: approval_status
  reviewed_by :: "uuid option"
  reviewed_at :: "datetime option"
  rejection_reason :: string
  campaign_created_at :: datetime

record mission =
  mission_id :: uuid
  mission_campaign :: uuid
  mission_action :: uuid
  target_count :: nat

record participant =
  participant_id :: uuid
  participant_campaign :: uuid
  participant_user :: uuid
  participant_joined_at :: datetime

record mission_progress =
  progress_id :: uuid
  progress_user :: uuid
  progress_mission :: uuid
  current_count :: nat
  is_completed :: bool

record badge =
  badge_id :: uuid
  badge_name :: string
  points_required :: int
  badge_is_active :: bool

record user_badge =
  user_badge_id :: uuid
  badge_owner :: uuid
  earned_badge :: uuid
  earned_at :: datetime

record notification =
  notification_id :: uuid
  notification_user :: uuid
  notification_title :: string
  notification_message :: string
  notification_type :: notification_type
  is_read :: bool
  notification_created_at :: datetime
  notification_deleted_at :: "datetime option"

record post =
  post_id :: uuid
  author :: "uuid option"
  post_type :: post_type
  content :: string
  image_url :: string
  badge_user :: "uuid option"
  post_created_at :: datetime

record refresh_token =
  token_id :: uuid
  token_user :: uuid
  blacklisted :: bool

text \<open>What is sent over the channel layer once a transaction has committed.\<close>

datatype push_event = NotificationCreated uuid uuid | AccountDeactivated uuid

section \<open>The database\<close>

text \<open>
  All tables, the source of fresh keys, the object keys held by the private storage and the
  events pushed to open sockets.
\<close>

record db =
  users :: "user list"
  profiles :: "profile list"
  clans :: "clan list"
  memberships :: "membership list"
  invitations :: "invitation list"
  role_audits :: "role_audit list"
  categories :: "action_category list"
  actions :: "action_master list"
  action_logs :: "action_log list"
  contributions :: "contribution list"
  items :: "exchangeable_item list"
  campaigns :: "campaign list"
  missions :: "mission list"
  participants :: "participant list"
  mission_progresses :: "mission_progress list"
  badges :: "badge list"
  user_badges :: "user_badge list"
  notifications :: "notification list"
  posts :: "post list"
  tokens :: "refresh_token list"
  next_id :: uuid
  media :: "string list"
  pushed :: "push_event list"

definition empty_db :: db where
  "empty_db = \<lparr>users = [], profiles = [], clans = [], memberships = [], invitations = [],
     role_audits = [], categories = [], actions = [], action_logs = [], contributions = [],
     items = [], campaigns = [], missions = [], participants = [], mission_progresses = [],
     badges = [], user_badges = [], notifications = [], posts = [], tokens = [],
     next_id = 0, media = [], pushed = []\<rparr>"

section \<open>Inserts with their constraints\<close>

text \<open>
  \<open>Clan.objects.create\<close>: \<open>name\<close> is a \<open>varchar(100)\<close> and unique among the clans that are
  not soft-deleted (\<open>clan_name_unique_when_alive\<close>).
\<close>

definition clan_alive :: "clan \<Rightarrow> bool" where
  "clan_alive c \<longleftrightarrow> deleted_at c = None"

definition clan_create ::
  "db \<Rightarrow> datetime \<Rightarrow> string \<Rightarrow> clan_kind \<Rightarrow> string \<Rightarrow> clan_privacy \<Rightarrow> uuid option \<Rightarrow> (clan \<times> db) res" where
  "clan_create s now nm kind desc priv by_user =
     (let c = \<lparr>clan_id = next_id s, clan_name = nm, clan_description = desc,
               clan_avatar_object_key = [], clan_type = kind, privacy = priv,
               clan_total_points = 0, clan_created_by = by_user, deleted_at = None,
               clan_created_at = now\<rparr>
      in if length nm > 100 then Inl (DataError ''accounts_clan.name'')
         else if list_ex (\<lambda>d. clan_alive d \<and> clan_name d = nm) (clans s)
              then Inl (IntegrityError ''clan_name_unique_when_alive'')
         else Inr (c, s\<lparr>clans := clans s @ [c], next_id := Suc (next_id s)\<rparr>))"

text \<open>\<open>ClanMembership.objects.create\<close>: one row per (user, clan) pair.\<close>

definition membership_create ::
  "db \<Rightarrow> datetime \<Rightarrow> uuid \<Rightarrow> uuid \<Rightarrow> membership_role \<Rightarrow> membership_status \<Rightarrow> (membership \<times> db) res" where
  "membership_create s now u c r st =
     (let m = \<lparr>membership_id = next_id s, member = u, member_clan = c, member_role = r,
               member_status = st, is_active_private = False, joined_at = now\<rparr>
      in if list_ex (\<lambda>m. member m = u \<and> member_clan m = c) (memberships s)
         then Inl (IntegrityError ''membership_user_clan_unique'')
         else Inr (m, s\<lparr>memberships := memberships s @ [m], next_id := Suc (next_id s)\<rparr>))"

text \<open>\<open>ClanInvitation.objects.create\<close>: the hash of a code is unique.\<close>

definition invitation_create ::
  "db \<Rightarrow> datetime \<Rightarrow> uuid \<Rightarrow> uuid \<Rightarrow> string \<Rightarrow> string \<Rightarrow> datetime \<Rightarrow> (invitation \<times> db) res" where
  "invitation_create s now c by_user h hint expires =
     (let i = \<lparr>invitation_id = next_id s, invitation_clan = c, invitation_created_by = Some by_user,
               code_hash = h, code_hint = hint, expires_at = expires,
               invitation_created_at = now, redeemed_by = None, redeemed_at = None,
               revoked_at = None\<rparr>
      in if list_ex (\<lambda>i. code_hash i = h) (invitations s)
         then Inl (IntegrityError ''clan_invitation_code_hash_unique'')
         else Inr (i, s\<lparr>invitations := invitations s @ [i], next_id := Suc (next_id s)\<rparr>))"

text \<open>An empty profile, as \<open>UserProfile.objects.get_or_create\<close> inserts it.\<close>

definition new_profile :: "uuid \<Rightarrow> profile" where
  "new_profile u = \<lparr>profile_user = u, institutional_clan = None, career = [], job_title = [],
     department = [], employee_id = [], microsoft_group_ids = [], onboarding_completed_at = None,
     total_points = 0, available_points = 0, current_streak = 0, last_action_date = None,
     profile_visibility = PUBLIC_PROFILE, bio = [], preferences = [], unlocked_cosmetics = [],
     avatar_url = [], avatar_object_key = [], nickname_changes = 0, progress_reset_at = None\<rparr>"

text \<open>
  The check constraints on stored points (\<open>clan_total_points_nonnegative\<close>,
  \<open>profile_total_points_nonnegative\<close>, \<open>profile_available_points_nonnegative\<close>) on the
  \<open>F("total_points") + n\<close> updates of one row; an update that matches no row changes nothing.
\<close>

definition add_clan_points :: "db \<Rightarrow> uuid \<Rightarrow> int \<Rightarrow> db res" where
  "add_clan_points s cid n =
     (if list_ex (\<lambda>c. clan_id c = cid \<and> clan_total_points c + n < 0) (clans s)
      then Inl (IntegrityError ''clan_total_points_nonnegative'')
      else Inr (s\<lparr>clans := qs_update (\<lambda>c. clan_id c = cid)
                  (\<lambda>c. c\<lparr>clan_total_points := clan_total_points c + n\<rparr>) (clans s)\<rparr>))"

definition add_profile_points :: "db \<Rightarrow> uuid \<Rightarrow> int \<Rightarrow> db res" where
  "add_profile_points s u n =
     (if list_ex (\<lambda>p. profile_user p = u \<and> total_points p + n < 0) (profiles s)
      then Inl (IntegrityError ''profile_total_points_nonnegative'')
      else if list_ex (\<lambda>p. profile_user p = u \<and> available_points p + n < 0) (profiles s)
      then Inl (IntegrityError ''profile_available_points_nonnegative'')
      else Inr (s\<lparr>profiles := qs_update (\<lambda>p. profile_user p = u)
                  (\<lambda>p. p\<lparr>total_points := total_points p + n,
                         available_points := available_points p + n\<rparr>) (profiles s)\<rparr>))"

section \<open>Interpretations of the one-row write\<close>

interpretation member_role_edit: keyed_edit membership_id "\<lambda>v m. m\<lparr>member_role := v\<rparr>"
  by unfold_locales simp

interpretation member_status_edit: keyed_edit membership_id "\<lambda>v m. m\<lparr>member_status := v\<rparr>"
  by unfold_locales simp

interpretation member_active_edit: keyed_edit membership_id "\<lambda>v m. m\<lparr>is_active_private := v\<rparr>"
  by unfold_locales simp

interpretation clan_deleted_edit: keyed_edit clan_id "\<lambda>v c. c\<lparr>deleted_at := v\<rparr>"
  by unfold_locales simp

interpretation clan_points_edit:
  keyed_edit clan_id "\<lambda>n c. c\<lparr>clan_total_points := clan_total_points c + n\<rparr>"
  by unfold_locales simp

interpretation profile_points_edit:
  keyed_edit profile_user
    "\<lambda>n p. p\<lparr>total_points := total_points p + n, available_points := available_points p + n\<rparr>"
  by unfold_locales simp

end
