(* ===== verification/Notifications.thy ===== *)
theory Notifications
  imports Schema
begin

text \<open>
  The notifications app: message templates (\<open>notifications/templates.py\<close>), creation and
  real-time delivery (\<open>notifications/services.py\<close>) and the REST views
  (\<open>notifications/views.py\<close>). A push is an \<open>on_commit\<close> callback, so it is recorded in the
  state the successful transaction returns; sending it to the sockets is the channel layer's
  work and is represented by the list of events handed to it.
\<close>

section \<open>Templates\<close>

text \<open>
  A \<open>str.format\<close> pattern is kept in its parsed form: literal text and named placeholders.
  Characters beyond ASCII are written by their code point.
\<close>

datatype seg = Lit string | Hole string

definition missing_value :: "string \<Rightarrow> exc" where
  "missing_value k = PyValueError (''Missing template context value: '' @ k)"

fun render_segs :: "(string \<times> string) list \<Rightarrow> seg list \<Rightarrow> string res" where
  "render_segs ctx [] = Inr []"
| "render_segs ctx (Lit t # segs) =
     (case render_segs ctx segs of Inl e \<Rightarrow> Inl e | Inr r \<Rightarrow> Inr (t @ r))"
| "render_segs ctx (Hole k # segs) =
     (case map_of ctx k of
        None \<Rightarrow> Inl (missing_value k)
      | Some v \<Rightarrow> (case render_segs ctx segs of Inl e \<Rightarrow> Inl e | Inr r \<Rightarrow> Inr (v @ r)))"

fun NOTIFICATION_TEMPLATES :: "notification_type \<Rightarrow> seg list \<times> seg list" where
  "NOTIFICATION_TEMPLATES AUDIT_APPROVED =
     ([Lit ''Evidencia aprobada''],
      [Lit ''Tu registro de '', Hole ''action_name'', Lit '' fue validado. Ganaste '',
       Hole ''points'', Lit '' puntos.''])"
| "NOTIFICATION_TEMPLATES AUDIT_REJECT =
     ([Lit ''Evidencia Rechazada''],
      [Lit ''Tu evidencia fue rechazada. Motivo: '', Hole ''reason''])"
| "NOTIFICATION_TEMPLATES BADGE_EARNED =
     ([Lit [CHR 0xA1], Lit ''Nueva insignia desbloqueada!''],
      [Lit ''Obtuviste la insignia '', Lit [CHR 0x22], Hole ''badge_name'', Lit [CHR 0x22, CHR ''.'']])"
| "NOTIFICATION_TEMPLATES CAMPAIGN_APPROVED =
     ([Lit ''Tu propuesta fue aprobada''],
      [Lit ''Tu propuesta de campa'', Lit [CHR 0xF1], Lit ''a '', Lit [CHR 0x22],
       Hole ''campaign_name'', Lit [CHR 0x22], Lit '' fue aprobada.''])"
| "NOTIFICATION_TEMPLATES CAMPAIGN_FINISHED =
     ([Lit ''Campa'', Lit [CHR 0xF1], Lit ''a finalizada''],
      [Lit ''La campa'', Lit [CHR 0xF1], Lit ''a '', Lit [CHR 0x22], Hole ''campaign_name'',
       Lit [CHR 0x22], Lit '' termin'', Lit [CHR 0xF3, CHR ''.'']])"
| "NOTIFICATION_TEMPLATES CAMPAIGN_INVITE =
     ([Lit ''Te invitaron a una campa'', Lit [CHR 0xF1], Lit ''a''],
      [Lit ''Fuiste invitado a la campa'', Lit [CHR 0xF1], Lit ''a '', Lit [CHR 0x22],
       Hole ''campaign_name'', Lit [CHR 0x22, CHR ''.'']])"
| "NOTIFICATION_TEMPLATES CAMPAIGN_REJECTED =
     ([Lit ''Tu propuesta fue rechazada''],
      [Lit ''Tu propuesta de campa'', Lit [CHR 0xF1], Lit ''a '', Lit [CHR 0x22],
       Hole ''campaign_name'', Lit [CHR 0x22], Lit '' fue rechazada. Motivo: '', Hole ''reason''])"
| "NOTIFICATION_TEMPLATES CAMPAIGN_STARTED =
     ([Lit ''Campa'', Lit [CHR 0xF1], Lit ''a iniciada''],
      [Lit ''La campa'', Lit [CHR 0xF1], Lit ''a '', Lit [CHR 0x22], Hole ''campaign_name'',
       Lit [CHR 0x22], Lit '' ya comenz'', Lit [CHR 0xF3, CHR ''.'']])"
| "NOTIFICATION_TEMPLATES CLAN_DISSOLVED =
     ([Lit ''Clan disuelto''],
      [Lit ''El clan '', Lit [CHR 0x22], Hole ''clan_name'', Lit [CHR 0x22],
       Lit '' fue disuelto por su l'', Lit [CHR 0xED], Lit ''der.''])"
| "NOTIFICATION_TEMPLATES CLAN_JOIN_REQUEST =
     ([Lit ''Nueva solicitud de ingreso''],
      [Hole ''member_name'', Lit '' quiere unirse a tu clan '', Lit [CHR 0x22], Hole ''clan_name'',
       Lit [CHR 0x22, CHR ''.'']])"
| "NOTIFICATION_TEMPLATES CLAN_KICKED =
     ([Lit ''Saliste de un clan''],
      [Lit ''El l'', Lit [CHR 0xED], Lit ''der te expuls'', Lit [CHR 0xF3], Lit '' del clan '',
       Lit [CHR 0x22], Hole ''clan_name'', Lit [CHR 0x22, CHR ''.'']])"
| "NOTIFICATION_TEMPLATES CLAN_LEADER_CHANGED =
     ([Lit ''Nuevo l'', Lit [CHR 0xED], Lit ''der de clan''],
      [Hole ''leader_name'', Lit '' es ahora l'', Lit [CHR 0xED], Lit ''der del clan '',
       Lit [CHR 0x22], Hole ''clan_name'', Lit [CHR 0x22, CHR ''.'']])"
| "NOTIFICATION_TEMPLATES CLAN_MEMBER_JOINED =
     ([Lit ''Nuevo miembro en tu clan''],
      [Hole ''member_name'', Lit '' se uni'', Lit [CHR 0xF3], Lit '' a tu clan '', Lit [CHR 0x22],
       Hole ''clan_name'', Lit [CHR 0x22, CHR ''.'']])"
| "NOTIFICATION_TEMPLATES CLAN_MEMBER_LEFT =
     ([Lit ''Un miembro dej'', Lit [CHR 0xF3], Lit '' tu clan''],
      [Hole ''member_name'', Lit '' sali'', Lit [CHR 0xF3], Lit '' de tu clan '', Lit [CHR 0x22],
       Hole ''clan_name'', Lit [CHR 0x22, CHR ''.'']])"
| "NOTIFICATION_TEMPLATES CLAN_REQ_ACCEPTED =
     ([Lit ''Solicitud aceptada''],
      [Lit ''Ya eres parte del clan '', Lit [CHR 0x22], Hole ''clan_name'', Lit [CHR 0x22, CHR ''.'']])"
| "NOTIFICATION_TEMPLATES CLAN_REQ_REJECTED =
     ([Lit ''Solicitud rechazada''],
      [Lit ''Tu solicitud para unirte al clan '', Lit [CHR 0x22], Hole ''clan_name'',
       Lit [CHR 0x22], Lit '' fue rechazada.''])"
| "NOTIFICATION_TEMPLATES MISSION_COMPLETED =
     ([Lit ''Misi'', Lit [CHR 0xF3], Lit ''n completada''],
      [Lit ''Completaste la misi'', Lit [CHR 0xF3], Lit ''n '', Lit [CHR 0x22],
       Hole ''mission_name'', Lit [CHR 0x22], Lit '' de la campa'', Lit [CHR 0xF1], Lit ''a '',
       Lit [CHR 0x22], Hole ''campaign_name'', Lit [CHR 0x22, CHR ''.'']])"
| "NOTIFICATION_TEMPLATES SOCIAL_FOLLOW =
     ([Lit ''Nuevo seguidor''],
      [Hole ''follower_name'', Lit '' ahora sigue tu actividad.''])"
| "NOTIFICATION_TEMPLATES SYSTEM = ([Hole ''title''], [Hole ''message''])"

definition render_notification ::
  "notification_type \<Rightarrow> (string \<times> string) list \<Rightarrow> (string \<times> string) res" where
  "render_notification ty ctx =
     (case NOTIFICATION_TEMPLATES ty of (tt, mm) \<Rightarrow>
        (case render_segs ctx tt of
           Inl e \<Rightarrow> Inl e
         | Inr t \<Rightarrow> (case render_segs ctx mm of Inl e \<Rightarrow> Inl e | Inr m \<Rightarrow> Inr (t, m))))"

text \<open>The placeholders of a template.\<close>

fun holes :: "seg list \<Rightarrow> string list" where
  "holes [] = []"
| "holes (Lit t # segs) = holes segs"
| "holes (Hole k # segs) = k # holes segs"

definition template_fields :: "notification_type \<Rightarrow> string list" where
  "template_fields ty =
     holes (fst (NOTIFICATION_TEMPLATES ty)) @ holes (snd (NOTIFICATION_TEMPLATES ty))"

section \<open>Creating notifications\<close>

definition BULK_CREATE_BATCH_SIZE :: nat where
  "BULK_CREATE_BATCH_SIZE = 500"

text \<open>\<open>title\<close> is a \<open>varchar(150)\<close>; the other columns have no bound a template can pass.\<close>

definition new_notification ::
  "uuid \<Rightarrow> datetime \<Rightarrow> notification_type \<Rightarrow> string \<Rightarrow> string \<Rightarrow> uuid \<Rightarrow> notification" where
  "new_notification nid now ty t m u =
     \<lparr>notification_id = nid, notification_user = u, notification_title = t,
      notification_message = m, notification_type = ty, is_read = False,
      notification_created_at = now, notification_deleted_at = None\<rparr>"

definition notify ::
  "db \<Rightarrow> datetime \<Rightarrow> uuid \<Rightarrow> notification_type \<Rightarrow> (string \<times> string) list \<Rightarrow> (notification \<times> db) res" where
  "notify s now u ty ctx =
     (case render_notification ty ctx of
        Inl e \<Rightarrow> Inl e
      | Inr (t, m) \<Rightarrow>
          if length t > 150 then Inl (DataError ''notifications_notification.title'')
          else let n = new_notification (next_id s) now ty t m u
               in Inr (n, s\<lparr>notifications := notifications s @ [n],
                            next_id := Suc (next_id s),
                            pushed := pushed s @ [NotificationCreated u (next_id s)]\<rparr>))"

text \<open>\<open>itertools.batched\<close>.\<close>

function batched :: "nat \<Rightarrow> 'a list \<Rightarrow> 'a list list" where
  "batched n [] = []"
| "batched n (x # xs) = (x # take (n - 1) xs) # batched n (drop (n - 1) xs)"
  by pat_completeness auto
termination
  by (relation "measure (\<lambda>(n, xs). length xs)") auto

definition bulk_create ::
  "db \<Rightarrow> datetime \<Rightarrow> notification_type \<Rightarrow> string \<Rightarrow> string \<Rightarrow> uuid list \<Rightarrow> notification list \<times> db" where
  "bulk_create s now ty t m us =
     (let ns = map (\<lambda>(i, u). new_notification (next_id s + i) now ty t m u) (enumerate 0 us)
      in (ns, s\<lparr>notifications := notifications s @ ns, next_id := next_id s + length us\<rparr>))"

fun notify_chunks ::
  "db \<Rightarrow> datetime \<Rightarrow> notification_type \<Rightarrow> string \<Rightarrow> string \<Rightarrow> uuid list list \<Rightarrow> notification list \<times> db" where
  "notify_chunks s now ty t m [] = ([], s)"
| "notify_chunks s now ty t m (chunk # chunks) =
     (let (ns, s') = bulk_create s now ty t m chunk;
          (ns', s'') = notify_chunks s' now ty t m chunks
      in (ns @ ns', s''))"

definition push_notifications :: "notification list \<Rightarrow> db \<Rightarrow> db" where
  "push_notifications ns s =
     s\<lparr>pushed := pushed s @ map (\<lambda>n. NotificationCreated (notification_user n) (notification_id n)) ns\<rparr>"

definition notify_many ::
  "db \<Rightarrow> datetime \<Rightarrow> uuid list \<Rightarrow> notification_type \<Rightarrow> (string \<times> string) list \<Rightarrow> (notification list \<times> db) res" where
  "notify_many s now us ty ctx =
     (case render_notification ty ctx of
        Inl e \<Rightarrow> Inl e
      | Inr (t, m) \<Rightarrow>
          if us \<noteq> [] \<and> length t > 150 then Inl (DataError ''notifications_notification.title'')
          else let (ns, s') = notify_chunks s now ty t m (batched BULK_CREATE_BATCH_SIZE us)
               in Inr (ns, if ns = [] then s' else push_notifications ns s'))"

definition close_user_sockets :: "uuid \<Rightarrow> db \<Rightarrow> db" where
  "close_user_sockets u s = s\<lparr>pushed := pushed s @ [AccountDeactivated u]\<rparr>"

section \<open>REST views\<close>

definition notification_alive :: "notification \<Rightarrow> bool" where
  "notification_alive n \<longleftrightarrow> notification_deleted_at n = None"

definition unread_count :: "db \<Rightarrow> uuid \<Rightarrow> nat" where
  "unread_count s u =
     length (filter (\<lambda>n. notification_alive n \<and> notification_user n = u \<and> \<not> is_read n) (notifications s))"

definition read_filter :: "string option \<Rightarrow> bool option" where
  "read_filter param =
     (case param of
        None \<Rightarrow> None
      | Some v \<Rightarrow> (let w = py_lower (py_strip v)
                  in if w = ''true'' \<or> w = ''1'' then Some True
                     else if w = ''false'' \<or> w = ''0'' then Some False else None))"

definition notification_list :: "db \<Rightarrow> uuid \<Rightarrow> string option \<Rightarrow> notification list \<times> nat" where
  "notification_list s u param =
     (sort_key (\<lambda>n. - notification_created_at n)
        (filter (\<lambda>n. notification_alive n \<and> notification_user n = u \<and>
                      (case read_filter param of None \<Rightarrow> True | Some b \<Rightarrow> is_read n = b))
           (notifications s)),
      unread_count s u)"

text \<open>\<open>get_object()\<close> of the owner-only detail view; only \<open>is_read\<close> can be patched.\<close>

definition notification_object :: "db \<Rightarrow> uuid \<Rightarrow> uuid \<Rightarrow> notification res" where
  "notification_object s u nid =
     (case qs_get (\<lambda>n. notification_alive n \<and> notification_user n = u \<and> notification_id n = nid)
             (notifications s) of
        Inl _ \<Rightarrow> Inl Http404
      | Inr n \<Rightarrow> Inr n)"

definition notification_patch :: "db \<Rightarrow> uuid \<Rightarrow> uuid \<Rightarrow> bool option \<Rightarrow> db res" where
  "notification_patch s u nid read =
     (case notification_object s u nid of
        Inl e \<Rightarrow> Inl e
      | Inr n \<Rightarrow> (case read of
           None \<Rightarrow> Inr s
         | Some b \<Rightarrow> Inr (s\<lparr>notifications := qs_update (\<lambda>x. notification_id x = notification_id n)
                                               (\<lambda>x. x\<lparr>is_read := b\<rparr>) (notifications s)\<rparr>)))"

definition notification_destroy :: "db \<Rightarrow> datetime \<Rightarrow> uuid \<Rightarrow> uuid \<Rightarrow> db res" where
  "notification_destroy s now u nid =
     (case notification_object s u nid of
        Inl e \<Rightarrow> Inl e
      | Inr n \<Rightarrow>
          Inr (s\<lparr>notifications := qs_update (\<lambda>x. notification_id x = notification_id n)
                  (\<lambda>x. x\<lparr>notification_deleted_at := Some now\<rparr>) (notifications s)\<rparr>))"

definition mark_all_read :: "db \<Rightarrow> uuid \<Rightarrow> nat \<times> db" where
  "mark_all_read s u =
     (unread_count s u,
      s\<lparr>notifications := qs_update
          (\<lambda>n. notification_alive n \<and> notification_user n = u \<and> \<not> is_read n)
          (\<lambda>n. n\<lparr>is_read := True\<rparr>) (notifications s)\<rparr>)"

section \<open>What creating a notification touches\<close>

text \<open>
  The contract the other components rely on: creating notifications changes the table of
  notifications, the key source and the outbox, and nothing else.
\<close>

definition only_notifications :: "db \<Rightarrow> db \<Rightarrow> bool" where
  "only_notifications s s' \<longleftrightarrow>
     s' = s\<lparr>notifications := notifications s', next_id := next_id s', pushed := pushed s'\<rparr> \<and>
     next_id s \<le> next_id s'"

lemma only_notifications_frame [frame]:
  assumes "only_notifications s s'"
  shows "users s' = users s" "profiles s' = profiles s" "clans s' = clans s"
    "memberships s' = memberships s" "invitations s' = invitations s"
    "role_audits s' = role_audits s" "categories s' = categories s" "actions s' = actions s"
    "action_logs s' = action_logs s" "contributions s' = contributions s" "items s' = items s"
    "campaigns s' = campaigns s" "missions s' = missions s" "participants s' = participants s"
    "mission_progresses s' = mission_progresses s" "badges s' = badges s"
    "user_badges s' = user_badges s" "posts s' = posts s" "tokens s' = tokens s"
    "media s' = media s" "next_id s \<le> next_id s'"
proof -
  obtain ns k ps where eq: "s' = s\<lparr>notifications := ns, next_id := k, pushed := ps\<rparr>"
    and k: "next_id s \<le> k"
    using assms by (metis only_notifications_def)
  show "users s' = users s" "profiles s' = profiles s" "clans s' = clans s"
    "memberships s' = memberships s" "invitations s' = invitations s"
    "role_audits s' = role_audits s" "categories s' = categories s" "actions s' = actions s"
    "action_logs s' = action_logs s" "contributions s' = contributions s" "items s' = items s"
    "campaigns s' = campaigns s" "missions s' = missions s" "participants s' = participants s"
    "mission_progresses s' = mission_progresses s" "badges s' = badges s"
    "user_badges s' = user_badges s" "posts s' = posts s" "tokens s' = tokens s"
    "media s' = media s" "next_id s \<le> next_id s'"
    using k by (simp_all add: eq)
qed

lemma only_notifications_refl [simp]: "only_notifications s s"
  by (simp add: only_notifications_def)

lemma only_notificationsI:
  "m \<ge> next_id s \<Longrightarrow> only_notifications s (s\<lparr>notifications := ns, next_id := m, pushed := ps\<rparr>)"
  by (simp add: only_notifications_def)

lemma only_notifications_trans:
  assumes "only_notifications s t" "only_notifications t u"
  shows "only_notifications s u"
proof -
  obtain ns k ps where t: "t = s\<lparr>notifications := ns, next_id := k, pushed := ps\<rparr>" "next_id s \<le> k"
    using assms(1) by (metis only_notifications_def)
  obtain ns' k' ps' where u: "u = t\<lparr>notifications := ns', next_id := k', pushed := ps'\<rparr>"
      "next_id t \<le> k'"
    using assms(2) by (metis only_notifications_def)
  show ?thesis using t u by (simp add: only_notifications_def)
qed

lemma notify_only: "notify s now u ty ctx = Inr (n, s') \<Longrightarrow> only_notifications s s'"
  by (auto simp: notify_def Let_def only_notifications_def split: sum.splits if_splits)

lemma bulk_create_only: "only_notifications s (snd (bulk_create s now ty t m us))"
  by (simp add: bulk_create_def Let_def only_notifications_def)

lemma notify_chunks_only: "only_notifications s (snd (notify_chunks s now ty t m chunks))"
proof (induction chunks arbitrary: s)
  case (Cons c cs)
  show ?case
    using only_notifications_trans [OF bulk_create_only [of s now ty t m c] Cons.IH]
    by (cases "bulk_create s now ty t m c") (auto simp: Let_def split: prod.splits)
qed simp

lemma push_only: "only_notifications s (push_notifications ns s)"
  by (simp add: push_notifications_def only_notifications_def)

lemma notify_many_only:
  assumes "notify_many s now us ty ctx = Inr (ns, s')" shows "only_notifications s s'"
proof -
  from assms obtain t m where r: "render_notification ty ctx = Inr (t, m)"
    by (auto simp: notify_many_def split: sum.splits)
  obtain ms s1 where c: "notify_chunks s now ty t m (batched BULK_CREATE_BATCH_SIZE us) = (ms, s1)"
    by force
  have o: "only_notifications s s1"
    using notify_chunks_only [of s now ty t m "batched BULK_CREATE_BATCH_SIZE us"] by (simp add: c)
  have "s' = (if ms = [] then s1 else push_notifications ms s1)"
    using assms by (auto simp: notify_many_def r c split: if_splits)
  with o show ?thesis by (auto intro: only_notifications_trans [OF _ push_only])
qed

section \<open>Templates render when their fields are given\<close>

lemma render_segs_ok: "set (holes segs) \<subseteq> dom (map_of ctx) \<Longrightarrow> \<exists>r. render_segs ctx segs = Inr r"
  by (induction ctx segs rule: render_segs.induct) (auto split: option.splits)

lemma render_segs_missing:
  "\<not> set (holes segs) \<subseteq> dom (map_of ctx) \<Longrightarrow>
   \<exists>k \<in> set (holes segs) - dom (map_of ctx).
     render_segs ctx segs = Inl (missing_value k)"
proof (induction ctx segs rule: render_segs.induct)
  case (2 ctx t segs)
  then obtain k where "k \<in> set (holes segs) - dom (map_of ctx)"
    "render_segs ctx segs = Inl (missing_value k)" by auto
  then show ?case by auto
next
  case (3 ctx k segs)
  show ?case
  proof (cases "map_of ctx k")
    case None
    then show ?thesis by auto
  next
    case (Some v)
    with "3.prems" have "\<not> set (holes segs) \<subseteq> dom (map_of ctx)" by auto
    from "3.IH" [OF Some this] obtain j where "j \<in> set (holes segs) - dom (map_of ctx)"
      "render_segs ctx segs = Inl (missing_value j)" by auto
    with Some show ?thesis by (auto intro!: bexI [of _ j])
  qed
qed simp

lemma render_notification_ok:
  "set (template_fields ty) \<subseteq> dom (map_of ctx) \<Longrightarrow> \<exists>t m. render_notification ty ctx = Inr (t, m)"
  using render_segs_ok [of "fst (NOTIFICATION_TEMPLATES ty)" ctx]
    render_segs_ok [of "snd (NOTIFICATION_TEMPLATES ty)" ctx]
  by (auto simp: render_notification_def template_fields_def split: prod.splits)

lemma render_notification_error:
  assumes "\<not> set (template_fields ty) \<subseteq> dom (map_of ctx)"
  shows "\<exists>k \<in> set (template_fields ty) - dom (map_of ctx).
     render_notification ty ctx = Inl (missing_value k)"
proof (cases "set (holes (fst (NOTIFICATION_TEMPLATES ty))) \<subseteq> dom (map_of ctx)")
  case True
  with assms have "\<not> set (holes (snd (NOTIFICATION_TEMPLATES ty))) \<subseteq> dom (map_of ctx)"
    by (auto simp: template_fields_def)
  from render_segs_missing [OF this] render_segs_ok [OF True] show ?thesis
    by (auto simp: render_notification_def template_fields_def split: prod.splits)
next
  case False
  from render_segs_missing [OF this] show ?thesis
    by (auto simp: render_notification_def template_fields_def split: prod.splits)
qed

text \<open>The titles of every type but \<open>SYSTEM\<close> are constants that fit their column.\<close>

lemma render_notification_title:
  "render_notification ty ctx = Inr (t, m) \<Longrightarrow> ty \<noteq> SYSTEM \<Longrightarrow> length t \<le> 150"
  by (cases ty) (auto simp: render_notification_def split: sum.splits)

lemma notify_ok:
  assumes "set (template_fields ty) \<subseteq> dom (map_of ctx)" "ty \<noteq> SYSTEM"
  shows "\<exists>n s'. notify s now u ty ctx = Inr (n, s')"
proof -
  obtain t m where r: "render_notification ty ctx = Inr (t, m)"
    using render_notification_ok [OF assms(1)] by auto
  with assms(2) have "length t \<le> 150" by (auto dest: render_notification_title)
  with r show ?thesis by (simp add: notify_def Let_def)
qed

lemma notify_many_ok:
  assumes "set (template_fields ty) \<subseteq> dom (map_of ctx)" "ty \<noteq> SYSTEM"
  shows "\<exists>ns s'. notify_many s now us ty ctx = Inr (ns, s')"
proof -
  obtain t m where r: "render_notification ty ctx = Inr (t, m)"
    using render_notification_ok [OF assms(1)] by auto
  with assms(2) have "length t \<le> 150" by (auto dest: render_notification_title)
  with r show ?thesis by (auto simp: notify_many_def Let_def split: prod.splits)
qed

lemma template_fields_simps [simp]:
  "template_fields AUDIT_APPROVED = [''action_name'', ''points'']"
  "template_fields AUDIT_REJECT = [''reason'']"
  "template_fields BADGE_EARNED = [''badge_name'']"
  "template_fields CAMPAIGN_APPROVED = [''campaign_name'']"
  "template_fields CAMPAIGN_FINISHED = [''campaign_name'']"
  "template_fields CAMPAIGN_INVITE = [''campaign_name'']"
  "template_fields CAMPAIGN_REJECTED = [''campaign_name'', ''reason'']"
  "template_fields CAMPAIGN_STARTED = [''campaign_name'']"
  "template_fields CLAN_DISSOLVED = [''clan_name'']"
  "template_fields CLAN_JOIN_REQUEST = [''member_name'', ''clan_name'']"
  "template_fields CLAN_KICKED = [''clan_name'']"
  "template_fields CLAN_LEADER_CHANGED = [''leader_name'', ''clan_name'']"
  "template_fields CLAN_MEMBER_JOINED = [''member_name'', ''clan_name'']"
  "template_fields CLAN_MEMBER_LEFT = [''member_name'', ''clan_name'']"
  "template_fields CLAN_REQ_ACCEPTED = [''clan_name'']"
  "template_fields CLAN_REQ_REJECTED = [''clan_name'']"
  "template_fields MISSION_COMPLETED = [''mission_name'', ''campaign_name'']"
  by (simp_all add: template_fields_def)

section \<open>Batches are one pass\<close>

lemma concat_batched: "concat (batched n xs) = xs"
  by (induction n xs rule: batched.induct) auto

lemma batched_bound: "0 < n \<Longrightarrow> chunk \<in> set (batched n xs) \<Longrightarrow> chunk \<noteq> [] \<and> length chunk \<le> n"
  by (induction n xs rule: batched.induct) auto

lemma enumerate_append:
  "enumerate n (xs @ ys) = enumerate n xs @ enumerate (n + length xs) ys"
  by (induction xs arbitrary: n) auto

lemma enumerate_shift: "enumerate (n + k) xs = map (\<lambda>(i, x). (i + k, x)) (enumerate n xs)"
  by (induction xs arbitrary: n) (auto simp flip: add_Suc)

lemma notify_chunks_bulk:
  "notify_chunks s now ty t m chunks = bulk_create s now ty t m (concat chunks)"
proof (induction chunks arbitrary: s)
  case (Cons c cs)
  have "map (\<lambda>(i, u). new_notification (next_id s + length c + i) now ty t m u) (enumerate 0 (concat cs)) =
        map (\<lambda>(i, u). new_notification (next_id s + i) now ty t m u) (enumerate (length c) (concat cs))"
    using enumerate_shift [of 0 "length c" "concat cs"]
    by (simp add: case_prod_unfold comp_def add.commute add.left_commute)
  then show ?case
    by (simp add: Cons.IH bulk_create_def Let_def enumerate_append add.assoc)
qed (simp add: bulk_create_def)

section \<open>The notifier interface\<close>

text \<open>
  What the services rely on: a notification helper never raises, because its template has a
  value for every placeholder, and it touches nothing but notifications.
\<close>

locale quiet_notifier =
  fixes send :: "db \<Rightarrow> db res"
  assumes sends: "\<exists>s'. send s = Inr s' \<and> only_notifications s s'"
begin

lemma send_only: "send s = Inr s' \<Longrightarrow> only_notifications s s'"
  using sends [of s] by auto

lemma send_not_Inl [simp]: "send s \<noteq> Inl e"
  using sends [of s] by auto

lemma send_Inr: "\<exists>s'. send s = Inr s'"
  using sends [of s] by auto

end

text \<open>
  \<open>notify_many\<close> inserts in batches of 500, and the batches are invisible: when its
  template renders, it stores one unread notification per recipient, in the order of the
  recipients, under consecutive fresh keys, and pushes exactly those rows, whatever the size
  of the audience.
\<close>

theorem notify_many_one_pass:
  assumes "render_notification ty ctx = Inr (t, m)" and "length t \<le> 150"
  shows "notify_many s now us ty ctx =
    (let ns = map (\<lambda>i. new_notification (next_id s + i) now ty t m (us ! i)) [0..<length us]
     in Inr (ns, s\<lparr>notifications := notifications s @ ns, next_id := next_id s + length us,
                   pushed := pushed s @
                     map (\<lambda>i. NotificationCreated (us ! i) (next_id s + i)) [0..<length us]\<rparr>))"
proof -
  have e: "enumerate 0 us = map (\<lambda>i. (i, us ! i)) [0..<length us]"
    by (rule nth_equalityI) (simp_all add: nth_enumerate_eq)
  show ?thesis
    using assms
    by (auto simp: notify_many_def notify_chunks_bulk concat_batched bulk_create_def e Let_def
        push_notifications_def new_notification_def comp_def)
qed

text \<open>The batching theorem at a template without placeholders left open.\<close>

theorem notify_many_one_pass_witness:
  "notify_many empty_db 7 [3, 9] BADGE_EARNED [(''badge_name'', ''Eco'')] =
    (let t = CHR 0xA1 # ''Nueva insignia desbloqueada!'';
         m = ''Obtuviste la insignia '' @ [CHR 0x22] @ ''Eco'' @ [CHR 0x22, CHR ''.''];
         ns = map (\<lambda>i. new_notification i 7 BADGE_EARNED t m ([3, 9] ! i)) [0..<2]
     in Inr (ns, empty_db\<lparr>notifications := ns, next_id := 2,
          pushed := [NotificationCreated 3 0, NotificationCreated 9 1]\<rparr>))"
proof -
  have r: "render_notification BADGE_EARNED [(''badge_name'', ''Eco'')] =
    Inr (CHR 0xA1 # ''Nueva insignia desbloqueada!'',
      ''Obtuviste la insignia '' @ [CHR 0x22] @ ''Eco'' @ [CHR 0x22, CHR ''.''])"
    by (simp add: render_notification_def)
  show ?thesis
    using notify_many_one_pass [OF r, of empty_db 7 "[3, 9]"]
    by (simp add: Let_def empty_db_def upt_rec)
qed

section \<open>Views\<close>

text \<open>
  Marking everything as read answers the number of unread notifications, leaves none
  unread for the caller, and touches neither the notifications of anybody else, nor the ones
  the caller deleted, nor any other table; doing it again answers zero and changes nothing.
\<close>

theorem mark_all_read_spec:
  "fst (mark_all_read s u) = unread_count s u \<and>
   unread_count (snd (mark_all_read s u)) u = 0 \<and>
   filter (\<lambda>n. \<not> (notification_user n = u \<and> notification_alive n)) (notifications (snd (mark_all_read s u))) =
     filter (\<lambda>n. \<not> (notification_user n = u \<and> notification_alive n)) (notifications s) \<and>
   snd (mark_all_read s u) = s\<lparr>notifications := notifications (snd (mark_all_read s u))\<rparr> \<and>
   mark_all_read (snd (mark_all_read s u)) u = (0, snd (mark_all_read s u))"
proof -
  define P where "P = (\<lambda>n. notification_alive n \<and> notification_user n = u \<and> \<not> is_read n)"
  define ns where "ns = qs_update P (\<lambda>n. n\<lparr>is_read := True\<rparr>) (notifications s)"
  have mark: "mark_all_read t u =
      (unread_count t u, t\<lparr>notifications := qs_update P (\<lambda>n. n\<lparr>is_read := True\<rparr>) (notifications t)\<rparr>)" for t :: db
    by (simp add: mark_all_read_def P_def)
  have m: "mark_all_read s u = (unread_count s u, s\<lparr>notifications := ns\<rparr>)"
    unfolding mark ns_def ..
  have none: "\<forall>n \<in> set ns. \<not> P n" by (simp add: ns_def ball_qs_update P_def)
  have z: "unread_count (s\<lparr>notifications := ns\<rparr>) u = 0"
    using none by (auto simp: unread_count_def P_def filter_empty_conv)
  have again: "mark_all_read (s\<lparr>notifications := ns\<rparr>) u = (0, s\<lparr>notifications := ns\<rparr>)"
    unfolding mark z using qs_update_none [OF none] by simp
  have other: "filter (\<lambda>n. \<not> (notification_user n = u \<and> notification_alive n)) (qs_update P (\<lambda>n. n\<lparr>is_read := True\<rparr>) xs) =
    filter (\<lambda>n. \<not> (notification_user n = u \<and> notification_alive n)) xs" for xs :: "notification list"
    by (induction xs) (auto simp: qs_update_def P_def notification_alive_def)
  show ?thesis unfolding m fst_conv snd_conv z again
    using other [of "notifications s"] by (simp add: ns_def [symmetric])
qed

interpretation notification_deleted_edit: keyed_edit notification_id "\<lambda>v n. n\<lparr>notification_deleted_at := v\<rparr>"
  by unfold_locales simp

lemma notification_object_InrD:
  assumes "notification_object s u nid = Inr n"
  shows "n \<in> set (notifications s)" "notification_alive n" "notification_user n = u" "notification_id n = nid"
  using assms by (auto simp: notification_object_def dest: qs_get_InrD(1,2) split: sum.splits)

text \<open>
  Deleting a notification through the API is the owner's: it succeeds on a row of the
  caller that is not deleted. The row stays, marked with the time of deletion, and disappears
  from the listing of its owner, whatever filter is used; the listings of everybody else are as
  they were. A second delete answers 404.
\<close>

theorem notification_destroy_spec:
  assumes keys: "distinct (map notification_id (notifications s))"
    and call: "notification_destroy s now u nid = Inr s'"
  shows "(\<exists>n \<in> set (notifications s). notification_id n = nid \<and> notification_user n = u \<and>
       notification_alive n \<and>
       set (notifications s') = insert (n\<lparr>notification_deleted_at := Some now\<rparr>) (set (notifications s) - {n})) \<and>
    fst (notification_list s' v p) = filter (\<lambda>n. notification_id n \<noteq> nid) (fst (notification_list s v p)) \<and>
    notification_destroy s' now' u nid = Inl Http404"
proof -
  from call obtain n where o: "notification_object s u nid = Inr n"
    and s': "s' = s\<lparr>notifications := qs_update (\<lambda>x. notification_id x = notification_id n)
                  (\<lambda>x. x\<lparr>notification_deleted_at := Some now\<rparr>) (notifications s)\<rparr>"
    by (auto simp: notification_destroy_def split: sum.splits)
  note n = notification_object_InrD [OF o]
  have set': "set (notifications s') =
      insert (n\<lparr>notification_deleted_at := Some now\<rparr>) (set (notifications s) - {n})"
    using notification_deleted_edit.set_saved [OF keys n(1), of "Some now"] by (simp add: s')
  have f: "filter (\<lambda>x. notification_alive x \<and> Q x)
        (qs_update (\<lambda>x. notification_id x = nid) (\<lambda>x. x\<lparr>notification_deleted_at := Some now\<rparr>) xs) =
      filter (\<lambda>x. notification_id x \<noteq> nid) (filter (\<lambda>x. notification_alive x \<and> Q x) xs)"
    for Q and xs :: "notification list"
    by (induction xs) (auto simp: qs_update_def notification_alive_def)
  have l: "fst (notification_list s' v p) = filter (\<lambda>n. notification_id n \<noteq> nid) (fst (notification_list s v p))"
    unfolding notification_list_def fst_conv filter_sort by (simp add: s' n(4) f)
  have "\<forall>x \<in> set (notifications s'). notification_id x = nid \<longrightarrow> \<not> notification_alive x"
    using set' n(1,4) keys by (auto simp: notification_alive_def dest: inj_on_pk)
  then have "notification_object s' u nid = Inl Http404"
    by (auto simp: notification_object_def dest: qs_get_InrD(1,2) split: sum.splits)
  then have "notification_destroy s' now' u nid = Inl Http404" by (simp add: notification_destroy_def)
  with set' l n show ?thesis by blast
qed

text \<open>The delete at a state with one notification of user 3.\<close>

theorem notification_destroy_spec_witness:
  "let s = empty_db\<lparr>notifications := [new_notification 0 5 SYSTEM ''a'' ''b'' 3]\<rparr>;
       s' = empty_db\<lparr>notifications := [(new_notification 0 5 SYSTEM ''a'' ''b'' 3)\<lparr>notification_deleted_at := Some 9\<rparr>]\<rparr>
   in notification_destroy s 9 3 0 = Inr s' \<and> fst (notification_list s' 3 None) = [] \<and>
      notification_destroy s' 10 3 0 = Inl Http404"
proof -
  let ?s = "empty_db\<lparr>notifications := [new_notification 0 5 SYSTEM ''a'' ''b'' 3]\<rparr>"
  let ?s' = "empty_db\<lparr>notifications := [(new_notification 0 5 SYSTEM ''a'' ''b'' 3)\<lparr>notification_deleted_at := Some 9\<rparr>]\<rparr>"
  have c: "notification_destroy ?s 9 3 0 = Inr ?s'"
    by (simp add: notification_destroy_def notification_object_def qs_get_def qs_update_def
        new_notification_def notification_alive_def empty_db_def)
  have "fst (notification_list ?s 3 None) = [new_notification 0 5 SYSTEM ''a'' ''b'' 3]"
    by (simp add: notification_list_def read_filter_def new_notification_def notification_alive_def)
  then show ?thesis
    using notification_destroy_spec [OF _ c, of 3 None 10] c by (simp add: new_notification_def)
qed

text \<open>
  A template renders exactly when the context has a value for every one of its
  placeholders; otherwise rendering raises \<open>ValueError\<close> naming a placeholder that is missing.
  A notification of any type but \<open>SYSTEM\<close>, whose title is free text, is then always stored.
\<close>

theorem render_notification_complete:
  "(if set (template_fields ty) \<subseteq> fst ` set ctx
    then (\<exists>t m. render_notification ty ctx = Inr (t, m)) \<and>
         (ty = SYSTEM \<or> (\<exists>n s'. notify s now u ty ctx = Inr (n, s')))
    else \<exists>k. k \<in> set (template_fields ty) \<and> k \<notin> fst ` set ctx \<and>
         render_notification ty ctx = Inl (missing_value k) \<and>
         notify s now u ty ctx = Inl (missing_value k))"
proof (cases "set (template_fields ty) \<subseteq> fst ` set ctx")
  case True
  then have sub: "set (template_fields ty) \<subseteq> dom (map_of ctx)" by (simp add: dom_map_of_conv_image_fst)
  show ?thesis using True render_notification_ok [OF sub] notify_ok [OF sub, of s now u] by auto
next
  case False
  then have "\<not> set (template_fields ty) \<subseteq> dom (map_of ctx)" by (simp add: dom_map_of_conv_image_fst)
  from render_notification_error [OF this] obtain k
    where "k \<in> set (template_fields ty)" "k \<notin> fst ` set ctx" "render_notification ty ctx = Inl (missing_value k)"
    by (auto simp: dom_map_of_conv_image_fst)
  with False show ?thesis by (auto simp: notify_def)
qed

end
