(* ===== verification/Image_Storage.thy ===== *)
theory Image_Storage
  imports Schema
begin

text \<open>
  Private storage of uploaded images: the evidence of actions (\<open>actions/evidence.py\<close>) and
  the avatars of clans and profiles (\<open>core/image_storage.py\<close>, \<open>clans/avatars.py\<close>,
  \<open>accounts/avatars.py\<close>). The store is the list of object keys it holds; the bytes behind a
  key play no part in the rest of the system. A \<open>bytes\<close> value is a \<^typ>\<open>string\<close>. The
  deployed configuration is modelled, where \<open>gcs_evidence_enabled\<close> holds and a key is
  accepted by its shape alone. \<open>uuid4()\<close> is the counter of the database.
\<close>

record upload =
  upload_size :: "nat option"
  upload_content_type :: "string option"
  upload_chunks :: "string list"

section \<open>Image types\<close>

definition JPEG :: string where "JPEG = ''image/jpeg''"
definition PNG :: string where "PNG = ''image/png''"
definition WEBP :: string where "WEBP = ''image/webp''"

definition EXTENSIONS :: "string \<Rightarrow> string option" where
  "EXTENSIONS kind =
     (if kind = JPEG then Some ''.jpg'' else if kind = PNG then Some ''.png''
      else if kind = WEBP then Some ''.webp'' else None)"

definition MAX_IMAGE_BYTES :: nat where
  "MAX_IMAGE_BYTES = 5 * 1024 * 1024"

definition detect_image_kind :: "string \<Rightarrow> string option" where
  "detect_image_kind header =
     (if py_startswith header [CHR 0xFF, CHR 0xD8, CHR 0xFF] then Some JPEG
      else if py_startswith header
                ([CHR 0x89] @ ''PNG'' @ [CHR 0x0D, CHR 0x0A, CHR 0x1A, CHR 0x0A]) then Some PNG
      else if 12 \<le> length header \<and> take 4 header = ''RIFF'' \<and> take 4 (drop 8 header) = ''WEBP''
      then Some WEBP else None)"

definition declared_image_type :: "string \<Rightarrow> string" where
  "declared_image_type content_type =
     (let declared = py_lower (py_strip (takeWhile (\<lambda>c. c \<noteq> CHR '';'') content_type))
      in if declared = ''image/jpg'' \<or> declared = ''image/pjpeg'' then JPEG else declared)"

definition upload_bytes :: "upload \<Rightarrow> string" where
  "upload_bytes up = concat (upload_chunks up)"

text \<open>\<open>core.image_storage.validate_image\<close> and \<open>_read_bounded\<close>.\<close>

definition validate_image :: "upload \<Rightarrow> string res" where
  "validate_image up =
     (case upload_size up of
        None \<Rightarrow> Inl (InvalidImageError ''The image must be at most 5 MB.'')
      | Some n \<Rightarrow>
          if n > MAX_IMAGE_BYTES then Inl (InvalidImageError ''The image must be at most 5 MB.'')
          else (let declared = declared_image_type
                      (case upload_content_type up of None \<Rightarrow> [] | Some t \<Rightarrow> t)
                in case detect_image_kind (take 16 (upload_bytes up)) of
                     None \<Rightarrow> Inl (InvalidImageError ''The image must be a JPG, PNG, or WEBP file.'')
                   | Some kind \<Rightarrow>
                       if declared \<noteq> [] \<and> declared \<noteq> kind \<and> declared \<noteq> ''application/octet-stream''
                       then Inl (InvalidImageError ''The image must be a JPG, PNG, or WEBP file.'')
                       else Inr kind))"

fun read_bounded :: "exc \<Rightarrow> string \<Rightarrow> string list \<Rightarrow> string res" where
  "read_bounded e payload [] = Inr payload"
| "read_bounded e payload (chunk # chunks) =
     (if length (payload @ chunk) > MAX_IMAGE_BYTES then Inl e
      else read_bounded e (payload @ chunk) chunks)"

text \<open>\<open>actions.evidence.validate_evidence_upload\<close>.\<close>

definition MAX_EVIDENCE_BYTES :: nat where
  "MAX_EVIDENCE_BYTES = 5 * 1024 * 1024"

definition evidence_error :: exc where
  "evidence_error = ValidationError [] ''Usa una imagen JPG, PNG o WEBP.''"

definition evidence_too_big :: exc where
  "evidence_too_big = ValidationError [] ''La evidencia no puede superar 5 MB.''"

definition validate_evidence_upload :: "upload \<Rightarrow> string res" where
  "validate_evidence_upload up =
     (case upload_size up of None \<Rightarrow> Inl PyTypeError | Some n \<Rightarrow>
      if n > MAX_EVIDENCE_BYTES then Inl evidence_too_big
      else case detect_image_kind (take 16 (upload_bytes up)) of
             None \<Rightarrow> Inl evidence_error
           | Some kind \<Rightarrow>
               (let declared = declared_image_type
                      (case upload_content_type up of None \<Rightarrow> [] | Some t \<Rightarrow> t)
                in if EXTENSIONS declared \<noteq> None \<and> declared \<noteq> kind then Inl evidence_error
                   else if declared \<noteq> [] \<and> EXTENSIONS declared = None \<and>
                           declared \<noteq> ''application/octet-stream''
                   then Inl evidence_error
                   else Inr kind))"

section \<open>Object keys\<close>

text \<open>\<open>str()\<close> of a key: decimal digits, with no separator in it.\<close>

function nat_str :: "nat \<Rightarrow> string" where
  "nat_str n = (if n < 10 then [char_of (48 + n)] else nat_str (n div 10) @ [char_of (48 + n mod 10)])"
  by pat_completeness auto
termination
  by (relation "measure id") auto

declare nat_str.simps [simp del]

text \<open>\<open>".." in Path(key).parts\<close>: the parts of a posix path are its non-empty components but \<open>.\<close>.\<close>

definition path_parts :: "string \<Rightarrow> string list" where
  "path_parts k = filter (\<lambda>p. p \<noteq> [] \<and> p \<noteq> ''.'') (py_split_on (CHR ''/'') k)"

definition EVIDENCE_PREFIX :: string where
  "EVIDENCE_PREFIX = ''action-evidence''"

definition CLAN_AVATAR_PREFIX :: string where
  "CLAN_AVATAR_PREFIX = ''clan-avatars''"

definition PROFILE_AVATAR_PREFIX :: string where
  "PROFILE_AVATAR_PREFIX = ''avatars''"

definition object_key_of :: "string \<Rightarrow> uuid \<Rightarrow> uuid \<Rightarrow> string \<Rightarrow> string" where
  "object_key_of prefix owner n ext = prefix @ ''/'' @ nat_str owner @ ''/'' @ nat_str n @ ext"

definition is_owned_key :: "string \<Rightarrow> uuid \<Rightarrow> string \<Rightarrow> bool" where
  "is_owned_key prefix owner key \<longleftrightarrow>
     key \<noteq> [] \<and> ''..'' \<notin> set (path_parts key) \<and>
     py_startswith key (prefix @ ''/'' @ nat_str owner @ ''/'')"

definition safe_object_key :: "string \<Rightarrow> string option" where
  "safe_object_key key =
     (if key = [] \<or> py_startswith key ''/'' \<or> py_startswith key [CHR 0x5C] then None
      else if ''..'' \<in> set (path_parts key) then None
      else if \<not> py_startswith key (EVIDENCE_PREFIX @ ''/'') then None
      else Some key)"

section \<open>Writing and deleting\<close>

definition store_key :: "string \<Rightarrow> uuid \<Rightarrow> string \<Rightarrow> db \<Rightarrow> (string \<times> db) res" where
  "store_key prefix owner kind s =
     (case EXTENSIONS kind of
        None \<Rightarrow> Inl DoesNotExist
      | Some ext \<Rightarrow> (let key = object_key_of prefix owner (next_id s) ext
                    in Inr (key, s\<lparr>media := media s @ [key], next_id := Suc (next_id s)\<rparr>)))"

definition save_image :: "db \<Rightarrow> string \<Rightarrow> uuid \<Rightarrow> upload \<Rightarrow> (string \<times> db) res" where
  "save_image s prefix owner up =
     (case validate_image up of
        Inl e \<Rightarrow> Inl e
      | Inr kind \<Rightarrow>
          (case read_bounded (InvalidImageError ''The image must be at most 5 MB.'') [] (upload_chunks up) of
             Inl e \<Rightarrow> Inl e
           | Inr _ \<Rightarrow> store_key prefix owner kind s))"

definition delete_image :: "string \<Rightarrow> uuid \<Rightarrow> string \<Rightarrow> db \<Rightarrow> db" where
  "delete_image prefix owner key s =
     (if is_owned_key prefix owner key then s\<lparr>media := filter (\<lambda>k. k \<noteq> key) (media s)\<rparr> else s)"

definition save_clan_avatar :: "db \<Rightarrow> uuid \<Rightarrow> upload \<Rightarrow> (string \<times> db) res" where
  "save_clan_avatar s cid up = save_image s CLAN_AVATAR_PREFIX cid up"

definition delete_clan_avatar :: "uuid \<Rightarrow> string \<Rightarrow> db \<Rightarrow> db" where
  "delete_clan_avatar cid key s = delete_image CLAN_AVATAR_PREFIX cid key s"

definition save_profile_avatar :: "db \<Rightarrow> uuid \<Rightarrow> upload \<Rightarrow> (string \<times> db) res" where
  "save_profile_avatar s u up = save_image s PROFILE_AVATAR_PREFIX u up"

definition delete_profile_avatar :: "uuid \<Rightarrow> string \<Rightarrow> db \<Rightarrow> db" where
  "delete_profile_avatar u key s = delete_image PROFILE_AVATAR_PREFIX u key s"

definition save_action_evidence :: "db \<Rightarrow> uuid \<Rightarrow> upload \<Rightarrow> (string \<times> db) res" where
  "save_action_evidence s u up =
     (case validate_evidence_upload up of
        Inl e \<Rightarrow> Inl e
      | Inr kind \<Rightarrow>
          (case read_bounded evidence_too_big [] (upload_chunks up) of
             Inl e \<Rightarrow> Inl e
           | Inr _ \<Rightarrow> store_key EVIDENCE_PREFIX u kind s))"

definition delete_action_evidence :: "string \<Rightarrow> db \<Rightarrow> db" where
  "delete_action_evidence key s =
     (case safe_object_key key of
        None \<Rightarrow> s
      | Some k \<Rightarrow> s\<lparr>media := filter (\<lambda>k'. k' \<noteq> k) (media s)\<rparr>)"

section \<open>What the store operations touch\<close>

lemma detect_known: "detect_image_kind h = Some kind \<Longrightarrow> EXTENSIONS kind \<noteq> None"
  by (auto simp: detect_image_kind_def EXTENSIONS_def split: if_splits)

lemma validate_image_known: "validate_image up = Inr kind \<Longrightarrow> EXTENSIONS kind \<noteq> None"
  by (auto simp: validate_image_def Let_def dest!: detect_known split: option.splits if_splits)

lemma validate_evidence_known: "validate_evidence_upload up = Inr kind \<Longrightarrow> EXTENSIONS kind \<noteq> None"
  by (auto simp: validate_evidence_upload_def Let_def dest!: detect_known split: option.splits if_splits)

lemma read_bounded_alt:
  assumes "length payload \<le> MAX_IMAGE_BYTES"
  shows "read_bounded e payload chunks =
     (if length (payload @ concat chunks) \<le> MAX_IMAGE_BYTES then Inr (payload @ concat chunks) else Inl e)"
  using assms by (induction e payload chunks rule: read_bounded.induct) auto

lemma delete_image_media: "delete_image p u k s = s\<lparr>media := media (delete_image p u k s)\<rparr>"
  by (simp add: delete_image_def)

lemma delete_image_frame [frame, simp]:
  "users (delete_image p u k s) = users s" "profiles (delete_image p u k s) = profiles s"
  "clans (delete_image p u k s) = clans s" "memberships (delete_image p u k s) = memberships s"
  "invitations (delete_image p u k s) = invitations s" "action_logs (delete_image p u k s) = action_logs s"
  "next_id (delete_image p u k s) = next_id s"
  by (simp_all add: delete_image_def)

lemma delete_action_evidence_frame [frame, simp]:
  "users (delete_action_evidence k s) = users s" "profiles (delete_action_evidence k s) = profiles s"
  "clans (delete_action_evidence k s) = clans s" "memberships (delete_action_evidence k s) = memberships s"
  "invitations (delete_action_evidence k s) = invitations s"
  "action_logs (delete_action_evidence k s) = action_logs s"
  "next_id (delete_action_evidence k s) = next_id s"
  by (simp_all add: delete_action_evidence_def split: option.splits)

lemma save_image_InrD:
  assumes "save_image s prefix owner up = Inr (key, s')"
  shows "\<exists>ext \<in> {''.jpg'', ''.png'', ''.webp''}. key = object_key_of prefix owner (next_id s) ext \<and>
    s' = s\<lparr>media := media s @ [key], next_id := Suc (next_id s)\<rparr>"
  using assms
  by (auto simp: save_image_def store_key_def Let_def EXTENSIONS_def split: sum.splits option.splits if_splits)

section \<open>Keys belong to one owner\<close>

definition digits_value :: "string \<Rightarrow> nat" where
  "digits_value w = foldl (\<lambda>a c. 10 * a + (of_char c - 48)) 0 w"

lemma digits_value_nat_str: "digits_value (nat_str n) = n"
proof (induction n rule: nat_str.induct)
  case (1 n)
  have d: "n mod 10 < 256" by (rule le_less_trans [of _ 10]) simp_all
  show ?case
  proof (cases "n < 10")
    case True
    then show ?thesis by (simp add: nat_str.simps [of n] digits_value_def)
  next
    case False
    have "(48 + n mod 10) mod 256 = 48 + n mod 10"
      by (rule mod_less) (use mod_less_divisor [of 10 n] in linarith)
    with 1 [OF False] False show ?thesis
      by (simp add: nat_str.simps [of n] digits_value_def)
  qed
qed

lemma nat_str_eq [simp]: "nat_str m = nat_str n \<longleftrightarrow> m = n"
  by (metis digits_value_nat_str)

lemma nat_str_chars: "c \<in> set (nat_str n) \<Longrightarrow> 48 \<le> (of_char c :: nat) \<and> (of_char c :: nat) \<le> 57"
proof (induction n rule: nat_str.induct)
  case (1 n)
  have "n mod 10 < 10" by simp
  then show ?case
    using 1 by (cases "n < 10") (auto simp: nat_str.simps [of n])
qed

lemma nat_str_no_sep: "CHR ''/'' \<notin> set (nat_str n)" "CHR ''.'' \<notin> set (nat_str n)"
  using nat_str_chars by fastforce+

lemma nat_str_nonempty: "nat_str n \<noteq> []"
  by (subst nat_str.simps) simp

lemma split_object_key:
  assumes "CHR ''/'' \<notin> set prefix" "ext \<in> {''.jpg'', ''.png'', ''.webp''}"
  shows "py_split_on (CHR ''/'') (object_key_of prefix owner n ext) = [prefix, nat_str owner, nat_str n @ ext]"
proof -
  have "CHR ''/'' \<notin> set (nat_str n @ ext)" using assms nat_str_no_sep by auto
  then show ?thesis
    using py_split_on_sep [OF assms(1), of "nat_str owner @ CHR ''/'' # nat_str n @ ext"]
      py_split_on_sep [OF nat_str_no_sep(1), of owner "nat_str n @ ext"]
    by (simp add: object_key_of_def py_split_on_word del: set_append)
qed

lemma owner_of_key:
  assumes "CHR ''/'' \<notin> set prefix" "is_owned_key prefix u k" "is_owned_key prefix v k"
  shows "u = v"
proof -
  from assms obtain s t where "k = prefix @ CHR ''/'' # nat_str u @ CHR ''/'' # s"
      "k = prefix @ CHR ''/'' # nat_str v @ CHR ''/'' # t"
    by (auto simp: is_owned_key_def py_startswith_iff)
  then have "nat_str u @ CHR ''/'' # s = nat_str v @ CHR ''/'' # t" by simp
  then have "hd (py_split_on (CHR ''/'') (nat_str u @ CHR ''/'' # s)) =
    hd (py_split_on (CHR ''/'') (nat_str v @ CHR ''/'' # t))" by simp
  then show ?thesis by (simp add: py_split_on_sep nat_str_no_sep)
qed

lemma saved_key_owned:
  assumes "CHR ''/'' \<notin> set prefix" "prefix \<noteq> ''..''" "ext \<in> {''.jpg'', ''.png'', ''.webp''}"
  shows "is_owned_key prefix owner (object_key_of prefix owner n ext)"
proof -
  have "nat_str owner \<noteq> ''..''" using nat_str_no_sep(2) [of owner] by auto
  moreover have "nat_str n @ ext \<noteq> ''..''"
  proof
    assume e: "nat_str n @ ext = ''..''"
    then have "length (nat_str n @ ext) = 2" by simp
    with assms(3) show False by auto
  qed
  moreover have "py_startswith (object_key_of prefix owner n ext) (prefix @ ''/'' @ nat_str owner @ ''/'')"
    by (auto simp: object_key_of_def py_startswith_iff)
  ultimately show ?thesis
    using assms split_object_key [OF assms(1,3), of owner n]
    by (auto simp: is_owned_key_def path_parts_def)
qed

text \<open>
  An avatar that is saved gets a key the client has no say in: the key belongs to its
  owner, to no other owner of the same prefix, and names no parent directory. Deleting with
  any other owner's identity leaves the store as it was; deleting as the owner removes exactly
  that key, so save followed by delete restores a store that did not hold it.
\<close>

theorem save_image_owned:
  assumes "save_image s prefix owner up = Inr (key, s')"
    and "prefix \<in> {CLAN_AVATAR_PREFIX, PROFILE_AVATAR_PREFIX}"
  shows "is_owned_key prefix owner key \<and> (is_owned_key prefix other key \<longleftrightarrow> other = owner) \<and>
    ''..'' \<notin> set (path_parts key) \<and> media s' = media s @ [key] \<and>
    (other \<noteq> owner \<longrightarrow> delete_image prefix other key s' = s') \<and>
    media (delete_image prefix owner key s') = filter (\<lambda>k. k \<noteq> key) (media s)"
proof -
  have p: "CHR ''/'' \<notin> set prefix" "prefix \<noteq> ''..''"
    using assms(2) by (auto simp: CLAN_AVATAR_PREFIX_def PROFILE_AVATAR_PREFIX_def)
  from save_image_InrD [OF assms(1)] obtain ext where ext: "ext \<in> {''.jpg'', ''.png'', ''.webp''}"
    and key: "key = object_key_of prefix owner (next_id s) ext"
    and s': "s' = s\<lparr>media := media s @ [key], next_id := Suc (next_id s)\<rparr>" by auto
  have own: "is_owned_key prefix owner key" unfolding key by (rule saved_key_owned [OF p ext])
  then have iff: "is_owned_key prefix other key \<longleftrightarrow> other = owner" using owner_of_key [OF p(1)] by metis
  show ?thesis using own iff by (simp add: s' delete_image_def) (simp add: is_owned_key_def)
qed

text \<open>A PNG saved as the avatar of clan 4.\<close>

theorem save_image_owned_witness:
  "let up = \<lparr>upload_size = Some 12, upload_content_type = Some ''image/png'',
       upload_chunks = [[CHR 0x89] @ ''PNG'' @ [CHR 0x0D, CHR 0x0A, CHR 0x1A, CHR 0x0A]]\<rparr>;
       key = ''clan-avatars/4/0.png''
   in save_image empty_db CLAN_AVATAR_PREFIX 4 up = Inr (key, empty_db\<lparr>media := [key], next_id := 1\<rparr>) \<and>
      is_owned_key CLAN_AVATAR_PREFIX 4 key \<and> \<not> is_owned_key CLAN_AVATAR_PREFIX 44 key"
proof -
  let ?up = "\<lparr>upload_size = Some 12, upload_content_type = Some ''image/png'',
       upload_chunks = [[CHR 0x89] @ ''PNG'' @ [CHR 0x0D, CHR 0x0A, CHR 0x1A, CHR 0x0A]]\<rparr>"
  let ?key = "''clan-avatars/4/0.png''"
  have "detect_image_kind (take 16 (upload_bytes ?up)) = Some PNG" by code_simp
  moreover have "declared_image_type ''image/png'' = PNG" by code_simp
  ultimately have "validate_image ?up = Inr PNG"
    by (simp add: validate_image_def MAX_IMAGE_BYTES_def)
  moreover have "EXTENSIONS PNG = Some ''.png''" by (simp add: EXTENSIONS_def PNG_def JPEG_def)
  moreover have "object_key_of CLAN_AVATAR_PREFIX 4 0 ''.png'' = ?key" by code_simp
  ultimately have c: "save_image empty_db CLAN_AVATAR_PREFIX 4 ?up =
      Inr (?key, empty_db\<lparr>media := [?key], next_id := 1\<rparr>)"
    by (simp add: save_image_def store_key_def MAX_IMAGE_BYTES_def empty_db_def Let_def)
  show ?thesis
    using save_image_owned [OF c, of 44] save_image_owned [OF c, of 4] c by simp
qed

end
