(* ===== verification/Accounts.thy ===== *)
theory Accounts
  imports Notifications Image_Storage
begin

text \<open>
  The accounts domain (\<open>accounts/services.py\<close>, the naming rules of \<open>accounts/models.py\<close>):
  profiles, avatars, nicknames, Microsoft sign-in, roles and deactivation. The identity that
  Entra vouches for, the allowed domain, the list of staff addresses and the accent folding of
  \<open>unicodedata\<close> are arguments. The row locks of \<open>select_for_update\<close> make each service one
  step; a lock on a row that is missing raises, as \<open>get()\<close> does.
\<close>

section \<open>Names\<close>

definition ANONYMOUS_DISPLAY_NAME :: string where
  "ANONYMOUS_DISPLAY_NAME = ''Usuario GreenITESO''"

definition or_else :: "string \<Rightarrow> string \<Rightarrow> string" where
  "or_else a b = (if a \<noteq> [] then a else b)"

definition get_full_name :: "user \<Rightarrow> string" where
  "get_full_name u = py_strip (first_name u @ '' '' @ last_name u)"

definition public_display_name :: "user \<Rightarrow> string" where
  "public_display_name u =
     or_else (py_strip (nickname u)) (or_else (py_strip (get_full_name u)) ANONYMOUS_DISPLAY_NAME)"

definition profile_of :: "db \<Rightarrow> uuid \<Rightarrow> profile option" where
  "profile_of s u = find (\<lambda>p. profile_user p = u) (profiles s)"

definition name_shown_to_others :: "db \<Rightarrow> user \<Rightarrow> string" where
  "name_shown_to_others s u =
     (case profile_of s (user_id u) of
        Some p \<Rightarrow> if profile_visibility p = PRIVATE_PROFILE
                  then or_else (py_strip (nickname u)) ANONYMOUS_DISPLAY_NAME
                  else public_display_name u
      | None \<Rightarrow> public_display_name u)"

section \<open>Profiles\<close>

definition get_user :: "db \<Rightarrow> uuid \<Rightarrow> user res" where
  "get_user s u = qs_get (\<lambda>x. user_id x = u) (users s)"

definition ensure_profile :: "db \<Rightarrow> uuid \<Rightarrow> profile \<times> db" where
  "ensure_profile s u =
     (case profile_of s u of
        Some p \<Rightarrow> (p, s)
      | None \<Rightarrow> (new_profile u, s\<lparr>profiles := profiles s @ [new_profile u]\<rparr>))"

definition edit_profile :: "uuid \<Rightarrow> (profile \<Rightarrow> profile) \<Rightarrow> db \<Rightarrow> db" where
  "edit_profile u f s = s\<lparr>profiles := qs_update (\<lambda>p. profile_user p = u) f (profiles s)\<rparr>"

definition edit_user :: "uuid \<Rightarrow> (user \<Rightarrow> user) \<Rightarrow> db \<Rightarrow> db" where
  "edit_user u f s = s\<lparr>users := qs_update (\<lambda>x. user_id x = u) f (users s)\<rparr>"

definition ensure_account_writable :: "db \<Rightarrow> user \<Rightarrow> datetime option \<Rightarrow> unit res" where
  "ensure_account_writable s u requested_at =
     (if \<not> is_active u then Inl AccountDisabledError
      else case requested_at of
             None \<Rightarrow> Inr ()
           | Some t \<Rightarrow>
               (case profile_of s (user_id u) of
                  None \<Rightarrow> Inr ()
                | Some p \<Rightarrow> (case progress_reset_at p of
                     None \<Rightarrow> Inr ()
                   | Some r \<Rightarrow> if r > t then Inl AccountDisabledError else Inr ())))"

text \<open>
  \<open>update_profile\<close>: \<open>None\<close> leaves a field as it is. \<open>bio\<close> and \<open>avatar_url\<close> are
  \<open>varchar(500)\<close>; the stored file a pasted link replaces is deleted once the edit commits.
\<close>

definition apply_profile_edit ::
  "string option \<Rightarrow> (string \<times> string) list option \<Rightarrow> visibility option \<Rightarrow> string option \<Rightarrow> profile \<Rightarrow> profile" where
  "apply_profile_edit new_bio prefs vis url p =
     (let p1 = (case new_bio of None \<Rightarrow> p | Some v \<Rightarrow> p\<lparr>bio := v\<rparr>);
          p2 = (case prefs of None \<Rightarrow> p1 | Some v \<Rightarrow> p1\<lparr>preferences := v\<rparr>);
          p3 = (case vis of None \<Rightarrow> p2 | Some v \<Rightarrow> p2\<lparr>profile_visibility := v\<rparr>)
      in case url of None \<Rightarrow> p3 | Some v \<Rightarrow> p3\<lparr>avatar_url := v, avatar_object_key := []\<rparr>)"

definition update_profile ::
  "db \<Rightarrow> uuid \<Rightarrow> string option \<Rightarrow> (string \<times> string) list option \<Rightarrow> visibility option \<Rightarrow> string option \<Rightarrow> (profile \<times> db) res" where
  "update_profile s u new_bio prefs vis url =
     (case get_user s u of
        Inl e \<Rightarrow> Inl e
      | Inr locked \<Rightarrow>
     (case ensure_account_writable s locked None of
        Inl e \<Rightarrow> Inl e
      | Inr _ \<Rightarrow>
          (let (p, s1) = ensure_profile s u;
               previous_key = (case url of None \<Rightarrow> [] | Some _ \<Rightarrow> avatar_object_key p);
               p' = apply_profile_edit new_bio prefs vis url p;
               s2 = edit_profile u (apply_profile_edit new_bio prefs vis url) s1
           in if length (bio p') > 500 then Inl (DataError ''accounts_user_profile.bio'')
              else if length (avatar_url p') > 500 then Inl (DataError ''accounts_user_profile.avatar_url'')
              else Inr (p', if previous_key \<noteq> [] then delete_profile_avatar u previous_key s2 else s2))))"

definition set_profile_avatar :: "db \<Rightarrow> uuid \<Rightarrow> upload option \<Rightarrow> (profile \<times> db) res" where
  "set_profile_avatar s u uploaded =
     (case get_user s u of
        Inl e \<Rightarrow> Inl e
      | Inr locked \<Rightarrow>
     (case ensure_account_writable s locked None of
        Inl e \<Rightarrow> Inl e
      | Inr _ \<Rightarrow>
          (let (p, s1) = ensure_profile s u;
               previous_key = avatar_object_key p
           in case (case uploaded of None \<Rightarrow> Inr ([], s1) | Some up \<Rightarrow> save_profile_avatar s1 u up) of
                Inl e \<Rightarrow> Inl e
              | Inr (new_key, s2) \<Rightarrow>
                  (let f = (\<lambda>p. p\<lparr>avatar_object_key := new_key, avatar_url := []\<rparr>);
                       s3 = edit_profile u f s2
                   in Inr (f p, if previous_key \<noteq> [] \<and> previous_key \<noteq> new_key
                                then delete_profile_avatar u previous_key s3 else s3)))))"

section \<open>Nickname changes\<close>

definition NICKNAME_CHANGE_COST_POINTS :: int where
  "NICKNAME_CHANGE_COST_POINTS = 50"

record nickname_change =
  changed_nickname :: string
  points_spent :: int
  change_available_points :: int
  next_change_cost :: int

definition nickname_change_cost :: "profile \<Rightarrow> int" where
  "nickname_change_cost p = (if nickname_changes p = 0 then 0 else NICKNAME_CHANGE_COST_POINTS)"

definition MAX_SMALLINT :: nat where
  "MAX_SMALLINT = 32767"

definition change_nickname :: "db \<Rightarrow> uuid \<Rightarrow> string \<Rightarrow> (nickname_change \<times> db) res" where
  "change_nickname s u nick =
     (case get_user s u of
        Inl e \<Rightarrow> Inl e
      | Inr locked \<Rightarrow>
     (case ensure_account_writable s locked None of
        Inl e \<Rightarrow> Inl e
      | Inr _ \<Rightarrow>
          (let (p, s1) = ensure_profile s u;
               cost = nickname_change_cost p;
               charge = (\<lambda>p. p\<lparr>available_points := available_points p - cost,
                               nickname_changes := Suc (nickname_changes p)\<rparr>)
           in if nick = nickname locked then Inl NicknameUnchangedError
              else if available_points p < cost then Inl InsufficientPointsForNicknameError
              else if length nick > 50 then Inl (DataError ''accounts_user.nickname'')
              else if Suc (nickname_changes p) > MAX_SMALLINT
              then Inl (DataError ''accounts_user_profile.nickname_changes'')
              else Inr (\<lparr>changed_nickname = nick, points_spent = cost,
                         change_available_points = available_points (charge p),
                         next_change_cost = nickname_change_cost (charge p)\<rparr>,
                        edit_profile u charge (edit_user u (\<lambda>x. x\<lparr>nickname := nick\<rparr>) s1)))))"

section \<open>Institutional sign-in\<close>

record identity =
  identity_oid :: uuid
  identity_email :: string
  given_name :: "string option"
  surname :: "string option"
  identity_job_title :: "string option"
  identity_department :: "string option"
  identity_employee_id :: "string option"
  identity_group_ids :: "string list option"
  directory_profile_available :: bool

record login_settings =
  allowed_domain :: string
  staff_emails :: "string list"
  fold_accents :: "string \<Rightarrow> string"

definition rpartition_at :: "string \<Rightarrow> (string \<times> string) option" where
  "rpartition_at e =
     (let parts = py_split_on (CHR ''@'') e
      in if length parts < 2 then None else Some (py_join ''@'' (butlast parts), last parts))"

definition is_institutional_email :: "string \<Rightarrow> string \<Rightarrow> bool" where
  "is_institutional_email domain e =
     (case rpartition_at (py_lower (py_strip e)) of
        None \<Rightarrow> False
      | Some (local_part, d) \<Rightarrow> local_part \<noteq> [] \<and> d = domain)"

definition STUDENT_TITLES :: "string list" where
  "STUDENT_TITLES = [''ALUMNO'', ''ALUMNA'', ''ALUMNADO'', ''ESTUDIANTE'', ''STUDENT'']"

definition STAFF_MARKERS :: "string list" where
  "STAFF_MARKERS = [''PROFESOR'', ''DOCENTE'', ''TEACHER'', ''STAFF'', ''PERSONAL'', ''ADMINISTRAT'',
     ''DIRECTOR'', ''COORDINADOR'', ''COORDINADORA'', ''GERENTE'', ''MANAGER'']"

definition normalize_job_title :: "login_settings \<Rightarrow> string option \<Rightarrow> string" where
  "normalize_job_title cfg job =
     py_join '' '' (py_split_ws (py_upper (fold_accents cfg (case job of None \<Rightarrow> [] | Some t \<Rightarrow> t))))"

definition determine_initial_role :: "login_settings \<Rightarrow> identity \<Rightarrow> string \<Rightarrow> user_role" where
  "determine_initial_role cfg idn e =
     (let normalized_title = normalize_job_title cfg (identity_job_title idn)
      in if py_lower (py_strip e) \<in> set (map (\<lambda>x. py_lower (py_strip x)) (staff_emails cfg)) then STAFF
         else if normalized_title \<in> set STUDENT_TITLES then STUDENT
         else if list_ex (\<lambda>marker. py_contains normalized_title marker) STAFF_MARKERS then STAFF
         else STUDENT)"

definition clip :: "string \<Rightarrow> nat \<Rightarrow> string" where
  "clip v n = take n (py_strip v)"

definition reactivate_if_self_deactivated :: "user \<Rightarrow> (user \<times> bool) res" where
  "reactivate_if_self_deactivated u =
     (if is_active u then Inr (u, False)
      else if deactivated_at u = None then Inl AccountDisabledError
      else Inr (u\<lparr>is_active := True, deactivated_at := None\<rparr>, True))"

text \<open>\<open>User.save()\<close> with the unique columns \<open>email\<close> and \<open>microsoft_oid\<close> and \<open>varchar(255)\<close>.\<close>

definition save_user :: "user \<Rightarrow> db \<Rightarrow> db res" where
  "save_user u s =
     (if length (email u) > 255 then Inl (DataError ''accounts_user.email'')
      else if list_ex (\<lambda>v. user_id v \<noteq> user_id u \<and> email v = email u) (users s)
      then Inl (IntegrityError ''accounts_user_email_key'')
      else if list_ex (\<lambda>v. user_id v \<noteq> user_id u \<and> microsoft_oid v = microsoft_oid u \<and> microsoft_oid u \<noteq> None) (users s)
      then Inl (IntegrityError ''accounts_user_microsoft_oid_key'')
      else if list_ex (\<lambda>v. user_id v = user_id u) (users s)
      then Inr (edit_user (user_id u) (\<lambda>_. u) s)
      else Inr (s\<lparr>users := users s @ [u], next_id := max (next_id s) (Suc (user_id u))\<rparr>))"

definition sync_profile :: "uuid \<Rightarrow> identity \<Rightarrow> db \<Rightarrow> db" where
  "sync_profile u idn s =
     edit_profile u (\<lambda>p.
       p\<lparr>job_title := (case identity_job_title idn of None \<Rightarrow> job_title p | Some v \<Rightarrow> clip v 255),
         department := (case identity_department idn of None \<Rightarrow> department p | Some v \<Rightarrow> clip v 255),
         employee_id := (case identity_employee_id idn of None \<Rightarrow> employee_id p | Some v \<Rightarrow> clip v 64),
         microsoft_group_ids := (case identity_group_ids idn of None \<Rightarrow> microsoft_group_ids p | Some v \<Rightarrow> v)\<rparr>)
       (snd (ensure_profile s u))"

text \<open>The row a sign-in continues with: by object id, else by address, else a new one.\<close>

definition find_or_new_user ::
  "login_settings \<Rightarrow> identity \<Rightarrow> string \<Rightarrow> db \<Rightarrow> (user \<times> bool) res" where
  "find_or_new_user cfg idn e s =
     (case qs_first user_id (filter (\<lambda>u. microsoft_oid u = Some (identity_oid idn)) (users s)) of
        Some u \<Rightarrow> Inr (u, False)
      | None \<Rightarrow>
          (case qs_first user_id (filter (\<lambda>u. py_lower (email u) = py_lower e) (users s)) of
             Some u \<Rightarrow> if microsoft_oid u \<noteq> None then Inl AccountConflictError
                       else Inr (u\<lparr>microsoft_oid := Some (identity_oid idn)\<rparr>, False)
           | None \<Rightarrow>
               if \<not> directory_profile_available idn then Inl IdentityProviderUnavailableError
               else Inr (\<lparr>user_id = next_id s, email = e, microsoft_oid = Some (identity_oid idn),
                          role = determine_initial_role cfg idn e, nickname = [], first_name = [],
                          last_name = [], is_active = True, deactivated_at = None\<rparr>, True)))"

definition reconcile_user ::
  "login_settings \<Rightarrow> identity \<Rightarrow> string \<Rightarrow> db \<Rightarrow> bool \<Rightarrow> user \<Rightarrow> user" where
  "reconcile_user cfg idn e s created u =
     (let title_known = directory_profile_available idn \<and> identity_job_title idn \<noteq> None;
          u1 = (if \<not> created \<and> role u \<noteq> ADMIN \<and> title_known
                then u\<lparr>role := determine_initial_role cfg idn e\<rparr> else u);
          taken = list_ex (\<lambda>v. py_lower (email v) = py_lower e \<and> user_id v \<noteq> user_id u) (users s);
          u2 = (if \<not> created \<and> email u1 \<noteq> e \<and> \<not> taken then u1\<lparr>email := e\<rparr> else u1);
          u3 = (case given_name idn of None \<Rightarrow> u2 | Some v \<Rightarrow> u2\<lparr>first_name := clip v 150\<rparr>)
      in case surname idn of None \<Rightarrow> u3 | Some v \<Rightarrow> u3\<lparr>last_name := clip v 150\<rparr>)"

definition get_or_create_user ::
  "login_settings \<Rightarrow> identity \<Rightarrow> string \<Rightarrow> db \<Rightarrow> (user \<times> bool \<times> bool \<times> db) res" where
  "get_or_create_user cfg idn e s =
     (case find_or_new_user cfg idn e s of
        Inl x \<Rightarrow> Inl x
      | Inr (u, created) \<Rightarrow>
     (case reactivate_if_self_deactivated u of
        Inl x \<Rightarrow> Inl x
      | Inr (u1, reactivated) \<Rightarrow>
          (let u2 = reconcile_user cfg idn e s created u1
           in case save_user u2 s of
                Inl x \<Rightarrow> Inl x
              | Inr s1 \<Rightarrow> Inr (u2, created, reactivated, sync_profile (user_id u2) idn s1))))"

text \<open>\<open>_upsert_user\<close> runs the transaction again once if a unique constraint fired.\<close>

definition upsert_user ::
  "login_settings \<Rightarrow> identity \<Rightarrow> string \<Rightarrow> db \<Rightarrow> (user \<times> bool \<times> bool \<times> db) res" where
  "upsert_user cfg idn e s =
     (case get_or_create_user cfg idn e s of
        Inl (IntegrityError c) \<Rightarrow> get_or_create_user cfg idn e s
      | r \<Rightarrow> r)"

record login_result =
  login_user :: user
  login_created :: bool
  login_reactivated :: bool
  login_token :: uuid

definition login_with_microsoft ::
  "login_settings \<Rightarrow> (string \<Rightarrow> string \<Rightarrow> identity res) \<Rightarrow> string \<Rightarrow> string \<Rightarrow> db \<Rightarrow> (login_result \<times> db) res" where
  "login_with_microsoft cfg authenticate id_token access_token s =
     (case authenticate id_token access_token of
        Inl x \<Rightarrow> Inl x
      | Inr idn \<Rightarrow>
          (let e = py_lower (py_strip (identity_email idn))
           in if \<not> is_institutional_email (allowed_domain cfg) e then Inl DomainNotAllowedError
              else case upsert_user cfg idn e s of
                     Inl x \<Rightarrow> Inl x
                   | Inr (u, created, reactivated, s1) \<Rightarrow>
                       (let t = \<lparr>token_id = next_id s1, token_user = user_id u, blacklisted = False\<rparr>
                        in Inr (\<lparr>login_user = u, login_created = created, login_reactivated = reactivated,
                                 login_token = token_id t\<rparr>,
                                s1\<lparr>tokens := tokens s1 @ [t], next_id := Suc (next_id s1)\<rparr>))))"

section \<open>Deactivation\<close>

definition active_admin :: "user \<Rightarrow> bool" where
  "active_admin u \<longleftrightarrow> role u = ADMIN \<and> is_active u"

definition leads_alive_clan :: "db \<Rightarrow> uuid \<Rightarrow> bool" where
  "leads_alive_clan s u =
     list_ex (\<lambda>m. member m = u \<and> member_role m = LEADER \<and> member_status m = REQ_ACCEPTED \<and>
                   list_ex (\<lambda>c. clan_id c = member_clan m \<and> clan_alive c) (clans s)) (memberships s)"

definition wiped_profile :: "datetime \<Rightarrow> profile \<Rightarrow> profile" where
  "wiped_profile now p =
     p\<lparr>bio := [], preferences := [], unlocked_cosmetics := [], avatar_url := [],
       avatar_object_key := [], total_points := 0, available_points := 0, current_streak := 0,
       last_action_date := None, profile_visibility := PUBLIC_PROFILE, institutional_clan := None,
       career := [], onboarding_completed_at := None, nickname_changes := 0,
       progress_reset_at := Some now\<rparr>"

definition pending_of :: "uuid \<Rightarrow> action_log \<Rightarrow> bool" where
  "pending_of u l \<longleftrightarrow> log_user l = u \<and> log_status l = LOG_PENDING_AUDIT"

text \<open>
  The rows that go: memberships, participation, progress, badges (a post that shows one keeps
  its row without it), notifications and posts of the account.
\<close>

definition delete_own_rows :: "uuid \<Rightarrow> db \<Rightarrow> db" where
  "delete_own_rows u s =
     (let gone = map user_badge_id (filter (\<lambda>b. badge_owner b = u) (user_badges s));
          orphan = (\<lambda>p. if (case badge_user p of None \<Rightarrow> False | Some b \<Rightarrow> b \<in> set gone)
                        then p\<lparr>badge_user := None\<rparr> else p)
      in s\<lparr>memberships := qs_delete (\<lambda>m. member m = u) (memberships s),
           participants := qs_delete (\<lambda>p. participant_user p = u) (participants s),
           mission_progresses := qs_delete (\<lambda>p. progress_user p = u) (mission_progresses s),
           user_badges := qs_delete (\<lambda>b. badge_owner b = u) (user_badges s),
           notifications := qs_delete (\<lambda>n. notification_user n = u) (notifications s),
           posts := qs_delete (\<lambda>p. author p = Some u) (map orphan (posts s))\<rparr>)"

definition reject_pending_logs :: "datetime \<Rightarrow> uuid \<Rightarrow> db \<Rightarrow> db" where
  "reject_pending_logs now u s =
     s\<lparr>action_logs := qs_update (pending_of u)
         (\<lambda>l. l\<lparr>log_status := LOG_REJECTED, log_reviewed_at := Some now,
                log_rejection_reason := ''The account was deactivated.''\<rparr>) (action_logs s)\<rparr>"

definition deactivate_account :: "db \<Rightarrow> datetime \<Rightarrow> uuid \<Rightarrow> (user \<times> db) res" where
  "deactivate_account s now u =
     (let locked_users = filter (\<lambda>x. active_admin x \<or> user_id x = u) (users s);
          active_admins = filter active_admin locked_users
      in case find (\<lambda>x. user_id x = u) locked_users of
           None \<Rightarrow> Inl (RuntimeError ''StopIteration'')
         | Some locked \<Rightarrow>
             if role locked = ADMIN \<and> length active_admins \<le> 1
             then Inl (AccountDeactivationBlockedError
                    ''You are the last administrator; promote another admin first.'')
             else if leads_alive_clan s u
             then Inl (AccountDeactivationBlockedError
                    ''You lead a clan; transfer its leadership or dissolve it first.'')
             else
               (let evidence_keys = filter (\<lambda>k. k \<noteq> [])
                      (map evidence_object_key (filter (pending_of u) (action_logs s)));
                    s1 = reject_pending_logs now u (delete_own_rows u s);
                    (p, s2) = ensure_profile s1 u;
                    s3 = edit_profile u (wiped_profile now) s2;
                    close = (\<lambda>x. x\<lparr>nickname := [], is_active := False, deactivated_at := Some now\<rparr>);
                    s4 = edit_user u close s3;
                    s5 = s4\<lparr>tokens := qs_update (\<lambda>t. token_user t = u) (\<lambda>t. t\<lparr>blacklisted := True\<rparr>) (tokens s4)\<rparr>;
                    s6 = fold delete_action_evidence evidence_keys s5;
                    s7 = (if avatar_object_key p \<noteq> [] then delete_profile_avatar u (avatar_object_key p) s6 else s6)
                in Inr (close locked, close_user_sockets u s7)))"

section \<open>Roles\<close>

definition update_user_role :: "db \<Rightarrow> datetime \<Rightarrow> uuid option \<Rightarrow> uuid \<Rightarrow> string \<Rightarrow> (user \<times> db) res" where
  "update_user_role s now admin_user u new_role_name =
     (case role_of_string new_role_name of
        None \<Rightarrow> Inl RequestValidationError
      | Some r \<Rightarrow>
          (let locked_users = filter (\<lambda>x. active_admin x \<or> user_id x = u) (users s)
           in case find (\<lambda>x. user_id x = u) locked_users of
                None \<Rightarrow> Inl DoesNotExist
              | Some locked \<Rightarrow>
                  if role locked = ADMIN \<and> r \<noteq> ADMIN \<and> length (filter active_admin locked_users) \<le> 1
                  then Inl CannotDemoteLastAdminError
                  else if role locked = r then Inr (locked, s)
                  else (let a = \<lparr>audit_id = next_id s, audit_user = u, changed_by = admin_user,
                                 previous_role = role locked, new_role = r, audit_created_at = now\<rparr>;
                            s1 = edit_user u (\<lambda>x. x\<lparr>role := r\<rparr>) s
                        in Inr (locked\<lparr>role := r\<rparr>,
                                s1\<lparr>role_audits := role_audits s @ [a], next_id := Suc (next_id s)\<rparr>))))"

section \<open>Invariants\<close>

definition users_ok :: "db \<Rightarrow> bool" where
  "users_ok s \<longleftrightarrow> distinct (map user_id (users s)) \<and> (\<forall>x \<in> set (users s). user_id x < next_id s) \<and>
     (\<forall>x \<in> set (users s). \<forall>y \<in> set (users s). user_id x \<noteq> user_id y \<longrightarrow> email x \<noteq> email y) \<and>
     (\<forall>x \<in> set (users s). \<forall>y \<in> set (users s). user_id x \<noteq> user_id y \<longrightarrow> microsoft_oid x \<noteq> None \<longrightarrow>
        microsoft_oid x \<noteq> microsoft_oid y)"

definition points_ok :: "profile \<Rightarrow> bool" where
  "points_ok p \<longleftrightarrow> 0 \<le> available_points p \<and> available_points p \<le> total_points p"

definition profiles_ok :: "db \<Rightarrow> bool" where
  "profiles_ok s \<longleftrightarrow> distinct (map profile_user (profiles s)) \<and> (\<forall>p \<in> set (profiles s). points_ok p)"

definition has_admin :: "db \<Rightarrow> bool" where
  "has_admin s \<longleftrightarrow> list_ex active_admin (users s)"

definition accounts_ok :: "db \<Rightarrow> bool" where
  "accounts_ok s \<longleftrightarrow> users_ok s \<and> profiles_ok s"

text \<open>
  A write on the profile of one person: it never moves the row to another person, and where
  its guard holds it keeps \<open>0 \<le> available_points \<le> total_points\<close>. Each service that writes
  profiles interprets the locale for its columns.
\<close>

locale balance_edit =
  fixes guard :: "profile \<Rightarrow> bool" and f :: "profile \<Rightarrow> profile"
  assumes owner_kept: "profile_user (f p) = profile_user p"
    and balance_kept: "guard p \<Longrightarrow> points_ok p \<Longrightarrow> points_ok (f p)"
begin

lemma edit_profiles_ok:
  assumes "profiles_ok s" "\<forall>p \<in> set (profiles s). profile_user p = u \<longrightarrow> guard p"
  shows "profiles_ok (edit_profile u f s)"
  using assms by (auto simp: profiles_ok_def edit_profile_def ball_qs_update owner_kept intro: balance_kept)

end

interpretation profile_text: balance_edit "\<lambda>_. True" "apply_profile_edit b prefs vis url" for b prefs vis url
  by unfold_locales (auto simp: apply_profile_edit_def Let_def points_ok_def split: option.splits)

interpretation profile_photo: balance_edit "\<lambda>_. True" "\<lambda>p. p\<lparr>avatar_object_key := k, avatar_url := []\<rparr>" for k
  by unfold_locales (auto simp: points_ok_def)

interpretation nickname_charge: balance_edit "\<lambda>p. 0 \<le> cost \<and> cost \<le> available_points p"
    "\<lambda>p. p\<lparr>available_points := available_points p - cost, nickname_changes := Suc (nickname_changes p)\<rparr>" for cost
  by unfold_locales (auto simp: points_ok_def)

interpretation profile_wipe: balance_edit "\<lambda>_. True" "wiped_profile now" for now
  by unfold_locales (auto simp: wiped_profile_def points_ok_def)

interpretation profile_sync: balance_edit "\<lambda>_. True"
    "\<lambda>p. p\<lparr>job_title := g1 p, department := g2 p, employee_id := g3 p, microsoft_group_ids := g4 p\<rparr>" for g1 g2 g3 g4
  by unfold_locales (auto simp: points_ok_def)

lemma profile_of_SomeD: "profile_of s u = Some p \<Longrightarrow> p \<in> set (profiles s) \<and> profile_user p = u"
  by (auto simp: profile_of_def find_Some_iff)

lemma profile_of_NoneD: "profile_of s u = None \<Longrightarrow> \<forall>p \<in> set (profiles s). profile_user p \<noteq> u"
  by (auto simp: profile_of_def find_None_iff)

lemma profiles_ok_unique:
  "profiles_ok s \<Longrightarrow> p \<in> set (profiles s) \<Longrightarrow> q \<in> set (profiles s) \<Longrightarrow> profile_user p = profile_user q \<Longrightarrow> p = q"
  by (auto simp: profiles_ok_def dest: inj_on_pk)

lemma ensure_profile_facts:
  assumes "ensure_profile s u = (p, s1)"
  shows "profile_user p = u" "p \<in> set (profiles s1)" "s1 = s\<lparr>profiles := profiles s1\<rparr>"
    "profiles_ok s \<Longrightarrow> profiles_ok s1" "profile_of s u = Some q \<Longrightarrow> p = q \<and> s1 = s"
    "profile_of s u = None \<Longrightarrow> p = new_profile u"
    "set (profiles s) \<subseteq> set (profiles s1)"
  using assms profile_of_SomeD [of s u] profile_of_NoneD [of s u]
  by (auto simp: ensure_profile_def profiles_ok_def new_profile_def points_ok_def split: option.splits)

lemma find_snoc: "find P xs = None \<Longrightarrow> P x \<Longrightarrow> find P (xs @ [x]) = Some x"
  by (induction xs) (auto split: if_splits)

lemma ensure_profile_of:
  assumes "ensure_profile s u = (p, s1)" shows "profile_of s1 u = Some p"
proof (cases "profile_of s u")
  case None
  then have "find (\<lambda>p. profile_user p = u) (profiles s) = None" by (simp add: profile_of_def)
  from find_snoc [OF this, of "new_profile u"] show ?thesis
    using assms None by (auto simp: ensure_profile_def profile_of_def new_profile_def)
qed (use assms in \<open>simp add: ensure_profile_def\<close>)

lemma new_profile_simps [simp]:
  "profile_user (new_profile u) = u" "total_points (new_profile u) = 0"
  "available_points (new_profile u) = 0" "nickname_changes (new_profile u) = 0"
  "avatar_object_key (new_profile u) = []" "institutional_clan (new_profile u) = None"
  by (simp_all add: new_profile_def)

text \<open>Creating a profile, editing one and deleting a file leave the accounts as they were.\<close>

lemma edit_profile_frame [simp, frame]:
  "users (edit_profile u f s) = users s" "next_id (edit_profile u f s) = next_id s"
  "clans (edit_profile u f s) = clans s" "memberships (edit_profile u f s) = memberships s"
  "role_audits (edit_profile u f s) = role_audits s" "invitations (edit_profile u f s) = invitations s"
  "action_logs (edit_profile u f s) = action_logs s" "tokens (edit_profile u f s) = tokens s"
  by (simp_all add: edit_profile_def)

lemma edit_user_frame [simp, frame]:
  "profiles (edit_user u f s) = profiles s" "next_id (edit_user u f s) = next_id s"
  "clans (edit_user u f s) = clans s" "memberships (edit_user u f s) = memberships s"
  "role_audits (edit_user u f s) = role_audits s" "invitations (edit_user u f s) = invitations s"
  "action_logs (edit_user u f s) = action_logs s" "tokens (edit_user u f s) = tokens s"
  by (simp_all add: edit_user_def)

lemma users_ok_cong: "users s' = users s \<Longrightarrow> next_id s \<le> next_id s' \<Longrightarrow> users_ok s \<Longrightarrow> users_ok s'"
  by (auto simp: users_ok_def)

lemma profiles_ok_cong: "profiles s' = profiles s \<Longrightarrow> profiles_ok s \<Longrightarrow> profiles_ok s'"
  by (simp add: profiles_ok_def)

lemma users_ok_unique:
  "users_ok s \<Longrightarrow> x \<in> set (users s) \<Longrightarrow> y \<in> set (users s) \<Longrightarrow> user_id x = user_id y \<Longrightarrow> x = y"
  by (auto simp: users_ok_def dest: inj_on_pk)

lemma users_ok_oid:
  "users_ok s \<Longrightarrow> x \<in> set (users s) \<Longrightarrow> y \<in> set (users s) \<Longrightarrow> user_id x \<noteq> user_id y \<Longrightarrow>
   microsoft_oid x \<noteq> None \<Longrightarrow> microsoft_oid y \<noteq> microsoft_oid x"
  unfolding users_ok_def by metis

lemma users_ok_email:
  "users_ok s \<Longrightarrow> x \<in> set (users s) \<Longrightarrow> y \<in> set (users s) \<Longrightarrow> user_id x \<noteq> user_id y \<Longrightarrow> email y \<noteq> email x"
  unfolding users_ok_def by metis

lemma get_user_InrD: "get_user s u = Inr x \<Longrightarrow> x \<in> set (users s) \<and> user_id x = u"
  by (auto simp: get_user_def dest: qs_get_InrD(1,2))

lemma get_user_iff: "users_ok s \<Longrightarrow> x \<in> set (users s) \<Longrightarrow> user_id x = u \<Longrightarrow> get_user s u = Inr x"
  unfolding get_user_def by (rule qs_get_eqI) (auto simp: users_ok_def distinct_map dest: inj_onD)

text \<open>A write that keeps the id, the address and the object id of an account.\<close>

lemma edit_user_ok:
  assumes "users_ok s" "\<And>x. user_id (f x) = user_id x" "\<And>x. email (f x) = email x"
    "\<And>x. microsoft_oid (f x) = microsoft_oid x"
  shows "users_ok (edit_user u f s)"
  using assms(1) unfolding users_ok_def edit_user_def by (simp add: ball_qs_update assms(2-4)) blast

lemma delete_profile_avatar_frame [simp, frame]:
  "users (delete_profile_avatar u k s) = users s" "profiles (delete_profile_avatar u k s) = profiles s"
  "next_id (delete_profile_avatar u k s) = next_id s" "tokens (delete_profile_avatar u k s) = tokens s"
  "clans (delete_profile_avatar u k s) = clans s" "memberships (delete_profile_avatar u k s) = memberships s"
  "action_logs (delete_profile_avatar u k s) = action_logs s"
  "invitations (delete_profile_avatar u k s) = invitations s"
  by (simp_all add: delete_profile_avatar_def delete_image_def)

lemma ensure_profile_frame:
  assumes "ensure_profile s u = (p, s1)"
  shows "users s1 = users s" "next_id s1 = next_id s" "clans s1 = clans s" "memberships s1 = memberships s"
    "action_logs s1 = action_logs s" "tokens s1 = tokens s" "role_audits s1 = role_audits s"
    "invitations s1 = invitations s" "media s1 = media s"
  using assms by (auto simp: ensure_profile_def split: option.splits)

lemma update_profile_ok:
  assumes "accounts_ok s" "update_profile s u b prefs vis url = Inr (p', s')"
  shows "accounts_ok s' \<and> users s' = users s"
proof -
  obtain p s1 where e: "ensure_profile s u = (p, s1)" by force
  have k: "profiles_ok (edit_profile u (apply_profile_edit b prefs vis url) s1)"
    using assms(1) ensure_profile_facts(4) [OF e] by (auto simp: accounts_ok_def intro: profile_text.edit_profiles_ok)
  from assms(2) have "users s' = users s1 \<and> next_id s' = next_id s1 \<and>
      profiles s' = profiles (edit_profile u (apply_profile_edit b prefs vis url) s1)"
    by (auto simp: update_profile_def e Let_def split: sum.splits if_splits)
  then show ?thesis
    using assms(1) k ensure_profile_frame [OF e]
    by (auto simp: accounts_ok_def intro: users_ok_cong profiles_ok_cong)
qed

lemma set_profile_avatar_ok:
  assumes "accounts_ok s" "set_profile_avatar s u up = Inr (p', s')"
  shows "accounts_ok s' \<and> users s' = users s"
proof -
  obtain p s1 where e: "ensure_profile s u = (p, s1)" by force
  from assms(2) obtain k s2
    where k: "(case up of None \<Rightarrow> Inr ([], s1) | Some up \<Rightarrow> save_profile_avatar s1 u up) = Inr (k, s2)"
    and s': "users s' = users s2" "next_id s' = next_id s2"
      "profiles s' = profiles (edit_profile u (\<lambda>p. p\<lparr>avatar_object_key := k, avatar_url := []\<rparr>) s2)"
    by (auto simp: set_profile_avatar_def e Let_def split: sum.splits if_splits)
  have s2: "users s2 = users s1" "next_id s1 \<le> next_id s2" "profiles s2 = profiles s1"
    using k by (auto simp: save_profile_avatar_def dest: save_image_InrD split: option.splits)
  have "profiles_ok s2" using s2(3) assms(1) ensure_profile_facts(4) [OF e]
    by (auto simp: accounts_ok_def intro: profiles_ok_cong)
  then have "profiles_ok (edit_profile u (\<lambda>p. p\<lparr>avatar_object_key := k, avatar_url := []\<rparr>) s2)"
    by (rule profile_photo.edit_profiles_ok) simp
  then show ?thesis
    using assms(1) s2 s' ensure_profile_frame [OF e]
    by (auto simp: accounts_ok_def intro: users_ok_cong profiles_ok_cong)
qed

text \<open>The state of a committed nickname change.\<close>

lemma change_nickname_InrD:
  assumes "change_nickname s u nick = Inr (r, s')" "ensure_profile s u = (p, s1)"
  shows "\<exists>locked. get_user s u = Inr locked \<and> is_active locked \<and> nick \<noteq> nickname locked \<and>
      nickname_change_cost p \<le> available_points p \<and> length nick \<le> 50 \<and>
      s' = edit_profile u (\<lambda>q. q\<lparr>available_points := available_points q - nickname_change_cost p,
             nickname_changes := Suc (nickname_changes q)\<rparr>) (edit_user u (\<lambda>x. x\<lparr>nickname := nick\<rparr>) s1) \<and>
      r = \<lparr>changed_nickname = nick, points_spent = nickname_change_cost p,
           change_available_points = available_points p - nickname_change_cost p,
           next_change_cost = NICKNAME_CHANGE_COST_POINTS\<rparr>"
  using assms
  by (auto simp: change_nickname_def ensure_account_writable_def nickname_change_cost_def Let_def
      split: sum.splits if_splits)

lemma change_nickname_ok:
  assumes "accounts_ok s" "change_nickname s u nick = Inr (r, s')"
  shows "accounts_ok s' \<and> map active_admin (users s') = map active_admin (users s)"
proof -
  obtain p s1 where e: "ensure_profile s u = (p, s1)" by force
  note d = change_nickname_InrD [OF assms(2) e] and f = ensure_profile_facts [OF e]
  define cost where "cost = nickname_change_cost p"
  have c: "0 \<le> cost" "cost \<le> available_points p"
    using d by (auto simp: cost_def nickname_change_cost_def NICKNAME_CHANGE_COST_POINTS_def)
  have ok1: "profiles_ok s1" using assms(1) f(4) by (simp add: accounts_ok_def)
  then have "profiles_ok (edit_user u (\<lambda>x. x\<lparr>nickname := nick\<rparr>) s1)" by (rule profiles_ok_cong [rotated]) simp
  moreover have "\<forall>q \<in> set (profiles s1). profile_user q = u \<longrightarrow> 0 \<le> cost \<and> cost \<le> available_points q"
  proof (intro ballI impI)
    fix q assume "q \<in> set (profiles s1)" "profile_user q = u"
    then have "q = p" using profiles_ok_unique [OF ok1 _ f(2)] f(1) by simp
    then show "0 \<le> cost \<and> cost \<le> available_points q" using c by simp
  qed
  ultimately have "profiles_ok s'"
    using d unfolding cost_def [symmetric] by (auto intro: nickname_charge.edit_profiles_ok)
  moreover have "users_ok (edit_user u (\<lambda>x. x\<lparr>nickname := nick\<rparr>) s1)"
    using assms(1) ensure_profile_frame [OF e]
    by (intro edit_user_ok users_ok_cong [of s1 s]) (auto simp: accounts_ok_def)
  moreover have u': "users s' = users (edit_user u (\<lambda>x. x\<lparr>nickname := nick\<rparr>) s1)" "next_id s' = next_id s1"
    using d by auto
  ultimately have "accounts_ok s'" by (auto simp: accounts_ok_def intro: users_ok_cong)
  moreover have "map active_admin (users s') = map active_admin (users s)"
    using u'(1) ensure_profile_frame(1) [OF e] by (simp add: edit_user_def active_admin_def)
  ultimately show ?thesis by simp
qed

section \<open>Sign-in\<close>

text \<open>The row a sign-in found, before anything is written.\<close>

lemma find_or_new_user_InrD:
  assumes "find_or_new_user cfg idn e s = Inr (u, created)"
  shows "microsoft_oid u = Some (identity_oid idn)"
    "\<not> created \<Longrightarrow> \<exists>x \<in> set (users s). user_id x = user_id u \<and> email x = email u \<and> role x = role u \<and>
       is_active x = is_active u \<and> deactivated_at x = deactivated_at u \<and>
       (microsoft_oid x = microsoft_oid u \<or> (\<forall>v \<in> set (users s). microsoft_oid v \<noteq> microsoft_oid u))"
    "created \<Longrightarrow> user_id u = next_id s \<and> email u = e \<and> is_active u \<and> directory_profile_available idn \<and>
       role u = determine_initial_role cfg idn e \<and>
       (\<forall>v \<in> set (users s). py_lower (email v) \<noteq> py_lower e \<and> microsoft_oid v \<noteq> microsoft_oid u)"
proof -
  let ?by_oid = "qs_first user_id (filter (\<lambda>u. microsoft_oid u = Some (identity_oid idn)) (users s))"
  let ?by_email = "qs_first user_id (filter (\<lambda>u. py_lower (email u) = py_lower e) (users s))"
  have none: "?by_oid = None \<Longrightarrow> \<forall>v \<in> set (users s). microsoft_oid v \<noteq> Some (identity_oid idn)"
    by (auto simp: filter_empty_conv)
  have no_email: "?by_email = None \<Longrightarrow> \<forall>v \<in> set (users s). py_lower (email v) \<noteq> py_lower e"
    by (auto simp: filter_empty_conv)
  note def = assms [unfolded find_or_new_user_def]
  show "microsoft_oid u = Some (identity_oid idn)"
    using def by (auto dest!: qs_first_filterD split: option.splits if_splits)
  show "\<exists>x \<in> set (users s). user_id x = user_id u \<and> email x = email u \<and> role x = role u \<and>
       is_active x = is_active u \<and> deactivated_at x = deactivated_at u \<and>
       (microsoft_oid x = microsoft_oid u \<or> (\<forall>v \<in> set (users s). microsoft_oid v \<noteq> microsoft_oid u))"
    if "\<not> created"
  proof (cases ?by_oid)
    case None
    with def that obtain x where x: "?by_email = Some x" "u = x\<lparr>microsoft_oid := Some (identity_oid idn)\<rparr>"
      by (auto split: option.splits if_splits)
    then have "x \<in> set (users s)" by (auto dest: qs_first_filterD)
    with x none [OF None] show ?thesis by (intro bexI [of _ x]) simp_all
  next
    case (Some x)
    then have "u = x" "x \<in> set (users s)" using def by (auto dest: qs_first_filterD)
    then show ?thesis by blast
  qed
  show "user_id u = next_id s \<and> email u = e \<and> is_active u \<and> directory_profile_available idn \<and>
       role u = determine_initial_role cfg idn e \<and>
       (\<forall>v \<in> set (users s). py_lower (email v) \<noteq> py_lower e \<and> microsoft_oid v \<noteq> microsoft_oid u)"
    if created
  proof -
    have n: "?by_oid = None" "?by_email = None" using def that by (auto split: option.splits if_splits)
    then show ?thesis using def that none [OF n(1)] no_email [OF n(2)] by (auto split: if_splits)
  qed
qed

lemma reactivate_InrD:
  assumes "reactivate_if_self_deactivated u = Inr (u1, b)"
  shows "is_active u1" "user_id u1 = user_id u" "email u1 = email u" "role u1 = role u"
    "microsoft_oid u1 = microsoft_oid u" "b \<longleftrightarrow> \<not> is_active u" "is_active u \<or> deactivated_at u \<noteq> None"
  using assms by (auto simp: reactivate_if_self_deactivated_def split: if_splits)

lemma reconcile_user_facts:
  assumes v: "v = reconcile_user cfg idn e s created u"
  shows "user_id v = user_id u" "microsoft_oid v = microsoft_oid u" "is_active v = is_active u"
    "role u = ADMIN \<Longrightarrow> role v = ADMIN" "deactivated_at v = deactivated_at u"
    "email v = email u \<or> email v = e \<and> (\<forall>x \<in> set (users s). py_lower (email x) = py_lower e \<longrightarrow> user_id x = user_id u)"
    "created \<Longrightarrow> role v = role u \<and> email v = email u"
  unfolding v reconcile_user_def Let_def
  by (auto simp: list_ex_iff split: option.splits)

lemma save_user_ok:
  assumes "users_ok s" "save_user u s = Inr s1"
  shows "users_ok s1 \<and> u \<in> set (users s1) \<and> profiles s1 = profiles s \<and>
    filter (\<lambda>x. user_id x \<noteq> user_id u) (users s1) = filter (\<lambda>x. user_id x \<noteq> user_id u) (users s)"
proof -
  have email: "\<forall>v \<in> set (users s). user_id v \<noteq> user_id u \<longrightarrow> email v \<noteq> email u"
    and oid: "\<forall>v \<in> set (users s). user_id v \<noteq> user_id u \<longrightarrow> microsoft_oid u \<noteq> None \<longrightarrow> microsoft_oid v \<noteq> microsoft_oid u"
    using assms(2) by (auto simp: save_user_def list_ex_iff split: if_splits)
  show ?thesis
  proof (cases "list_ex (\<lambda>v. user_id v = user_id u) (users s)")
    case True
    then have s1: "s1 = edit_user (user_id u) (\<lambda>_. u) s" using assms(2) by (auto simp: save_user_def split: if_splits)
    have "map user_id (qs_update (\<lambda>x. user_id x = user_id u) (\<lambda>_. u) (users s)) = map user_id (users s)"
      by (auto simp: qs_update_def)
    then have "users_ok s1"
      using assms(1) True email oid unfolding users_ok_def s1 edit_user_def
      by (simp add: ball_qs_update list_ex_iff) metis
    moreover have "u \<in> set (users s1)" using True by (auto simp: s1 edit_user_def set_qs_update list_ex_iff image_iff)
    moreover have "filter (\<lambda>x. user_id x \<noteq> user_id u) (qs_update (\<lambda>x. user_id x = user_id u) (\<lambda>_. u) xs) =
      filter (\<lambda>x. user_id x \<noteq> user_id u) xs" for xs
      by (induction xs) (auto simp: qs_update_def)
    ultimately show ?thesis by (simp add: s1) (simp add: edit_user_def)
  next
    case False
    then have s1: "s1 = s\<lparr>users := users s @ [u], next_id := max (next_id s) (Suc (user_id u))\<rparr>"
      using assms(2) by (auto simp: save_user_def split: if_splits)
    have new: "\<forall>v \<in> set (users s). user_id v \<noteq> user_id u" using False by (simp add: list_ex_iff)
    then have "users_ok s1"
      using assms(1) email oid unfolding users_ok_def s1 by (auto simp: less_max_iff_disj) 
    then show ?thesis using new by (simp add: s1)
  qed
qed

lemma edit_profile_same_owner:
  "(\<And>p. profile_user (f p) = profile_user p) \<Longrightarrow> map profile_user (profiles (edit_profile u f s)) = map profile_user (profiles s)"
  by (simp add: edit_profile_def)

lemma sync_profile_facts:
  "users (sync_profile u idn s) = users s" "next_id (sync_profile u idn s) = next_id s"
  "tokens (sync_profile u idn s) = tokens s"
  "profiles_ok s \<Longrightarrow> profiles_ok (sync_profile u idn s)"
proof -
  obtain p s1 where e: "ensure_profile s u = (p, s1)" by force
  show "users (sync_profile u idn s) = users s" "next_id (sync_profile u idn s) = next_id s"
    "tokens (sync_profile u idn s) = tokens s"
    using ensure_profile_frame [OF e] by (simp_all add: sync_profile_def e)
  show "profiles_ok (sync_profile u idn s)" if "profiles_ok s"
    unfolding sync_profile_def e snd_conv
    by (rule profile_sync.edit_profiles_ok [OF ensure_profile_facts(4) [OF e that]]) simp
qed

lemma get_or_create_user_InrD:
  assumes "accounts_ok s" "get_or_create_user cfg idn e s = Inr (u, created, reactivated, s')"
  shows "accounts_ok s'" "u \<in> set (users s')" "is_active u" "microsoft_oid u = Some (identity_oid idn)"
    "filter (\<lambda>x. user_id x \<noteq> user_id u) (users s') = filter (\<lambda>x. user_id x \<noteq> user_id u) (users s)"
    "\<not> created \<Longrightarrow> \<exists>x \<in> set (users s). user_id x = user_id u \<and> (is_active x \<or> deactivated_at x \<noteq> None) \<and>
       (role x = ADMIN \<longrightarrow> role u = ADMIN) \<and> reactivated = (\<not> is_active x)"
    "created \<Longrightarrow> user_id u \<notin> user_id ` set (users s) \<and> \<not> reactivated \<and> email u = e \<and>
       directory_profile_available idn \<and> role u = determine_initial_role cfg idn e"
proof -
  from assms(2) obtain u0 u1 s1 where f: "find_or_new_user cfg idn e s = Inr (u0, created)"
    and r: "reactivate_if_self_deactivated u0 = Inr (u1, reactivated)"
    and u: "u = reconcile_user cfg idn e s created u1" and sv: "save_user u s = Inr s1"
    and s': "s' = sync_profile (user_id u) idn s1"
    by (auto simp: get_or_create_user_def Let_def split: sum.splits)
  note fd = find_or_new_user_InrD [OF f] and rd = reactivate_InrD [OF r] and cd = reconcile_user_facts [OF u]
  have ok: "users_ok s" "profiles_ok s" using assms(1) by (simp_all add: accounts_ok_def)
  note sd = save_user_ok [OF ok(1) sv]
  have "profiles_ok s1" using sd ok(2) by (auto intro: profiles_ok_cong)
  then show "accounts_ok s'"
    using sd sync_profile_facts [where u = "user_id u" and idn = idn and s = s1] by (auto simp: accounts_ok_def s' intro: users_ok_cong)
  show "u \<in> set (users s')" "is_active u" "microsoft_oid u = Some (identity_oid idn)"
    "filter (\<lambda>x. user_id x \<noteq> user_id u) (users s') = filter (\<lambda>x. user_id x \<noteq> user_id u) (users s)"
    using sd fd(1) rd cd by (simp_all add: s' sync_profile_facts)
  show "\<exists>x \<in> set (users s). user_id x = user_id u \<and> (is_active x \<or> deactivated_at x \<noteq> None) \<and>
       (role x = ADMIN \<longrightarrow> role u = ADMIN) \<and> reactivated = (\<not> is_active x)" if "\<not> created"
  proof -
    from fd(2) [OF that] obtain x where "x \<in> set (users s)" "user_id x = user_id u0" "role x = role u0"
      "is_active x = is_active u0" "deactivated_at x = deactivated_at u0" by blast
    then show ?thesis using rd cd(1,4) by (intro bexI [of _ x]) auto
  qed
  show "user_id u \<notin> user_id ` set (users s) \<and> \<not> reactivated \<and> email u = e \<and>
       directory_profile_available idn \<and> role u = determine_initial_role cfg idn e" if created
    using fd(3) [OF that] rd cd(1) cd(7) [OF that] ok(1) by (auto simp: users_ok_def)
qed

lemma get_or_create_user_unique:
  assumes "accounts_ok s" shows "get_or_create_user cfg idn e s \<noteq> Inl (IntegrityError c)"
proof
  assume a: "get_or_create_user cfg idn e s = Inl (IntegrityError c)"
  have "find_or_new_user cfg idn e s \<noteq> Inl (IntegrityError c)"
    by (auto simp: find_or_new_user_def split: option.splits if_splits)
  moreover have "reactivate_if_self_deactivated x \<noteq> Inl (IntegrityError c)" for x
    by (auto simp: reactivate_if_self_deactivated_def)
  ultimately obtain u0 created u1 b u where f: "find_or_new_user cfg idn e s = Inr (u0, created)"
    and r: "reactivate_if_self_deactivated u0 = Inr (u1, b)"
    and u: "u = reconcile_user cfg idn e s created u1" and sv: "save_user u s = Inl (IntegrityError c)"
    using a by (auto simp: get_or_create_user_def Let_def split: sum.splits)
  note fd = find_or_new_user_InrD [OF f] and rd = reactivate_InrD [OF r] and cd = reconcile_user_facts [OF u]
  have ok: "users_ok s" using assms by (simp add: accounts_ok_def)
  have oid: "microsoft_oid v \<noteq> microsoft_oid u" if "v \<in> set (users s)" "user_id v \<noteq> user_id u" for v
  proof (cases created)
    case True then show ?thesis using fd(3) cd(2) rd(5) that by simp
  next
    case False
    then obtain x where "x \<in> set (users s)" "user_id x = user_id u0"
      "microsoft_oid x = microsoft_oid u0 \<or> (\<forall>v \<in> set (users s). microsoft_oid v \<noteq> microsoft_oid u0)"
      using fd(2) by blast
    moreover have "microsoft_oid v \<noteq> microsoft_oid x" if "microsoft_oid x = microsoft_oid u0"
      using calculation that \<open>v \<in> set (users s)\<close> \<open>user_id v \<noteq> user_id u\<close> users_ok_oid [OF ok, of x v] fd(1) cd(1) rd(2) by auto
    ultimately show ?thesis using \<open>v \<in> set (users s)\<close> cd(2) rd(5) by auto
  qed
  have "email v \<noteq> email u" if v: "v \<in> set (users s)" "user_id v \<noteq> user_id u" for v
  proof (cases created)
    case True then show ?thesis using fd(3) cd(7) rd(3) v by auto
  next
    case False
    then obtain x where x: "x \<in> set (users s)" "user_id x = user_id u0" "email x = email u0" using fd(2) by blast
    show ?thesis
      using cd(6)
    proof
      assume "email u = email u1"
      then show ?thesis using users_ok_email [OF ok x(1) v(1)] x(2,3) v(2) cd(1) rd(2,3) by simp
    next
      assume "email u = e \<and> (\<forall>x \<in> set (users s). py_lower (email x) = py_lower e \<longrightarrow> user_id x = user_id u1)"
      with v cd(1) show ?thesis by metis
    qed
  qed
  with oid sv show False by (auto simp: save_user_def list_ex_iff split: if_splits)
qed

lemma upsert_user_eq: "accounts_ok s \<Longrightarrow> upsert_user cfg idn e s = get_or_create_user cfg idn e s"
  using get_or_create_user_unique [of s cfg idn e] by (auto simp: upsert_user_def split: sum.splits exc.splits)

section \<open>Roles and deactivation keep an administrator\<close>

interpretation user_role_edit: keyed_edit user_id "\<lambda>r x. x\<lparr>role := r\<rparr>"
  by unfold_locales simp

interpretation user_close_edit:
  keyed_edit user_id "\<lambda>t x. x\<lparr>nickname := [], is_active := False, deactivated_at := Some t\<rparr>"
  by unfold_locales simp

definition admin_count :: "db \<Rightarrow> nat" where
  "admin_count s = length (filter active_admin (users s))"

lemma has_admin_count: "has_admin s \<longleftrightarrow> 0 < admin_count s"
  by (auto simp: has_admin_def admin_count_def list_ex_iff filter_empty_conv)

lemma locked_admins:
  "filter (\<lambda>x. (active_admin x \<or> user_id x = u) \<and> active_admin x) xs = filter active_admin xs"
  by (rule filter_cong) auto

lemma find_locked:
  assumes "find (\<lambda>x. user_id x = u) (filter (\<lambda>x. active_admin x \<or> user_id x = u) xs) = Some x"
  shows "x \<in> set xs" "user_id x = u"
  using assms by (auto simp: find_Some_iff) (metis filter_is_subset nth_mem subsetD)

lemma find_locked_None:
  "find (\<lambda>x. user_id x = u) (filter (\<lambda>x. active_admin x \<or> user_id x = u) xs) = None \<longleftrightarrow> (\<forall>x \<in> set xs. user_id x \<noteq> u)"
  by (auto simp: find_None_iff)

lemma update_user_role_InrD:
  assumes "update_user_role s now a u rn = Inr (x', s')"
  shows "\<exists>r x. role_of_string rn = Some r \<and> x \<in> set (users s) \<and> user_id x = u \<and> x' = x\<lparr>role := r\<rparr> \<and>
    \<not> (role x = ADMIN \<and> r \<noteq> ADMIN \<and> admin_count s \<le> 1) \<and>
    (if role x = r then s' = s
     else s' = (edit_user u (\<lambda>x. x\<lparr>role := r\<rparr>) s)\<lparr>role_audits := role_audits s @
            [\<lparr>audit_id = next_id s, audit_user = u, changed_by = a, previous_role = role x, new_role = r,
              audit_created_at = now\<rparr>], next_id := Suc (next_id s)\<rparr>)"
proof -
  from assms obtain r where r: "role_of_string rn = Some r"
    by (auto simp: update_user_role_def split: option.splits)
  from assms obtain x
    where x: "find (\<lambda>x. user_id x = u) (filter (\<lambda>x. active_admin x \<or> user_id x = u) (users s)) = Some x"
    by (auto simp: update_user_role_def Let_def split: option.splits)
  show ?thesis
    using assms find_locked [OF x]
    by (intro exI [of _ r] exI [of _ x])
      (auto simp: update_user_role_def Let_def r x locked_admins admin_count_def split: if_splits)
qed

lemma update_user_role_ok:
  assumes "accounts_ok s" "update_user_role s now a u rn = Inr (x', s')"
  shows "accounts_ok s' \<and> (has_admin s \<longrightarrow> has_admin s')"
proof -
  from update_user_role_InrD [OF assms(2)] obtain r x
    where x: "x \<in> set (users s)" "user_id x = u" "\<not> (role x = ADMIN \<and> r \<noteq> ADMIN \<and> admin_count s \<le> 1)"
    and w: "if role x = r then s' = s
       else s' = (edit_user u (\<lambda>x. x\<lparr>role := r\<rparr>) s)\<lparr>role_audits := role_audits s @
            [\<lparr>audit_id = next_id s, audit_user = u, changed_by = a, previous_role = role x, new_role = r,
              audit_created_at = now\<rparr>], next_id := Suc (next_id s)\<rparr>"
    by blast
  then have s': "s' = s \<or> users s' = users (edit_user u (\<lambda>x. x\<lparr>role := r\<rparr>) s) \<and> profiles s' = profiles s \<and>
        next_id s' = Suc (next_id s)"
    by (auto simp: edit_user_def split: if_splits)
  have ids: "distinct (map user_id (users s))" using assms(1) by (simp add: accounts_ok_def users_ok_def)
  have "users_ok (edit_user u (\<lambda>x. x\<lparr>role := r\<rparr>) s)"
    using assms(1) by (intro edit_user_ok) (auto simp: accounts_ok_def)
  then have ok: "accounts_ok s'" using s' assms(1)
    by (auto simp: accounts_ok_def intro: users_ok_cong profiles_ok_cong)
  have "has_admin s'" if h: "has_admin s" and c: "users s' = users (edit_user u (\<lambda>x. x\<lparr>role := r\<rparr>) s)"
  proof (cases "role x = ADMIN \<and> r \<noteq> ADMIN")
    case True
    then show ?thesis
      using x(3) user_role_edit.count_saved_ge [OF ids, of active_admin u r]
      by (simp add: has_admin_count admin_count_def c edit_user_def del: length_greater_0_conv)
  next
    case False
    from h obtain y where y: "y \<in> set (users s)" "active_admin y" by (auto simp: has_admin_def list_ex_iff)
    have "active_admin (if user_id y = u then y\<lparr>role := r\<rparr> else y)"
      using y x(1,2) False inj_on_pk [OF ids y(1) x(1)] by (auto simp: active_admin_def)
    moreover have "(if user_id y = u then y\<lparr>role := r\<rparr> else y) \<in> set (users s')"
      unfolding c edit_user_def using in_qs_updateI [OF y(1), of "\<lambda>x. user_id x = u" "\<lambda>x. x\<lparr>role := r\<rparr>"] by simp
    ultimately show ?thesis by (auto simp: has_admin_def list_ex_iff)
  qed
  with ok s' show ?thesis by blast
qed

lemma fold_delete_evidence_frame [simp]:
  "users (fold delete_action_evidence ks s) = users s" "profiles (fold delete_action_evidence ks s) = profiles s"
  "memberships (fold delete_action_evidence ks s) = memberships s" "clans (fold delete_action_evidence ks s) = clans s"
  "action_logs (fold delete_action_evidence ks s) = action_logs s"
  "next_id (fold delete_action_evidence ks s) = next_id s" "invitations (fold delete_action_evidence ks s) = invitations s"
  by (induction ks arbitrary: s) simp_all

lemma delete_own_rows_frame [simp, frame]:
  "users (delete_own_rows u s) = users s" "profiles (delete_own_rows u s) = profiles s"
  "memberships (delete_own_rows u s) = qs_delete (\<lambda>m. member m = u) (memberships s)"
  "clans (delete_own_rows u s) = clans s" "next_id (delete_own_rows u s) = next_id s"
  "invitations (delete_own_rows u s) = invitations s" "action_logs (delete_own_rows u s) = action_logs s"
  "tokens (delete_own_rows u s) = tokens s"
  by (simp_all add: delete_own_rows_def Let_def)

lemma reject_pending_logs_frame [simp, frame]:
  "users (reject_pending_logs now u s) = users s" "profiles (reject_pending_logs now u s) = profiles s"
  "memberships (reject_pending_logs now u s) = memberships s" "clans (reject_pending_logs now u s) = clans s"
  "next_id (reject_pending_logs now u s) = next_id s" "invitations (reject_pending_logs now u s) = invitations s"
  "tokens (reject_pending_logs now u s) = tokens s"
  by (simp_all add: reject_pending_logs_def)

lemma action_logs_reject_pending:
  "action_logs (reject_pending_logs now u s) = qs_update (pending_of u)
     (\<lambda>l. l\<lparr>log_status := LOG_REJECTED, log_reviewed_at := Some now,
            log_rejection_reason := ''The account was deactivated.''\<rparr>) (action_logs s)"
  by (simp add: reject_pending_logs_def)

lemma close_user_sockets_frame [simp, frame]:
  "users (close_user_sockets u s) = users s" "profiles (close_user_sockets u s) = profiles s"
  "memberships (close_user_sockets u s) = memberships s" "clans (close_user_sockets u s) = clans s"
  "next_id (close_user_sockets u s) = next_id s" "invitations (close_user_sockets u s) = invitations s"
  "action_logs (close_user_sockets u s) = action_logs s" "tokens (close_user_sockets u s) = tokens s"
  by (simp_all add: close_user_sockets_def)

lemma deactivate_account_InrD:
  assumes "deactivate_account s now u = Inr (x', s')"
  obtains x p s2 where "x \<in> set (users s)" "user_id x = u"
    "\<not> (role x = ADMIN \<and> admin_count s \<le> 1)" "\<not> leads_alive_clan s u"
    "ensure_profile (reject_pending_logs now u (delete_own_rows u s)) u = (p, s2)"
    "x' = x\<lparr>nickname := [], is_active := False, deactivated_at := Some now\<rparr>"
    "users s' = users (edit_user u (\<lambda>x. x\<lparr>nickname := [], is_active := False, deactivated_at := Some now\<rparr>) s)"
    "profiles s' = profiles (edit_profile u (wiped_profile now) s2)"
    "memberships s' = qs_delete (\<lambda>m. member m = u) (memberships s)" "clans s' = clans s"
    "next_id s' = next_id s" "invitations s' = invitations s"
    "action_logs s' = action_logs (reject_pending_logs now u s)"
    "tokens s' = qs_update (\<lambda>t. token_user t = u) (\<lambda>t. t\<lparr>blacklisted := True\<rparr>) (tokens s)"
proof -
  from assms obtain x
    where x: "find (\<lambda>x. user_id x = u) (filter (\<lambda>x. active_admin x \<or> user_id x = u) (users s)) = Some x"
    by (auto simp: deactivate_account_def Let_def split: option.splits)
  obtain p s2 where e: "ensure_profile (reject_pending_logs now u (delete_own_rows u s)) u = (p, s2)" by force
  note fr = ensure_profile_frame [OF e]
  define close where "close = (\<lambda>x::user. x\<lparr>nickname := [], is_active := False, deactivated_at := Some now\<rparr>)"
  have g: "\<not> (role x = ADMIN \<and> admin_count s \<le> 1)" "\<not> leads_alive_clan s u"
    using assms by (auto simp: deactivate_account_def Let_def x admin_count_def locked_admins split: if_splits)
  define ks where "ks = filter (\<lambda>k. k \<noteq> []) (map evidence_object_key (filter (pending_of u) (action_logs s)))"
  define k where "k = avatar_object_key p"
  have eq: "(x', s') = (close x, close_user_sockets u
      ((if k \<noteq> [] then delete_profile_avatar u k else id) (fold delete_action_evidence ks
        ((edit_user u close (edit_profile u (wiped_profile now) s2))\<lparr>tokens := qs_update (\<lambda>t. token_user t = u)
            (\<lambda>t. t\<lparr>blacklisted := True\<rparr>) (tokens s2)\<rparr>))))"
    using assms g unfolding deactivate_account_def Let_def x option.case e prod.case
    by (auto simp: admin_count_def locked_admins close_def ks_def k_def split: if_splits)
  have t: "tokens (fold delete_action_evidence ks z) = tokens z" for ks z
    by (induction ks arbitrary: z) (simp_all add: delete_action_evidence_def split: option.splits)
  show thesis
    by (rule that [OF find_locked [OF x] g e]) (use eq fr in \<open>auto simp: close_def edit_user_def reject_pending_logs_def t\<close>)
qed

lemma deactivate_account_ok:
  assumes "accounts_ok s" "deactivate_account s now u = Inr (x', s')"
  shows "accounts_ok s' \<and> (has_admin s \<longrightarrow> has_admin s')"
  using assms(2)
proof (cases rule: deactivate_account_InrD)
  case (1 x p s2)
  have ok: "users_ok s" "profiles_ok s" "distinct (map user_id (users s))"
    using assms(1) by (simp_all add: accounts_ok_def users_ok_def)
  have "profiles_ok (reject_pending_logs now u (delete_own_rows u s))"
    by (rule profiles_ok_cong [OF _ ok(2)]) simp
  then have "profiles_ok s2" by (rule ensure_profile_facts(4) [OF 1(5)])
  then have "profiles_ok (edit_profile u (wiped_profile now) s2)" by (rule profile_wipe.edit_profiles_ok) simp
  moreover have "users_ok (edit_user u (\<lambda>x. x\<lparr>nickname := [], is_active := False, deactivated_at := Some now\<rparr>) s)"
    by (rule edit_user_ok [OF ok(1)]) simp_all
  ultimately have a: "accounts_ok s'" using 1(7,8,11) by (auto simp: accounts_ok_def intro: users_ok_cong profiles_ok_cong)
  have "has_admin s'" if h: "has_admin s"
  proof (cases "role x = ADMIN")
    case True
    then show ?thesis
      using 1(3) user_close_edit.count_saved_ge [OF ok(3), of active_admin u now]
      by (simp add: has_admin_count admin_count_def 1(7) edit_user_def del: length_greater_0_conv)
  next
    case False
    from h obtain y where y: "y \<in> set (users s)" "active_admin y" by (auto simp: has_admin_def list_ex_iff)
    with False inj_on_pk [OF ok(3) y(1) 1(1)] 1(2) have "user_id y \<noteq> u" by (auto simp: active_admin_def)
    then have "y \<in> set (users s')"
      using in_qs_updateI [OF y(1), of "\<lambda>x. user_id x = u"] by (simp add: 1(7) edit_user_def)
    with y(2) show ?thesis by (auto simp: has_admin_def list_ex_iff)
  qed
  with a show ?thesis by blast
qed

section \<open>The accounts machine\<close>

text \<open>One call per service of \<open>accounts/services.py\<close> that writes, with its arguments.\<close>

datatype account_call =
    LoginCall login_settings "string \<Rightarrow> string \<Rightarrow> identity res" string string
  | DeactivateCall datetime uuid
  | RoleCall datetime "uuid option" uuid string
  | NicknameCall uuid string
  | ProfileCall uuid "string option" "(string \<times> string) list option" "visibility option" "string option"
  | AvatarCall uuid "upload option"

fun account_step :: "account_call \<Rightarrow> db \<Rightarrow> db res" where
  "account_step (LoginCall cfg auth i a) s = map_sum id snd (login_with_microsoft cfg auth i a s)"
| "account_step (DeactivateCall now u) s = map_sum id snd (deactivate_account s now u)"
| "account_step (RoleCall now a u r) s = map_sum id snd (update_user_role s now a u r)"
| "account_step (NicknameCall u n) s = map_sum id snd (change_nickname s u n)"
| "account_step (ProfileCall u b prefs vis url) s = map_sum id snd (update_profile s u b prefs vis url)"
| "account_step (AvatarCall u up) s = map_sum id snd (set_profile_avatar s u up)"

lemma map_sum_InrE: "map_sum id snd r = Inr s' \<Longrightarrow> \<exists>v. r = Inr (v, s')"
  by (cases r) auto

lemma login_InrD:
  assumes "accounts_ok s" "login_with_microsoft cfg auth i a s = Inr (res, s')"
  obtains idn u created reactivated s1
  where "auth i a = Inr idn"
    "is_institutional_email (allowed_domain cfg) (py_lower (py_strip (identity_email idn)))"
    "get_or_create_user cfg idn (py_lower (py_strip (identity_email idn))) s = Inr (u, created, reactivated, s1)"
    "res = \<lparr>login_user = u, login_created = created, login_reactivated = reactivated, login_token = next_id s1\<rparr>"
    "s' = s1\<lparr>tokens := tokens s1 @ [\<lparr>token_id = next_id s1, token_user = user_id u, blacklisted = False\<rparr>],
             next_id := Suc (next_id s1)\<rparr>"
  using assms upsert_user_eq [OF assms(1)]
  by (auto simp: login_with_microsoft_def Let_def split: sum.splits if_splits prod.splits)

lemma login_ok:
  assumes "accounts_ok s" "login_with_microsoft cfg auth i a s = Inr (res, s')"
  shows "accounts_ok s' \<and> (has_admin s \<longrightarrow> has_admin s')"
  using assms
proof (cases rule: login_InrD)
  case (1 idn u created reactivated s1)
  note d = get_or_create_user_InrD [OF assms(1) 1(3)]
  have "accounts_ok s'" using d(1) 1(5) by (auto simp: accounts_ok_def intro: users_ok_cong profiles_ok_cong)
  moreover have "has_admin s'" if "has_admin s"
  proof -
    from that obtain y where y: "y \<in> set (users s)" "active_admin y" by (auto simp: has_admin_def list_ex_iff)
    show ?thesis
    proof (cases "user_id y = user_id u")
      case True
      then have "\<not> created" using d(7) y(1) by (metis imageI)
      then obtain x where "x \<in> set (users s)" "user_id x = user_id u" "role x = ADMIN \<longrightarrow> role u = ADMIN"
        using d(6) by blast
      with True y assms(1) have "active_admin u"
        using users_ok_unique [of s x y] d(3) by (auto simp: accounts_ok_def active_admin_def)
      with d(2) show ?thesis by (auto simp: has_admin_def list_ex_iff 1(5))
    next
      case False
      then have "y \<in> set (filter (\<lambda>x. user_id x \<noteq> user_id u) (users s))" using y(1) by simp
      then have "y \<in> set (users s')" unfolding d(5) [symmetric] by (simp add: 1(5))
      with y(2) show ?thesis by (auto simp: has_admin_def list_ex_iff)
    qed
  qed
  ultimately show ?thesis by blast
qed

lemma has_admin_map: "map active_admin (users s') = map active_admin (users s) \<Longrightarrow> has_admin s' = has_admin s"
  by (simp add: has_admin_def list_ex_iff) (metis (mono_tags, lifting) image_iff list.set_map)

lemma change_nickname_keeps:
  "accounts_ok s \<Longrightarrow> change_nickname s u n = Inr (r, s') \<Longrightarrow> accounts_ok s' \<and> (has_admin s \<longrightarrow> has_admin s')"
  using change_nickname_ok [of s u n r s'] has_admin_map [of s' s] by blast

lemma account_step_ok:
  assumes "accounts_ok s" "account_step c s = Inr s'"
  shows "accounts_ok s' \<and> (has_admin s \<longrightarrow> has_admin s')"
  using assms
  by (cases c)
    (auto dest!: map_sum_InrE dest: login_ok deactivate_account_ok update_user_role_ok change_nickname_keeps
      update_profile_ok set_profile_avatar_ok simp: has_admin_def)

interpretation accounts: service_machine account_step accounts_ok
  by unfold_locales (auto dest: account_step_ok)

interpretation accounts_admin: service_machine account_step "\<lambda>s. accounts_ok s \<and> has_admin s"
  by unfold_locales (auto dest: account_step_ok)

section \<open>Reading back what was written\<close>

lemma profile_of_edit:
  assumes "\<And>p. profile_user (f p) = profile_user p"
  shows "profile_of (edit_profile u f s) v = (if v = u then map_option f (profile_of s u) else profile_of s v)"
proof -
  have "find (\<lambda>p. profile_user p = v) (qs_update (\<lambda>p. profile_user p = u) f ps) =
    (if v = u then map_option f (find (\<lambda>p. profile_user p = u) ps) else find (\<lambda>p. profile_user p = v) ps)"
    for ps by (induction ps) (auto simp: qs_update_def assms)
  then show ?thesis by (simp add: profile_of_def edit_profile_def)
qed

lemma get_user_edit:
  assumes "\<And>x. user_id (f x) = user_id x"
  shows "get_user (edit_user u f s) v = (if v = u then map_sum id f (get_user s u) else get_user s v)"
proof -
  have "filter (\<lambda>x. user_id x = v) (qs_update (\<lambda>x. user_id x = u) f xs) =
    (if v = u then map f (filter (\<lambda>x. user_id x = u) xs) else filter (\<lambda>x. user_id x = v) xs)" for xs
    by (induction xs) (auto simp: qs_update_def assms)
  then show ?thesis by (auto simp: get_user_def edit_user_def qs_get_def split: list.splits)
qed

lemma get_user_cong: "users s' = users s \<Longrightarrow> get_user s' v = get_user s v"
  by (simp add: get_user_def)

lemma profile_of_cong: "profiles s' = profiles s \<Longrightarrow> profile_of s' v = profile_of s v"
  by (simp add: profile_of_def)

text \<open>
  C3: in every run of the account services, from a state with consistent accounts and an
  active administrator, object ids and addresses stay unique, every profile keeps
  \<open>0 \<le> available_points \<le> total_points\<close>, and an active administrator remains: neither a role
  change, nor a deactivation, nor a sign-in can remove the last one.
\<close>

theorem account_runs_keep_admin:
  assumes "accounts_ok s" "has_admin s"
  shows "accounts_ok (run_calls account_step calls s) \<and> has_admin (run_calls account_step calls s)"
  using accounts_admin.run_inv [of s calls] assms by simp

text \<open>Two administrators, one of whom is demoted; the other may neither be demoted nor leave.\<close>

definition demo_user :: "uuid \<Rightarrow> user_role \<Rightarrow> user" where
  "demo_user u r = \<lparr>user_id = u, email = nat_str u @ ''@iteso.mx'', microsoft_oid = None, role = r,
     nickname = [], first_name = ''Ana'', last_name = ''Ruiz'', is_active = True, deactivated_at = None\<rparr>"

definition demo_accounts :: db where
  "demo_accounts = empty_db\<lparr>users := [demo_user 0 ADMIN, demo_user 1 ADMIN], next_id := 2\<rparr>"

lemma demo_accounts_ok: "accounts_ok demo_accounts" "has_admin demo_accounts"
  by (auto simp: demo_accounts_def demo_user_def accounts_ok_def users_ok_def profiles_ok_def empty_db_def
      has_admin_def active_admin_def)

theorem account_runs_keep_admin_witness:
  "let s' = run_calls account_step [RoleCall 5 (Some 0) 1 ''STUDENT'', RoleCall 6 (Some 0) 0 ''STAFF'', DeactivateCall 7 0]
       demo_accounts
   in accounts_ok s' \<and> has_admin s' \<and> map role (users s') = [ADMIN, STUDENT] \<and> map is_active (users s') = [True, True]"
proof -
  let ?s' = "run_calls account_step [RoleCall 5 (Some 0) 1 ''STUDENT'', RoleCall 6 (Some 0) 0 ''STAFF'', DeactivateCall 7 0]
       demo_accounts"
  have "map role (users ?s') = [ADMIN, STUDENT] \<and> map is_active (users ?s') = [True, True]"
    by (simp add: demo_accounts_def demo_user_def empty_db_def update_user_role_def deactivate_account_def
        role_of_string_def active_admin_def edit_user_def qs_update_def Let_def)
  then show ?thesis
    using account_runs_keep_admin [OF demo_accounts_ok] by (simp only: Let_def simp_thms)
qed

text \<open>
  A nickname change by an account with a profile charges nothing the first time and 50
  points afterwards, out of the spendable balance only: the ranking points, the other columns
  and everybody else's rows stay. It succeeds exactly for an active account, a different
  nickname of at most 50 characters and a balance that covers the cost; asking again for the
  nickname just set is refused without a charge.
\<close>

theorem change_nickname_spec:
  assumes "accounts_ok s" "profile_of s u = Some p" "get_user s u = Inr x"
    and "nickname_changes p < MAX_SMALLINT"
  shows "((\<exists>r s'. change_nickname s u nick = Inr (r, s')) \<longleftrightarrow>
       is_active x \<and> nick \<noteq> nickname x \<and> nickname_change_cost p \<le> available_points p \<and> length nick \<le> 50) \<and>
     (change_nickname s u nick = Inr (r, s') \<longrightarrow>
       points_spent r = (if nickname_changes p = 0 then 0 else 50) \<and>
       profile_of s' u = Some (p\<lparr>available_points := available_points p - points_spent r,
                                nickname_changes := Suc (nickname_changes p)\<rparr>) \<and>
       get_user s' u = Inr (x\<lparr>nickname := nick\<rparr>) \<and>
       (v \<noteq> u \<longrightarrow> profile_of s' v = profile_of s v \<and> get_user s' v = get_user s v) \<and>
       change_nickname s' u nick = Inl NicknameUnchangedError)"
proof -
  have e: "ensure_profile s u = (p, s)" using assms(2) by (simp add: ensure_profile_def)
  have "(\<exists>r s'. change_nickname s u nick = Inr (r, s')) \<longleftrightarrow>
       is_active x \<and> nick \<noteq> nickname x \<and> nickname_change_cost p \<le> available_points p \<and> length nick \<le> 50"
    using assms(3,4) by (auto simp: change_nickname_def ensure_account_writable_def e Let_def)
  moreover have "points_spent r = (if nickname_changes p = 0 then 0 else 50) \<and>
       profile_of s' u = Some (p\<lparr>available_points := available_points p - points_spent r,
                                nickname_changes := Suc (nickname_changes p)\<rparr>) \<and>
       get_user s' u = Inr (x\<lparr>nickname := nick\<rparr>) \<and>
       (v \<noteq> u \<longrightarrow> profile_of s' v = profile_of s v \<and> get_user s' v = get_user s v) \<and>
       change_nickname s' u nick = Inl NicknameUnchangedError"
    if c: "change_nickname s u nick = Inr (r, s')"
  proof -
    let ?f = "\<lambda>q. q\<lparr>available_points := available_points q - nickname_change_cost p,
                     nickname_changes := Suc (nickname_changes q)\<rparr>"
    from change_nickname_InrD [OF c e] assms(3)
    have s': "s' = edit_profile u ?f (edit_user u (\<lambda>x. x\<lparr>nickname := nick\<rparr>) s)" and act: "is_active x"
      and r: "points_spent r = nickname_change_cost p" by auto
    have pr: "profile_of s' w = (if w = u then Some (?f p) else profile_of s w)" for w
      unfolding s' using assms(2) profile_of_cong [of "edit_user u (\<lambda>x. x\<lparr>nickname := nick\<rparr>) s" s]
      by (subst profile_of_edit) simp_all
    have us: "get_user s' w = (if w = u then Inr (x\<lparr>nickname := nick\<rparr>) else get_user s w)" for w
      unfolding s' by (subst get_user_cong [of _ "edit_user u (\<lambda>x. x\<lparr>nickname := nick\<rparr>) s"])
        (simp_all add: get_user_edit assms(3))
    have "change_nickname s' u nick = Inl NicknameUnchangedError"
      using act by (simp add: change_nickname_def us ensure_account_writable_def Let_def split: prod.splits)
    then show ?thesis
      using pr us r by (simp add: nickname_change_cost_def NICKNAME_CHANGE_COST_POINTS_def)
  qed
  ultimately show ?thesis by blast
qed

text \<open>A second change with 60 points.\<close>

definition demo_nickname :: db where
  "demo_nickname = empty_db\<lparr>users := [demo_user 0 STUDENT], next_id := 1,
     profiles := [(new_profile 0)\<lparr>total_points := 90, available_points := 60, nickname_changes := 1\<rparr>]\<rparr>"

theorem change_nickname_spec_witness:
  "\<exists>r s'. change_nickname demo_nickname 0 ''Leaf'' = Inr (r, s') \<and> points_spent r = 50 \<and>
     map_option available_points (profile_of s' 0) = Some 10 \<and>
     change_nickname s' 0 ''Leaf'' = Inl NicknameUnchangedError"
proof -
  let ?p = "(new_profile 0)\<lparr>total_points := 90, available_points := 60, nickname_changes := 1\<rparr>"
  have ok: "accounts_ok demo_nickname"
    by (auto simp: demo_nickname_def accounts_ok_def users_ok_def profiles_ok_def points_ok_def empty_db_def demo_user_def)
  have p: "profile_of demo_nickname 0 = Some ?p" by (simp add: demo_nickname_def profile_of_def)
  have x: "get_user demo_nickname 0 = Inr (demo_user 0 STUDENT)"
    by (simp add: demo_nickname_def get_user_def qs_get_def demo_user_def)
  have "nickname_changes ?p < MAX_SMALLINT" by (simp add: MAX_SMALLINT_def)
  note spec = change_nickname_spec [OF ok p x this, of "''Leaf''"]
  have "\<exists>r s'. change_nickname demo_nickname 0 ''Leaf'' = Inr (r, s')"
    using spec by (simp add: demo_user_def nickname_change_cost_def NICKNAME_CHANGE_COST_POINTS_def)
  then obtain r s' where c: "change_nickname demo_nickname 0 ''Leaf'' = Inr (r, s')" by blast
  with spec [of r s' 0] show ?thesis by auto
qed

text \<open>
  A sign-in through Microsoft succeeds only for an address of the allowed domain and yields
  an active account that carries the object id the provider vouched for. An account that was
  found was active or had deactivated itself - never one an administrator disabled - and keeps
  the ADMIN role if it had it; an account that is created needs the directory profile and gets
  the role the directory implies. Nobody else's row changes, and exactly one row has that
  object id afterwards.
\<close>

theorem login_spec:
  assumes "accounts_ok s" "login_with_microsoft cfg auth i a s = Inr (res, s')" "auth i a = Inr idn"
  shows "is_institutional_email (allowed_domain cfg) (py_lower (py_strip (identity_email idn))) \<and>
    is_active (login_user res) \<and> microsoft_oid (login_user res) = Some (identity_oid idn) \<and>
    {x \<in> set (users s'). microsoft_oid x = Some (identity_oid idn)} = {login_user res} \<and>
    filter (\<lambda>x. user_id x \<noteq> user_id (login_user res)) (users s') =
      filter (\<lambda>x. user_id x \<noteq> user_id (login_user res)) (users s) \<and>
    (if login_created res
     then user_id (login_user res) \<notin> user_id ` set (users s) \<and> directory_profile_available idn \<and>
          role (login_user res) = determine_initial_role cfg idn (py_lower (py_strip (identity_email idn)))
     else \<exists>x \<in> set (users s). user_id x = user_id (login_user res) \<and>
            (is_active x \<or> deactivated_at x \<noteq> None) \<and> login_reactivated res = (\<not> is_active x) \<and>
            (role x = ADMIN \<longrightarrow> role (login_user res) = ADMIN))"
  using assms(1,2)
proof (cases rule: login_InrD)
  case (1 idn' u created reactivated s1)
  have idn: "idn' = idn" using 1(1) assms(3) by simp
  note d = get_or_create_user_InrD [OF assms(1) 1(3)]
  have ok: "users_ok s1" using d(1) by (simp add: accounts_ok_def)
  have us: "users s' = users s1" and oid: "microsoft_oid u = Some (identity_oid idn)"
    using 1(5) d(4) idn by simp_all
  have uq: "x = u" if x: "x \<in> set (users s1)" "microsoft_oid x = Some (identity_oid idn)" for x
  proof (rule ccontr)
    assume "x \<noteq> u"
    then have "user_id u \<noteq> user_id x" using users_ok_unique [OF ok x(1) d(2)] by auto
    from users_ok_oid [OF ok d(2) x(1) this] show False using x(2) oid by simp
  qed
  have "{x \<in> set (users s'). microsoft_oid x = Some (identity_oid idn)} = {u}"
    unfolding us using uq d(2) oid by blast
  note common = this 1(2,4) d(3,5) oid us
  show ?thesis
  proof (cases created)
    case True
    then show ?thesis using common d(7) [OF True] unfolding idn by simp
  next
    case False
    from d(6) [OF this] obtain x where "x \<in> set (users s)" "user_id x = user_id u"
      "is_active x \<or> deactivated_at x \<noteq> None" "role x = ADMIN \<longrightarrow> role u = ADMIN" "reactivated = (\<not> is_active x)" by blast
    then have "\<exists>x \<in> set (users s). user_id x = user_id u \<and> (is_active x \<or> deactivated_at x \<noteq> None) \<and>
        reactivated = (\<not> is_active x) \<and> (role x = ADMIN \<longrightarrow> role u = ADMIN)" by blast
    then show ?thesis using common False unfolding idn by simp
  qed
qed

text \<open>A first sign-in of a teacher.\<close>

definition demo_settings :: login_settings where
  "demo_settings = \<lparr>allowed_domain = ''iteso.mx'', staff_emails = [], fold_accents = id\<rparr>"

definition demo_identity :: identity where
  "demo_identity = \<lparr>identity_oid = 77, identity_email = '' Eva@ITESO.mx'', given_name = Some ''Eva'',
     surname = None, identity_job_title = Some ''profesor titular'', identity_department = None,
     identity_employee_id = None, identity_group_ids = None, directory_profile_available = True\<rparr>"

lemma demo_email: "py_lower (py_strip (identity_email demo_identity)) = ''eva@iteso.mx''"
  by code_simp

lemma demo_domain: "is_institutional_email ''iteso.mx'' ''eva@iteso.mx''"
  by code_simp

lemma demo_role: "determine_initial_role demo_settings demo_identity ''eva@iteso.mx'' = STAFF"
  by code_simp

theorem login_spec_witness:
  "\<exists>res s'. login_with_microsoft demo_settings (\<lambda>_ _. Inr demo_identity) [] [] demo_accounts = Inr (res, s') \<and>
     login_created res \<and> role (login_user res) = STAFF \<and>
     {x \<in> set (users s'). microsoft_oid x = Some 77} = {login_user res}"
proof -
  have "case get_or_create_user demo_settings demo_identity ''eva@iteso.mx'' demo_accounts of
      Inl _ \<Rightarrow> False | Inr (_, c, _) \<Rightarrow> c"
    by code_simp
  then obtain v where "get_or_create_user demo_settings demo_identity ''eva@iteso.mx'' demo_accounts = Inr (fst v, True, snd v)"
    by (auto split: sum.splits)
  moreover have "allowed_domain demo_settings = ''iteso.mx''" by (simp add: demo_settings_def)
  ultimately obtain res s' where c: "login_with_microsoft demo_settings (\<lambda>_ _. Inr demo_identity) [] [] demo_accounts = Inr (res, s')"
      and cr: "login_created res"
    by (cases v) (auto simp: login_with_microsoft_def demo_email demo_domain upsert_user_eq demo_accounts_ok Let_def)
  have "Inr demo_identity = Inr demo_identity" ..
  from login_spec [OF demo_accounts_ok(1) c this] cr have "role (login_user res) = STAFF"
      "{x \<in> set (users s'). microsoft_oid x = Some (identity_oid demo_identity)} = {login_user res}"
    by (simp_all add: demo_email demo_role)
  moreover have "identity_oid demo_identity = 77" by (simp add: demo_identity_def)
  ultimately show ?thesis using c cr by metis
qed

text \<open>
  Sequentially, the retry of \<open>_upsert_user\<close> is never needed: with unique object ids and
  addresses in the database, neither linking an account by its address, nor following a changed
  address, nor inserting a new account can violate a unique column.
\<close>

theorem sign_in_never_conflicts:
  assumes "accounts_ok s"
  shows "upsert_user cfg idn e s = get_or_create_user cfg idn e s \<and>
    (\<forall>c. upsert_user cfg idn e s \<noteq> Inl (IntegrityError c))"
  using upsert_user_eq [OF assms] get_or_create_user_unique [OF assms] by simp

text \<open>The second sign-in of the teacher, on top of two existing accounts.\<close>

theorem sign_in_never_conflicts_witness:
  "\<forall>c. upsert_user demo_settings demo_identity ''eva@iteso.mx'' demo_accounts \<noteq> Inl (IntegrityError c)"
  using sign_in_never_conflicts [OF demo_accounts_ok(1)] by blast

lemma py_split_on_nonempty [simp]: "py_split_on c w \<noteq> []"
  by (induction w) (auto split: list.splits)

lemma py_join_split: "py_join [c] (py_split_on c w) = w"
proof (induction w)
  case (Cons a w)
  then show ?case
    by (cases "py_split_on c w" rule: list.exhaust; cases "tl (py_split_on c w)") (auto split: list.splits)
qed simp

lemma py_split_on_append:
  "c \<notin> set d \<Longrightarrow> py_split_on c (l @ c # d) = py_split_on c l @ [d]"
proof (induction l)
  case (Cons a l)
  then show ?case by (cases "py_split_on c l") auto
qed (simp add: py_split_on_word)

lemma py_join_snoc: "ws \<noteq> [] \<Longrightarrow> py_join sep (ws @ [w]) = py_join sep ws @ sep @ w"
  by (induction ws rule: induct_list012) auto

lemma set_last_py_split_on: "c \<notin> set (last (py_split_on c w))"
  by (induction w) (auto split: list.splits)

lemma rpartition_at_iff:
  "rpartition_at w = Some (l, d) \<longleftrightarrow> w = l @ CHR ''@'' # d \<and> CHR ''@'' \<notin> set d"
proof
  assume r: "rpartition_at w = Some (l, d)"
  let ?ps = "py_split_on (CHR ''@'') w"
  from r have len: "2 \<le> length ?ps" and l: "l = py_join ''@'' (butlast ?ps)" and d: "d = last ?ps"
    by (auto simp: rpartition_at_def Let_def split: if_splits)
  then have "butlast ?ps \<noteq> []" by (metis One_nat_def Suc_1 diff_Suc_1 length_butlast list.size(3) not_one_le_zero diff_le_mono)
  then have "py_join ''@'' (butlast ?ps @ [last ?ps]) = l @ ''@'' @ d"
    by (simp add: py_join_snoc l d del: append_butlast_last_id)
  then show "w = l @ CHR ''@'' # d \<and> CHR ''@'' \<notin> set d"
    using py_join_split [of "CHR ''@''" w] set_last_py_split_on [of "CHR ''@''" w] d by simp
next
  assume a: "w = l @ CHR ''@'' # d \<and> CHR ''@'' \<notin> set d"
  then have "py_split_on (CHR ''@'') w = py_split_on (CHR ''@'') l @ [d]" by (simp add: py_split_on_append)
  then show "rpartition_at w = Some (l, d)"
    by (cases "py_split_on (CHR ''@'') l") (auto simp: rpartition_at_def Let_def py_join_split dest: arg_cong [of _ _ "py_join ''@''"])
qed

text \<open>
  The domain gate looks at what follows the last \<open>@\<close> of the trimmed, lower-cased address:
  it opens exactly for a non-empty local part followed by \<open>@\<close> and the allowed domain, so
  neither a sub-domain nor a domain hidden before another \<open>@\<close> passes.
\<close>

theorem is_institutional_email_iff:
  "is_institutional_email domain e \<longleftrightarrow>
   (\<exists>l. l \<noteq> [] \<and> py_lower (py_strip e) = l @ ''@'' @ domain \<and> CHR ''@'' \<notin> set domain)"
proof -
  have "is_institutional_email domain e \<longleftrightarrow>
      (\<exists>l. l \<noteq> [] \<and> rpartition_at (py_lower (py_strip e)) = Some (l, domain))"
    by (auto simp: is_institutional_email_def split: option.splits)
  then show ?thesis by (simp add: rpartition_at_iff)
qed



end
