(* ===== verification/Invite_Codes.thy ===== *)
theory Invite_Codes
  imports Schema
begin

text \<open>
  Single-use clan invite codes (\<open>clans/invite_codes.py\<close>): how a code is displayed, how a
  typed code is brought back to its canonical form, and what is stored of it. The eight
  characters that \<open>secrets.choice\<close> draws and the keyed hash \<open>salted_hmac\<close> are arguments of
  the definitions that use them.
\<close>

definition CODE_ALPHABET :: string where
  "CODE_ALPHABET = ''0123456789ABCDEFGHJKMNPQRSTVWXYZ''"

definition CODE_LENGTH :: nat where
  "CODE_LENGTH = 8"

definition INVITATION_TTL :: int where
  "INVITATION_TTL = timedelta_hours 48"

definition INVITATION_RETENTION :: int where
  "INVITATION_RETENTION = timedelta_days 30"

definition MAX_ACTIVE_INVITATIONS_PER_CLAN :: nat where
  "MAX_ACTIVE_INVITATIONS_PER_CLAN = 20"

definition HMAC_SALT :: string where
  "HMAC_SALT = ''green_iteso.clans.invite_code''"

definition LOOKALIKES :: "char \<Rightarrow> char" where
  "LOOKALIKES c =
     (if c = CHR ''O'' then CHR ''0'' else if c = CHR ''I'' \<or> c = CHR ''L'' then CHR ''1'' else c)"

text \<open>What \<open>secrets.choice\<close> over the alphabet can draw for one code.\<close>

definition drawn :: "string \<Rightarrow> bool" where
  "drawn raw \<longleftrightarrow> length raw = CODE_LENGTH \<and> (\<forall>c \<in> set raw. c \<in> set CODE_ALPHABET)"

definition generate_code :: "string \<Rightarrow> string" where
  "generate_code raw = take 4 raw @ ''-'' @ drop 4 raw"

definition normalize_code :: "string \<Rightarrow> string" where
  "normalize_code raw =
     map LOOKALIKES (py_upper (filter (\<lambda>c. c \<noteq> CHR ''-'') (py_join [] (py_split_ws raw))))"

definition hash_code :: "(string \<Rightarrow> string \<Rightarrow> string) \<Rightarrow> string \<Rightarrow> string" where
  "hash_code hmac code = hmac HMAC_SALT (normalize_code code)"

definition code_hint_of :: "string \<Rightarrow> string" where
  "code_hint_of code = (let n = normalize_code code in drop (length n - 4) n)"

section \<open>Normalisation\<close>

lemma py_join_Nil [simp]: "py_join [] ws = concat ws"
  by (induction ws rule: induct_list012) auto

lemma concat_py_split_ws: "concat (py_split_ws s) = filter (\<lambda>c. \<not> is_space c) s"
proof (induction s)
  case (Cons c s)
  show ?case
  proof (cases "is_space c \<or> s = [] \<or> is_space (hd s)")
    case True
    with Cons show ?thesis by (cases s) auto
  next
    case False
    then obtain d r where s: "s = d # r" "\<not> is_space d" by (cases s) auto
    with Cons.IH obtain w ws where w: "py_split_ws s = w # ws" by (cases "py_split_ws s") auto
    have "py_split_ws (c # s) = (c # w) # ws" using False s w by simp
    then show ?thesis using Cons.IH w False by simp
  qed
qed simp

definition is_separator :: "char \<Rightarrow> bool" where
  "is_separator c \<longleftrightarrow> is_space c \<or> c = CHR ''-''"

definition canon :: "char \<Rightarrow> char" where
  "canon c = LOOKALIKES (upper_char c)"

lemma normalize_code_alt: "normalize_code s = map canon (filter (\<lambda>c. \<not> is_separator c) s)"
  by (simp add: normalize_code_def concat_py_split_ws py_upper_def comp_def canon_def is_separator_def
      conj_commute)

lemma normalize_code_append [simp]: "normalize_code (s @ t) = normalize_code s @ normalize_code t"
  by (simp add: normalize_code_alt)

lemma alphabet_canonical:
  assumes "c \<in> set CODE_ALPHABET" shows "canon c = c \<and> \<not> is_separator c"
proof -
  have "list_all (\<lambda>c. canon c = c \<and> \<not> is_separator c) CODE_ALPHABET"
    by (simp add: CODE_ALPHABET_def canon_def is_separator_def is_space_def LOOKALIKES_def upper_char_def)
  then show ?thesis using assms by (simp add: list_all_iff)
qed

lemma normalize_drawn: "\<forall>c \<in> set s. c \<in> set CODE_ALPHABET \<Longrightarrow> normalize_code s = s"
  by (induction s) (auto simp: normalize_code_alt dest: alphabet_canonical)

lemma normalize_generate: "drawn raw \<Longrightarrow> normalize_code (generate_code raw) = raw"
proof -
  assume d: "drawn raw"
  then have "normalize_code (take 4 raw) = take 4 raw" "normalize_code (drop 4 raw) = drop 4 raw"
    by (auto simp: drawn_def intro!: normalize_drawn dest: in_set_takeD in_set_dropD)
  moreover have "normalize_code ''-'' = []" by (simp add: normalize_code_alt is_separator_def)
  ultimately show ?thesis
    by (simp add: generate_code_def normalize_code_append [of "''-''" "drop 4 raw", simplified])
qed

lemma length_normalize_generate: "drawn raw \<Longrightarrow> length (normalize_code (generate_code raw)) = CODE_LENGTH"
  by (simp add: normalize_generate drawn_def)

text \<open>A character that is already canonical stays: normalising twice is normalising once.\<close>

lemma upper_char_cases:
  "upper_char c = c \<or>
   65 \<le> (of_char (upper_char c) :: nat) \<and> (of_char (upper_char c) :: nat) \<le> 90 \<and> upper_char c \<noteq> c \<and> 97 \<le> (of_char c :: nat)"
  by (auto simp: upper_char_def Let_def)

lemma upper_char_idem: "upper_char (upper_char c) = upper_char c"
proof (cases "upper_char c = c")
  case False
  with upper_char_cases [of c] have "(of_char (upper_char c) :: nat) \<le> 90" by simp
  then show ?thesis by (simp add: upper_char_def [of "upper_char c"] Let_def)
qed simp

lemma separator_code: "is_separator c \<Longrightarrow> (of_char c :: nat) \<le> 45"
  by (auto simp: is_separator_def is_space_def)

lemma canon_idem [simp]: "canon (canon c) = canon c" "is_separator (canon c) = is_separator c"
proof -
  show "canon (canon c) = canon c"
    by (cases "upper_char c \<in> {CHR ''O'', CHR ''I'', CHR ''L''}")
      (auto simp: canon_def LOOKALIKES_def upper_char_idem upper_char_def [of "CHR ''0''"] upper_char_def [of "CHR ''1''"])
  have "is_separator (upper_char c) = is_separator c"
    using upper_char_cases [of c] by (auto dest: separator_code)
  moreover have "is_separator (LOOKALIKES d) = is_separator d" for d
    by (auto simp: LOOKALIKES_def is_separator_def is_space_def)
  ultimately show "is_separator (canon c) = is_separator c" by (simp add: canon_def)
qed

lemma normalize_idem: "normalize_code (normalize_code s) = normalize_code s"
  by (simp add: normalize_code_alt filter_map comp_def)



end
