(* ===== verification/Roster.thy ===== *)
theory Roster
  imports Schema
begin

text \<open>
  The abstract specification of the clan rules. A roster is the set of clans with the set of
  membership rows; \<open>roster_step\<close> lists the moves a roster may make and \<open>roster_ok\<close> collects
  the rules the domain states (BR-03, BR-04, FR-CLAN-02/03): one accepted leader per clan, one
  leadership per person among the clans that are not dissolved, at most five private clans per
  person, at most one active private clan, which is accepted, private and alive, and no
  private clan without a leader. The services of \<open>clans/services.py\<close> are shown to move the
  roster only by these steps in the theory of clan services.
\<close>

section \<open>Rules\<close>

definition MAX_PRIVATE_CLAN_MEMBERSHIPS_PER_USER :: nat where
  "MAX_PRIVATE_CLAN_MEMBERSHIPS_PER_USER = 5"

definition leader_row :: "membership \<Rightarrow> bool" where
  "leader_row m \<longleftrightarrow> member_role m = LEADER \<and> member_status m = REQ_ACCEPTED"

definition alive_in :: "clan set \<Rightarrow> uuid \<Rightarrow> bool" where
  "alive_in S k \<longleftrightarrow> (\<exists>c \<in> S. clan_id c = k \<and> clan_alive c)"

definition private_alive_in :: "clan set \<Rightarrow> uuid \<Rightarrow> bool" where
  "private_alive_in S k \<longleftrightarrow> (\<exists>c \<in> S. clan_id c = k \<and> clan_type c = PRIVATE_CLAN \<and> clan_alive c)"

definition private_rows :: "clan set \<Rightarrow> membership set \<Rightarrow> uuid \<Rightarrow> membership set" where
  "private_rows S M u =
     {m \<in> M. member m = u \<and> member_status m = REQ_ACCEPTED \<and> private_alive_in S (member_clan m)}"

definition keys_ok :: "clan set \<Rightarrow> membership set \<Rightarrow> bool" where
  "keys_ok S M \<longleftrightarrow> finite M \<and> inj_on clan_id S \<and> inj_on membership_id M \<and>
     inj_on (\<lambda>m. (member m, member_clan m)) M \<and> (\<forall>m \<in> M. \<exists>c \<in> S. clan_id c = member_clan m)"

definition names_ok :: "clan set \<Rightarrow> bool" where
  "names_ok S \<longleftrightarrow> (\<forall>c \<in> S. \<forall>d \<in> S. clan_alive c \<longrightarrow> clan_alive d \<longrightarrow> clan_name c = clan_name d \<longrightarrow> c = d)"

definition one_leader :: "membership set \<Rightarrow> bool" where
  "one_leader M \<longleftrightarrow> (\<forall>m \<in> M. \<forall>m' \<in> M. leader_row m \<longrightarrow> leader_row m' \<longrightarrow>
     member_clan m = member_clan m' \<longrightarrow> m = m')"

definition one_leadership :: "clan set \<Rightarrow> membership set \<Rightarrow> bool" where
  "one_leadership S M \<longleftrightarrow> (\<forall>m \<in> M. \<forall>m' \<in> M. leader_row m \<longrightarrow> leader_row m' \<longrightarrow>
     alive_in S (member_clan m) \<longrightarrow> alive_in S (member_clan m') \<longrightarrow>
     member m = member m' \<longrightarrow> m = m')"

definition has_leader :: "clan set \<Rightarrow> membership set \<Rightarrow> bool" where
  "has_leader S M \<longleftrightarrow> (\<forall>k. private_alive_in S k \<longrightarrow> (\<exists>m \<in> M. leader_row m \<and> member_clan m = k))"

definition capped :: "clan set \<Rightarrow> membership set \<Rightarrow> bool" where
  "capped S M \<longleftrightarrow> (\<forall>u. card (private_rows S M u) \<le> MAX_PRIVATE_CLAN_MEMBERSHIPS_PER_USER)"

definition requests_ok :: "membership set \<Rightarrow> bool" where
  "requests_ok M \<longleftrightarrow> (\<forall>m \<in> M. member_status m \<noteq> REQ_ACCEPTED \<longrightarrow> member_role m = MEMBER)"

definition active_ok :: "clan set \<Rightarrow> membership set \<Rightarrow> bool" where
  "active_ok S M \<longleftrightarrow> (\<forall>m \<in> M. is_active_private m \<longrightarrow>
     member_status m = REQ_ACCEPTED \<and> private_alive_in S (member_clan m))"

definition one_active :: "membership set \<Rightarrow> bool" where
  "one_active M \<longleftrightarrow> (\<forall>m \<in> M. \<forall>m' \<in> M. is_active_private m \<longrightarrow> is_active_private m' \<longrightarrow>
     member m = member m' \<longrightarrow> m = m')"

definition institutional_ok :: "clan set \<Rightarrow> membership set \<Rightarrow> bool" where
  "institutional_ok S M \<longleftrightarrow> (\<forall>m \<in> M. \<forall>c \<in> S. clan_id c = member_clan m \<longrightarrow>
     clan_type c = INSTITUTIONAL \<longrightarrow> member_role m = MEMBER \<and> member_status m = REQ_ACCEPTED)"

definition roster_ok :: "clan set \<Rightarrow> membership set \<Rightarrow> bool" where
  "roster_ok S M \<longleftrightarrow> keys_ok S M \<and> names_ok S \<and> one_leader M \<and> one_leadership S M \<and>
     has_leader S M \<and> capped S M \<and> requests_ok M \<and> active_ok S M \<and> one_active M \<and>
     institutional_ok S M"

lemmas roster_defs = keys_ok_def names_ok_def one_leader_def one_leadership_def has_leader_def
  requests_ok_def active_ok_def one_active_def institutional_ok_def

section \<open>Steps\<close>

inductive roster_step ::
  "clan set \<times> membership set \<Rightarrow> clan set \<times> membership set \<Rightarrow> bool" where
  stutter: "roster_step (S, M) (S, M)"
| found_private:
    "\<lbrakk>clan_id c \<notin> clan_id ` S; clan_type c = PRIVATE_CLAN; clan_alive c;
      \<forall>d \<in> S. clan_alive d \<longrightarrow> clan_name d \<noteq> clan_name c;
      membership_id m \<notin> membership_id ` M; member_clan m = clan_id c; leader_row m;
      \<not> is_active_private m;
      \<forall>m' \<in> M. leader_row m' \<longrightarrow> member m' = member m \<longrightarrow> \<not> alive_in S (member_clan m');
      card (private_rows S M (member m)) < MAX_PRIVATE_CLAN_MEMBERSHIPS_PER_USER\<rbrakk>
     \<Longrightarrow> roster_step (S, M) (insert c S, insert m M)"
| found_institutional:
    "\<lbrakk>clan_id c \<notin> clan_id ` S; clan_type c = INSTITUTIONAL; clan_alive c;
      \<forall>d \<in> S. clan_alive d \<longrightarrow> clan_name d \<noteq> clan_name c\<rbrakk>
     \<Longrightarrow> roster_step (S, M) (insert c S, M)"
| enter:
    "\<lbrakk>membership_id m \<notin> membership_id ` M; member_role m = MEMBER; \<not> is_active_private m;
      \<forall>m' \<in> M. \<not> (member m' = member m \<and> member_clan m' = member_clan m);
      c \<in> S; clan_id c = member_clan m;
      clan_type c = INSTITUTIONAL \<longrightarrow> member_status m = REQ_ACCEPTED;
      member_status m = REQ_ACCEPTED \<longrightarrow> clan_type c = PRIVATE_CLAN \<longrightarrow>
        card (private_rows S M (member m)) < MAX_PRIVATE_CLAN_MEMBERSHIPS_PER_USER\<rbrakk>
     \<Longrightarrow> roster_step (S, M) (S, insert m M)"
| decide:
    "\<lbrakk>m \<in> M; member_status m \<noteq> REQ_ACCEPTED;
      st = REQ_ACCEPTED \<longrightarrow>
        card (private_rows S M (member m)) < MAX_PRIVATE_CLAN_MEMBERSHIPS_PER_USER\<rbrakk>
     \<Longrightarrow> roster_step (S, M) (S, insert (m\<lparr>member_status := st\<rparr>) (M - {m}))"
| remove:
    "\<lbrakk>\<forall>m \<in> D. leader_row m \<longrightarrow> \<not> alive_in S (member_clan m)\<rbrakk>
     \<Longrightarrow> roster_step (S, M) (S, M - D)"
| transfer:
    "\<lbrakk>m \<in> M; m' \<in> M; leader_row m; member_status m' = REQ_ACCEPTED;
      member_clan m' = member_clan m; m' \<noteq> m;
      \<forall>x \<in> M. leader_row x \<longrightarrow> member x = member m' \<longrightarrow> \<not> alive_in S (member_clan x)\<rbrakk>
     \<Longrightarrow> roster_step (S, M)
          (S, insert (m'\<lparr>member_role := LEADER\<rparr>) (insert (m\<lparr>member_role := MEMBER\<rparr>) (M - {m, m'})))"
| select:
    "\<lbrakk>m \<in> M; member_status m = REQ_ACCEPTED; private_alive_in S (member_clan m)\<rbrakk>
     \<Longrightarrow> roster_step (S, M)
          (S, insert (m\<lparr>is_active_private := True\<rparr>)
                ((\<lambda>x. if member x = member m then x\<lparr>is_active_private := False\<rparr> else x) ` (M - {m})))"
| dissolve:
    "\<lbrakk>c \<in> S; clan_type c = PRIVATE_CLAN; clan_alive c\<rbrakk>
     \<Longrightarrow> roster_step (S, M)
          (insert (c\<lparr>deleted_at := Some t\<rparr>) (S - {c}),
           (\<lambda>x. if member_clan x = clan_id c then x\<lparr>is_active_private := False\<rparr> else x) ` M)"
| edit:
    "\<lbrakk>c \<in> S; clan_id c' = clan_id c; clan_type c' = clan_type c; deleted_at c' = deleted_at c;
      clan_alive c \<longrightarrow> (\<forall>d \<in> S - {c}. clan_alive d \<longrightarrow> clan_name d \<noteq> clan_name c')\<rbrakk>
     \<Longrightarrow> roster_step (S, M) (insert c' (S - {c}), M)"

section \<open>Every step keeps the rules\<close>

lemma private_alive_alive: "private_alive_in S k \<Longrightarrow> alive_in S k"
  by (auto simp: private_alive_in_def alive_in_def)

lemma finite_private_rows [simp]: "finite M \<Longrightarrow> finite (private_rows S M u)"
  by (simp add: private_rows_def)

lemma leader_row_simps [simp]:
  "leader_row (m\<lparr>member_role := LEADER\<rparr>) = (member_status m = REQ_ACCEPTED)"
  "\<not> leader_row (m\<lparr>member_role := MEMBER\<rparr>)"
  "leader_row (m\<lparr>is_active_private := b\<rparr>) = leader_row m"
  "leader_row (m\<lparr>member_status := st\<rparr>) = (member_role m = LEADER \<and> st = REQ_ACCEPTED)"
  by (simp_all add: leader_row_def)

lemma capped_mono:
  assumes "capped S M" "finite M"
    and "\<And>u. \<exists>f. inj_on f (private_rows S' M' u) \<and> f ` private_rows S' M' u \<subseteq> private_rows S M u"
  shows "capped S' M'"
  unfolding capped_def
proof
  fix u
  obtain f where f: "inj_on f (private_rows S' M' u)" "f ` private_rows S' M' u \<subseteq> private_rows S M u"
    using assms(3) by blast
  have "card (private_rows S' M' u) = card (f ` private_rows S' M' u)"
    using f(1) by (simp add: card_image)
  also have "\<dots> \<le> card (private_rows S M u)"
    using f(2) assms(2) by (simp add: card_mono)
  also have "\<dots> \<le> MAX_PRIVATE_CLAN_MEMBERSHIPS_PER_USER"
    using assms(1) by (simp add: capped_def)
  finally show "card (private_rows S' M' u) \<le> MAX_PRIVATE_CLAN_MEMBERSHIPS_PER_USER" .
qed

text \<open>One more row of one person, who was below the limit.\<close>

lemma capped_add:
  assumes "capped S M" "finite M"
    and "\<And>u. u \<noteq> v \<Longrightarrow> private_rows S' M' u \<subseteq> private_rows S M u"
    and "private_rows S' M' v \<subseteq> insert m (private_rows S M v)"
    and "m \<in> private_rows S' M' v \<longrightarrow>
         card (private_rows S M v) < MAX_PRIVATE_CLAN_MEMBERSHIPS_PER_USER"
  shows "capped S' M'"
  unfolding capped_def
proof
  fix u
  have le: "card (private_rows S M u) \<le> MAX_PRIVATE_CLAN_MEMBERSHIPS_PER_USER"
    using assms(1) by (simp add: capped_def)
  have fin: "finite (private_rows S M u)" using assms(2) by simp
  show "card (private_rows S' M' u) \<le> MAX_PRIVATE_CLAN_MEMBERSHIPS_PER_USER"
  proof (cases "u = v \<and> m \<in> private_rows S' M' v")
    case True
    then have "card (private_rows S' M' u) \<le> card (insert m (private_rows S M v))"
      using assms(4) fin by (auto intro: card_mono)
    also have "\<dots> \<le> Suc (card (private_rows S M v))" by (rule card_insert_le_m1) simp_all
    finally show ?thesis using True assms(5) by simp
  next
    case False
    then have "private_rows S' M' u \<subseteq> private_rows S M u"
      using assms(3) [of u] assms(4) by (cases "u = v") auto
    then have "card (private_rows S' M' u) \<le> card (private_rows S M u)"
      using fin by (simp add: card_mono)
    with le show ?thesis by simp
  qed
qed

text \<open>How the sets of living clans move.\<close>

lemma alive_in_insert [simp]:
  "alive_in (insert c S) k \<longleftrightarrow> clan_id c = k \<and> clan_alive c \<or> alive_in S k"
  "private_alive_in (insert c S) k \<longleftrightarrow>
     clan_id c = k \<and> clan_type c = PRIVATE_CLAN \<and> clan_alive c \<or> private_alive_in S k"
  by (auto simp: alive_in_def private_alive_in_def)

lemma alive_in_dissolved:
  assumes "inj_on clan_id S" "c \<in> S"
  shows "alive_in (insert (c\<lparr>deleted_at := Some t\<rparr>) (S - {c})) k \<longleftrightarrow> alive_in S k \<and> k \<noteq> clan_id c"
    and "private_alive_in (insert (c\<lparr>deleted_at := Some t\<rparr>) (S - {c})) k \<longleftrightarrow>
         private_alive_in S k \<and> k \<noteq> clan_id c"
  using assms by (auto simp: alive_in_def private_alive_in_def clan_alive_def dest: inj_onD)

lemma alive_in_edited:
  assumes "c \<in> S" "clan_id c' = clan_id c" "clan_type c' = clan_type c" "deleted_at c' = deleted_at c"
  shows "alive_in (insert c' (S - {c})) k = alive_in S k"
    and "private_alive_in (insert c' (S - {c})) k = private_alive_in S k"
  using assms by (auto simp: alive_in_def private_alive_in_def clan_alive_def)

lemma image_swap: "m \<in> M \<Longrightarrow> insert (g m) (f ` (M - {m})) = (\<lambda>x. if x = m then g m else f x) ` M"
  by auto

lemma private_rows_image:
  assumes "\<forall>m \<in> M. member (f m) = member m \<and> member_clan (f m) = member_clan m \<and>
                    member_status (f m) = member_status m"
  shows "private_rows S (f ` M) u = f ` private_rows S M u"
  using assms by (auto simp: private_rows_def)

lemma keys_ok_image:
  assumes "keys_ok S M"
    and "\<forall>m \<in> M. membership_id (f m) = membership_id m \<and> member (f m) = member m \<and>
                  member_clan (f m) = member_clan m"
  shows "keys_ok S (f ` M)"
proof -
  have "inj_on membership_id (f ` M)"
    by (rule inj_onI) (use assms in \<open>auto simp: keys_ok_def dest: inj_onD\<close>)
  moreover have "inj_on (\<lambda>m. (member m, member_clan m)) (f ` M)"
    by (rule inj_onI) (use assms in \<open>auto simp: keys_ok_def dest: inj_onD\<close>)
  ultimately show ?thesis using assms by (auto simp: keys_ok_def)
qed

lemma capped_image:
  assumes "capped S M" "finite M"
    and "\<forall>m \<in> M. member (f m) = member m \<and> member_clan (f m) = member_clan m \<and>
                  member_status (f m) = member_status m"
  shows "capped S (f ` M)"
  unfolding capped_def private_rows_image [OF assms(3)]
  using assms(1,2) by (auto simp: capped_def intro: order_trans [OF card_image_le])

lemma capped_smaller:
  assumes "capped S M" "finite M" "\<And>u. private_rows S' M' u \<subseteq> private_rows S M u"
  shows "capped S' M'"
proof (rule capped_mono [OF assms(1,2)])
  fix u
  show "\<exists>f. inj_on f (private_rows S' M' u) \<and> f ` private_rows S' M' u \<subseteq> private_rows S M u"
    using assms(3) [of u] by (auto intro!: exI [of _ id])
qed

lemma keys_ok_same:
  assumes "keys_ok S M" "x \<in> M" "y \<in> M"
  shows "membership_id x = membership_id y \<Longrightarrow> x = y"
    and "member x = member y \<Longrightarrow> member_clan x = member_clan y \<Longrightarrow> x = y"
  using assms by (auto simp: keys_ok_def dest: inj_onD)

lemma keys_ok_clan: "keys_ok S M \<Longrightarrow> c \<in> S \<Longrightarrow> d \<in> S \<Longrightarrow> clan_id d = clan_id c \<Longrightarrow> d = c"
  by (auto simp: keys_ok_def dest: inj_onD)

lemma keys_ok_fresh:
  assumes "keys_ok S M" "m \<in> M" "clan_id c \<notin> clan_id ` S"
  shows "member_clan m \<noteq> clan_id c"
proof -
  obtain d where "d \<in> S" "clan_id d = member_clan m" using assms by (auto simp: keys_ok_def)
  with assms(3) show ?thesis by force
qed

lemma roster_okD:
  assumes "roster_ok S M"
  shows "keys_ok S M" "names_ok S" "one_leader M" "one_leadership S M" "has_leader S M" "capped S M"
    "requests_ok M" "active_ok S M" "one_active M" "institutional_ok S M" "finite M" "inj_on clan_id S"
  using assms by (auto simp: roster_ok_def keys_ok_def)

lemma enter_keeps:
  assumes "roster_ok S M"
    and "membership_id m \<notin> membership_id ` M" "member_role m = MEMBER" "\<not> is_active_private m"
    and new: "\<forall>m' \<in> M. \<not> (member m' = member m \<and> member_clan m' = member_clan m)"
    and c: "c \<in> S" "clan_id c = member_clan m"
      "clan_type c = INSTITUTIONAL \<longrightarrow> member_status m = REQ_ACCEPTED"
    and room: "member_status m = REQ_ACCEPTED \<longrightarrow> clan_type c = PRIVATE_CLAN \<longrightarrow>
       card (private_rows S M (member m)) < MAX_PRIVATE_CLAN_MEMBERSHIPS_PER_USER"
  shows "roster_ok S (insert m M)"
proof -
  from assms have same: "d = c" if "d \<in> S" "clan_id d = member_clan m" for d
    using that c keys_ok_clan [OF roster_okD(1) [OF assms(1)], of c d] by simp
  have "\<not> leader_row m" using assms by (simp add: leader_row_def)
  have "keys_ok S (insert m M)"
    using assms by (auto simp: roster_ok_def keys_ok_def)
  moreover have "capped S (insert m M)"
  proof (rule capped_add [where v = "member m" and m = m])
    show "capped S M" "finite M" using assms by (auto simp: roster_ok_def keys_ok_def)
    show "m \<in> private_rows S (insert m M) (member m) \<longrightarrow>
      card (private_rows S M (member m)) < MAX_PRIVATE_CLAN_MEMBERSHIPS_PER_USER"
      using room by (auto simp: private_rows_def private_alive_in_def dest: same)
  qed (auto simp: private_rows_def)
  moreover have "institutional_ok S (insert m M)"
    using assms by (auto simp: roster_ok_def institutional_ok_def dest: same)
  ultimately show ?thesis
    using assms \<open>\<not> leader_row m\<close>
    by (simp add: roster_ok_def one_leader_def one_leadership_def has_leader_def requests_ok_def
        active_ok_def one_active_def)
qed

lemma decide_keeps:
  assumes "roster_ok S M" "m \<in> M" "member_status m \<noteq> REQ_ACCEPTED"
    and room: "st = REQ_ACCEPTED \<longrightarrow>
       card (private_rows S M (member m)) < MAX_PRIVATE_CLAN_MEMBERSHIPS_PER_USER"
  shows "roster_ok S (insert (m\<lparr>member_status := st\<rparr>) (M - {m}))"
proof -
  define f :: "membership \<Rightarrow> membership" where "f = (\<lambda>x. if x = m then m\<lparr>member_status := st\<rparr> else x)"
  have eq: "insert (m\<lparr>member_status := st\<rparr>) (M - {m}) = f ` M"
    using assms(2) image_swap [of m M "\<lambda>m. m\<lparr>member_status := st\<rparr>" id] by (simp add: f_def)
  have ok: "keys_ok S M" "capped S M" "finite M" using assms(1) by (auto simp: roster_ok_def keys_ok_def)
  have role: "member_role m = MEMBER" using assms by (auto simp: roster_ok_def requests_ok_def)
  then have lead: "leader_row (f x) \<longleftrightarrow> leader_row x \<and> f x = x" if "x \<in> M" for x
    using assms(3) by (simp add: f_def leader_row_def)
  have inact: "\<not> is_active_private m" using assms by (auto simp: roster_ok_def active_ok_def)
  have k: "keys_ok S (f ` M)" by (rule keys_ok_image [OF ok(1)]) (simp add: f_def)
  have cap: "capped S (insert (m\<lparr>member_status := st\<rparr>) (M - {m}))"
  proof (rule capped_add [where v = "member m" and m = "m\<lparr>member_status := st\<rparr>", OF ok(2,3)])
    show "m\<lparr>member_status := st\<rparr> \<in> private_rows S (insert (m\<lparr>member_status := st\<rparr>) (M - {m})) (member m)
      \<longrightarrow> card (private_rows S M (member m)) < MAX_PRIVATE_CLAN_MEMBERSHIPS_PER_USER"
      using room by (simp add: private_rows_def)
  qed (auto simp: private_rows_def)
  have "one_leader (f ` M) \<and> one_leadership S (f ` M)"
    using assms(1) lead by (auto simp: roster_ok_def one_leader_def one_leadership_def)
  moreover have "has_leader S (f ` M)"
    using assms(1) lead unfolding roster_ok_def has_leader_def
    by (metis assms(3) f_def image_eqI leader_row_def)
  moreover have "requests_ok (f ` M) \<and> active_ok S (f ` M) \<and> one_active (f ` M)"
    using assms(1) role inact by (auto simp: f_def roster_ok_def requests_ok_def active_ok_def one_active_def)
  moreover have "institutional_ok S (f ` M)"
    using assms by (auto simp: f_def roster_ok_def institutional_ok_def)
  ultimately show ?thesis using k cap assms(1) unfolding eq by (simp add: roster_ok_def)
qed

lemma found_institutional_keeps:
  assumes "roster_ok S M" "clan_id c \<notin> clan_id ` S" "clan_type c = INSTITUTIONAL" "clan_alive c"
    "\<forall>d \<in> S. clan_alive d \<longrightarrow> clan_name d \<noteq> clan_name c"
  shows "roster_ok (insert c S) M"
proof -
  note ok = roster_okD [OF assms(1)]
  have fresh: "\<forall>m \<in> M. member_clan m \<noteq> clan_id c"
    using keys_ok_fresh [OF ok(1) _ assms(2)] by blast
  have "keys_ok (insert c S) M" using ok(1) assms(2) by (auto simp: keys_ok_def)
  moreover have "names_ok (insert c S)" using ok(2) assms(5) by (force simp: names_ok_def)
  moreover have "capped (insert c S) M"
    by (rule capped_smaller [OF ok(6,11)]) (use assms(3) in \<open>auto simp: private_rows_def\<close>)
  moreover have "one_leadership (insert c S) M"
    using ok(4) fresh unfolding one_leadership_def alive_in_insert by metis
  moreover have "institutional_ok (insert c S) M" using ok(10) fresh by (auto simp: institutional_ok_def)
  ultimately show ?thesis
    using ok assms(3) by (simp add: roster_ok_def has_leader_def active_ok_def)
qed

lemma found_private_keeps:
  assumes "roster_ok S M" and c: "clan_id c \<notin> clan_id ` S" "clan_type c = PRIVATE_CLAN" "clan_alive c"
      "\<forall>d \<in> S. clan_alive d \<longrightarrow> clan_name d \<noteq> clan_name c"
    and m: "membership_id m \<notin> membership_id ` M" "member_clan m = clan_id c" "leader_row m"
      "\<not> is_active_private m"
    and lead: "\<forall>m' \<in> M. leader_row m' \<longrightarrow> member m' = member m \<longrightarrow> \<not> alive_in S (member_clan m')"
    and room: "card (private_rows S M (member m)) < MAX_PRIVATE_CLAN_MEMBERSHIPS_PER_USER"
  shows "roster_ok (insert c S) (insert m M)"
proof -
  note ok = roster_okD [OF assms(1)]
  have fresh: "\<forall>m \<in> M. member_clan m \<noteq> clan_id c"
    using keys_ok_fresh [OF ok(1) _ c(1)] by blast
  have "keys_ok (insert c S) (insert m M)"
    using ok(1) c(1) m(1,2) fresh by (auto simp: keys_ok_def)
  moreover have "names_ok (insert c S)" using ok(2) c(4) by (force simp: names_ok_def)
  moreover have "capped (insert c S) (insert m M)"
    by (rule capped_add [where v = "member m" and m = m, OF ok(6,11)])
      (use room fresh in \<open>auto simp: private_rows_def\<close>)
  moreover have "one_leader (insert m M)"
    using ok(3) fresh m(2) by (force simp: one_leader_def)
  moreover have "one_leadership (insert c S) (insert m M)"
    using ok(4) fresh m(2) lead unfolding one_leadership_def alive_in_insert by (metis insert_iff)
  moreover have "has_leader (insert c S) (insert m M)"
    using ok(5) m(2,3) by (auto simp: has_leader_def)
  moreover have "institutional_ok (insert c S) (insert m M)"
    unfolding institutional_ok_def
  proof (intro ballI impI)
    fix x d
    assume "x \<in> insert m M" "d \<in> insert c S" "clan_id d = member_clan x" "clan_type d = INSTITUTIONAL"
    moreover from this c(2) have "d \<in> S" by auto
    moreover from calculation c(1) m(2) have "x \<noteq> m" by (metis imageI)
    ultimately show "member_role x = MEMBER \<and> member_status x = REQ_ACCEPTED"
      using ok(10) by (auto simp: institutional_ok_def)
  qed
  ultimately show ?thesis
    using ok m by (simp add: roster_ok_def requests_ok_def active_ok_def one_active_def leader_row_def)
qed

lemma remove_keeps:
  assumes "roster_ok S M" "\<forall>m \<in> D. leader_row m \<longrightarrow> \<not> alive_in S (member_clan m)"
  shows "roster_ok S (M - D)"
proof -
  note ok = roster_okD [OF assms(1)]
  have "keys_ok S (M - D)" using ok(1) by (auto simp: keys_ok_def intro: inj_on_subset)
  moreover have "capped S (M - D)"
    by (rule capped_smaller [OF ok(6,11)]) (auto simp: private_rows_def)
  moreover have "has_leader S (M - D)"
    using ok(5) assms(2) unfolding has_leader_def by (metis Diff_iff private_alive_alive)
  ultimately show ?thesis
    using ok by (simp add: roster_ok_def one_leader_def one_leadership_def requests_ok_def active_ok_def
        one_active_def institutional_ok_def)
qed

lemma edit_keeps:
  assumes "roster_ok S M"
    and c: "c \<in> S" "clan_id c' = clan_id c" "clan_type c' = clan_type c" "deleted_at c' = deleted_at c"
      "clan_alive c \<longrightarrow> (\<forall>d \<in> S - {c}. clan_alive d \<longrightarrow> clan_name d \<noteq> clan_name c')"
  shows "roster_ok (insert c' (S - {c})) M"
proof -
  note ok = roster_okD [OF assms(1)]
  note same = alive_in_edited [OF c(1-4)]
  have "inj_on clan_id (insert c' (S - {c}))"
    using ok(12) c(1,2) by (auto simp: inj_on_def)
  then have "keys_ok (insert c' (S - {c})) M" using ok(1) c(2) by (auto simp: keys_ok_def)
  moreover have "names_ok (insert c' (S - {c}))"
    using ok(2) c(4,5) unfolding names_ok_def clan_alive_def by (metis DiffI insertE singletonD DiffE)
  moreover have "private_rows (insert c' (S - {c})) M u = private_rows S M u" for u
    by (simp only: private_rows_def same)
  moreover have "institutional_ok (insert c' (S - {c})) M"
    using ok(10) c(1-3) by (auto simp: institutional_ok_def)
  ultimately show ?thesis
    using ok by (simp add: roster_ok_def one_leadership_def has_leader_def active_ok_def capped_def same
        del: alive_in_insert)
qed

text \<open>A rewrite of the active flag alone.\<close>

definition flag_only :: "membership set \<Rightarrow> (membership \<Rightarrow> membership) \<Rightarrow> bool" where
  "flag_only M f \<longleftrightarrow> (\<forall>x \<in> M. f x = x\<lparr>is_active_private := is_active_private (f x)\<rparr>)"

lemma flag_onlyD:
  assumes "flag_only M f" "x \<in> M"
  shows "membership_id (f x) = membership_id x" "member (f x) = member x"
    "member_clan (f x) = member_clan x" "member_role (f x) = member_role x"
    "member_status (f x) = member_status x" "leader_row (f x) = leader_row x"
proof -
  obtain b where "f x = x\<lparr>is_active_private := b\<rparr>" using assms by (metis flag_only_def)
  then show "membership_id (f x) = membership_id x" "member (f x) = member x"
    "member_clan (f x) = member_clan x" "member_role (f x) = member_role x"
    "member_status (f x) = member_status x" "leader_row (f x) = leader_row x"
    by simp_all
qed

lemma flag_only_keeps:
  assumes "roster_ok S M" "flag_only M f"
  shows "keys_ok S (f ` M)" "one_leader (f ` M)" "one_leadership S (f ` M)" "has_leader S (f ` M)"
    "capped S (f ` M)" "requests_ok (f ` M)" "institutional_ok S (f ` M)"
proof -
  note ok = roster_okD [OF assms(1)] and d = flag_onlyD [OF assms(2)]
  show "keys_ok S (f ` M)" by (rule keys_ok_image [OF ok(1)]) (simp add: d)
  show "one_leader (f ` M)" using ok(3) by (simp add: one_leader_def d) blast
  show "one_leadership S (f ` M)" using ok(4) by (simp add: one_leadership_def d) blast
  show "has_leader S (f ` M)" using ok(5) by (simp add: has_leader_def d cong: bex_cong)
  show "capped S (f ` M)" by (rule capped_image [OF ok(6,11)]) (simp add: d)
  show "requests_ok (f ` M)" using ok(7) by (simp add: requests_ok_def d)
  show "institutional_ok S (f ` M)" using ok(10) by (simp add: institutional_ok_def d)
qed

lemma dissolve_keeps:
  assumes "roster_ok S M" and c: "c \<in> S" "clan_type c = PRIVATE_CLAN" "clan_alive c"
  shows "roster_ok (insert (c\<lparr>deleted_at := Some t\<rparr>) (S - {c}))
    ((\<lambda>x. if member_clan x = clan_id c then x\<lparr>is_active_private := False\<rparr> else x) ` M)"
proof -
  define f :: "membership \<Rightarrow> membership" where "f = (\<lambda>x. if member_clan x = clan_id c then x\<lparr>is_active_private := False\<rparr> else x)"
  define T where "T = insert (c\<lparr>deleted_at := Some t\<rparr>) (S - {c})"
  note ok = roster_okD [OF assms(1)]
  have alive: "alive_in T k \<longleftrightarrow> alive_in S k \<and> k \<noteq> clan_id c"
    "private_alive_in T k \<longleftrightarrow> private_alive_in S k \<and> k \<noteq> clan_id c" for k
    unfolding T_def by (rule alive_in_dissolved [OF ok(12) c(1)])+
  have flag: "flag_only M f" by (simp add: flag_only_def f_def)
  note fk = flag_only_keeps [OF assms(1) flag]
  have act: "is_active_private (f x) \<longleftrightarrow> is_active_private x \<and> f x = x \<and> member_clan x \<noteq> clan_id c" for x
    by (simp add: f_def)
  have "inj_on clan_id T" using ok(12) c(1) by (auto simp: T_def inj_on_def)
  moreover have "clan_id ` T = clan_id ` S" using c(1) by (auto simp: T_def)
  ultimately have "keys_ok T (f ` M)" using fk(1) unfolding keys_ok_def by (metis image_iff)
  moreover have "names_ok T" using ok(2) by (simp add: names_ok_def clan_alive_def T_def)
  moreover have "capped T (f ` M)"
    by (rule capped_smaller [OF fk(5)]) (use ok(11) in \<open>auto simp: private_rows_def alive\<close>)
  moreover have "one_leadership T (f ` M)" using fk(3) unfolding one_leadership_def alive by blast
  moreover have "has_leader T (f ` M)" using fk(4) by (simp add: has_leader_def alive)
  moreover have "active_ok T (f ` M)"
    using ok(8) unfolding active_ok_def ball_simps(9) act alive by metis
  moreover have "one_active (f ` M)"
    using ok(9) unfolding one_active_def ball_simps(9) act by metis
  moreover have "institutional_ok T (f ` M)"
    using fk(7) c(1,2) unfolding institutional_ok_def T_def by simp blast
  ultimately show ?thesis using fk unfolding f_def [symmetric] T_def [symmetric] roster_ok_def by blast
qed

lemma select_keeps:
  assumes "roster_ok S M" "m \<in> M" "member_status m = REQ_ACCEPTED" "private_alive_in S (member_clan m)"
  shows "roster_ok S (insert (m\<lparr>is_active_private := True\<rparr>)
    ((\<lambda>x. if member x = member m then x\<lparr>is_active_private := False\<rparr> else x) ` (M - {m})))"
proof -
  define f :: "membership \<Rightarrow> membership" where "f = (\<lambda>x. if x = m then m\<lparr>is_active_private := True\<rparr>
    else if member x = member m then x\<lparr>is_active_private := False\<rparr> else x)"
  have eq: "insert (m\<lparr>is_active_private := True\<rparr>)
    ((\<lambda>x. if member x = member m then x\<lparr>is_active_private := False\<rparr> else x) ` (M - {m})) = f ` M"
    unfolding f_def by (rule image_swap [OF assms(2), of "\<lambda>m. m\<lparr>is_active_private := True\<rparr>"])
  note ok = roster_okD [OF assms(1)]
  have "flag_only M f" by (simp add: flag_only_def f_def)
  note fk = flag_only_keeps [OF assms(1) this]
  have "active_ok S (f ` M)" using ok(8) assms(3,4) by (auto simp: active_ok_def f_def)
  moreover have "one_active (f ` M)" using ok(9) by (auto simp: one_active_def f_def)
  ultimately show ?thesis unfolding eq roster_ok_def using fk ok(2) by blast
qed

lemma transfer_keeps:
  assumes "roster_ok S M" "m \<in> M" "m' \<in> M" "leader_row m" "member_status m' = REQ_ACCEPTED"
    and other: "member_clan m' = member_clan m" "m' \<noteq> m"
    and free: "\<forall>x \<in> M. leader_row x \<longrightarrow> member x = member m' \<longrightarrow> \<not> alive_in S (member_clan x)"
  shows "roster_ok S
    (insert (m'\<lparr>member_role := LEADER\<rparr>) (insert (m\<lparr>member_role := MEMBER\<rparr>) (M - {m, m'})))"
proof -
  define f :: "membership \<Rightarrow> membership" where "f = (\<lambda>x. if x = m' then m'\<lparr>member_role := LEADER\<rparr>
    else if x = m then m\<lparr>member_role := MEMBER\<rparr> else x)"
  have eq: "insert (m'\<lparr>member_role := LEADER\<rparr>) (insert (m\<lparr>member_role := MEMBER\<rparr>) (M - {m, m'})) = f ` M"
    using assms(2,3) other(2) by (auto simp: f_def)
  note ok = roster_okD [OF assms(1)]
  have same: "membership_id (f x) = membership_id x" "member (f x) = member x"
    "member_clan (f x) = member_clan x" "member_status (f x) = member_status x"
    "is_active_private (f x) = is_active_private x" for x
    by (simp_all add: f_def)
  have lead: "leader_row (f x) \<longleftrightarrow> x = m' \<or> x \<noteq> m \<and> leader_row x" for x
    using assms(5) by (simp add: f_def)
  have "keys_ok S (f ` M)" by (rule keys_ok_image [OF ok(1)]) (simp add: same)
  moreover have "capped S (f ` M)" by (rule capped_image [OF ok(6,11)]) (simp add: same)
  moreover have "one_leader (f ` M)"
  proof -
    have "x = m" if "x \<in> M" "leader_row x" "member_clan x = member_clan m" for x
      using that ok(3) assms(2,4) by (auto simp: one_leader_def)
    moreover have "x = y" if "x \<in> M" "y \<in> M" "leader_row x" "leader_row y" "member_clan x = member_clan y" for x y
      using that ok(3) by (auto simp: one_leader_def)
    ultimately show ?thesis using other unfolding one_leader_def ball_simps(9) lead same by metis
  qed
  moreover have "one_leadership S (f ` M)"
  proof -
    have "x = y" if "x \<in> M" "y \<in> M" "leader_row x" "leader_row y" "alive_in S (member_clan x)"
      "alive_in S (member_clan y)" "member x = member y" for x y
      using that ok(4) by (auto simp: one_leadership_def)
    then show ?thesis using free unfolding one_leadership_def ball_simps(9) lead same by metis
  qed
  moreover have "has_leader S (f ` M)"
    using ok(5) assms(3) other by (simp add: has_leader_def lead same) metis
  moreover have "requests_ok (f ` M)" using ok(7) assms(5) by (auto simp: requests_ok_def f_def)
  moreover have "active_ok S (f ` M)" using ok(8) by (simp add: active_ok_def same)
  moreover have "one_active (f ` M)" using ok(9) unfolding one_active_def by (simp add: same) metis
  moreover have "institutional_ok S (f ` M)"
    using ok(10) assms(2,3,4) other by (auto simp: institutional_ok_def f_def leader_row_def)
  ultimately show ?thesis unfolding eq using ok(2) by (simp only: roster_ok_def)
qed

lemma roster_step_keeps:
  "roster_step p q \<Longrightarrow> roster_ok (fst p) (snd p) \<Longrightarrow> roster_ok (fst q) (snd q)"
proof (induction rule: roster_step.induct)
  case found_private
  then show ?case unfolding fst_conv snd_conv by - (rule found_private_keeps; assumption)
next
  case found_institutional
  then show ?case unfolding fst_conv snd_conv by - (rule found_institutional_keeps; assumption)
next
  case enter
  then show ?case unfolding fst_conv snd_conv by - (rule enter_keeps; assumption)
next
  case decide
  then show ?case unfolding fst_conv snd_conv by - (rule decide_keeps; assumption)
next
  case remove
  then show ?case unfolding fst_conv snd_conv by - (rule remove_keeps; assumption)
next
  case transfer
  then show ?case unfolding fst_conv snd_conv by - (rule transfer_keeps; assumption)
next
  case select
  then show ?case unfolding fst_conv snd_conv by - (rule select_keeps; assumption)
next
  case dissolve
  then show ?case unfolding fst_conv snd_conv by - (rule dissolve_keeps; assumption)
next
  case edit
  then show ?case unfolding fst_conv snd_conv by - (rule edit_keeps; assumption)
qed simp

end
