(* ===== verification/Clans.thy ===== *)
theory Clans
  imports Accounts Invite_Codes Roster
begin

text \<open>
  The clans domain: the notifications it sends (\<open>clans/notifications.py\<close>), every service of
  \<open>clans/services.py\<close> and the selectors of \<open>clans/selectors.py\<close>. A service gets the clan as
  the record its caller fetched, so that a snapshot that is out of date is an argument like any
  other; whatever the code reads again under a lock is read from the state. Users are passed
  by key where the code only compares keys.
\<close>

section \<open>Notifications of the clans domain\<close>

definition user_active :: "db \<Rightarrow> uuid \<Rightarrow> bool" where
  "user_active s u = list_ex (\<lambda>x. user_id x = u \<and> is_active x) (users s)"

definition leader_of :: "db \<Rightarrow> uuid \<Rightarrow> uuid option" where
  "leader_of s cid =
     map_option member (qs_first membership_id
       (filter (\<lambda>m. member_clan m = cid \<and> member_role m = LEADER \<and> member_status m = REQ_ACCEPTED \<and>
                     user_active s (member m)) (memberships s)))"

definition members_of :: "db \<Rightarrow> uuid \<Rightarrow> uuid list \<Rightarrow> uuid list" where
  "members_of s cid excluded =
     map user_id (filter (\<lambda>x. is_active x \<and> user_id x \<notin> set excluded \<and>
       list_ex (\<lambda>m. member m = user_id x \<and> member_clan m = cid \<and> member_status m = REQ_ACCEPTED)
         (memberships s)) (users s))"

definition tell :: "db \<Rightarrow> datetime \<Rightarrow> uuid \<Rightarrow> notification_type \<Rightarrow> (string \<times> string) list \<Rightarrow> db res" where
  "tell s now u ty ctx = map_sum id snd (notify s now u ty ctx)"

definition tell_leader ::
  "db \<Rightarrow> datetime \<Rightarrow> clan \<Rightarrow> uuid \<Rightarrow> notification_type \<Rightarrow> (string \<times> string) list \<Rightarrow> db res" where
  "tell_leader s now c other ty ctx =
     (case leader_of s (clan_id c) of
        None \<Rightarrow> Inr s
      | Some l \<Rightarrow> if l \<noteq> other then tell s now l ty ctx else Inr s)"

definition notify_join_request :: "db \<Rightarrow> datetime \<Rightarrow> clan \<Rightarrow> user \<Rightarrow> db res" where
  "notify_join_request s now c applicant =
     tell_leader s now c (user_id applicant) CLAN_JOIN_REQUEST
       [(''clan_name'', clan_name c), (''member_name'', public_display_name applicant)]"

definition notify_member_joined :: "db \<Rightarrow> datetime \<Rightarrow> clan \<Rightarrow> user \<Rightarrow> db res" where
  "notify_member_joined s now c u =
     tell_leader s now c (user_id u) CLAN_MEMBER_JOINED
       [(''clan_name'', clan_name c), (''member_name'', name_shown_to_others s u)]"

definition notify_member_left :: "db \<Rightarrow> datetime \<Rightarrow> clan \<Rightarrow> user \<Rightarrow> db res" where
  "notify_member_left s now c u =
     tell_leader s now c (user_id u) CLAN_MEMBER_LEFT
       [(''clan_name'', clan_name c), (''member_name'', name_shown_to_others s u)]"

definition notify_request_decided :: "db \<Rightarrow> datetime \<Rightarrow> clan \<Rightarrow> uuid \<Rightarrow> bool \<Rightarrow> db res" where
  "notify_request_decided s now c applicant accepted =
     tell s now applicant (if accepted then CLAN_REQ_ACCEPTED else CLAN_REQ_REJECTED)
       [(''clan_name'', clan_name c)]"

definition notify_member_kicked :: "db \<Rightarrow> datetime \<Rightarrow> clan \<Rightarrow> uuid \<Rightarrow> db res" where
  "notify_member_kicked s now c u = tell s now u CLAN_KICKED [(''clan_name'', clan_name c)]"

definition notify_leader_changed :: "db \<Rightarrow> datetime \<Rightarrow> clan \<Rightarrow> user \<Rightarrow> db res" where
  "notify_leader_changed s now c new_leader =
     map_sum id snd (notify_many s now (members_of s (clan_id c) []) CLAN_LEADER_CHANGED
       [(''clan_name'', clan_name c), (''leader_name'', name_shown_to_others s new_leader)])"

definition notify_clan_dissolved :: "db \<Rightarrow> datetime \<Rightarrow> clan \<Rightarrow> uuid \<Rightarrow> db res" where
  "notify_clan_dissolved s now c actor =
     map_sum id snd (notify_many s now (members_of s (clan_id c) [actor]) CLAN_DISSOLVED
       [(''clan_name'', clan_name c)])"

section \<open>Rows the services read and write\<close>

text \<open>\<open>Clan.objects.get(pk=...)\<close> hides soft-deleted clans, \<open>Clan.all_objects.get\<close> does not.\<close>

definition clan_get :: "db \<Rightarrow> uuid \<Rightarrow> clan res" where
  "clan_get s cid = qs_get (\<lambda>c. clan_id c = cid \<and> clan_alive c) (clans s)"

definition clan_get_any :: "db \<Rightarrow> uuid \<Rightarrow> clan res" where
  "clan_get_any s cid = qs_get (\<lambda>c. clan_id c = cid) (clans s)"

definition member_row :: "db \<Rightarrow> uuid \<Rightarrow> uuid \<Rightarrow> membership option" where
  "member_row s cid u =
     qs_first membership_id (filter (\<lambda>m. member m = u \<and> member_clan m = cid) (memberships s))"

definition member_get :: "db \<Rightarrow> uuid \<Rightarrow> uuid \<Rightarrow> membership_status \<Rightarrow> membership res" where
  "member_get s cid u st =
     qs_get (\<lambda>m. member_clan m = cid \<and> member m = u \<and> member_status m = st) (memberships s)"

definition save_member :: "membership \<Rightarrow> (membership \<Rightarrow> membership) \<Rightarrow> db \<Rightarrow> db" where
  "save_member m f s =
     s\<lparr>memberships := qs_update (\<lambda>x. membership_id x = membership_id m) f (memberships s)\<rparr>"

definition save_clan :: "clan \<Rightarrow> (clan \<Rightarrow> clan) \<Rightarrow> db \<Rightarrow> db" where
  "save_clan c f s = s\<lparr>clans := qs_update (\<lambda>x. clan_id x = clan_id c) f (clans s)\<rparr>"

section \<open>Rules\<close>

definition is_clan_leader :: "db \<Rightarrow> uuid \<Rightarrow> uuid \<Rightarrow> bool" where
  "is_clan_leader s cid u =
     list_ex (\<lambda>m. member_clan m = cid \<and> member m = u \<and> member_role m = LEADER \<and>
                   member_status m = REQ_ACCEPTED) (memberships s)"

definition is_already_leading_a_clan :: "db \<Rightarrow> uuid \<Rightarrow> bool" where
  "is_already_leading_a_clan s u =
     list_ex (\<lambda>m. member m = u \<and> member_role m = LEADER \<and> member_status m = REQ_ACCEPTED \<and>
                   list_ex (\<lambda>c. clan_id c = member_clan m \<and> clan_alive c) (clans s)) (memberships s)"

definition count_private_clan_memberships :: "db \<Rightarrow> uuid \<Rightarrow> nat" where
  "count_private_clan_memberships s u =
     length (filter (\<lambda>m. member m = u \<and> member_status m = REQ_ACCEPTED \<and>
       list_ex (\<lambda>c. clan_id c = member_clan m \<and> clan_type c = PRIVATE_CLAN \<and> clan_alive c) (clans s))
       (memberships s))"

definition ensure_private_clan_capacity :: "db \<Rightarrow> uuid \<Rightarrow> unit res" where
  "ensure_private_clan_capacity s u =
     (if count_private_clan_memberships s u \<ge> MAX_PRIVATE_CLAN_MEMBERSHIPS_PER_USER
      then Inl PrivateClanLimitExceededError else Inr ())"

definition save_membership_status ::
  "db \<Rightarrow> datetime \<Rightarrow> uuid \<Rightarrow> uuid \<Rightarrow> membership option \<Rightarrow> membership_status \<Rightarrow> (membership \<times> db) res" where
  "save_membership_status s now u cid existing st =
     (case existing of
        None \<Rightarrow> membership_create s now u cid MEMBER st
      | Some m \<Rightarrow> Inr (m\<lparr>member_status := st\<rparr>, save_member m (\<lambda>x. x\<lparr>member_status := st\<rparr>) s))"

section \<open>Creation and leadership\<close>

definition create_clan ::
  "db \<Rightarrow> datetime \<Rightarrow> string \<Rightarrow> clan_kind \<Rightarrow> uuid \<Rightarrow> string \<Rightarrow> (clan \<times> db) res" where
  "create_clan s now nm kind created_by desc =
     (case clan_create s now nm kind desc PUBLIC_CLAN (Some created_by) of
        Inl e \<Rightarrow> Inl e
      | Inr (c, s1) \<Rightarrow>
          (case membership_create s1 now created_by (clan_id c) LEADER REQ_ACCEPTED of
             Inl e \<Rightarrow> Inl e
           | Inr (_, s2) \<Rightarrow> Inr (c, s2)))"

definition assign_leader :: "db \<Rightarrow> clan \<Rightarrow> membership \<Rightarrow> (membership \<times> db) res" where
  "assign_leader s c m =
     (if member_clan m \<noteq> clan_id c then Inl MembershipClanMismatchError
      else case clan_get s (clan_id c) of
             Inl e \<Rightarrow> Inl e
           | Inr _ \<Rightarrow>
               if list_ex (\<lambda>x. member_clan x = clan_id c \<and> member_role x = LEADER \<and>
                                member_status x = REQ_ACCEPTED \<and> membership_id x \<noteq> membership_id m)
                    (memberships s)
               then Inl DuplicateClanLeaderError
               else Inr (m\<lparr>member_role := LEADER\<rparr>, save_member m (\<lambda>x. x\<lparr>member_role := LEADER\<rparr>) s))"

definition transfer_leadership :: "db \<Rightarrow> datetime \<Rightarrow> clan \<Rightarrow> uuid \<Rightarrow> uuid \<Rightarrow> (membership \<times> db) res" where
  "transfer_leadership s now c actor successor =
     (case clan_get s (clan_id c) of
        Inl e \<Rightarrow> Inl e
      | Inr locked \<Rightarrow>
     (case qs_first membership_id
             (filter (\<lambda>m. member_clan m = clan_id locked \<and> member m = actor \<and> member_role m = LEADER \<and>
                           member_status m = REQ_ACCEPTED) (memberships s)) of
        None \<Rightarrow> Inl (PermissionDenied ''Only the clan's current leader can transfer leadership.'')
      | Some actor_membership \<Rightarrow>
          if successor = actor then Inl (PyValueError ''Cannot transfer leadership to yourself.'')
          else case member_get s (clan_id locked) successor REQ_ACCEPTED of
            Inl DoesNotExist \<Rightarrow> Inl (PyValueError ''Successor must be a member of the clan.'')
          | Inl e \<Rightarrow> Inl e
          | Inr successor_membership \<Rightarrow>
     (case get_user s successor of
        Inl e \<Rightarrow> Inl e
      | Inr locked_successor \<Rightarrow>
          if is_already_leading_a_clan s successor
          then Inl (PyValueError ''Successor already leads another clan.'')
          else
     (case assign_leader (save_member actor_membership (\<lambda>x. x\<lparr>member_role := MEMBER\<rparr>) s)
             locked successor_membership of
        Inl e \<Rightarrow> Inl e
      | Inr (new_leader, s2) \<Rightarrow>
     (case notify_leader_changed s2 now locked locked_successor of
        Inl e \<Rightarrow> Inl e
      | Inr s3 \<Rightarrow> Inr (new_leader, s3))))))"

definition select_active_private_clan :: "db \<Rightarrow> clan \<Rightarrow> uuid \<Rightarrow> (membership \<times> db) res" where
  "select_active_private_clan s c u =
     (if clan_type c \<noteq> PRIVATE_CLAN then Inl (PyValueError ''Only private clans can be selected as active.'')
      else case get_user s u of
        Inl e \<Rightarrow> Inl e
      | Inr _ \<Rightarrow>
     (case member_get s (clan_id c) u REQ_ACCEPTED of
        Inl DoesNotExist \<Rightarrow> Inl (PyValueError ''User is not a member of this clan.'')
      | Inl e \<Rightarrow> Inl e
      | Inr m \<Rightarrow>
          (let s1 = s\<lparr>memberships := qs_update
                       (\<lambda>x. member x = u \<and> is_active_private x \<and> membership_id x \<noteq> membership_id m)
                       (\<lambda>x. x\<lparr>is_active_private := False\<rparr>) (memberships s)\<rparr>
           in if list_ex (\<lambda>x. member x = u \<and> is_active_private x \<and> membership_id x \<noteq> membership_id m) (memberships s1)
              then Inl (IntegrityError ''membership_one_active_private_per_user'')
              else Inr (m\<lparr>is_active_private := True\<rparr>,
                        save_member m (\<lambda>x. x\<lparr>is_active_private := True\<rparr>) s1))))"

section \<open>Onboarding\<close>

definition get_or_create_institutional_clan :: "db \<Rightarrow> datetime \<Rightarrow> string \<Rightarrow> (clan \<times> db) res" where
  "get_or_create_institutional_clan s now name =
     (case qs_get (\<lambda>c. clan_alive c \<and> clan_name c = name) (clans s) of
        Inr c \<Rightarrow> if clan_type c \<noteq> INSTITUTIONAL
                 then Inl (PyValueError (CHR 0x27 # name @ CHR 0x27 # '' is already in use by a non-institutional clan.''))
                 else Inr (c, s)
      | Inl DoesNotExist \<Rightarrow> clan_create s now name INSTITUTIONAL [] PUBLIC_CLAN None
      | Inl e \<Rightarrow> Inl e)"

definition onboard_profile ::
  "string \<Rightarrow> uuid \<Rightarrow> datetime \<Rightarrow> visibility option \<Rightarrow> profile \<Rightarrow> profile" where
  "onboard_profile name cid now vis p =
     p\<lparr>career := name, institutional_clan := Some cid,
       onboarding_completed_at := (case onboarding_completed_at p of None \<Rightarrow> Some now | Some t \<Rightarrow> Some t),
       profile_visibility := (case vis of None \<Rightarrow> profile_visibility p | Some v \<Rightarrow> v)\<rparr>"

definition assign_institutional_clan ::
  "db \<Rightarrow> datetime \<Rightarrow> uuid \<Rightarrow> string \<Rightarrow> visibility option \<Rightarrow> (profile \<times> db) res" where
  "assign_institutional_clan s now u raw_career vis =
     (let name = py_strip raw_career
      in if name = [] then Inl (PyValueError ''career must not be blank'')
         else let (p, s1) = ensure_profile s u
         in case get_or_create_institutional_clan s1 now name of
              Inl e \<Rightarrow> Inl e
            | Inr (c, s2) \<Rightarrow>
                if length name > 150 then Inl (DataError ''accounts_user_profile.career'')
                else
                (let f = onboard_profile name (clan_id c) now vis;
                     s3 = edit_profile u f s2;
                     s4 = (case institutional_clan p of
                             None \<Rightarrow> s3
                           | Some prev \<Rightarrow>
                               if prev = clan_id c then s3
                               else s3\<lparr>memberships := qs_delete
                                      (\<lambda>m. member m = u \<and> member_clan m = prev \<and> member_role m = MEMBER)
                                      (memberships s3)\<rparr>)
                 in if list_ex (\<lambda>m. member m = u \<and> member_clan m = clan_id c) (memberships s4)
                    then Inr (f p, s4)
                    else case membership_create s4 now u (clan_id c) MEMBER REQ_ACCEPTED of
                           Inl e \<Rightarrow> Inl e
                         | Inr (_, s5) \<Rightarrow> Inr (f p, s5)))"

definition complete_onboarding ::
  "db \<Rightarrow> datetime \<Rightarrow> uuid \<Rightarrow> string \<Rightarrow> string option \<Rightarrow> visibility option \<Rightarrow> (profile \<times> db) res" where
  "complete_onboarding s now u raw_career nick vis =
     (case nick of
        None \<Rightarrow> assign_institutional_clan s now u raw_career vis
      | Some raw_nick \<Rightarrow>
          (case get_user s u of
             Inl e \<Rightarrow> Inl e
           | Inr locked \<Rightarrow>
               (let n = py_strip raw_nick
                in if n \<noteq> [] \<and> nickname locked = []
                   then if length n > 50 then Inl (DataError ''accounts_user.nickname'')
                        else assign_institutional_clan (edit_user u (\<lambda>x. x\<lparr>nickname := n\<rparr>) s) now u raw_career vis
                   else assign_institutional_clan s now u raw_career vis)))"

section \<open>Private clans\<close>

definition create_private_clan ::
  "db \<Rightarrow> datetime \<Rightarrow> string \<Rightarrow> uuid \<Rightarrow> string \<Rightarrow> string \<Rightarrow> (clan \<times> db) res" where
  "create_private_clan s now nm created_by desc privacy_value =
     (case privacy_of_string privacy_value of
        None \<Rightarrow> Inl InvalidClanPrivacyError
      | Some priv \<Rightarrow>
     (case get_user s created_by of
        Inl e \<Rightarrow> Inl e
      | Inr _ \<Rightarrow>
          if is_already_leading_a_clan s created_by then Inl AlreadyLeadingAClanError
          else case ensure_private_clan_capacity s created_by of
            Inl e \<Rightarrow> Inl e
          | Inr _ \<Rightarrow>
     (case clan_create s now nm PRIVATE_CLAN desc priv (Some created_by) of
        Inl e \<Rightarrow> (if e = IntegrityError ''clan_name_unique_when_alive'' then Inl DuplicateClanNameError else Inl e)
      | Inr (c, s1) \<Rightarrow>
     (case membership_create s1 now created_by (clan_id c) LEADER REQ_ACCEPTED of
        Inl e \<Rightarrow> Inl e
      | Inr (_, s2) \<Rightarrow> Inr (c, s2)))))"

definition join_clan :: "db \<Rightarrow> datetime \<Rightarrow> clan \<Rightarrow> uuid \<Rightarrow> (membership \<times> db) res" where
  "join_clan s now c u =
     (if clan_type c \<noteq> PRIVATE_CLAN
      then Inl (PyValueError ''Only private clans can be joined through this action.'')
      else case get_user s u of
        Inl e \<Rightarrow> Inl e
      | Inr locked_user \<Rightarrow>
          (let existing = member_row s (clan_id c) u
           in if (case existing of None \<Rightarrow> False | Some m \<Rightarrow> member_status m \<noteq> REQ_REJECTED)
              then Inl (PyValueError
                     (if map_option member_status existing = Some REQ_PENDING
                      then ''User already has a pending request for this clan.''
                      else ''User already has membership for this clan.''))
              else if privacy c = PUBLIC_CLAN
              then (case ensure_private_clan_capacity s u of
                      Inl e \<Rightarrow> Inl e
                    | Inr _ \<Rightarrow>
                   (case save_membership_status s now u (clan_id c) existing REQ_ACCEPTED of
                      Inl e \<Rightarrow> Inl e
                    | Inr (m, s1) \<Rightarrow>
                   (case notify_member_joined s1 now c locked_user of
                      Inl e \<Rightarrow> Inl e
                    | Inr s2 \<Rightarrow> Inr (m, s2))))
              else (case save_membership_status s now u (clan_id c) existing REQ_PENDING of
                      Inl e \<Rightarrow> Inl e
                    | Inr (m, s1) \<Rightarrow>
                   (case notify_join_request s1 now c locked_user of
                      Inl e \<Rightarrow> Inl e
                    | Inr s2 \<Rightarrow> Inr (m, s2)))))"

definition accept_join_request :: "db \<Rightarrow> datetime \<Rightarrow> clan \<Rightarrow> uuid \<Rightarrow> uuid \<Rightarrow> (membership \<times> db) res" where
  "accept_join_request s now c actor applicant =
     (case clan_get s (clan_id c) of
        Inl e \<Rightarrow> Inl e
      | Inr locked \<Rightarrow>
          if \<not> is_clan_leader s (clan_id locked) actor
          then Inl (PermissionDenied ''Only the clan's leader can accept join requests.'')
          else case get_user s applicant of
            Inl e \<Rightarrow> Inl e
          | Inr _ \<Rightarrow>
     (case member_get s (clan_id locked) applicant REQ_PENDING of
        Inl DoesNotExist \<Rightarrow> Inl (PyValueError ''No pending join request from this user.'')
      | Inl e \<Rightarrow> Inl e
      | Inr m \<Rightarrow>
     (case ensure_private_clan_capacity s applicant of
        Inl e \<Rightarrow> Inl e
      | Inr _ \<Rightarrow>
     (case notify_request_decided (save_member m (\<lambda>x. x\<lparr>member_status := REQ_ACCEPTED\<rparr>) s) now locked applicant True of
        Inl e \<Rightarrow> Inl e
      | Inr s2 \<Rightarrow> Inr (m\<lparr>member_status := REQ_ACCEPTED\<rparr>, s2)))))"

definition reject_join_request :: "db \<Rightarrow> datetime \<Rightarrow> clan \<Rightarrow> uuid \<Rightarrow> uuid \<Rightarrow> (membership \<times> db) res" where
  "reject_join_request s now c actor applicant =
     (case clan_get s (clan_id c) of
        Inl e \<Rightarrow> Inl e
      | Inr locked \<Rightarrow>
          if \<not> is_clan_leader s (clan_id locked) actor
          then Inl (PermissionDenied ''Only the clan's leader can reject join requests.'')
          else case member_get s (clan_id locked) applicant REQ_PENDING of
            Inl DoesNotExist \<Rightarrow> Inl (PyValueError ''No pending join request from this user.'')
          | Inl e \<Rightarrow> Inl e
          | Inr m \<Rightarrow>
     (case notify_request_decided (save_member m (\<lambda>x. x\<lparr>member_status := REQ_REJECTED\<rparr>) s) now locked applicant False of
        Inl e \<Rightarrow> Inl e
      | Inr s2 \<Rightarrow> Inr (m\<lparr>member_status := REQ_REJECTED\<rparr>, s2)))"

definition delete_member :: "membership \<Rightarrow> db \<Rightarrow> db" where
  "delete_member m s = s\<lparr>memberships := qs_delete (\<lambda>x. membership_id x = membership_id m) (memberships s)\<rparr>"

definition leave_clan :: "db \<Rightarrow> datetime \<Rightarrow> clan \<Rightarrow> user \<Rightarrow> db res" where
  "leave_clan s now c u =
     (if clan_type c \<noteq> PRIVATE_CLAN
      then Inl (PyValueError ''Only private clans can be left through this action.'')
      else case clan_get s (clan_id c) of
        Inl e \<Rightarrow> Inl e
      | Inr locked \<Rightarrow>
     (case member_get s (clan_id locked) (user_id u) REQ_ACCEPTED of
        Inl DoesNotExist \<Rightarrow> Inl (PyValueError ''User is not a member of this clan.'')
      | Inl e \<Rightarrow> Inl e
      | Inr m \<Rightarrow>
          if member_role m = LEADER
          then Inl (PermissionDenied
                 ''The clan's leader must transfer leadership or dissolve the clan before leaving.'')
          else notify_member_left (delete_member m s) now locked u))"

definition assert_can_dissolve :: "db \<Rightarrow> clan \<Rightarrow> uuid \<Rightarrow> unit res" where
  "assert_can_dissolve s c actor =
     (if clan_type c \<noteq> PRIVATE_CLAN then Inl (PermissionDenied ''Only private clans can be dissolved.'')
      else if \<not> is_clan_leader s (clan_id c) actor
      then Inl (PermissionDenied ''Only the clan leader can dissolve the clan.'')
      else Inr ())"

definition dissolve_clan :: "db \<Rightarrow> datetime \<Rightarrow> clan \<Rightarrow> uuid \<Rightarrow> (clan \<times> db) res" where
  "dissolve_clan s now c actor =
     (case clan_get_any s (clan_id c) of
        Inl e \<Rightarrow> Inl e
      | Inr locked \<Rightarrow>
     (case assert_can_dissolve s locked actor of
        Inl e \<Rightarrow> Inl e
      | Inr _ \<Rightarrow>
          if deleted_at locked \<noteq> None then Inr (locked, s)
          else
          (let s1 = save_clan locked (\<lambda>x. x\<lparr>deleted_at := Some now\<rparr>) s;
               s2 = s1\<lparr>memberships := qs_update (\<lambda>m. member_clan m = clan_id locked \<and> is_active_private m)
                      (\<lambda>m. m\<lparr>is_active_private := False\<rparr>) (memberships s1)\<rparr>
           in case notify_clan_dissolved s2 now (locked\<lparr>deleted_at := Some now\<rparr>) actor of
                Inl e \<Rightarrow> Inl e
              | Inr s3 \<Rightarrow> Inr (locked\<lparr>deleted_at := Some now\<rparr>, s3))))"

definition lock_clan_for_leader :: "db \<Rightarrow> clan \<Rightarrow> uuid \<Rightarrow> string \<Rightarrow> string \<Rightarrow> clan res" where
  "lock_clan_for_leader s c actor not_leader not_private =
     (case clan_get_any s (clan_id c) of
        Inl e \<Rightarrow> Inl e
      | Inr locked \<Rightarrow>
          if deleted_at locked \<noteq> None then Inl DoesNotExist
          else if \<not> is_clan_leader s (clan_id locked) actor then Inl (PermissionDenied not_leader)
          else if clan_type locked \<noteq> PRIVATE_CLAN then Inl (PermissionDenied not_private)
          else Inr locked)"

definition lock_clan_for_leader_edit :: "db \<Rightarrow> clan \<Rightarrow> uuid \<Rightarrow> clan res" where
  "lock_clan_for_leader_edit s c actor =
     lock_clan_for_leader s c actor ''Only the clan leader can edit the clan.''
       ''Only private clans can be edited.''"

definition lock_clan_for_invitations :: "db \<Rightarrow> clan \<Rightarrow> uuid \<Rightarrow> clan res" where
  "lock_clan_for_invitations s c actor =
     lock_clan_for_leader s c actor ''Only the clan leader can manage invitation codes.''
       ''Only private clans have invitation codes.''"

text \<open>
  \<open>update_clan\<close>: a field that is absent or unchanged is not written. The unique name is
  checked against the other living clans, the length against \<open>varchar(100)\<close>.
\<close>

definition update_clan ::
  "db \<Rightarrow> clan \<Rightarrow> uuid \<Rightarrow> string option \<Rightarrow> string option \<Rightarrow> string option \<Rightarrow> (clan \<times> db) res" where
  "update_clan s c actor nm desc privacy_value =
     (case lock_clan_for_leader_edit s c actor of
        Inl e \<Rightarrow> Inl e
      | Inr locked \<Rightarrow>
          if (case privacy_value of None \<Rightarrow> False | Some v \<Rightarrow> privacy_of_string v = None)
          then Inl InvalidClanPrivacyError
          else
          (let new_name = (case nm of None \<Rightarrow> clan_name locked | Some v \<Rightarrow> v);
               new_desc = (case desc of None \<Rightarrow> clan_description locked | Some v \<Rightarrow> v);
               new_priv = (case privacy_value of None \<Rightarrow> privacy locked | Some v \<Rightarrow> the (privacy_of_string v));
               f = (\<lambda>x. x\<lparr>clan_name := new_name, clan_description := new_desc, privacy := new_priv\<rparr>)
           in if f locked = locked then Inr (locked, s)
              else if length new_name > 100 then Inl (DataError ''accounts_clan.name'')
              else if list_ex (\<lambda>d. clan_alive d \<and> clan_name d = new_name \<and> clan_id d \<noteq> clan_id locked) (clans s)
              then Inl DuplicateClanNameError
              else Inr (f locked, save_clan locked f s)))"

definition set_clan_avatar :: "db \<Rightarrow> clan \<Rightarrow> uuid \<Rightarrow> upload option \<Rightarrow> (clan \<times> db) res" where
  "set_clan_avatar s c actor uploaded =
     (case lock_clan_for_leader_edit s c actor of
        Inl e \<Rightarrow> Inl e
      | Inr locked \<Rightarrow>
     (case (case uploaded of None \<Rightarrow> Inr ([], s) | Some up \<Rightarrow> save_clan_avatar s (clan_id locked) up) of
        Inl e \<Rightarrow> Inl e
      | Inr (new_key, s1) \<Rightarrow>
          (let f = (\<lambda>x. x\<lparr>clan_avatar_object_key := new_key\<rparr>);
               s2 = save_clan locked f s1;
               previous_key = clan_avatar_object_key locked
           in Inr (f locked, if previous_key \<noteq> [] \<and> previous_key \<noteq> new_key
                             then delete_clan_avatar (clan_id locked) previous_key s2 else s2))))"

section \<open>Invite codes\<close>

definition invitation_active :: "datetime \<Rightarrow> invitation \<Rightarrow> bool" where
  "invitation_active now i \<longleftrightarrow> redeemed_at i = None \<and> revoked_at i = None \<and> expires_at i > now"

definition list_active_clan_invitations :: "db \<Rightarrow> datetime \<Rightarrow> uuid \<Rightarrow> invitation list" where
  "list_active_clan_invitations s now cid =
     sort_key (\<lambda>i. - invitation_created_at i)
       (filter (\<lambda>i. invitation_clan i = cid \<and> invitation_active now i) (invitations s))"

text \<open>
  The attempts of \<open>create_clan_invitation\<close> to insert a code whose hash is new, over the codes
  that are drawn; \<open>range(_MAX_CODE_ATTEMPTS)\<close> bounds them to five.
\<close>

definition MAX_CODE_ATTEMPTS :: nat where
  "MAX_CODE_ATTEMPTS = 5"

fun try_codes ::
  "(string \<Rightarrow> string \<Rightarrow> string) \<Rightarrow> db \<Rightarrow> datetime \<Rightarrow> uuid \<Rightarrow> uuid \<Rightarrow> string list \<Rightarrow> ((invitation \<times> string) \<times> db) res" where
  "try_codes hmac s now cid actor [] = Inl (RuntimeError ''Could not generate a unique invitation code.'')"
| "try_codes hmac s now cid actor (raw # draws) =
     (let code = generate_code raw
      in case invitation_create s now cid actor (hash_code hmac code) (code_hint_of code) (now + INVITATION_TTL) of
           Inr (i, s') \<Rightarrow> Inr ((i, code), s')
         | Inl e \<Rightarrow> if e = IntegrityError ''clan_invitation_code_hash_unique''
                   then try_codes hmac s now cid actor draws else Inl e)"

definition create_clan_invitation ::
  "(string \<Rightarrow> string \<Rightarrow> string) \<Rightarrow> db \<Rightarrow> datetime \<Rightarrow> clan \<Rightarrow> uuid \<Rightarrow> string list \<Rightarrow> ((invitation \<times> string) \<times> db) res" where
  "create_clan_invitation hmac s now c actor draws =
     (case lock_clan_for_invitations s c actor of
        Inl e \<Rightarrow> Inl e
      | Inr locked \<Rightarrow>
          if privacy locked \<noteq> PRIVATE_INVITE then Inl InvitationsNotNeededError
          else
          (let s1 = s\<lparr>invitations := qs_delete
                  (\<lambda>i. invitation_clan i = clan_id locked \<and> expires_at i < now - INVITATION_RETENTION)
                  (invitations s)\<rparr>
           in if length (list_active_clan_invitations s1 now (clan_id locked)) \<ge> MAX_ACTIVE_INVITATIONS_PER_CLAN
              then Inl InvitationLimitExceededError
              else try_codes hmac s1 now (clan_id locked) actor (take MAX_CODE_ATTEMPTS draws)))"

definition revoke_clan_invitation :: "db \<Rightarrow> datetime \<Rightarrow> clan \<Rightarrow> uuid \<Rightarrow> uuid \<Rightarrow> db res" where
  "revoke_clan_invitation s now c actor iid =
     (case lock_clan_for_invitations s c actor of
        Inl e \<Rightarrow> Inl e
      | Inr locked \<Rightarrow>
     (case qs_get (\<lambda>i. invitation_id i = iid \<and> invitation_clan i = clan_id locked) (invitations s) of
        Inl e \<Rightarrow> Inl e
      | Inr i \<Rightarrow>
          if revoked_at i = None \<and> redeemed_at i = None
          then Inr (s\<lparr>invitations := qs_update (\<lambda>x. invitation_id x = invitation_id i)
                        (\<lambda>x. x\<lparr>revoked_at := Some now\<rparr>) (invitations s)\<rparr>)
          else Inr s))"

definition invitation_by_hash :: "db \<Rightarrow> string \<Rightarrow> invitation option" where
  "invitation_by_hash s h = qs_first invitation_id (filter (\<lambda>i. code_hash i = h) (invitations s))"

definition is_redeemable :: "invitation \<Rightarrow> clan \<Rightarrow> datetime \<Rightarrow> bool" where
  "is_redeemable i c now \<longleftrightarrow>
     deleted_at c = None \<and> clan_type c = PRIVATE_CLAN \<and> redeemed_at i = None \<and> revoked_at i = None \<and>
     expires_at i > now"

definition redeem_clan_invitation ::
  "(string \<Rightarrow> string \<Rightarrow> string) \<Rightarrow> db \<Rightarrow> datetime \<Rightarrow> string \<Rightarrow> uuid \<Rightarrow> (membership \<times> db) res" where
  "redeem_clan_invitation hmac s now code u =
     (let normalized = normalize_code code; h = hash_code hmac normalized
      in if length normalized \<noteq> CODE_LENGTH then Inl InvalidInvitationCodeError
         else case invitation_by_hash s h of
           None \<Rightarrow> Inl InvalidInvitationCodeError
         | Some i \<Rightarrow>
     (case qs_first clan_id (filter (\<lambda>c. clan_id c = invitation_clan i) (clans s)) of
        None \<Rightarrow> Inl InvalidInvitationCodeError
      | Some locked_clan \<Rightarrow>
          if \<not> is_redeemable i locked_clan now then Inl InvalidInvitationCodeError
          else case get_user s u of
            Inl e \<Rightarrow> Inl e
          | Inr locked_user \<Rightarrow>
              (let existing = member_row s (clan_id locked_clan) u
               in if map_option member_status existing = Some REQ_ACCEPTED then Inl AlreadyClanMemberError
                  else case ensure_private_clan_capacity s u of
                    Inl e \<Rightarrow> Inl e
                  | Inr _ \<Rightarrow>
     (case save_membership_status s now u (clan_id locked_clan) existing REQ_ACCEPTED of
        Inl e \<Rightarrow> Inl e
      | Inr (m, s1) \<Rightarrow>
     (case notify_member_joined
             (s1\<lparr>invitations := qs_update (\<lambda>x. invitation_id x = invitation_id i)
                (\<lambda>x. x\<lparr>redeemed_by := Some u, redeemed_at := Some now\<rparr>) (invitations s1)\<rparr>)
             now locked_clan locked_user of
        Inl e \<Rightarrow> Inl e
      | Inr s2 \<Rightarrow> Inr (m, s2))))))"

definition kick_member :: "db \<Rightarrow> datetime \<Rightarrow> clan \<Rightarrow> uuid \<Rightarrow> uuid \<Rightarrow> db res" where
  "kick_member s now c actor target =
     (case lock_clan_for_leader s c actor ''Only the clan leader can expel members.''
             ''Only private clans allow expelling members.'' of
        Inl e \<Rightarrow> Inl e
      | Inr locked \<Rightarrow>
          if actor = target then Inl (PyValueError ''Leaders cannot expel themselves from the clan.'')
          else case member_get s (clan_id locked) target REQ_ACCEPTED of
            Inl DoesNotExist \<Rightarrow> Inl (PyValueError ''User is not an accepted member of this clan.'')
          | Inl e \<Rightarrow> Inl e
          | Inr m \<Rightarrow>
              if member_role m = LEADER then Inl (PyValueError ''Cannot expel a clan leader.'')
              else notify_member_kicked (delete_member m s) now locked target)"

section \<open>Selectors\<close>

definition list_active_clans :: "(string \<Rightarrow> string) \<Rightarrow> db \<Rightarrow> uuid \<Rightarrow> string \<Rightarrow> clan list" where
  "list_active_clans lower s u search =
     sort_key (\<lambda>c. (- clan_total_points c))
       (sort_key clan_name
         (filter (\<lambda>c. clan_alive c \<and>
            (privacy c = PUBLIC_CLAN \<or>
             list_ex (\<lambda>m. member m = u \<and> member_clan m = clan_id c \<and> member_status m = REQ_ACCEPTED) (memberships s)) \<and>
            (search = [] \<or> py_contains (lower (clan_name c)) (lower search)))
           (clans s)))"

definition list_institutional_careers :: "db \<Rightarrow> string list" where
  "list_institutional_careers s =
     sort (map clan_name (filter (\<lambda>c. clan_alive c \<and> clan_type c = INSTITUTIONAL) (clans s)))"

definition get_pending_join_requests :: "db \<Rightarrow> uuid \<Rightarrow> membership list" where
  "get_pending_join_requests s cid =
     sort_key (\<lambda>m. - joined_at m)
       (filter (\<lambda>m. member_clan m = cid \<and> member_status m = REQ_PENDING \<and>
                     list_ex (\<lambda>c. clan_id c = cid \<and> clan_alive c) (clans s)) (memberships s))"

section \<open>The notifications of the clans app never fail\<close>

lemma tell_quiet:
  assumes "set (template_fields ty) \<subseteq> dom (map_of ctx)" "ty \<noteq> SYSTEM"
  shows "\<exists>s'. tell s now u ty ctx = Inr s' \<and> only_notifications s s'"
  using notify_ok [OF assms, of s now u] by (auto simp: tell_def dest: notify_only)

lemma tell_leader_quiet:
  assumes "set (template_fields ty) \<subseteq> dom (map_of ctx)" "ty \<noteq> SYSTEM"
  shows "\<exists>s'. tell_leader s now c other ty ctx = Inr s' \<and> only_notifications s s'"
  using tell_quiet [OF assms, of s now] by (auto simp: tell_leader_def split: option.splits)

lemma tell_many_quiet:
  assumes "set (template_fields ty) \<subseteq> dom (map_of ctx)" "ty \<noteq> SYSTEM"
  shows "\<exists>s'. map_sum id snd (notify_many s now us ty ctx) = Inr s' \<and> only_notifications s s'"
  using notify_many_ok [OF assms, of s now us] by (auto dest: notify_many_only)

interpretation joined: quiet_notifier "\<lambda>s. notify_member_joined s now c u" for now c u
  by unfold_locales (simp add: notify_member_joined_def tell_leader_quiet)

interpretation requested: quiet_notifier "\<lambda>s. notify_join_request s now c u" for now c u
  by unfold_locales (simp add: notify_join_request_def tell_leader_quiet)

interpretation left: quiet_notifier "\<lambda>s. notify_member_left s now c u" for now c u
  by unfold_locales (simp add: notify_member_left_def tell_leader_quiet)

interpretation decided: quiet_notifier "\<lambda>s. notify_request_decided s now c u b" for now c u b
  by unfold_locales (simp add: notify_request_decided_def tell_quiet)

interpretation kicked: quiet_notifier "\<lambda>s. notify_member_kicked s now c u" for now c u
  by unfold_locales (simp add: notify_member_kicked_def tell_quiet)

interpretation changed: quiet_notifier "\<lambda>s. notify_leader_changed s now c u" for now c u
  by unfold_locales (simp add: notify_leader_changed_def tell_many_quiet)

interpretation dissolved: quiet_notifier "\<lambda>s. notify_clan_dissolved s now c u" for now c u
  by unfold_locales (simp add: notify_clan_dissolved_def tell_many_quiet)

lemmas sent = joined.send_only requested.send_only left.send_only decided.send_only kicked.send_only
  changed.send_only dissolved.send_only

section \<open>The roster of a state\<close>

definition roster :: "db \<Rightarrow> clan set \<times> membership set" where
  "roster s = (set (clans s), set (memberships s))"

definition rows_ok :: "db \<Rightarrow> bool" where
  "rows_ok s \<longleftrightarrow> distinct (map clan_id (clans s)) \<and> distinct (map membership_id (memberships s)) \<and>
     (\<forall>c \<in> set (clans s). clan_id c < next_id s) \<and> (\<forall>m \<in> set (memberships s). membership_id m < next_id s)"

definition clans_ok :: "db \<Rightarrow> bool" where
  "clans_ok s \<longleftrightarrow> rows_ok s \<and> roster_ok (set (clans s)) (set (memberships s))"

lemma only_notifications_rows:
  assumes "only_notifications s s'"
  shows "rows_ok s \<Longrightarrow> rows_ok s'" "roster s' = roster s"
  using only_notifications_frame [OF assms] by (auto simp: rows_ok_def roster_def)

text \<open>A committed call refines the abstract roster and keeps the keys.\<close>

definition refines :: "db \<Rightarrow> db \<Rightarrow> bool" where
  "refines s s' \<longleftrightarrow> rows_ok s' \<and> roster_step\<^sup>*\<^sup>* (roster s) (roster s')"

lemma roster_steps_keep: "roster_step\<^sup>*\<^sup>* p q \<Longrightarrow> roster_ok (fst p) (snd p) \<Longrightarrow> roster_ok (fst q) (snd q)"
  by (induction rule: rtranclp_induct) (auto dest: roster_step_keeps)

lemma refines_ok: "clans_ok s \<Longrightarrow> refines s s' \<Longrightarrow> clans_ok s'"
  using roster_steps_keep [of "roster s" "roster s'"] by (auto simp: clans_ok_def refines_def roster_def)

lemma refinesI: "rows_ok s' \<Longrightarrow> roster_step (roster s) (roster s') \<Longrightarrow> refines s s'"
  by (simp add: refines_def r_into_rtranclp)

lemma refines_same: "rows_ok s' \<Longrightarrow> roster s' = roster s \<Longrightarrow> refines s s'"
  by (simp add: refines_def)

lemma refines_trans: "refines s t \<Longrightarrow> refines t u \<Longrightarrow> refines s u"
  by (auto simp: refines_def)

lemma refines_notified: "refines s t \<Longrightarrow> only_notifications t u \<Longrightarrow> refines s u"
  using only_notifications_rows [of t u] by (auto simp: refines_def)

subsection \<open>Writes\<close>

lemma rows_ok_distinct: "rows_ok s \<Longrightarrow> distinct (clans s) \<and> distinct (memberships s)"
  by (auto simp: rows_ok_def distinct_map)

lemma membership_create_InrD:
  assumes "membership_create s now u c r st = Inr (m, s')"
  shows "m = \<lparr>membership_id = next_id s, member = u, member_clan = c, member_role = r, member_status = st,
              is_active_private = False, joined_at = now\<rparr>"
    "s' = s\<lparr>memberships := memberships s @ [m], next_id := Suc (next_id s)\<rparr>"
    "\<forall>x \<in> set (memberships s). \<not> (member x = u \<and> member_clan x = c)"
  using assms by (auto simp: membership_create_def Let_def list_ex_iff split: if_splits)

lemma membership_create_rows:
  assumes "rows_ok s" "membership_create s now u c r st = Inr (m, s')"
  shows "rows_ok s' \<and> roster s' = (set (clans s), insert m (set (memberships s))) \<and>
    membership_id m \<notin> membership_id ` set (memberships s)"
  using assms(1) membership_create_InrD [OF assms(2)] by (auto simp: rows_ok_def roster_def less_Suc_eq)

lemma clan_create_InrD:
  assumes "clan_create s now nm kind desc priv b = Inr (c, s')"
  shows "c = \<lparr>clan_id = next_id s, clan_name = nm, clan_description = desc, clan_avatar_object_key = [],
              clan_type = kind, privacy = priv, clan_total_points = 0, clan_created_by = b, deleted_at = None,
              clan_created_at = now\<rparr>"
    "s' = s\<lparr>clans := clans s @ [c], next_id := Suc (next_id s)\<rparr>"
    "\<forall>d \<in> set (clans s). clan_alive d \<longrightarrow> clan_name d \<noteq> nm"
  using assms by (auto simp: clan_create_def Let_def list_ex_iff split: if_splits)

lemma clan_create_rows:
  assumes "rows_ok s" "clan_create s now nm kind desc priv b = Inr (c, s')"
  shows "rows_ok s' \<and> roster s' = (insert c (set (clans s)), set (memberships s)) \<and>
    clan_id c \<notin> clan_id ` set (clans s) \<and> clan_alive c \<and> clan_type c = kind \<and>
    (\<forall>d \<in> set (clans s). clan_alive d \<longrightarrow> clan_name d \<noteq> clan_name c)"
  using assms(1) clan_create_InrD [OF assms(2)] by (auto simp: rows_ok_def roster_def less_Suc_eq clan_alive_def)

lemma save_member_rows:
  assumes "rows_ok s" "m \<in> set (memberships s)" "\<And>x. membership_id (f x) = membership_id x"
  shows "rows_ok (save_member m f s) \<and>
    roster (save_member m f s) = (set (clans s), insert (f m) (set (memberships s) - {m}))"
proof -
  have "distinct (map membership_id (memberships s))" using assms(1) by (simp add: rows_ok_def)
  from set_qs_update_key [OF this assms(2), of f] show ?thesis
    using assms by (auto simp: rows_ok_def save_member_def roster_def ball_qs_update)
qed

lemma save_clan_rows:
  assumes "rows_ok s" "c \<in> set (clans s)" "\<And>x. clan_id (f x) = clan_id x"
  shows "rows_ok (save_clan c f s) \<and>
    roster (save_clan c f s) = (insert (f c) (set (clans s) - {c}), set (memberships s))"
proof -
  have "distinct (map clan_id (clans s))" using assms(1) by (simp add: rows_ok_def)
  from set_qs_update_key [OF this assms(2), of f] show ?thesis
    using assms by (auto simp: rows_ok_def save_clan_def roster_def ball_qs_update)
qed

lemma delete_member_rows:
  assumes "rows_ok s" "m \<in> set (memberships s)"
  shows "rows_ok (delete_member m s) \<and> roster (delete_member m s) = (set (clans s), set (memberships s) - {m})"
proof -
  have "distinct (map membership_id (memberships s))" using assms(1) by (simp add: rows_ok_def)
  then have "{x \<in> set (memberships s). membership_id x \<noteq> membership_id m} = set (memberships s) - {m}"
    using assms(2) by (auto dest: inj_on_pk)
  then show ?thesis
    using assms(1) by (auto simp: rows_ok_def delete_member_def roster_def distinct_map_qs_delete)
qed

subsection \<open>Reads\<close>

lemma clan_get_InrD: "clan_get s cid = Inr c \<Longrightarrow> c \<in> set (clans s) \<and> clan_id c = cid \<and> clan_alive c"
  by (auto simp: clan_get_def dest: qs_get_InrD(1,2))

lemma clan_get_any_InrD: "clan_get_any s cid = Inr c \<Longrightarrow> c \<in> set (clans s) \<and> clan_id c = cid"
  by (auto simp: clan_get_any_def dest: qs_get_InrD(1,2))

lemma member_get_InrD:
  "member_get s cid u st = Inr m \<Longrightarrow>
   m \<in> set (memberships s) \<and> member_clan m = cid \<and> member m = u \<and> member_status m = st"
  by (auto simp: member_get_def dest: qs_get_InrD(1,2))

lemma member_row_SomeD:
  "member_row s cid u = Some m \<Longrightarrow> m \<in> set (memberships s) \<and> member m = u \<and> member_clan m = cid"
  by (auto simp: member_row_def dest: qs_first_filterD)

lemma member_row_None: "member_row s cid u = None \<longleftrightarrow> (\<forall>m \<in> set (memberships s). \<not> (member m = u \<and> member_clan m = cid))"
  by (auto simp: member_row_def filter_empty_conv)

lemma leader_iff: "is_clan_leader s cid u \<longleftrightarrow> (\<exists>m \<in> set (memberships s). leader_row m \<and> member_clan m = cid \<and> member m = u)"
  by (auto simp: is_clan_leader_def list_ex_iff leader_row_def)

lemma leading_iff:
  "is_already_leading_a_clan s u \<longleftrightarrow>
   (\<exists>m \<in> set (memberships s). leader_row m \<and> member m = u \<and> alive_in (set (clans s)) (member_clan m))"
  by (auto simp: is_already_leading_a_clan_def list_ex_iff leader_row_def alive_in_def)

lemma count_private_eq:
  assumes "rows_ok s"
  shows "count_private_clan_memberships s u = card (private_rows (set (clans s)) (set (memberships s)) u)"
proof -
  have "distinct (memberships s)" using rows_ok_distinct [OF assms] by simp
  moreover have "private_rows (set (clans s)) (set (memberships s)) u =
    set (filter (\<lambda>m. member m = u \<and> member_status m = REQ_ACCEPTED \<and>
       list_ex (\<lambda>c. clan_id c = member_clan m \<and> clan_type c = PRIVATE_CLAN \<and> clan_alive c) (clans s)) (memberships s))"
    by (auto simp: private_rows_def private_alive_in_def list_ex_iff)
  ultimately show ?thesis
    by (simp only: count_private_clan_memberships_def distinct_card distinct_filter)
qed

lemma capacity_iff:
  assumes "rows_ok s"
  shows "ensure_private_clan_capacity s u = Inr x \<longleftrightarrow>
    card (private_rows (set (clans s)) (set (memberships s)) u) < MAX_PRIVATE_CLAN_MEMBERSHIPS_PER_USER"
  by (auto simp: ensure_private_clan_capacity_def count_private_eq [OF assms])

lemma lock_clan_InrD:
  assumes "lock_clan_for_leader s c a x y = Inr locked"
  shows "locked \<in> set (clans s)" "clan_id locked = clan_id c" "clan_alive locked" "clan_type locked = PRIVATE_CLAN"
    "is_clan_leader s (clan_id c) a"
  using assms by (auto simp: lock_clan_for_leader_def clan_alive_def dest: clan_get_any_InrD split: sum.splits if_splits)

section \<open>Every service is a step of the roster\<close>

lemma create_private_clan_refines:
  assumes "clans_ok s" "create_private_clan s now nm u desc pv = Inr (c, s')"
  shows "refines s s'"
proof -
  have rows: "rows_ok s" using assms(1) by (simp add: clans_ok_def)
  from assms(2) obtain priv s1 m x where g: "\<not> is_already_leading_a_clan s u" "ensure_private_clan_capacity s u = Inr x"
    and c: "clan_create s now nm PRIVATE_CLAN desc priv (Some u) = Inr (c, s1)"
    and m: "membership_create s1 now u (clan_id c) LEADER REQ_ACCEPTED = Inr (m, s')"
    by (auto simp: create_private_clan_def split: option.splits sum.splits if_splits)
  note cr = clan_create_rows [OF rows c]
  note mr = membership_create_rows [OF conjunct1 [OF cr] m] and md = membership_create_InrD(1) [OF m]
  have "set (memberships s1) = set (memberships s)" "set (clans s1) = insert c (set (clans s))"
    using cr by (auto simp: roster_def)
  then have r': "roster s' = (insert c (set (clans s)), insert m (set (memberships s)))"
      "membership_id m \<notin> membership_id ` set (memberships s)"
    using mr by simp_all
  have "roster_step (set (clans s), set (memberships s)) (insert c (set (clans s)), insert m (set (memberships s)))"
    by (rule roster_step.found_private)
      (use cr r'(2) g md in \<open>auto simp: leader_row_def leading_iff capacity_iff [OF rows]\<close>)
  then have "roster_step (roster s) (roster s')" unfolding r'(1) by (simp add: roster_def)
  then show ?thesis using mr by (intro refinesI) simp_all
qed

lemma save_membership_status_refines:
  assumes "clans_ok s" "save_membership_status s now u (clan_id c) (member_row s (clan_id c) u) st = Inr (m, s')"
    and c: "c \<in> set (clans s)" "clan_type c = PRIVATE_CLAN"
    and pend: "\<forall>x. member_row s (clan_id c) u = Some x \<longrightarrow> member_status x \<noteq> REQ_ACCEPTED"
    and room: "st = REQ_ACCEPTED \<longrightarrow> (\<exists>x. ensure_private_clan_capacity s u = Inr x)"
  shows "refines s s' \<and> clans s' = clans s"
proof (cases "member_row s (clan_id c) u")
  case None
  have rows: "rows_ok s" using assms(1) by (simp add: clans_ok_def)
  from None assms(2) have m: "membership_create s now u (clan_id c) MEMBER st = Inr (m, s')"
    by (simp add: save_membership_status_def)
  note mr = membership_create_rows [OF rows m] and md = membership_create_InrD [OF m]
  have "roster_step (set (clans s), set (memberships s)) (set (clans s), insert m (set (memberships s)))"
    by (rule roster_step.enter [where c = c]) (use c mr md room in \<open>auto simp: capacity_iff [OF rows]\<close>)
  then show ?thesis using mr md(2) by (intro conjI refinesI) (simp_all add: roster_def)
next
  case (Some x)
  have rows: "rows_ok s" using assms(1) by (simp add: clans_ok_def)
  note xd = member_row_SomeD [OF Some]
  from Some assms(2) have s': "s' = save_member x (\<lambda>x. x\<lparr>member_status := st\<rparr>) s"
    by (simp add: save_membership_status_def)
  have mr: "rows_ok s' \<and> roster s' = (set (clans s), insert (x\<lparr>member_status := st\<rparr>) (set (memberships s) - {x}))"
    unfolding s' by (rule save_member_rows [OF rows]) (use xd in simp_all)
  have "roster_step (set (clans s), set (memberships s))
      (set (clans s), insert (x\<lparr>member_status := st\<rparr>) (set (memberships s) - {x}))"
    by (rule roster_step.decide) (use xd pend Some room in \<open>auto simp: capacity_iff [OF rows]\<close>)
  then show ?thesis using mr by (intro conjI refinesI) (simp_all add: roster_def s' save_member_def)
qed

lemma join_clan_refines:
  assumes "clans_ok s" "c \<in> set (clans s)" "join_clan s now c u = Inr (m, s')"
  shows "refines s s'"
proof -
  have priv: "clan_type c = PRIVATE_CLAN" using assms(3) by (auto simp: join_clan_def split: if_splits)
  have pend: "\<forall>x. member_row s (clan_id c) u = Some x \<longrightarrow> member_status x \<noteq> REQ_ACCEPTED"
    using assms(3) by (auto simp: join_clan_def Let_def split: sum.splits option.splits if_splits)
  obtain st s1 where sv: "save_membership_status s now u (clan_id c) (member_row s (clan_id c) u) st = Inr (m, s1)"
    and room: "st = REQ_ACCEPTED \<longrightarrow> (\<exists>x. ensure_private_clan_capacity s u = Inr x)"
    and n: "only_notifications s1 s'"
    using assms(3) by (auto simp: join_clan_def Let_def dest!: sent split: sum.splits if_splits)
  show ?thesis
    using save_membership_status_refines [OF assms(1) sv assms(2) priv pend room] n refines_notified by blast
qed

lemma decide_request_refines:
  assumes "clans_ok s" "m \<in> set (memberships s)" "member_status m = REQ_PENDING"
    and room: "st = REQ_ACCEPTED \<longrightarrow> (\<exists>x. ensure_private_clan_capacity s (member m) = Inr x)"
    and n: "only_notifications (save_member m (\<lambda>x. x\<lparr>member_status := st\<rparr>) s) s'"
  shows "refines s s'"
proof -
  have rows: "rows_ok s" using assms(1) by (simp add: clans_ok_def)
  note mr = save_member_rows [OF rows assms(2), of "\<lambda>x. x\<lparr>member_status := st\<rparr>"]
  have "roster_step (set (clans s), set (memberships s))
      (set (clans s), insert (m\<lparr>member_status := st\<rparr>) (set (memberships s) - {m}))"
    by (rule roster_step.decide) (use assms(2,3) room in \<open>auto simp: capacity_iff [OF rows]\<close>)
  then have "refines s (save_member m (\<lambda>x. x\<lparr>member_status := st\<rparr>) s)"
    using mr by (intro refinesI) (simp_all add: roster_def)
  with n show ?thesis by (rule refines_notified [rotated])
qed

lemma accept_join_request_refines:
  assumes "clans_ok s" "accept_join_request s now c a u = Inr (m, s')"
  shows "refines s s'"
proof -
  obtain x y where x: "member_get s (clan_id c) u REQ_PENDING = Inr x" and cap: "ensure_private_clan_capacity s u = Inr y"
    and n: "only_notifications (save_member x (\<lambda>x. x\<lparr>member_status := REQ_ACCEPTED\<rparr>) s) s'"
    using assms(2) by (auto simp: accept_join_request_def dest!: sent clan_get_InrD split: sum.splits exc.splits if_splits)
  note xd = member_get_InrD [OF x]
  show ?thesis by (rule decide_request_refines [OF assms(1) _ _ _ n]) (use xd cap in auto)
qed

lemma reject_join_request_refines:
  assumes "clans_ok s" "reject_join_request s now c a u = Inr (m, s')"
  shows "refines s s'"
proof -
  obtain x where x: "member_get s (clan_id c) u REQ_PENDING = Inr x"
    and n: "only_notifications (save_member x (\<lambda>x. x\<lparr>member_status := REQ_REJECTED\<rparr>) s) s'"
    using assms(2) by (auto simp: reject_join_request_def dest!: sent clan_get_InrD split: sum.splits exc.splits if_splits)
  note xd = member_get_InrD [OF x]
  show ?thesis by (rule decide_request_refines [OF assms(1) _ _ _ n]) (use xd in auto)
qed

lemma delete_member_refines:
  assumes "clans_ok s" "m \<in> set (memberships s)" "member_role m \<noteq> LEADER" "only_notifications (delete_member m s) s'"
  shows "refines s s'"
proof -
  have rows: "rows_ok s" using assms(1) by (simp add: clans_ok_def)
  have "roster_step (set (clans s), set (memberships s)) (set (clans s), set (memberships s) - {m})"
    by (rule roster_step.remove) (use assms(3) in \<open>auto simp: leader_row_def\<close>)
  then have "refines s (delete_member m s)"
    using delete_member_rows [OF rows assms(2)] by (intro refinesI) (simp_all add: roster_def)
  with assms(4) show ?thesis by (rule refines_notified [rotated])
qed

lemma leave_clan_InrD:
  assumes "leave_clan s now c u = Inr s'"
  shows "\<exists>locked m. clan_get s (clan_id c) = Inr locked \<and> member_get s (clan_id c) (user_id u) REQ_ACCEPTED = Inr m \<and>
    member_role m = MEMBER \<and> clan_type c = PRIVATE_CLAN \<and> only_notifications (delete_member m s) s'"
proof -
  have "r = MEMBER \<longleftrightarrow> r \<noteq> LEADER" for r by (cases r) auto
  then show ?thesis
    using assms by (auto simp: leave_clan_def dest!: sent dest: clan_get_InrD split: sum.splits exc.splits if_splits)
qed

lemma leave_clan_refines: "clans_ok s \<Longrightarrow> leave_clan s now c u = Inr s' \<Longrightarrow> refines s s'"
  using delete_member_refines by (auto dest!: leave_clan_InrD member_get_InrD)

lemma kick_member_InrD:
  assumes "kick_member s now c a u = Inr s'"
  shows "\<exists>m. member_get s (clan_id c) u REQ_ACCEPTED = Inr m \<and> member_role m = MEMBER \<and> a \<noteq> u \<and>
    is_clan_leader s (clan_id c) a \<and> only_notifications (delete_member m s) s'"
proof -
  have "r = MEMBER \<longleftrightarrow> r \<noteq> LEADER" for r by (cases r) auto
  then obtain locked m where l: "lock_clan_for_leader s c a ''Only the clan leader can expel members.''
             ''Only private clans allow expelling members.'' = Inr locked"
    and "member_get s (clan_id locked) u REQ_ACCEPTED = Inr m" "member_role m = MEMBER" "a \<noteq> u"
      "only_notifications (delete_member m s) s'"
    using assms by (auto simp: kick_member_def dest!: sent split: sum.splits exc.splits if_splits)
  with lock_clan_InrD(2,5) [OF l] show ?thesis by auto
qed

lemma kick_member_refines: "clans_ok s \<Longrightarrow> kick_member s now c a u = Inr s' \<Longrightarrow> refines s s'"
  using delete_member_refines by (auto dest!: kick_member_InrD member_get_InrD)

text \<open>The selection, as one rewrite of the caller's rows.\<close>

lemma select_active_InrD:
  assumes "select_active_private_clan s c u = Inr (m', s')"
  obtains m where "member_get s (clan_id c) u REQ_ACCEPTED = Inr m" "clan_type c = PRIVATE_CLAN"
    "m' = m\<lparr>is_active_private := True\<rparr>"
    "s' = save_member m (\<lambda>x. x\<lparr>is_active_private := True\<rparr>) (s\<lparr>memberships := qs_update
            (\<lambda>x. member x = u \<and> is_active_private x \<and> membership_id x \<noteq> membership_id m)
            (\<lambda>x. x\<lparr>is_active_private := False\<rparr>) (memberships s)\<rparr>)"
  using assms by (auto simp: select_active_private_clan_def Let_def split: sum.splits exc.splits if_splits)

lemma select_active_refines:
  assumes "clans_ok s" "c \<in> set (clans s)" "clan_alive c" "select_active_private_clan s c u = Inr (m', s')"
  shows "refines s s'"
  using assms(4)
proof (cases rule: select_active_InrD)
  case (1 m)
  have rows: "rows_ok s" and dist: "distinct (map membership_id (memberships s))"
    using assms(1) by (auto simp: clans_ok_def rows_ok_def)
  note md = member_get_InrD [OF 1(1)]
  let ?g = "\<lambda>x. if member x = u then x\<lparr>is_active_private := False\<rparr> else x"
  let ?ms = "qs_update (\<lambda>x. member x = u \<and> is_active_private x \<and> membership_id x \<noteq> membership_id m)
            (\<lambda>x. x\<lparr>is_active_private := False\<rparr>) (memberships s)"
  have keep: "x\<lparr>is_active_private := False\<rparr> = x" if "\<not> is_active_private x" for x :: membership
    using that by simp
  have idm: "x = m" if "x \<in> set (memberships s)" "membership_id x = membership_id m" for x
    using inj_on_pk [OF dist] that md by blast
  have mem: "m \<in> set ?ms"
    using in_qs_updateI [of m "memberships s" "\<lambda>x. member x = u \<and> is_active_private x \<and> membership_id x \<noteq> membership_id m"
      "\<lambda>x. x\<lparr>is_active_private := False\<rparr>"] md by simp
  have "set ?ms - {m} = ?g ` (set (memberships s) - {m})"
  proof -
    have "(\<lambda>x. if member x = u \<and> is_active_private x \<and> membership_id x \<noteq> membership_id m
          then x\<lparr>is_active_private := False\<rparr> else x) x = (if x = m then m else ?g x)" if "x \<in> set (memberships s)" for x
      using that idm [OF that] keep by auto
    then have im: "set ?ms = (\<lambda>x. if x = m then m else ?g x) ` set (memberships s)"
      unfolding set_qs_update by (rule image_cong [OF refl])
    have "?g x \<noteq> m" if "x \<in> set (memberships s)" "x \<noteq> m" for x
      using idm [OF that(1)] that(2) by (auto split: if_splits)
    then show ?thesis unfolding im using md by (auto simp del: if_image_distrib split: if_splits)
  qed
  moreover have r1: "rows_ok (s\<lparr>memberships := ?ms\<rparr>)" using rows by (auto simp: rows_ok_def ball_qs_update)
  ultimately have r': "rows_ok s' \<and> roster s' = (set (clans s),
      insert (m\<lparr>is_active_private := True\<rparr>) (?g ` (set (memberships s) - {m})))"
    using save_member_rows [OF r1, of m "\<lambda>x. x\<lparr>is_active_private := True\<rparr>"] mem unfolding 1(4) by simp
  have "private_alive_in (set (clans s)) (member_clan m)"
    using assms(2,3) 1(2) md by (auto simp: private_alive_in_def)
  then have "roster_step (set (clans s), set (memberships s))
     (set (clans s), insert (m\<lparr>is_active_private := True\<rparr>) (?g ` (set (memberships s) - {m})))"
    using roster_step.select [of m "set (memberships s)" "set (clans s)"] md by simp
  then have "roster_step (roster s) (roster s')" using r' by (simp add: roster_def)
  then show ?thesis using r' by (intro refinesI) simp_all
qed

lemma transfer_leadership_InrD:
  assumes "transfer_leadership s now c a b = Inr (r, s')"
  obtains locked m m' y where "clan_get s (clan_id c) = Inr locked" "m \<in> set (memberships s)" "member_clan m = clan_id c"
    "member m = a" "leader_row m" "b \<noteq> a" "member_get s (clan_id c) b REQ_ACCEPTED = Inr m'"
    "get_user s b = Inr y" "\<not> is_already_leading_a_clan s b" "r = m'\<lparr>member_role := LEADER\<rparr>"
    "only_notifications (save_member m' (\<lambda>x. x\<lparr>member_role := LEADER\<rparr>)
       (save_member m (\<lambda>x. x\<lparr>member_role := MEMBER\<rparr>) s)) s'"
proof -
  from assms obtain locked where l: "clan_get s (clan_id c) = Inr locked"
    by (auto simp: transfer_leadership_def split: sum.splits)
  have id: "clan_id locked = clan_id c" using clan_get_InrD [OF l] by simp
  from assms obtain m
    where m: "qs_first membership_id (filter (\<lambda>m. member_clan m = clan_id c \<and> member m = a \<and> member_role m = LEADER \<and>
         member_status m = REQ_ACCEPTED) (memberships s)) = Some m" and ne: "b \<noteq> a"
    by (auto simp: transfer_leadership_def l id split: option.splits if_splits)
  note md = qs_first_filterD [OF m]
  from assms obtain m' y s2 where b: "member_get s (clan_id c) b REQ_ACCEPTED = Inr m'" "get_user s b = Inr y"
      "\<not> is_already_leading_a_clan s b"
    and al: "assign_leader (save_member m (\<lambda>x. x\<lparr>member_role := MEMBER\<rparr>) s) locked m' = Inr (r, s2)"
    and n: "only_notifications s2 s'"
    by (auto simp: transfer_leadership_def l id m ne dest!: sent split: sum.splits exc.splits if_splits)
  from al have "r = m'\<lparr>member_role := LEADER\<rparr>"
      "s2 = save_member m' (\<lambda>x. x\<lparr>member_role := LEADER\<rparr>) (save_member m (\<lambda>x. x\<lparr>member_role := MEMBER\<rparr>) s)"
    by (auto simp: assign_leader_def split: sum.splits if_splits)
  with that [of locked m m' y] l md ne b n show thesis by (simp add: leader_row_def)
qed

lemma two_saves:
  assumes "rows_ok s" "m \<in> set (memberships s)" "m' \<in> set (memberships s)" "m' \<noteq> m"
    and "\<And>x. membership_id (f x) = membership_id x" "\<And>x. membership_id (g x) = membership_id x"
  shows "rows_ok (save_member m' g (save_member m f s)) \<and>
    roster (save_member m' g (save_member m f s)) =
      (set (clans s), insert (g m') (insert (f m) (set (memberships s) - {m, m'})))"
proof -
  note r1 = save_member_rows [OF assms(1,2,5)]
  have ms: "set (memberships (save_member m f s)) = insert (f m) (set (memberships s) - {m})"
      "set (clans (save_member m f s)) = set (clans s)"
    using r1 by (simp_all add: roster_def)
  have "f m \<noteq> m'" using assms(1-5) inj_on_pk [of membership_id "memberships s" m m'] by (auto simp: rows_ok_def)
  then have "insert (f m) (set (memberships s) - {m}) - {m'} = insert (f m) (set (memberships s) - {m, m'})" by auto
  then show ?thesis
    using save_member_rows [OF conjunct1 [OF r1], of m' g] assms(3,4,6) ms by simp
qed

lemma transfer_leadership_refines:
  assumes "clans_ok s" "transfer_leadership s now c a b = Inr (r, s')"
  shows "refines s s'"
  using assms(2)
proof (cases rule: transfer_leadership_InrD)
  case (1 locked m m' y)
  note md = member_get_InrD [OF 1(7)]
  have rows: "rows_ok s" using assms(1) by (simp add: clans_ok_def)
  have ne: "m' \<noteq> m" using 1(4,6) md by auto
  let ?t = "save_member m' (\<lambda>x. x\<lparr>member_role := LEADER\<rparr>) (save_member m (\<lambda>x. x\<lparr>member_role := MEMBER\<rparr>) s)"
  have t: "rows_ok ?t \<and> roster ?t = (set (clans s),
      insert (m'\<lparr>member_role := LEADER\<rparr>) (insert (m\<lparr>member_role := MEMBER\<rparr>) (set (memberships s) - {m, m'})))"
    by (rule two_saves [OF rows 1(2) _ ne]) (use md in simp_all)
  have "roster_step (set (clans s), set (memberships s)) (set (clans s),
      insert (m'\<lparr>member_role := LEADER\<rparr>) (insert (m\<lparr>member_role := MEMBER\<rparr>) (set (memberships s) - {m, m'})))"
    by (rule roster_step.transfer) (use 1 md ne in \<open>auto simp: leading_iff\<close>)
  then have "roster_step (roster s) (roster ?t)" using t by (simp add: roster_def)
  then have "refines s ?t" using t by (intro refinesI) simp_all
  with 1(11) show ?thesis by (rule refines_notified [rotated])
qed

lemma dissolve_clan_InrD:
  assumes "dissolve_clan s now c a = Inr (r, s')"
  obtains locked where "locked \<in> set (clans s)" "clan_id locked = clan_id c" "clan_type locked = PRIVATE_CLAN"
    "is_clan_leader s (clan_id c) a"
    "if clan_alive locked
     then r = locked\<lparr>deleted_at := Some now\<rparr> \<and>
       only_notifications ((save_clan locked (\<lambda>x. x\<lparr>deleted_at := Some now\<rparr>) s)\<lparr>memberships := qs_update
          (\<lambda>m. member_clan m = clan_id c \<and> is_active_private m) (\<lambda>m. m\<lparr>is_active_private := False\<rparr>) (memberships s)\<rparr>) s'
     else r = locked \<and> s' = s"
proof -
  from assms obtain locked where l: "clan_get_any s (clan_id c) = Inr locked"
    by (auto simp: dissolve_clan_def split: sum.splits)
  note ld = clan_get_any_InrD [OF l]
  from assms have can: "assert_can_dissolve s locked a = Inr ()"
    by (auto simp: dissolve_clan_def l split: sum.splits)
  then have p: "clan_type locked = PRIVATE_CLAN" "is_clan_leader s (clan_id c) a"
    using ld by (auto simp: assert_can_dissolve_def split: if_splits)
  have ms: "memberships (save_clan locked f s) = memberships s" for f by (simp add: save_clan_def)
  show thesis
  proof (rule that [OF conjunct1 [OF ld] conjunct2 [OF ld] p], cases "deleted_at locked")
    case None
    with assms have "\<exists>s2. notify_clan_dissolved ((save_clan locked (\<lambda>x. x\<lparr>deleted_at := Some now\<rparr>) s)\<lparr>memberships := qs_update
          (\<lambda>m. member_clan m = clan_id c \<and> is_active_private m) (\<lambda>m. m\<lparr>is_active_private := False\<rparr>) (memberships s)\<rparr>)
          now (locked\<lparr>deleted_at := Some now\<rparr>) a = Inr s2 \<and> r = locked\<lparr>deleted_at := Some now\<rparr> \<and> s' = s2"
      by (simp add: dissolve_clan_def l can Let_def ms conjunct2 [OF ld] split: sum.splits)
    with None show "if clan_alive locked
       then r = locked\<lparr>deleted_at := Some now\<rparr> \<and>
         only_notifications ((save_clan locked (\<lambda>x. x\<lparr>deleted_at := Some now\<rparr>) s)\<lparr>memberships := qs_update
            (\<lambda>m. member_clan m = clan_id c \<and> is_active_private m) (\<lambda>m. m\<lparr>is_active_private := False\<rparr>) (memberships s)\<rparr>) s'
       else r = locked \<and> s' = s"
      by (auto simp: clan_alive_def dest: sent)
  next
    case (Some t)
    with assms show "if clan_alive locked
       then r = locked\<lparr>deleted_at := Some now\<rparr> \<and>
         only_notifications ((save_clan locked (\<lambda>x. x\<lparr>deleted_at := Some now\<rparr>) s)\<lparr>memberships := qs_update
            (\<lambda>m. member_clan m = clan_id c \<and> is_active_private m) (\<lambda>m. m\<lparr>is_active_private := False\<rparr>) (memberships s)\<rparr>) s'
       else r = locked \<and> s' = s"
      by (simp add: clan_alive_def dissolve_clan_def l can)
  qed
qed

lemma dissolve_clan_refines:
  assumes "clans_ok s" "dissolve_clan s now c a = Inr (r, s')"
  shows "refines s s'"
  using assms(2)
proof (cases rule: dissolve_clan_InrD)
  case (1 locked)
  have rows: "rows_ok s" using assms(1) by (simp add: clans_ok_def)
  show ?thesis
  proof (cases "clan_alive locked")
    case True
    let ?ms = "qs_update (\<lambda>m. member_clan m = clan_id c \<and> is_active_private m) (\<lambda>m. m\<lparr>is_active_private := False\<rparr>) (memberships s)"
    let ?f = "\<lambda>x. if member_clan x = clan_id locked then x\<lparr>is_active_private := False\<rparr> else x"
    let ?t = "(save_clan locked (\<lambda>x. x\<lparr>deleted_at := Some now\<rparr>) s)\<lparr>memberships := ?ms\<rparr>"
    have "set ?ms = ?f ` set (memberships s)"
      unfolding set_qs_update by (rule image_cong) (use 1(2) in auto)
    moreover have "rows_ok ?t" "set (clans ?t) = insert (locked\<lparr>deleted_at := Some now\<rparr>) (set (clans s) - {locked})"
      using save_clan_rows [OF rows 1(1), of "\<lambda>x. x\<lparr>deleted_at := Some now\<rparr>"] rows 1(1)
      by (auto simp: rows_ok_def roster_def ball_qs_update save_clan_def)
    ultimately have t: "rows_ok ?t" "roster ?t = (insert (locked\<lparr>deleted_at := Some now\<rparr>) (set (clans s) - {locked}),
        ?f ` set (memberships s))" by (simp_all add: roster_def)
    have "roster_step (roster s) (roster ?t)"
      unfolding t(2) unfolding roster_def by (rule roster_step.dissolve [OF 1(1,3) True])
    with t(1) have "refines s ?t" by (intro refinesI)
    with 1(5) True show ?thesis by (auto intro: refines_notified)
  next
    case False
    with 1(5) rows show ?thesis by (auto intro: refines_same)
  qed
qed

lemma edit_clan_refines:
  assumes "clans_ok s" "c \<in> set (clans s)" "\<And>x. clan_id (f x) = clan_id x"
    "clan_type (f c) = clan_type c" "deleted_at (f c) = deleted_at c"
    "\<forall>d \<in> set (clans s) - {c}. clan_alive d \<longrightarrow> clan_name d \<noteq> clan_name (f c) \<or> \<not> clan_alive c"
  shows "refines s (save_clan c f s)"
proof -
  have rows: "rows_ok s" using assms(1) by (simp add: clans_ok_def)
  note r = save_clan_rows [OF rows assms(2,3)]
  have "roster_step (set (clans s), set (memberships s)) (insert (f c) (set (clans s) - {c}), set (memberships s))"
    by (rule roster_step.edit) (use assms in auto)
  then have "roster_step (roster s) (roster (save_clan c f s))" using r by (simp add: roster_def)
  then show ?thesis using r by (intro refinesI) simp_all
qed

lemma names_ok_others:
  assumes "clans_ok s" "c \<in> set (clans s)" "clan_name c' = clan_name c"
  shows "\<forall>d \<in> set (clans s) - {c}. clan_alive d \<longrightarrow> clan_name d \<noteq> clan_name c' \<or> \<not> clan_alive c"
  using assms by (auto simp: clans_ok_def roster_ok_def names_ok_def)

lemma update_clan_refines:
  assumes "clans_ok s" "update_clan s c a nm desc pv = Inr (r, s')"
  shows "refines s s'"
proof -
  have rows: "rows_ok s" using assms(1) by (simp add: clans_ok_def)
  from assms(2) obtain locked where l: "lock_clan_for_leader_edit s c a = Inr locked"
    by (auto simp: update_clan_def split: sum.splits)
  note ld = lock_clan_InrD [OF l [unfolded lock_clan_for_leader_edit_def]]
  from assms(2) obtain n d v where w: "s' = s \<or> s' = save_clan locked (\<lambda>x. x\<lparr>clan_name := n, clan_description := d, privacy := v\<rparr>) s \<and>
      \<not> list_ex (\<lambda>d. clan_alive d \<and> clan_name d = n \<and> clan_id d \<noteq> clan_id locked) (clans s)"
    by (auto simp: update_clan_def l Let_def split: if_splits)
  show ?thesis
    using w
  proof
    assume "s' = s" then show ?thesis using rows by (auto intro: refines_same)
  next
    assume u: "s' = save_clan locked (\<lambda>x. x\<lparr>clan_name := n, clan_description := d, privacy := v\<rparr>) s \<and>
      \<not> list_ex (\<lambda>d. clan_alive d \<and> clan_name d = n \<and> clan_id d \<noteq> clan_id locked) (clans s)"
    have "clan_id x \<noteq> clan_id locked" if "x \<in> set (clans s) - {locked}" for x
      using that rows ld(1) inj_on_pk [of clan_id "clans s" x locked] by (auto simp: rows_ok_def)
    with u show ?thesis by (auto simp: list_ex_iff intro!: edit_clan_refines [OF assms(1) ld(1)])
  qed
qed

lemma set_clan_avatar_refines:
  assumes "clans_ok s" "set_clan_avatar s c a up = Inr (r, s')"
  shows "refines s s'"
proof -
  from assms(2) obtain locked where l: "lock_clan_for_leader_edit s c a = Inr locked"
    by (auto simp: set_clan_avatar_def split: sum.splits)
  note ld = lock_clan_InrD [OF l [unfolded lock_clan_for_leader_edit_def]]
  from assms(2) obtain k s1
    where k: "(case up of None \<Rightarrow> Inr ([], s) | Some f \<Rightarrow> save_clan_avatar s (clan_id locked) f) = Inr (k, s1)"
    and s': "clans s' = clans (save_clan locked (\<lambda>x. x\<lparr>clan_avatar_object_key := k\<rparr>) s1)"
      "memberships s' = memberships s1" "next_id s' = next_id s1"
    by (auto simp: set_clan_avatar_def l Let_def delete_clan_avatar_def save_clan_def split: sum.splits if_splits)
  have s1: "clans s1 = clans s" "memberships s1 = memberships s" "next_id s \<le> next_id s1"
    using k by (auto simp: save_clan_avatar_def dest: save_image_InrD split: option.splits)
  have e: "refines s (save_clan locked (\<lambda>x. x\<lparr>clan_avatar_object_key := k\<rparr>) s)"
    by (rule edit_clan_refines [OF assms(1) ld(1)]) (use names_ok_others [OF assms(1) ld(1)] in auto)
  then show ?thesis
    using s' s1 by (auto simp: refines_def rows_ok_def roster_def save_clan_def intro: less_le_trans)
qed

lemma refines_frame:
  "clans_ok s \<Longrightarrow> clans s' = clans s \<Longrightarrow> memberships s' = memberships s \<Longrightarrow> next_id s \<le> next_id s' \<Longrightarrow> refines s s'"
  unfolding clans_ok_def rows_ok_def by (intro refines_same) (auto simp: rows_ok_def roster_def intro: order_less_le_trans)

lemma try_codes_frame:
  "try_codes hmac s now cid a ds = Inr (r, s') \<Longrightarrow>
   clans s' = clans s \<and> memberships s' = memberships s \<and> next_id s \<le> next_id s'"
  by (induction hmac s now cid a ds rule: try_codes.induct)
    (auto simp: Let_def invitation_create_def split: sum.splits if_splits)

lemma create_clan_invitation_refines:
  assumes "clans_ok s" "create_clan_invitation hmac s now c a ds = Inr (r, s')"
  shows "refines s s'"
  by (rule refines_frame [OF assms(1)])
    (use assms(2) in \<open>auto simp: create_clan_invitation_def Let_def dest!: try_codes_frame split: sum.splits if_splits\<close>)

lemma revoke_clan_invitation_refines:
  assumes "clans_ok s" "revoke_clan_invitation s now c a i = Inr s'"
  shows "refines s s'"
  by (rule refines_frame [OF assms(1)])
    (use assms(2) in \<open>auto simp: revoke_clan_invitation_def split: sum.splits if_splits\<close>)

lemma redeem_InrD:
  assumes "redeem_clan_invitation hmac s now code u = Inr (m, s')"
  obtains i c x y s1 where "length (normalize_code code) = CODE_LENGTH"
    "invitation_by_hash s (hash_code hmac (normalize_code code)) = Some i" "c \<in> set (clans s)"
    "clan_id c = invitation_clan i" "is_redeemable i c now" "get_user s u = Inr x"
    "map_option member_status (member_row s (clan_id c) u) \<noteq> Some REQ_ACCEPTED"
    "ensure_private_clan_capacity s u = Inr y"
    "save_membership_status s now u (clan_id c) (member_row s (clan_id c) u) REQ_ACCEPTED = Inr (m, s1)"
    "only_notifications (s1\<lparr>invitations := qs_update (\<lambda>x. invitation_id x = invitation_id i)
                (\<lambda>x. x\<lparr>redeemed_by := Some u, redeemed_at := Some now\<rparr>) (invitations s1)\<rparr>) s'"
proof -
  from assms obtain i c where i: "invitation_by_hash s (hash_code hmac (normalize_code code)) = Some i"
    and c: "qs_first clan_id (filter (\<lambda>c. clan_id c = invitation_clan i) (clans s)) = Some c"
    by (auto simp: redeem_clan_invitation_def Let_def split: if_splits option.splits)
  note cd = qs_first_filterD [OF c]
  from assms show thesis
    using that [of i c] cd
    by (auto simp: redeem_clan_invitation_def Let_def i c dest!: sent split: sum.splits if_splits)
qed

lemma redeem_refines:
  assumes "clans_ok s" "redeem_clan_invitation hmac s now code u = Inr (m, s')"
  shows "refines s s'"
  using assms(2)
proof (cases rule: redeem_InrD)
  case (1 i c x y s1)
  have r: "refines s s1 \<and> clans s1 = clans s"
    by (rule save_membership_status_refines [OF assms(1) 1(9,3)]) (use 1(5,7,8) in \<open>auto simp: is_redeemable_def\<close>)
  let ?t = "s1\<lparr>invitations := qs_update (\<lambda>x. invitation_id x = invitation_id i)
                (\<lambda>x. x\<lparr>redeemed_by := Some u, redeemed_at := Some now\<rparr>) (invitations s1)\<rparr>"
  have "refines s ?t" using conjunct1 [OF r] by (simp add: refines_def rows_ok_def roster_def)
  with 1(10) show ?thesis by (rule refines_notified [rotated])
qed

lemma edit_profile_refines: "clans_ok s \<Longrightarrow> refines s (edit_profile u f s)"
  by (rule refines_frame) simp_all

lemma clans_ok_rows: "clans_ok s \<Longrightarrow> rows_ok s"
  by (simp add: clans_ok_def)

lemma get_or_create_institutional_refines:
  assumes "clans_ok s" "get_or_create_institutional_clan s now name = Inr (c, s')"
  shows "refines s s'" "c \<in> set (clans s')" "clan_type c = INSTITUTIONAL" "clan_alive c" "clan_name c = name"
    "memberships s' = memberships s" "profiles s' = profiles s" "users s' = users s"
proof -
  note rows = clans_ok_rows [OF assms(1)]
  consider "c \<in> set (clans s)" "clan_type c = INSTITUTIONAL" "clan_alive c" "clan_name c = name" "s' = s"
    | "clan_create s now name INSTITUTIONAL [] PUBLIC_CLAN None = Inr (c, s')"
  proof (cases "qs_get (\<lambda>c. clan_alive c \<and> clan_name c = name) (clans s)")
    case (Inl e)
    then have "e = DoesNotExist \<and> clan_create s now name INSTITUTIONAL [] PUBLIC_CLAN None = Inr (c, s')"
      using assms(2) by (cases e) (simp_all add: get_or_create_institutional_clan_def)
    then show thesis using that(2) by blast
  next
    case (Inr d)
    then have "d = c \<and> s' = s \<and> clan_type c = INSTITUTIONAL"
      using assms(2) by (auto simp: get_or_create_institutional_clan_def split: if_splits)
    then show thesis using that(1) qs_get_InrD(1,2) [OF Inr] by blast
  qed
  then have "refines s s' \<and> c \<in> set (clans s') \<and> clan_type c = INSTITUTIONAL \<and> clan_alive c \<and> clan_name c = name \<and>
    memberships s' = memberships s \<and> profiles s' = profiles s \<and> users s' = users s"
  proof cases
    case 1 then show ?thesis using rows by (auto intro: refines_same)
  next
    case 2
    note cr = clan_create_rows [OF rows 2] and cd = clan_create_InrD [OF 2]
    have "roster_step (set (clans s), set (memberships s)) (insert c (set (clans s)), set (memberships s))"
      by (rule roster_step.found_institutional) (use cr in auto)
    then have "roster_step (roster s) (roster s')" using cr by (simp add: roster_def)
    moreover have "clan_name c = name" using cd(1) by simp
    ultimately show ?thesis using cr cd(2) by (auto intro!: refinesI)
  qed
  then show "refines s s'" "c \<in> set (clans s')" "clan_type c = INSTITUTIONAL" "clan_alive c" "clan_name c = name"
    "memberships s' = memberships s" "profiles s' = profiles s" "users s' = users s" by blast+
qed

lemma qs_delete_members_refines:
  assumes "clans_ok s"
    "\<forall>m \<in> set (memberships s). P m \<longrightarrow> leader_row m \<longrightarrow> \<not> alive_in (set (clans s)) (member_clan m)"
  shows "refines s (s\<lparr>memberships := qs_delete P (memberships s)\<rparr>)"
proof -
  note rows = clans_ok_rows [OF assms(1)]
  let ?D = "{m \<in> set (memberships s). P m}"
  have eq: "set (qs_delete P (memberships s)) = set (memberships s) - ?D" by auto
  have "roster_step (set (clans s), set (memberships s)) (set (clans s), set (memberships s) - ?D)"
    by (rule roster_step.remove) (use assms(2) in auto)
  then show ?thesis
    using rows eq by (intro refinesI) (auto simp: rows_ok_def roster_def distinct_map_qs_delete)
qed

text \<open>The steps of an assignment: the clan, the profile, the old row, the new row.\<close>

lemma assign_institutional_InrD:
  assumes "assign_institutional_clan s now u raw vis = Inr (p', s')"
  obtains p s1 c s2 s3 where "py_strip raw \<noteq> []" "ensure_profile s u = (p, s1)"
    "get_or_create_institutional_clan s1 now (py_strip raw) = Inr (c, s2)"
    "p' = onboard_profile (py_strip raw) (clan_id c) now vis p"
    "s3 = (let t = edit_profile u (onboard_profile (py_strip raw) (clan_id c) now vis) s2 in
           case institutional_clan p of None \<Rightarrow> t | Some prev \<Rightarrow>
             if prev = clan_id c then t
             else t\<lparr>memberships := qs_delete (\<lambda>m. member m = u \<and> member_clan m = prev \<and> member_role m = MEMBER) (memberships t)\<rparr>)"
    "s' = s3 \<and> list_ex (\<lambda>m. member m = u \<and> member_clan m = clan_id c) (memberships s3) \<or>
     (\<exists>m. membership_create s3 now u (clan_id c) MEMBER REQ_ACCEPTED = Inr (m, s'))"
proof -
  obtain p s1 where e: "ensure_profile s u = (p, s1)" by force
  from assms obtain c s2 where c: "get_or_create_institutional_clan s1 now (py_strip raw) = Inr (c, s2)"
    and ne: "py_strip raw \<noteq> []"
    by (auto simp: assign_institutional_clan_def Let_def e split: sum.splits if_splits)
  show thesis
    by (rule that [OF ne e c _ refl])
      (use assms ne in \<open>auto simp: assign_institutional_clan_def Let_def e c split: sum.splits if_splits\<close>)
qed

lemma assign_institutional_refines:
  assumes "clans_ok s" "assign_institutional_clan s now u raw vis = Inr (p', s')"
  shows "refines s s'"
  using assms(2)
proof (cases rule: assign_institutional_InrD)
  case (1 p s1 c s2 s3)
  have r1: "refines s s1" by (rule refines_frame [OF assms(1)]) (use ensure_profile_frame [OF 1(2)] in simp_all)
  note ok1 = refines_ok [OF assms(1) r1]
  note g = get_or_create_institutional_refines [OF ok1 1(3)]
  have r2: "refines s s2" using r1 g(1) by (rule refines_trans)
  let ?t = "edit_profile u (onboard_profile (py_strip raw) (clan_id c) now vis) s2"
  have rt: "refines s ?t" using refines_trans [OF r2 edit_profile_refines [OF refines_ok [OF assms(1) r2]]] .
  note okt = refines_ok [OF assms(1) rt]
  have "refines s (?t\<lparr>memberships := qs_delete (\<lambda>m. member m = u \<and> member_clan m = prev \<and> member_role m = MEMBER)
      (memberships ?t)\<rparr>)" for prev
    by (rule refines_trans [OF rt qs_delete_members_refines [OF okt]]) (simp add: leader_row_def)
  then have r3: "refines s s3"
    unfolding 1(5) Let_def using rt by (simp split: option.splits)
  note ok3 = refines_ok [OF assms(1) r3]
  have c3: "c \<in> set (clans s3)" using g(2) by (simp add: 1(5) Let_def split: option.splits)
  show ?thesis
  proof (cases "s' = s3")
    case False
    then obtain m where m: "membership_create s3 now u (clan_id c) MEMBER REQ_ACCEPTED = Inr (m, s')"
      using 1(6) by blast
    note mr = membership_create_rows [OF clans_ok_rows [OF ok3] m] and md = membership_create_InrD [OF m]
    have "roster_step (set (clans s3), set (memberships s3)) (set (clans s3), insert m (set (memberships s3)))"
      by (rule roster_step.enter [where c = c]) (use c3 mr md g(3) in auto)
    then have "roster_step (roster s3) (roster s')" using mr by (simp add: roster_def)
    then have "refines s3 s'" using mr by (intro refinesI) simp_all
    with r3 show ?thesis by (rule refines_trans)
  qed (use r3 in simp)
qed

lemma complete_onboarding_refines:
  assumes "clans_ok s" "complete_onboarding s now u raw nick vis = Inr (p', s')"
  shows "refines s s'"
proof -
  from assms(2) obtain f where "assign_institutional_clan s now u raw vis = Inr (p', s') \<or>
      assign_institutional_clan (edit_user u f s) now u raw vis = Inr (p', s')"
    by (auto simp: complete_onboarding_def Let_def split: option.splits sum.splits if_splits)
  moreover have e: "refines s (edit_user u f s)" by (rule refines_frame [OF assms(1)]) simp_all
  ultimately show ?thesis
    using assign_institutional_refines [OF assms(1)] assign_institutional_refines [OF refines_ok [OF assms(1) e]]
      refines_trans [OF e] by blast
qed

lemma deactivate_account_refines:
  assumes "clans_ok s" "deactivate_account s now u = Inr (x', s')"
  shows "refines s s'"
  using assms(2)
proof (cases rule: deactivate_account_InrD)
  case (1 x p s2)
  let ?t = "s\<lparr>memberships := qs_delete (\<lambda>m. member m = u) (memberships s)\<rparr>"
  have "refines s ?t"
    by (rule qs_delete_members_refines [OF assms(1)])
      (use 1(4) in \<open>auto simp: leads_alive_clan_def list_ex_iff leader_row_def alive_in_def\<close>)
  then show ?thesis
    using 1(9,10,11) by (simp add: refines_def rows_ok_def roster_def)
qed

end
