(* ===== verification/Clan_Rules.thy ===== *)
theory Clan_Rules
  imports Clans
begin

text \<open>
  The clan endpoints as one machine, and the properties of the clan services. A request names
  the clan by its key: the view fetches the living clan (\<open>get_object\<close> on \<open>Clan.objects\<close>) and
  calls the service with it; a clan that is not found is a 404. The visibility filter of
  \<open>ClanViewSet.get_queryset\<close> and the permission classes only refuse more requests, so the
  sequences of calls below cover every sequence of requests. The deactivation of an account is
  a call too, because it deletes memberships.
\<close>

section \<open>The machine\<close>

datatype clan_call =
    CreateCall datetime string uuid string string
  | JoinCall datetime uuid uuid
  | LeaveCall datetime uuid uuid
  | AcceptCall datetime uuid uuid uuid
  | RejectCall datetime uuid uuid uuid
  | TransferCall datetime uuid uuid uuid
  | SelectCall uuid uuid
  | DissolveCall datetime uuid uuid
  | EditCall uuid uuid "string option" "string option" "string option"
  | ClanAvatarCall uuid uuid "upload option"
  | NewCodeCall "string \<Rightarrow> string \<Rightarrow> string" datetime uuid uuid "string list"
  | RevokeCodeCall datetime uuid uuid uuid
  | RedeemCall "string \<Rightarrow> string \<Rightarrow> string" datetime string uuid
  | KickCall datetime uuid uuid uuid
  | OnboardCall datetime uuid string "string option" "visibility option"
  | CloseAccountCall datetime uuid

definition with_clan :: "db \<Rightarrow> uuid \<Rightarrow> (clan \<Rightarrow> 'a res) \<Rightarrow> 'a res" where
  "with_clan s cid f = (case clan_get s cid of Inl _ \<Rightarrow> Inl Http404 | Inr c \<Rightarrow> f c)"

fun clan_step :: "clan_call \<Rightarrow> db \<Rightarrow> db res" where
  "clan_step (CreateCall now nm u desc pv) s = state_of (create_private_clan s now nm u desc pv)"
| "clan_step (JoinCall now cid u) s = with_clan s cid (\<lambda>c. state_of (join_clan s now c u))"
| "clan_step (LeaveCall now cid u) s =
     with_clan s cid (\<lambda>c. case get_user s u of Inl e \<Rightarrow> Inl e | Inr x \<Rightarrow> leave_clan s now c x)"
| "clan_step (AcceptCall now cid a u) s = with_clan s cid (\<lambda>c. state_of (accept_join_request s now c a u))"
| "clan_step (RejectCall now cid a u) s = with_clan s cid (\<lambda>c. state_of (reject_join_request s now c a u))"
| "clan_step (TransferCall now cid a b) s = with_clan s cid (\<lambda>c. state_of (transfer_leadership s now c a b))"
| "clan_step (SelectCall cid u) s = with_clan s cid (\<lambda>c. state_of (select_active_private_clan s c u))"
| "clan_step (DissolveCall now cid a) s = with_clan s cid (\<lambda>c. state_of (dissolve_clan s now c a))"
| "clan_step (EditCall cid a nm desc pv) s = with_clan s cid (\<lambda>c. state_of (update_clan s c a nm desc pv))"
| "clan_step (ClanAvatarCall cid a up) s = with_clan s cid (\<lambda>c. state_of (set_clan_avatar s c a up))"
| "clan_step (NewCodeCall hmac now cid a ds) s =
     with_clan s cid (\<lambda>c. state_of (create_clan_invitation hmac s now c a ds))"
| "clan_step (RevokeCodeCall now cid a i) s = with_clan s cid (\<lambda>c. revoke_clan_invitation s now c a i)"
| "clan_step (RedeemCall hmac now code u) s = state_of (redeem_clan_invitation hmac s now code u)"
| "clan_step (KickCall now cid a u) s = with_clan s cid (\<lambda>c. kick_member s now c a u)"
| "clan_step (OnboardCall now u raw nick vis) s = state_of (complete_onboarding s now u raw nick vis)"
| "clan_step (CloseAccountCall now u) s = state_of (deactivate_account s now u)"

lemma with_clan_InrE: "with_clan s cid f = Inr r \<Longrightarrow> \<exists>c. c \<in> set (clans s) \<and> clan_id c = cid \<and> clan_alive c \<and> f c = Inr r"
  by (auto simp: with_clan_def dest: clan_get_InrD split: sum.splits)

lemma clan_step_refines:
  assumes "clans_ok s" "clan_step call s = Inr s'"
  shows "refines s s'"
proof (cases call)
  case (LeaveCall now cid u)
  with assms(2) obtain c x where "leave_clan s now c x = Inr s'"
    by (auto dest!: with_clan_InrE split: sum.splits)
  with assms(1) show ?thesis by (rule leave_clan_refines)
qed (use assms in \<open>auto dest!: with_clan_InrE state_of_InrE
      intro: create_private_clan_refines join_clan_refines accept_join_request_refines
        reject_join_request_refines transfer_leadership_refines select_active_refines dissolve_clan_refines
        update_clan_refines set_clan_avatar_refines create_clan_invitation_refines
        revoke_clan_invitation_refines redeem_refines kick_member_refines complete_onboarding_refines
        deactivate_account_refines\<close>)

interpretation clan_machine: service_machine clan_step clans_ok
  by unfold_locales (blast intro: refines_ok clan_step_refines)

section \<open>The rules, counted\<close>

lemma at_most_one:
  assumes "distinct xs" "\<And>x y. x \<in> set xs \<Longrightarrow> y \<in> set xs \<Longrightarrow> P x \<Longrightarrow> P y \<Longrightarrow> x = y"
  shows "length (filter P xs) \<le> 1"
proof (cases "filter P xs" rule: remdups_adj.cases)
  case (3 a b ys)
  then have "a \<in> set (filter P xs)" "b \<in> set (filter P xs)" by simp_all
  then have "a = b" using assms(2) by simp
  moreover have "distinct (filter P xs)" using assms(1) by simp
  ultimately show ?thesis using 3 by simp
qed simp_all

lemma clans_ok_counts:
  assumes "clans_ok s"
  shows "length (filter (\<lambda>m. leader_row m \<and> member_clan m = cid) (memberships s)) \<le> 1"
    "private_alive_in (set (clans s)) cid \<Longrightarrow>
       length (filter (\<lambda>m. leader_row m \<and> member_clan m = cid) (memberships s)) = 1"
    "length (filter (\<lambda>m. leader_row m \<and> member m = u \<and> alive_in (set (clans s)) (member_clan m)) (memberships s)) \<le> 1"
    "count_private_clan_memberships s u \<le> MAX_PRIVATE_CLAN_MEMBERSHIPS_PER_USER"
    "length (filter (\<lambda>m. is_active_private m \<and> member m = u) (memberships s)) \<le> 1"
proof -
  have d: "distinct (memberships s)" using rows_ok_distinct clans_ok_rows [OF assms] by blast
  note ok = roster_okD [of "set (clans s)" "set (memberships s)"]
  have r: "roster_ok (set (clans s)) (set (memberships s))" using assms by (simp add: clans_ok_def)
  show a: "length (filter (\<lambda>m. leader_row m \<and> member_clan m = cid) (memberships s)) \<le> 1"
    by (rule at_most_one [OF d]) (use ok(3) [OF r] in \<open>auto simp: one_leader_def\<close>)
  show "length (filter (\<lambda>m. leader_row m \<and> member_clan m = cid) (memberships s)) = 1"
    if "private_alive_in (set (clans s)) cid"
  proof -
    have "filter (\<lambda>m. leader_row m \<and> member_clan m = cid) (memberships s) \<noteq> []"
      using ok(5) [OF r] that by (auto simp: has_leader_def filter_empty_conv)
    with a show ?thesis by (metis One_nat_def le_SucE le_zero_eq length_0_conv)
  qed
  show "length (filter (\<lambda>m. leader_row m \<and> member m = u \<and> alive_in (set (clans s)) (member_clan m)) (memberships s)) \<le> 1"
    by (rule at_most_one [OF d]) (use ok(4) [OF r] in \<open>auto simp: one_leadership_def\<close>)
  show "count_private_clan_memberships s u \<le> MAX_PRIVATE_CLAN_MEMBERSHIPS_PER_USER"
    unfolding count_private_eq [OF clans_ok_rows [OF assms]] using ok(6) [OF r] by (simp add: capped_def)
  show "length (filter (\<lambda>m. is_active_private m \<and> member m = u) (memberships s)) \<le> 1"
    by (rule at_most_one [OF d]) (use ok(9) [OF r] in \<open>auto simp: one_active_def\<close>)
qed

text \<open>
  C1: the clan rules hold after every sequence of requests, whichever of them are refused. From
  a consistent state, each clan has at most one accepted leader and every living private clan
  exactly one; nobody leads two living clans; nobody belongs to more than five living private
  clans; and nobody has more than one active private clan (BR-03, BR-04, FR-CLAN-02, FR-CLAN-03).
\<close>

theorem clan_runs_keep_rules:
  assumes "clans_ok s" "s' = run_calls clan_step calls s"
  shows "length (filter (\<lambda>m. leader_row m \<and> member_clan m = cid) (memberships s')) \<le> 1 \<and>
    (list_ex (\<lambda>c. clan_id c = cid \<and> clan_type c = PRIVATE_CLAN \<and> clan_alive c) (clans s') \<longrightarrow>
      length (filter (\<lambda>m. leader_row m \<and> member_clan m = cid) (memberships s')) = 1) \<and>
    length (filter (\<lambda>m. leader_row m \<and> member m = u \<and>
      list_ex (\<lambda>c. clan_id c = member_clan m \<and> clan_alive c) (clans s')) (memberships s')) \<le> 1 \<and>
    count_private_clan_memberships s' u \<le> 5 \<and>
    length (filter (\<lambda>m. is_active_private m \<and> member m = u) (memberships s')) \<le> 1"
proof -
  have "clans_ok s'" using clan_machine.run_inv [OF assms(1), of calls] assms(2) by simp
  note c = clans_ok_counts [OF this]
  have p: "list_ex (\<lambda>c. clan_id c = k \<and> clan_type c = PRIVATE_CLAN \<and> clan_alive c) xs = private_alive_in (set xs) k"
    "list_ex (\<lambda>c. clan_id c = k \<and> clan_alive c) xs = alive_in (set xs) k" for k xs
    by (auto simp: private_alive_in_def alive_in_def list_ex_iff)
  show ?thesis unfolding p using c(1,2) [of cid] c(3-5) [of u] by (simp add: MAX_PRIVATE_CLAN_MEMBERSHIPS_PER_USER_def)
qed

text \<open>Two people: one founds a clan, the other joins and becomes its leader, the founder selects it.\<close>

definition demo_people :: db where
  "demo_people = empty_db\<lparr>users := [demo_user 10 STUDENT, demo_user 11 STUDENT, demo_user 12 STUDENT], next_id := 20\<rparr>"

definition demo_run :: "clan_call list" where
  "demo_run = [CreateCall 0 ''Eco'' 10 [] ''PUBLIC'', JoinCall 1 20 11, TransferCall 2 20 10 11,
     SelectCall 20 10, CreateCall 3 ''Eco'' 10 [] ''PUBLIC'']"

lemma demo_people_ok: "clans_ok demo_people"
  by (simp add: clans_ok_def demo_people_def empty_db_def rows_ok_def roster_ok_def roster_defs capped_def
      private_rows_def private_alive_in_def)

lemma demo_run_rows:
  "map (\<lambda>m. (member m, member_role m, is_active_private m)) (memberships (run_calls clan_step demo_run demo_people)) =
     [(10, MEMBER, True), (11, LEADER, False)]"
  by code_simp

theorem clan_runs_keep_rules_witness:
  "let s' = run_calls clan_step demo_run demo_people
   in map (\<lambda>m. (member m, member_role m, is_active_private m)) (memberships s') =
        [(10, MEMBER, True), (11, LEADER, False)] \<and>
      length (filter (\<lambda>m. leader_row m \<and> member_clan m = 20) (memberships s')) \<le> 1 \<and>
      count_private_clan_memberships s' 10 \<le> 5"
  using clan_runs_keep_rules [OF demo_people_ok refl, where calls = demo_run and cid = 20 and u = 10] demo_run_rows by (simp only: Let_def simp_thms)

text \<open>
  C5: refinement. Whatever the arguments, a clan request that commits moves the abstract roster
  (the set of clans with the set of membership rows) by steps of \<open>roster_step\<close> only - found,
  enter, decide, remove, transfer, select, dissolve, edit - each with its guard, and keeps the
  keys of both tables unique.
\<close>

theorem clan_step_refines_roster:
  assumes "clans_ok s" "clan_step call s = Inr s'"
  shows "roster_step\<^sup>*\<^sup>* (roster s) (roster s') \<and> rows_ok s'"
  using clan_step_refines [OF assms] by (simp add: refines_def)

text \<open>The founding of a clan by user 10.\<close>

theorem clan_step_refines_roster_witness:
  "\<exists>s'. clan_step (CreateCall 0 ''Eco'' 10 [] ''PUBLIC'') demo_people = Inr s' \<and>
     roster_step\<^sup>*\<^sup>* (roster demo_people) (roster s') \<and> rows_ok s'"
proof -
  have "case clan_step (CreateCall 0 ''Eco'' 10 [] ''PUBLIC'') demo_people of Inl _ \<Rightarrow> False | Inr _ \<Rightarrow> True"
    by code_simp
  then obtain s' where "clan_step (CreateCall 0 ''Eco'' 10 [] ''PUBLIC'') demo_people = Inr s'"
    by (auto split: sum.splits)
  with clan_step_refines_roster [OF demo_people_ok] show ?thesis by blast
qed

section \<open>Leadership\<close>

lemma clans_ok_pair:
  "clans_ok s \<Longrightarrow> x \<in> set (memberships s) \<Longrightarrow> y \<in> set (memberships s) \<Longrightarrow> member x = member y \<Longrightarrow>
   member_clan x = member_clan y \<Longrightarrow> x = y"
  using keys_ok_same(2) [of "set (clans s)" "set (memberships s)" x y]
  by (simp add: clans_ok_def roster_ok_def)

lemma clans_ok_leader:
  "clans_ok s \<Longrightarrow> x \<in> set (memberships s) \<Longrightarrow> y \<in> set (memberships s) \<Longrightarrow> leader_row x \<Longrightarrow> leader_row y \<Longrightarrow>
   member_clan x = member_clan y \<Longrightarrow> x = y"
  by (auto simp: clans_ok_def roster_ok_def one_leader_def)

lemma only_notifications_memberships: "only_notifications s s' \<Longrightarrow> memberships s' = memberships s \<and> clans s' = clans s"
  using only_notifications_frame by blast

lemma assign_leader_ok:
  assumes "clans_ok s" "m \<in> set (memberships s)" "leader_row m" "member_clan m = clan_id c"
    "member_clan m' = clan_id c" "clan_get s (clan_id c) = Inr c"
  shows "\<exists>r. assign_leader (save_member m (\<lambda>x. x\<lparr>member_role := MEMBER\<rparr>) s) c m' = Inr r"
proof -
  let ?s1 = "save_member m (\<lambda>x. x\<lparr>member_role := MEMBER\<rparr>) s"
  have "\<not> (member_clan x = clan_id c \<and> leader_row x)" if "x \<in> set (memberships ?s1)" for x
  proof -
    have "x \<in> insert (m\<lparr>member_role := MEMBER\<rparr>) (set (memberships s) - {m})"
      using that save_member_rows [OF clans_ok_rows [OF assms(1)] assms(2), of "\<lambda>x. x\<lparr>member_role := MEMBER\<rparr>"]
      by (auto simp: roster_def)
    then show ?thesis using clans_ok_leader [OF assms(1), of x m] assms by auto
  qed
  moreover have "clan_get ?s1 (clan_id c) = Inr c" using assms(6) by (simp add: clan_get_def save_member_def)
  ultimately show ?thesis using assms(5) by (auto simp: assign_leader_def list_ex_iff leader_row_def)
qed

lemma transfer_never_duplicates:
  assumes "clans_ok s"
  shows "transfer_leadership s now c a b \<notin> {Inl DuplicateClanLeaderError, Inl MembershipClanMismatchError}"
proof (cases "clan_get s (clan_id c)")
  case (Inl e)
  then show ?thesis by (auto simp: transfer_leadership_def clan_get_def dest: qs_get_InlD)
next
  case (Inr locked)
  have id: "clan_id locked = clan_id c" using clan_get_InrD [OF Inr] by simp
  let ?lead = "qs_first membership_id (filter (\<lambda>m. member_clan m = clan_id c \<and> member m = a \<and> member_role m = LEADER \<and>
         member_status m = REQ_ACCEPTED) (memberships s))"
  have al: "\<exists>r. assign_leader (save_member m (\<lambda>x. x\<lparr>member_role := MEMBER\<rparr>) s) locked m' = Inr r"
    if "?lead = Some m" "member_get s (clan_id c) b REQ_ACCEPTED = Inr m'" for m m'
    by (rule assign_leader_ok [OF assms])
      (use qs_first_filterD [OF that(1)] member_get_InrD [OF that(2)] id Inr in \<open>auto simp: leader_row_def\<close>)
  note def = transfer_leadership_def [of s now c a b] Inr id
  show ?thesis
  proof (cases "?lead")
    case None then show ?thesis by (simp add: def)
  next
    case lead: (Some m)
    show ?thesis
    proof (cases "member_get s (clan_id c) b REQ_ACCEPTED")
      case (Inl e)
      then have "e = DoesNotExist \<or> e = MultipleObjectsReturned" by (auto simp: member_get_def dest: qs_get_InlD)
      then show ?thesis using Inl lead by (auto simp: def)
    next
      case mem: (Inr m')
      obtain r where r: "assign_leader (save_member m (\<lambda>x. x\<lparr>member_role := MEMBER\<rparr>) s) locked m' = Inr r"
        using al [OF lead mem] by blast
      show ?thesis
      proof (cases "get_user s b")
        case (Inl e)
        then have "e = DoesNotExist \<or> e = MultipleObjectsReturned" by (auto simp: get_user_def dest: qs_get_InlD)
        then show ?thesis using Inl lead mem by (auto simp: def)
      next
        case (Inr y)
        then show ?thesis using lead mem r changed.send_Inr [of "snd r" now locked y]
          by (auto simp: def split: prod.splits)
      qed
    qed
  qed
qed


text \<open>The clan of the run above before its transfer: user 10 leads it, user 11 has joined.\<close>

definition demo_pair :: db where
  "demo_pair = run_calls clan_step [CreateCall 0 ''Eco'' 10 [] ''PUBLIC'', JoinCall 1 20 11] demo_people"

lemma demo_pair_ok: "clans_ok demo_pair"
  unfolding demo_pair_def by (rule clan_machine.run_inv [OF demo_people_ok])

lemma demo_pair_runs:
  "case transfer_leadership demo_pair 2 (hd (clans demo_pair)) 10 11 of Inl _ \<Rightarrow> False | Inr _ \<Rightarrow> True"
  by code_simp

lemma demo_pair_clan: "clan_id (hd (clans demo_pair)) = 20"
  by code_simp

lemma demo_pair_size: "length (memberships demo_pair) = 2"
  by code_simp


end
