(* ===== verification/Clan_Views.thy ===== *)
theory Clan_Views
  imports Clan_Rules
begin

text \<open>
  The clan endpoints of \<open>clans/views.py\<close> with the validation of their bodies in
  \<open>clans/serializers.py\<close> and the permission \<open>IsClanLeader\<close> of \<open>core/permissions.py\<close>. A request is
  made by an authenticated account; the account is read again for every request. A key in the
  path or in a body is \<^const>\<open>None\<close> when it is missing or is not a UUID. \<open>lower\<close> is the case
  folding of \<open>icontains\<close> and \<open>absolute\<close> is \<open>request.build_absolute_uri\<close>.
\<close>

section \<open>Errors of a request\<close>

text \<open>The exception classes derived from \<open>ValueError\<close>.\<close>

fun is_value_error :: "exc \<Rightarrow> bool" where
  "is_value_error (PyValueError m) = True"
| "is_value_error DuplicateClanNameError = True"
| "is_value_error AlreadyLeadingAClanError = True"
| "is_value_error PrivateClanLimitExceededError = True"
| "is_value_error InvalidClanPrivacyError = True"
| "is_value_error InvitationLimitExceededError = True"
| "is_value_error InvalidInvitationCodeError = True"
| "is_value_error AlreadyClanMemberError = True"
| "is_value_error InvitationsNotNeededError = True"
| "is_value_error (InvalidImageError m) = True"
| "is_value_error e = False"

fun is_image_error :: "exc \<Rightarrow> bool" where
  "is_image_error (InvalidImageError m) = True"
| "is_image_error e = False"

text \<open>\<open>str(exc)\<close>, for a class whose message the model leaves out the name of the class.\<close>

fun exc_text :: "exc \<Rightarrow> string" where
  "exc_text (PyValueError m) = m"
| "exc_text (InvalidImageError m) = m"
| "exc_text DuplicateClanNameError = ''DuplicateClanNameError''"
| "exc_text AlreadyLeadingAClanError = ''AlreadyLeadingAClanError''"
| "exc_text PrivateClanLimitExceededError = ''PrivateClanLimitExceededError''"
| "exc_text InvalidClanPrivacyError = ''InvalidClanPrivacyError''"
| "exc_text InvitationLimitExceededError = ''InvitationLimitExceededError''"
| "exc_text InvalidInvitationCodeError = ''InvalidInvitationCodeError''"
| "exc_text AlreadyClanMemberError = ''AlreadyClanMemberError''"
| "exc_text InvitationsNotNeededError = ''InvitationsNotNeededError''"
| "exc_text e = []"

definition validation_error_from :: "exc \<Rightarrow> string option \<Rightarrow> exc" where
  "validation_error_from e field =
     ValidationError (case field of None \<Rightarrow> ''non_field_errors'' | Some f \<Rightarrow> f) (exc_text e)"

definition clan_edit_error :: "exc \<Rightarrow> exc" where
  "clan_edit_error e =
     (if e = DuplicateClanNameError then validation_error_from e (Some ''name'')
      else if e = InvalidClanPrivacyError then validation_error_from e (Some ''privacy'')
      else validation_error_from e None)"

text \<open>\<open>except ValueError\<close> and \<open>except DoesNotExist\<close> around a service.\<close>

definition on_error :: "(exc \<Rightarrow> bool) \<Rightarrow> (exc \<Rightarrow> exc) \<Rightarrow> 'a res \<Rightarrow> 'a res" where
  "on_error caught f r = (case r of Inl e \<Rightarrow> Inl (if caught e then f e else e) | Inr x \<Rightarrow> Inr x)"

abbreviation on_value_error :: "(exc \<Rightarrow> exc) \<Rightarrow> 'a res \<Rightarrow> 'a res" where
  "on_value_error \<equiv> on_error is_value_error"

abbreviation on_missing :: "'a res \<Rightarrow> 'a res" where
  "on_missing \<equiv> on_error (\<lambda>e. e = DoesNotExist) (\<lambda>_. Http404)"

abbreviation field_error :: "string \<Rightarrow> 'a res \<Rightarrow> 'a res" where
  "field_error f \<equiv> on_value_error (\<lambda>e. validation_error_from e (Some f))"

section \<open>Which clans a request can reach\<close>

definition clan_queryset :: "(string \<Rightarrow> string) \<Rightarrow> db \<Rightarrow> user \<Rightarrow> string \<Rightarrow> string \<Rightarrow> clan list" where
  "clan_queryset lower s u view_action search =
     (if view_action = ''join'' then filter clan_alive (clans s)
      else if role u = ADMIN then filter clan_alive (clans s)
      else list_active_clans lower s (user_id u) (if view_action = ''list'' then search else []))"

definition has_object_permission :: "db \<Rightarrow> user \<Rightarrow> clan \<Rightarrow> bool" where
  "has_object_permission s u c =
     list_ex (\<lambda>m. member_clan m = clan_id c \<and> member m = user_id u \<and> member_role m = LEADER \<and>
                   member_status m = REQ_ACCEPTED) (memberships s)"

definition clan_object :: "(string \<Rightarrow> string) \<Rightarrow> db \<Rightarrow> user \<Rightarrow> string \<Rightarrow> bool \<Rightarrow> uuid option \<Rightarrow> clan res" where
  "clan_object lower s u view_action leader_only pk =
     (case pk of
        None \<Rightarrow> Inl Http404
      | Some cid \<Rightarrow>
          res_bind (get_or_404 (\<lambda>c. clan_id c = cid) (clan_queryset lower s u view_action [])) (\<lambda>c.
            if leader_only \<and> \<not> has_object_permission s u c
            then Inl (PermissionDenied ''You do not have permission to perform this action.'')
            else Inr c))"

definition lookup_user :: "db \<Rightarrow> string \<Rightarrow> uuid option \<Rightarrow> user res" where
  "lookup_user s field k =
     (case k of
        None \<Rightarrow> Inl (ValidationError field ''Must be a valid UUID.'')
      | Some uid \<Rightarrow> (case get_user s uid of
                      Inl e \<Rightarrow> Inl (if e = DoesNotExist then ValidationError field ''User not found.'' else e)
                    | Inr x \<Rightarrow> Inr x))"

section \<open>Bodies\<close>

record clan_body =
  body_name :: "string option"
  body_description :: "string option"
  body_privacy :: "string option"

text \<open>
  The fields of \<open>ClanSerializer\<close> come from the model: a trimmed name of at most 100 characters,
  unique among the other living clans (\<open>clan_name_unique_when_alive\<close>), and one of the choices.
\<close>

definition validate_clan_name :: "db \<Rightarrow> uuid option \<Rightarrow> string \<Rightarrow> string res" where
  "validate_clan_name s self raw =
     (let n = py_strip raw
      in if n = [] then Inl (ValidationError ''name'' ''This field may not be blank.'')
         else if length n > 100
         then Inl (ValidationError ''name'' ''Ensure this field has no more than 100 characters.'')
         else if list_ex (\<lambda>c. clan_alive c \<and> clan_name c = n \<and> Some (clan_id c) \<noteq> self) (clans s)
         then Inl (ValidationError ''name'' ''This field must be unique.'')
         else Inr n)"

definition validate_optional :: "('a \<Rightarrow> 'b res) \<Rightarrow> 'a option \<Rightarrow> 'b option res" where
  "validate_optional f v = (case v of None \<Rightarrow> Inr None | Some x \<Rightarrow> map_sum id Some (f x))"

definition validate_privacy :: "string \<Rightarrow> string res" where
  "validate_privacy v =
     (if privacy_of_string v = None then Inl (ValidationError ''privacy'' ''Not a valid choice.'') else Inr v)"

definition validate_clan :: "db \<Rightarrow> uuid option \<Rightarrow> bool \<Rightarrow> clan_body \<Rightarrow> clan_body res" where
  "validate_clan s self partial b =
     res_bind (if body_name b = None \<and> \<not> partial
               then Inl (ValidationError ''name'' ''This field is required.'')
               else validate_optional (validate_clan_name s self) (body_name b)) (\<lambda>n.
     res_bind (validate_optional validate_privacy (body_privacy b)) (\<lambda>p.
       Inr \<lparr>body_name = n, body_description = map_option py_strip (body_description b), body_privacy = p\<rparr>))"

text \<open>A text field with a bound, and an uploaded file that must not be empty.\<close>

definition validate_text :: "string \<Rightarrow> nat \<Rightarrow> bool \<Rightarrow> string \<Rightarrow> string res" where
  "validate_text field maximum allow_blank raw =
     (let v = py_strip raw
      in if v = [] \<and> \<not> allow_blank then Inl (ValidationError field ''This field may not be blank.'')
         else if length v > maximum then Inl (ValidationError field ''Ensure this field has no more characters.'')
         else Inr v)"

definition validate_required :: "string \<Rightarrow> ('a \<Rightarrow> 'b res) \<Rightarrow> 'a option \<Rightarrow> 'b res" where
  "validate_required field f v =
     (case v of None \<Rightarrow> Inl (ValidationError field ''This field is required.'') | Some x \<Rightarrow> f x)"

definition validate_file :: "string \<Rightarrow> upload option \<Rightarrow> upload res" where
  "validate_file field =
     validate_required field (\<lambda>up. if upload_size up = None \<or> upload_size up = Some 0
       then Inl (ValidationError field ''The submitted file is empty.'') else Inr up)"

fun visibility_of_string :: "string \<Rightarrow> visibility option" where
  "visibility_of_string v =
     (if v = ''PUBLIC'' then Some PUBLIC_PROFILE else if v = ''PRIVATE'' then Some PRIVATE_PROFILE else None)"

definition validate_visibility :: "string \<Rightarrow> visibility res" where
  "validate_visibility v =
     (case visibility_of_string v of
        None \<Rightarrow> Inl (ValidationError ''visibility'' ''Not a valid choice.'') | Some x \<Rightarrow> Inr x)"

section \<open>Reading\<close>

text \<open>\<open>PurePosixPath(key).stem\<close>.\<close>

definition path_stem :: "string \<Rightarrow> string" where
  "path_stem key =
     (let name = last (py_split_on (CHR ''/'') key); parts = py_split_on (CHR ''.'') name;
          base = py_join ''.'' (butlast parts)
      in if base \<noteq> [] \<and> last parts \<noteq> [] then base else name)"

definition public_avatar_url :: "(string \<Rightarrow> string) \<Rightarrow> profile option \<Rightarrow> string" where
  "public_avatar_url absolute p =
     (case p of
        None \<Rightarrow> []
      | Some q \<Rightarrow>
          if avatar_object_key q \<noteq> []
          then absolute (''/api/v1/avatars/'' @ nat_str (profile_user q) @ ''/?v='' @ path_stem (avatar_object_key q))
          else avatar_url q)"

definition user_avatar_url :: "(string \<Rightarrow> string) \<Rightarrow> db \<Rightarrow> uuid \<Rightarrow> string" where
  "user_avatar_url absolute s u = public_avatar_url absolute (profile_of s u)"

record roster_entry =
  entry_user :: uuid
  entry_nickname :: string
  entry_display_name :: string
  entry_avatar_url :: string
  entry_role :: membership_role
  entry_joined_at :: datetime

record clan_detail =
  detail_clan :: clan
  detail_members :: "roster_entry list"
  detail_member_count :: nat

definition roster_entry_of :: "(string \<Rightarrow> string) \<Rightarrow> db \<Rightarrow> membership \<Rightarrow> roster_entry list" where
  "roster_entry_of absolute s m =
     map (\<lambda>x. \<lparr>entry_user = user_id x, entry_nickname = nickname x, entry_display_name = name_shown_to_others s x,
               entry_avatar_url = user_avatar_url absolute s (user_id x), entry_role = member_role m,
               entry_joined_at = joined_at m\<rparr>)
       (filter (\<lambda>x. user_id x = member m) (users s))"

definition list_clans_view :: "(string \<Rightarrow> string) \<Rightarrow> db \<Rightarrow> user \<Rightarrow> string \<Rightarrow> clan list" where
  "list_clans_view lower s u search = clan_queryset lower s u ''list'' search"

definition retrieve_clan_view ::
  "(string \<Rightarrow> string) \<Rightarrow> (string \<Rightarrow> string) \<Rightarrow> db \<Rightarrow> user \<Rightarrow> uuid option \<Rightarrow> clan_detail res" where
  "retrieve_clan_view lower absolute s u pk =
     res_bind (clan_object lower s u ''retrieve'' False pk) (\<lambda>c.
       let accepted = filter (\<lambda>m. member_clan m = clan_id c \<and> member_status m = REQ_ACCEPTED) (memberships s)
       in Inr \<lparr>detail_clan = c, detail_members = concat (map (roster_entry_of absolute s) accepted),
               detail_member_count = length accepted\<rparr>)"

definition pending_requests_view ::
  "(string \<Rightarrow> string) \<Rightarrow> db \<Rightarrow> user \<Rightarrow> uuid option \<Rightarrow> (membership \<times> string list) list res" where
  "pending_requests_view lower s u pk =
     res_bind (clan_object lower s u ''requests'' True pk) (\<lambda>c.
       Inr (map (\<lambda>m. (m, map public_display_name (filter (\<lambda>x. user_id x = member m) (users s))))
         (get_pending_join_requests s (clan_id c))))"

definition list_invitations_view ::
  "(string \<Rightarrow> string) \<Rightarrow> db \<Rightarrow> datetime \<Rightarrow> user \<Rightarrow> uuid option \<Rightarrow> (uuid \<times> string \<times> datetime \<times> datetime) list res" where
  "list_invitations_view lower s now u pk =
     res_bind (clan_object lower s u ''invitations'' True pk) (\<lambda>c.
       Inr (map (\<lambda>i. (invitation_id i, code_hint i, expires_at i, invitation_created_at i))
         (list_active_clan_invitations s now (clan_id c))))"

section \<open>Requests that write\<close>

definition create_clan_view :: "db \<Rightarrow> datetime \<Rightarrow> user \<Rightarrow> clan_body \<Rightarrow> (clan \<times> db) res" where
  "create_clan_view s now u b =
     res_bind (validate_clan s None False b) (\<lambda>d.
       on_value_error (\<lambda>e. validation_error_from e None)
         (create_private_clan s now (the (body_name d)) (user_id u)
           (case body_description d of None \<Rightarrow> [] | Some t \<Rightarrow> t)
           (case body_privacy d of None \<Rightarrow> ''PUBLIC'' | Some v \<Rightarrow> v)))"

definition update_clan_view ::
  "(string \<Rightarrow> string) \<Rightarrow> db \<Rightarrow> user \<Rightarrow> uuid option \<Rightarrow> bool \<Rightarrow> clan_body \<Rightarrow> (clan \<times> db) res" where
  "update_clan_view lower s u pk partial b =
     res_bind (clan_object lower s u (if partial then ''partial_update'' else ''update'') False pk) (\<lambda>c.
     res_bind (validate_clan s (Some (clan_id c)) partial b) (\<lambda>d.
       on_value_error clan_edit_error
         (on_missing (update_clan s c (user_id u) (body_name d) (body_description d) (body_privacy d)))))"

definition destroy_clan_view :: "(string \<Rightarrow> string) \<Rightarrow> db \<Rightarrow> datetime \<Rightarrow> user \<Rightarrow> uuid option \<Rightarrow> db res" where
  "destroy_clan_view lower s now u pk =
     res_bind (clan_object lower s u ''destroy'' False pk) (\<lambda>c. state_of (dissolve_clan s now c (user_id u)))"

definition create_invitation_view ::
  "(string \<Rightarrow> string \<Rightarrow> string) \<Rightarrow> (string \<Rightarrow> string) \<Rightarrow> db \<Rightarrow> datetime \<Rightarrow> user \<Rightarrow> uuid option \<Rightarrow> string list \<Rightarrow>
   ((invitation \<times> string) \<times> db) res" where
  "create_invitation_view hmac lower s now u pk draws =
     res_bind (clan_object lower s u ''invitations'' True pk) (\<lambda>c.
       on_value_error (\<lambda>e. validation_error_from e None)
         (on_missing (create_clan_invitation hmac s now c (user_id u) draws)))"

definition revoke_invitation_view ::
  "(string \<Rightarrow> string) \<Rightarrow> db \<Rightarrow> datetime \<Rightarrow> user \<Rightarrow> uuid option \<Rightarrow> uuid \<Rightarrow> db res" where
  "revoke_invitation_view lower s now u pk iid =
     res_bind (clan_object lower s u ''revoke_invitation'' True pk) (\<lambda>c.
       on_missing (revoke_clan_invitation s now c (user_id u) iid))"

definition redeem_invitation_view ::
  "(string \<Rightarrow> string \<Rightarrow> string) \<Rightarrow> db \<Rightarrow> datetime \<Rightarrow> user \<Rightarrow> string option \<Rightarrow> (membership \<times> db) res" where
  "redeem_invitation_view hmac s now u code =
     res_bind (validate_required ''code'' (validate_text ''code'' 20 False) code) (\<lambda>v.
       field_error ''code'' (redeem_clan_invitation hmac s now v (user_id u)))"

definition join_clan_view :: "(string \<Rightarrow> string) \<Rightarrow> db \<Rightarrow> datetime \<Rightarrow> user \<Rightarrow> uuid option \<Rightarrow> (membership \<times> db) res" where
  "join_clan_view lower s now u pk =
     res_bind (clan_object lower s u ''join'' False pk) (\<lambda>c. field_error ''clan'' (join_clan s now c (user_id u)))"

definition leave_clan_view :: "(string \<Rightarrow> string) \<Rightarrow> db \<Rightarrow> datetime \<Rightarrow> user \<Rightarrow> uuid option \<Rightarrow> db res" where
  "leave_clan_view lower s now u pk =
     res_bind (clan_object lower s u ''leave'' False pk) (\<lambda>c. field_error ''clan'' (leave_clan s now c u))"

definition accept_request_view ::
  "(string \<Rightarrow> string) \<Rightarrow> db \<Rightarrow> datetime \<Rightarrow> user \<Rightarrow> uuid option \<Rightarrow> uuid option \<Rightarrow> (membership \<times> db) res" where
  "accept_request_view lower s now u pk applicant =
     res_bind (clan_object lower s u ''accept_request'' False pk) (\<lambda>c.
     res_bind (lookup_user s ''applicant_id'' applicant) (\<lambda>a.
       field_error ''applicant_id'' (accept_join_request s now c (user_id u) (user_id a))))"

definition reject_request_view ::
  "(string \<Rightarrow> string) \<Rightarrow> db \<Rightarrow> datetime \<Rightarrow> user \<Rightarrow> uuid option \<Rightarrow> uuid option \<Rightarrow> (membership \<times> db) res" where
  "reject_request_view lower s now u pk applicant =
     res_bind (clan_object lower s u ''reject_request'' False pk) (\<lambda>c.
     res_bind (lookup_user s ''applicant_id'' applicant) (\<lambda>a.
       field_error ''applicant_id'' (reject_join_request s now c (user_id u) (user_id a))))"

definition transfer_leadership_view ::
  "(string \<Rightarrow> string) \<Rightarrow> db \<Rightarrow> datetime \<Rightarrow> user \<Rightarrow> uuid option \<Rightarrow> uuid option \<Rightarrow> (membership \<times> db) res" where
  "transfer_leadership_view lower s now u pk successor =
     res_bind (clan_object lower s u ''transfer_leadership'' False pk) (\<lambda>c.
     res_bind (lookup_user s ''successor_id'' successor) (\<lambda>b.
       field_error ''successor_id'' (transfer_leadership s now c (user_id u) (user_id b))))"

text \<open>\<open>avatar\<close>: \<open>Some file\<close> is the body of a POST, \<^const>\<open>None\<close> a DELETE.\<close>

definition clan_avatar_view ::
  "(string \<Rightarrow> string) \<Rightarrow> db \<Rightarrow> user \<Rightarrow> uuid option \<Rightarrow> upload option option \<Rightarrow> (clan \<times> db) res" where
  "clan_avatar_view lower s u pk method =
     res_bind (clan_object lower s u ''avatar'' False pk) (\<lambda>c.
     res_bind (case method of None \<Rightarrow> Inr None | Some file \<Rightarrow> map_sum id Some (validate_file ''avatar'' file)) (\<lambda>up.
       on_error is_image_error (\<lambda>e. validation_error_from e (Some ''avatar''))
         (on_missing (set_clan_avatar s c (user_id u) up))))"

definition select_active_view :: "(string \<Rightarrow> string) \<Rightarrow> db \<Rightarrow> user \<Rightarrow> uuid option \<Rightarrow> (membership \<times> db) res" where
  "select_active_view lower s u pk =
     res_bind (clan_object lower s u ''select_active'' False pk) (\<lambda>c.
       field_error ''clan'' (select_active_private_clan s c (user_id u)))"

definition kick_member_view ::
  "(string \<Rightarrow> string) \<Rightarrow> db \<Rightarrow> datetime \<Rightarrow> user \<Rightarrow> uuid option \<Rightarrow> uuid option \<Rightarrow> db res" where
  "kick_member_view lower s now u pk target =
     res_bind (clan_object lower s u ''kick_member'' True pk) (\<lambda>c.
     res_bind (lookup_user s ''user_id'' target) (\<lambda>x.
       field_error ''user_id'' (on_missing (kick_member s now c (user_id u) (user_id x)))))"

definition onboarding_view ::
  "db \<Rightarrow> datetime \<Rightarrow> user \<Rightarrow> string option \<Rightarrow> string option \<Rightarrow> string option \<Rightarrow> (profile \<times> db) res" where
  "onboarding_view s now u career_value nick vis =
     res_bind (validate_required ''career'' (validate_text ''career'' 150 False) career_value) (\<lambda>c.
     res_bind (validate_optional (validate_text ''nickname'' 50 True) nick) (\<lambda>n.
     res_bind (validate_optional validate_visibility vis) (\<lambda>v.
       field_error ''career'' (complete_onboarding s now (user_id u) c n v))))"

definition institutional_assignment_view :: "db \<Rightarrow> user \<Rightarrow> profile \<times> db" where
  "institutional_assignment_view s u = ensure_profile s (user_id u)"

section \<open>One request\<close>

datatype clan_request =
    CreateClan clan_body
  | UpdateClan "uuid option" bool clan_body
  | DestroyClan "uuid option"
  | CreateInvitation "uuid option" "string list"
  | RevokeInvitation "uuid option" uuid
  | RedeemInvitation "string option"
  | JoinClan "uuid option"
  | LeaveClan "uuid option"
  | AcceptRequest "uuid option" "uuid option"
  | RejectRequest "uuid option" "uuid option"
  | TransferLeadership "uuid option" "uuid option"
  | ClanAvatar "uuid option" "upload option option"
  | SelectActive "uuid option"
  | KickMember "uuid option" "uuid option"
  | Onboard "string option" "string option" "string option"

fun clan_endpoint ::
  "(string \<Rightarrow> string \<Rightarrow> string) \<Rightarrow> (string \<Rightarrow> string) \<Rightarrow> datetime \<Rightarrow> user \<Rightarrow> clan_request \<Rightarrow> db \<Rightarrow> db res" where
  "clan_endpoint hmac lower now u (CreateClan b) s = state_of (create_clan_view s now u b)"
| "clan_endpoint hmac lower now u (UpdateClan pk partial b) s = state_of (update_clan_view lower s u pk partial b)"
| "clan_endpoint hmac lower now u (DestroyClan pk) s = destroy_clan_view lower s now u pk"
| "clan_endpoint hmac lower now u (CreateInvitation pk draws) s =
     state_of (create_invitation_view hmac lower s now u pk draws)"
| "clan_endpoint hmac lower now u (RevokeInvitation pk iid) s = revoke_invitation_view lower s now u pk iid"
| "clan_endpoint hmac lower now u (RedeemInvitation code) s = state_of (redeem_invitation_view hmac s now u code)"
| "clan_endpoint hmac lower now u (JoinClan pk) s = state_of (join_clan_view lower s now u pk)"
| "clan_endpoint hmac lower now u (LeaveClan pk) s = leave_clan_view lower s now u pk"
| "clan_endpoint hmac lower now u (AcceptRequest pk a) s = state_of (accept_request_view lower s now u pk a)"
| "clan_endpoint hmac lower now u (RejectRequest pk a) s = state_of (reject_request_view lower s now u pk a)"
| "clan_endpoint hmac lower now u (TransferLeadership pk b) s = state_of (transfer_leadership_view lower s now u pk b)"
| "clan_endpoint hmac lower now u (ClanAvatar pk m) s = state_of (clan_avatar_view lower s u pk m)"
| "clan_endpoint hmac lower now u (SelectActive pk) s = state_of (select_active_view lower s u pk)"
| "clan_endpoint hmac lower now u (KickMember pk t) s = kick_member_view lower s now u pk t"
| "clan_endpoint hmac lower now u (Onboard c n v) s = state_of (onboarding_view s now u c n v)"

text \<open>The token names an account; the request is served only if the account exists and is active.\<close>

definition served ::
  "(string \<Rightarrow> string \<Rightarrow> string) \<Rightarrow> (string \<Rightarrow> string) \<Rightarrow> uuid \<Rightarrow> datetime \<times> clan_request \<Rightarrow> db \<Rightarrow> db res" where
  "served hmac lower uid r s =
     (case get_user s uid of
        Inl e \<Rightarrow> Inl (PermissionDenied ''User not found'')
      | Inr u \<Rightarrow> if is_active u then clan_endpoint hmac lower (fst r) u (snd r) s
                 else Inl (PermissionDenied ''User is inactive''))"

end
