(* ===== verification/Clan_Access.thy ===== *)
theory Clan_Access
  imports Clan_Views
begin

text \<open>
  Who may see and change a clan. Every request that commits is one call of a clan service by its
  sender, so the clan rules hold along every run of requests; what a service leaves alone of a
  clan its caller does not lead is collected in \<open>keeps\<close>, the order along which the requests of
  one person move (interpretation \<open>bystander\<close>).
\<close>

section \<open>A request is a call of a service\<close>

lemma on_error_Inr [simp]: "on_error caught f r = Inr x \<longleftrightarrow> r = Inr x"
  by (cases r) (auto simp: on_error_def)

lemma on_error_state: "state_of (on_error caught f r) = Inr s' \<longleftrightarrow> state_of r = Inr s'"
  by (cases r) (auto simp: on_error_def state_of_def)

lemma state_of_bind: "state_of (res_bind r f) = res_bind r (\<lambda>x. state_of (f x))"
  by (cases r) (simp_all add: state_of_def)

lemma clan_queryset_alive: "c \<in> set (clan_queryset lower s u act search) \<Longrightarrow> c \<in> set (clans s) \<and> clan_alive c"
  by (auto simp: clan_queryset_def list_active_clans_def split: if_splits)

lemma get_or_404_InrD: "get_or_404 P rows = Inr r \<Longrightarrow> r \<in> set rows \<and> P r"
  by (auto simp: get_or_404_def dest: qs_get_InrD(1,2) split: sum.splits exc.splits)

lemma clan_get_alive:
  assumes "clans_ok s" "c \<in> set (clans s)" "clan_alive c"
  shows "clan_get s (clan_id c) = Inr c"
proof -
  have "distinct (clans s)" "distinct (map clan_id (clans s))"
    using assms(1) rows_ok_distinct by (auto simp: clans_ok_def rows_ok_def)
  then show ?thesis unfolding clan_get_def using assms(2,3) by (intro qs_get_eqI) (auto dest: inj_on_pk)
qed

lemma clan_object_InrD:
  assumes "clans_ok s" "clan_object lower s u act leader_only pk = Inr c"
  shows "clan_get s (clan_id c) = Inr c" "pk = Some (clan_id c)" "leader_only \<Longrightarrow> is_clan_leader s (clan_id c) (user_id u)"
proof -
  from assms(2) have c: "c \<in> set (clan_queryset lower s u act [])" "pk = Some (clan_id c)"
    and "leader_only \<Longrightarrow> has_object_permission s u c"
    by (auto simp: clan_object_def split: option.splits if_splits elim!: res_bind_InrE dest: get_or_404_InrD)
  with clan_get_alive [OF assms(1)] clan_queryset_alive [OF c(1)]
  show "clan_get s (clan_id c) = Inr c" "pk = Some (clan_id c)" "leader_only \<Longrightarrow> is_clan_leader s (clan_id c) (user_id u)"
    by (simp_all add: has_object_permission_def is_clan_leader_def)
qed

fun caller :: "clan_call \<Rightarrow> uuid option" where
  "caller (CreateCall now nm u desc pv) = Some u"
| "caller (JoinCall now cid u) = Some u"
| "caller (LeaveCall now cid u) = Some u"
| "caller (AcceptCall now cid a u) = Some a"
| "caller (RejectCall now cid a u) = Some a"
| "caller (TransferCall now cid a b) = Some a"
| "caller (SelectCall cid u) = Some u"
| "caller (DissolveCall now cid a) = Some a"
| "caller (EditCall cid a nm desc pv) = Some a"
| "caller (ClanAvatarCall cid a up) = Some a"
| "caller (NewCodeCall hmac now cid a ds) = Some a"
| "caller (RevokeCodeCall now cid a i) = Some a"
| "caller (RedeemCall hmac now code u) = Some u"
| "caller (KickCall now cid a u) = Some a"
| "caller (OnboardCall now u raw nick vis) = Some u"
| "caller (CloseAccountCall now u) = None"

text \<open>One call of the person \<open>u\<close> leads from \<open>s\<close> to \<open>s'\<close>.\<close>

definition called :: "uuid \<Rightarrow> db \<Rightarrow> db \<Rightarrow> bool" where
  "called u s s' \<longleftrightarrow> (\<exists>call. caller call = Some u \<and> clan_step call s = Inr s')"

lemma calledI: "caller call = Some u \<Longrightarrow> clan_step call s = Inr s' \<Longrightarrow> called u s s'"
  by (auto simp: called_def)

lemma called_service:
  assumes c: "clan_get s (clan_id c) = Inr c"
  shows "state_of (update_clan s c u nm desc pv) = Inr s' \<Longrightarrow> called u s s'"
    "state_of (dissolve_clan s now c u) = Inr s' \<Longrightarrow> called u s s'"
    "state_of (create_clan_invitation hmac s now c u draws) = Inr s' \<Longrightarrow> called u s s'"
    "revoke_clan_invitation s now c u iid = Inr s' \<Longrightarrow> called u s s'"
    "state_of (join_clan s now c u) = Inr s' \<Longrightarrow> called u s s'"
    "get_user s u = Inr x \<Longrightarrow> leave_clan s now c x = Inr s' \<Longrightarrow> called u s s'"
    "state_of (accept_join_request s now c u v) = Inr s' \<Longrightarrow> called u s s'"
    "state_of (reject_join_request s now c u v) = Inr s' \<Longrightarrow> called u s s'"
    "state_of (transfer_leadership s now c u v) = Inr s' \<Longrightarrow> called u s s'"
    "state_of (set_clan_avatar s c u up) = Inr s' \<Longrightarrow> called u s s'"
    "state_of (select_active_private_clan s c u) = Inr s' \<Longrightarrow> called u s s'"
    "kick_member s now c u v = Inr s' \<Longrightarrow> called u s s'"
  subgoal by (rule calledI [of "EditCall (clan_id c) u nm desc pv"]) (simp_all add: with_clan_def c)
  subgoal by (rule calledI [of "DissolveCall now (clan_id c) u"]) (simp_all add: with_clan_def c)
  subgoal by (rule calledI [of "NewCodeCall hmac now (clan_id c) u draws"]) (simp_all add: with_clan_def c)
  subgoal by (rule calledI [of "RevokeCodeCall now (clan_id c) u iid"]) (simp_all add: with_clan_def c)
  subgoal by (rule calledI [of "JoinCall now (clan_id c) u"]) (simp_all add: with_clan_def c)
  subgoal by (rule calledI [of "LeaveCall now (clan_id c) u"]) (simp_all add: with_clan_def c)
  subgoal by (rule calledI [of "AcceptCall now (clan_id c) u v"]) (simp_all add: with_clan_def c)
  subgoal by (rule calledI [of "RejectCall now (clan_id c) u v"]) (simp_all add: with_clan_def c)
  subgoal by (rule calledI [of "TransferCall now (clan_id c) u v"]) (simp_all add: with_clan_def c)
  subgoal by (rule calledI [of "ClanAvatarCall (clan_id c) u up"]) (simp_all add: with_clan_def c)
  subgoal by (rule calledI [of "SelectCall (clan_id c) u"]) (simp_all add: with_clan_def c)
  subgoal by (rule calledI [of "KickCall now (clan_id c) u v"]) (simp_all add: with_clan_def c)
  done

lemma called_free:
  "state_of (create_private_clan s now nm u desc pv) = Inr s' \<Longrightarrow> called u s s'"
  "state_of (redeem_clan_invitation hmac s now code u) = Inr s' \<Longrightarrow> called u s s'"
  "state_of (complete_onboarding s now u raw nick vis) = Inr s' \<Longrightarrow> called u s s'"
  subgoal by (rule calledI [of "CreateCall now nm u desc pv"]) simp_all
  subgoal by (rule calledI [of "RedeemCall hmac now code u"]) simp_all
  subgoal by (rule calledI [of "OnboardCall now u raw nick vis"]) simp_all
  done

lemmas view_defs = create_clan_view_def update_clan_view_def destroy_clan_view_def create_invitation_view_def
  revoke_invitation_view_def redeem_invitation_view_def join_clan_view_def leave_clan_view_def
  accept_request_view_def reject_request_view_def transfer_leadership_view_def clan_avatar_view_def
  select_active_view_def kick_member_view_def onboarding_view_def

lemma endpoint_is_call:
  assumes "clans_ok s" "get_user s (user_id u) = Inr u" "clan_endpoint hmac lower now u req s = Inr s'"
  shows "called (user_id u) s s'"
  by (insert assms(3)) (cases req; clarsimp simp: view_defs state_of_bind on_error_state elim!: res_bind_InrE;
      (drule clan_object_InrD(1) [OF assms(1)])?;
      (rule called_free called_service called_service(6) [OF _ assms(2)]; assumption))

section \<open>What a request leaves alone\<close>

text \<open>
  What the person \<open>u\<close> sees of a clan and does not own: its row, the rows of its other members and
  of its leader, and its invite codes with their revocation.
\<close>

definition not_own :: "uuid \<Rightarrow> uuid \<Rightarrow> membership \<Rightarrow> bool" where
  "not_own cid u m \<longleftrightarrow> member_clan m = cid \<and> (member m \<noteq> u \<or> leader_row m)"

definition clan_face :: "uuid \<Rightarrow> uuid \<Rightarrow> db \<Rightarrow> clan list \<times> membership list \<times> (uuid \<times> string \<times> datetime option) list" where
  "clan_face cid u s =
     (filter (\<lambda>c. clan_id c = cid) (clans s), filter (not_own cid u) (memberships s),
      map (\<lambda>i. (invitation_id i, code_hash i, revoked_at i)) (filter (\<lambda>i. invitation_clan i = cid) (invitations s)))"

text \<open>A state in which \<open>u\<close> does not lead the clan \<open>cid\<close>.\<close>

definition outsider :: "uuid \<Rightarrow> uuid \<Rightarrow> db \<Rightarrow> bool" where
  "outsider cid u s \<longleftrightarrow> clans_ok s \<and> cid \<in> clan_id ` set (clans s) \<and> \<not> is_clan_leader s cid u"

definition codes_ok :: "db \<Rightarrow> bool" where
  "codes_ok s \<longleftrightarrow> table_ok invitation_id (next_id s) (invitations s)"

definition keeps :: "uuid \<Rightarrow> uuid \<Rightarrow> db \<Rightarrow> db \<Rightarrow> bool" where
  "keeps cid u s s' \<longleftrightarrow> clan_face cid u s' = clan_face cid u s \<and> next_id s \<le> next_id s' \<and> (codes_ok s \<longrightarrow> codes_ok s')"

lemma keeps_refl: "keeps cid u s s"
  by (simp add: keeps_def)

lemma keeps_trans [trans]: "keeps cid u s t \<Longrightarrow> keeps cid u t r \<Longrightarrow> keeps cid u s r"
  by (auto simp: keeps_def)

lemma codes_ok_ids:
  assumes "next_id s \<le> next_id s'" "map invitation_id (invitations s') = map invitation_id (invitations s)" "codes_ok s"
  shows "codes_ok s'"
proof -
  have "invitation_id ` set (invitations s') = invitation_id ` set (invitations s)" by (metis assms(2) set_map)
  then have "\<forall>i \<in> set (invitations s'). \<exists>j \<in> set (invitations s). invitation_id i = invitation_id j" by blast
  then show ?thesis using assms by (fastforce simp: codes_ok_def table_ok_def)
qed

lemma keepsI:
  "clan_face cid u s' = clan_face cid u s \<Longrightarrow> next_id s \<le> next_id s' \<Longrightarrow>
   map invitation_id (invitations s') = map invitation_id (invitations s) \<Longrightarrow> keeps cid u s s'"
  by (auto simp: keeps_def intro: codes_ok_ids)

lemma face_leader: "clan_face cid u s' = clan_face cid u s \<Longrightarrow> is_clan_leader s' cid u = is_clan_leader s cid u"
proof -
  assume "clan_face cid u s' = clan_face cid u s"
  then have "set (filter (not_own cid u) (memberships s')) = set (filter (not_own cid u) (memberships s))"
    by (simp add: clan_face_def)
  then show ?thesis unfolding leader_iff by (auto simp: not_own_def set_eq_iff)
qed

lemma face_known: "clan_face cid u s' = clan_face cid u s \<Longrightarrow> cid \<in> clan_id ` set (clans s) \<Longrightarrow> cid \<in> clan_id ` set (clans s')"
proof -
  assume "clan_face cid u s' = clan_face cid u s" "cid \<in> clan_id ` set (clans s)"
  then have "set (filter (\<lambda>c. clan_id c = cid) (clans s')) = set (filter (\<lambda>c. clan_id c = cid) (clans s))"
    "\<exists>c. c \<in> set (clans s) \<and> clan_id c = cid" by (auto simp: clan_face_def)
  then show ?thesis by (auto simp: set_eq_iff image_iff)
qed

lemma keeps_notified: "keeps cid u s t \<Longrightarrow> only_notifications t s' \<Longrightarrow> keeps cid u s s'"
  by (rule keeps_trans, assumption, rule keepsI) (simp_all add: clan_face_def only_notifications_frame)

lemma own_row:
  assumes "outsider cid u s" "m \<in> set (memberships s)" "member m = u \<or> member_clan m \<noteq> cid"
  shows "\<not> not_own cid u m"
  using assms by (auto simp: not_own_def outsider_def leader_iff)

lemma face_save_member:
  assumes "outsider cid u s" "m \<in> set (memberships s)" "\<not> not_own cid u m" "\<not> not_own cid u (f m)"
  shows "keeps cid u s (save_member m f s)"
proof -
  have "distinct (map membership_id (memberships s))" using assms(1) by (simp add: outsider_def clans_ok_def rows_ok_def)
  then have "filter (not_own cid u) (qs_update (\<lambda>x. membership_id x = membership_id m) f (memberships s)) =
      filter (not_own cid u) (memberships s)"
    using assms(2-4) by (intro filter_qs_update_keep) (auto dest: inj_on_pk)
  then show ?thesis by (intro keepsI) (simp_all add: clan_face_def save_member_def)
qed

lemma face_delete_member:
  assumes "outsider cid u s" "m \<in> set (memberships s)" "\<not> not_own cid u m"
  shows "keeps cid u s (delete_member m s)"
proof -
  have "distinct (map membership_id (memberships s))" using assms(1) by (simp add: outsider_def clans_ok_def rows_ok_def)
  then have "filter (not_own cid u) (qs_delete (\<lambda>x. membership_id x = membership_id m) (memberships s)) =
      filter (not_own cid u) (memberships s)"
    using assms(2,3) by (auto simp: qs_delete_def intro!: filter_cong dest: inj_on_pk)
  then show ?thesis by (intro keepsI) (simp_all add: clan_face_def delete_member_def)
qed

lemma face_save_clan: "clan_id c \<noteq> cid \<Longrightarrow> (\<And>x. clan_id (f x) = clan_id x) \<Longrightarrow> keeps cid u s (save_clan c f s)"
  by (rule keepsI) (auto simp: clan_face_def save_clan_def intro!: filter_qs_update_keep)

lemma leads_other: "outsider cid u s \<Longrightarrow> is_clan_leader s k u \<Longrightarrow> k \<noteq> cid"
  by (auto simp: outsider_def)

lemma pending_not_leader: "outsider cid u s \<Longrightarrow> m \<in> set (memberships s) \<Longrightarrow> member_status m \<noteq> REQ_ACCEPTED \<Longrightarrow> member_role m = MEMBER"
  by (simp add: outsider_def clans_ok_def roster_ok_def requests_ok_def)

subsection \<open>Writes on the own row\<close>

lemma face_create_member:
  assumes "membership_create s now u k MEMBER st = Inr (m, s')"
  shows "keeps cid u s s'"
  using membership_create_InrD(1,2) [OF assms]
  by (intro keepsI) (simp_all add: clan_face_def not_own_def leader_row_def)

lemma face_own_status:
  assumes out: "outsider cid u s"
    and sv: "save_membership_status s now u k (member_row s k u) st = Inr (m, s')"
    and old: "\<forall>x. member_row s k u = Some x \<longrightarrow> member_status x \<noteq> REQ_ACCEPTED"
  shows "keeps cid u s s'"
proof (cases "member_row s k u")
  case None
  with sv have "membership_create s now u k MEMBER st = Inr (m, s')" by (simp add: save_membership_status_def)
  then show ?thesis by (rule face_create_member)
next
  case (Some x)
  with sv have s': "s' = save_member x (\<lambda>x. x\<lparr>member_status := st\<rparr>) s" by (simp add: save_membership_status_def)
  note xd = member_row_SomeD [OF Some]
  have "member_role x = MEMBER" using pending_not_leader [OF out, of x] xd old Some by auto
  with xd show ?thesis unfolding s' by (intro face_save_member [OF out]) (auto simp: not_own_def leader_row_def)
qed

lemma join_face:
  assumes "outsider cid u s" "join_clan s now c u = Inr (m, s')"
  shows "keeps cid u s s'"
proof -
  have pend: "\<forall>x. member_row s (clan_id c) u = Some x \<longrightarrow> member_status x \<noteq> REQ_ACCEPTED"
    using assms(2) by (auto simp: join_clan_def Let_def split: sum.splits option.splits if_splits)
  obtain st s1 where sv: "save_membership_status s now u (clan_id c) (member_row s (clan_id c) u) st = Inr (m, s1)"
    and n: "only_notifications s1 s'"
    using assms(2) by (auto simp: join_clan_def Let_def dest!: sent split: sum.splits if_splits)
  show ?thesis by (rule keeps_notified [OF face_own_status [OF assms(1) sv pend] n])
qed

lemma redeem_face:
  assumes "outsider cid u s" "redeem_clan_invitation hmac s now code u = Inr (m, s')"
  shows "keeps cid u s s'"
  using assms(2)
proof (cases rule: redeem_InrD)
  case (1 i c x y s1)
  from 1(7) have "keeps cid u s s1" by (intro face_own_status [OF assms(1) 1(9)]) auto
  also have "keeps cid u s1 (s1\<lparr>invitations := qs_update (\<lambda>x. invitation_id x = invitation_id i)
      (\<lambda>x. x\<lparr>redeemed_by := Some u, redeemed_at := Some now\<rparr>) (invitations s1)\<rparr>)"
    by (rule keepsI) (auto simp: clan_face_def qs_update_def filter_map comp_def intro!: map_cong filter_cong)
  finally show ?thesis using 1(10) by (rule keeps_notified)
qed

lemma leave_face:
  assumes "outsider cid (user_id x) s" "leave_clan s now c x = Inr s'"
  shows "keeps cid (user_id x) s s'"
proof -
  obtain m where m: "member_get s (clan_id c) (user_id x) REQ_ACCEPTED = Inr m" "only_notifications (delete_member m s) s'"
    using leave_clan_InrD [OF assms(2)] by blast
  note md = member_get_InrD [OF m(1)]
  show ?thesis by (rule keeps_notified [OF face_delete_member [OF assms(1)] m(2)]) (use own_row [OF assms(1)] md in auto)
qed

lemma select_face:
  assumes "outsider cid u s" "select_active_private_clan s c u = Inr (r, s')"
  shows "keeps cid u s s'"
  using assms(2)
proof (cases rule: select_active_InrD)
  case (1 m)
  let ?t = "s\<lparr>memberships := qs_update (\<lambda>x. member x = u \<and> is_active_private x \<and> membership_id x \<noteq> membership_id m)
            (\<lambda>x. x\<lparr>is_active_private := False\<rparr>) (memberships s)\<rparr>"
  note md = member_get_InrD [OF 1(1)] and own = own_row [OF assms(1)]
  have t: "clan_face cid u ?t = clan_face cid u s"
    using own by (auto simp: clan_face_def not_own_def leader_row_def intro!: filter_qs_update_keep)
  have ids: "distinct (map membership_id (memberships s))" using assms(1) by (simp add: outsider_def clans_ok_def rows_ok_def)
  have "\<not> not_own cid u r" if "r \<in> set (memberships ?t)" "membership_id r = membership_id m" for r
    using that md own inj_on_pk [OF ids] by (auto simp: qs_update_def split: if_splits)
  then have "filter (not_own cid u) (memberships s') = filter (not_own cid u) (memberships ?t)"
    unfolding 1(4) save_member_def by (simp, intro filter_qs_update_keep) (auto simp: not_own_def leader_row_def)
  then have "clan_face cid u s' = clan_face cid u ?t" by (simp add: clan_face_def 1(4) save_member_def)
  with t show ?thesis by (intro keepsI) (simp_all add: 1(4) save_member_def)
qed

subsection \<open>A new clan and the onboarding\<close>

lemma outsider_fresh: "outsider cid u s \<Longrightarrow> cid < next_id s"
  by (auto simp: outsider_def clans_ok_def rows_ok_def)

lemma create_face:
  assumes "outsider cid u s" "create_private_clan s now nm u desc pv = Inr (c, s')"
  shows "keeps cid u s s'"
proof -
  from assms(2) obtain priv s1 m where c: "clan_create s now nm PRIVATE_CLAN desc priv (Some u) = Inr (c, s1)"
    and m: "membership_create s1 now u (clan_id c) LEADER REQ_ACCEPTED = Inr (m, s')"
    by (auto simp: create_private_clan_def split: option.splits sum.splits if_splits)
  show ?thesis
    using outsider_fresh [OF assms(1)] clan_create_InrD(1,2) [OF c] membership_create_InrD(1,2) [OF m]
    by (intro keepsI) (simp_all add: clan_face_def not_own_def)
qed

lemma assign_face:
  assumes "outsider cid u s" "assign_institutional_clan s now u raw vis = Inr (p', s')"
  shows "keeps cid u s s'"
  using assms(2)
proof (cases rule: assign_institutional_InrD)
  case (1 p s1 c s2 s3)
  note e = ensure_profile_frame [OF 1(2)]
  have s2: "clan_face cid u s2 = clan_face cid u s" "next_id s \<le> next_id s2" "invitations s2 = invitations s"
    using 1(3) outsider_fresh [OF assms(1)] e clan_create_InrD(1,2) [of s1 now "py_strip raw" INSTITUTIONAL "[]" PUBLIC_CLAN None]
    by (auto simp: get_or_create_institutional_clan_def clan_face_def split: sum.splits exc.splits if_splits)
  have keep: "filter (not_own cid u) (qs_delete (\<lambda>m. member m = u \<and> member_clan m = k \<and> member_role m = MEMBER) rows) =
      filter (not_own cid u) rows" for k rows
    by (auto simp: qs_delete_def not_own_def leader_row_def intro!: filter_cong)
  have "keeps cid u s s3"
    using s2 by (intro keepsI) (auto simp: 1(5) Let_def clan_face_def keep edit_profile_def split: option.splits)
  then show ?thesis using 1(6) face_create_member keeps_trans by metis
qed

lemma onboard_face:
  assumes "outsider cid u s" "complete_onboarding s now u raw nick vis = Inr (p', s')"
  shows "keeps cid u s s'"
proof -
  have e: "outsider cid u (edit_user u f s)" "keeps cid u s (edit_user u f s)" for f
    using assms(1) by (auto simp: outsider_def clans_ok_def rows_ok_def is_clan_leader_def clan_face_def edit_user_def intro!: keepsI)
  from assms(2) obtain f where "assign_institutional_clan s now u raw vis = Inr (p', s') \<or>
      assign_institutional_clan (edit_user u f s) now u raw vis = Inr (p', s')"
    by (auto simp: complete_onboarding_def Let_def split: option.splits sum.splits if_splits)
  then show ?thesis using assign_face assms(1) e keeps_trans by metis
qed

subsection \<open>Writes of the leader of another clan\<close>

lemma face_other_row:
  assumes "outsider cid u s" "m \<in> set (memberships s)" "member_clan m \<noteq> cid" "\<And>x. member_clan (f x) = member_clan x"
    "only_notifications (save_member m f s) s'"
  shows "keeps cid u s s'"
  by (rule keeps_notified [OF face_save_member [OF assms(1,2)] assms(5)]) (use assms(3,4) in \<open>simp_all add: not_own_def\<close>)

definition decided_row :: "db \<Rightarrow> uuid \<Rightarrow> uuid \<Rightarrow> db \<Rightarrow> bool" where
  "decided_row s k u s' \<longleftrightarrow> is_clan_leader s k u \<and> (\<exists>x st. x \<in> set (memberships s) \<and> member_clan x = k \<and>
     only_notifications (save_member x (\<lambda>x. x\<lparr>member_status := st\<rparr>) s) s')"

lemma accept_decided: "accept_join_request s now c u v = Inr (m, s') \<Longrightarrow> decided_row s (clan_id c) u s'"
  by (auto simp: accept_join_request_def decided_row_def dest!: sent clan_get_InrD member_get_InrD
      split: sum.splits exc.splits if_splits)

lemma reject_decided: "reject_join_request s now c u v = Inr (m, s') \<Longrightarrow> decided_row s (clan_id c) u s'"
  by (auto simp: reject_join_request_def decided_row_def dest!: sent clan_get_InrD member_get_InrD
      split: sum.splits exc.splits if_splits)

lemma decide_face:
  assumes "outsider cid u s" "decided_row s k u s'"
  shows "keeps cid u s s'"
proof -
  obtain x st where x: "x \<in> set (memberships s)" "member_clan x = k" "is_clan_leader s k u"
    and n: "only_notifications (save_member x (\<lambda>x. x\<lparr>member_status := st\<rparr>) s) s'"
    using assms(2) by (auto simp: decided_row_def)
  show ?thesis by (rule face_other_row [OF assms(1) x(1) _ _ n]) (use leads_other [OF assms(1) x(3)] x(2) in simp_all)
qed

lemma kick_face:
  assumes "outsider cid u s" "kick_member s now c u v = Inr s'"
  shows "keeps cid u s s'"
proof -
  obtain m where m: "member_get s (clan_id c) v REQ_ACCEPTED = Inr m" "is_clan_leader s (clan_id c) u"
    "only_notifications (delete_member m s) s'" using kick_member_InrD [OF assms(2)] by blast
  show ?thesis
    by (rule keeps_notified [OF face_delete_member [OF assms(1)] m(3)])
      (use member_get_InrD [OF m(1)] leads_other [OF assms(1) m(2)] in \<open>simp_all add: not_own_def\<close>)
qed

lemma transfer_face:
  assumes "outsider cid u s" "transfer_leadership s now c u v = Inr (r, s')"
  shows "keeps cid u s s'"
  using assms(2)
proof (cases rule: transfer_leadership_InrD)
  case (1 locked m m' y)
  have "is_clan_leader s (clan_id c) u" using 1(2-5) by (auto simp: leader_iff)
  then have other: "clan_id c \<noteq> cid" by (rule leads_other [OF assms(1)])
  have ids: "distinct (map membership_id (memberships s))" using assms(1) by (simp add: outsider_def clans_ok_def rows_ok_def)
  note md = member_get_InrD [OF 1(7)]
  have row: "member_clan x = clan_id c" if "x \<in> set (memberships s)" "membership_id x = membership_id m'" for x
    using inj_on_pk [OF ids that(1)] md that(2) by auto
  have "filter (not_own cid u) (memberships (save_member m' (\<lambda>x. x\<lparr>member_role := LEADER\<rparr>)
      (save_member m (\<lambda>x. x\<lparr>member_role := MEMBER\<rparr>) s))) = filter (not_own cid u) (memberships (save_member m (\<lambda>x. x\<lparr>member_role := MEMBER\<rparr>) s))"
    unfolding save_member_def by (simp, intro filter_qs_update_keep) (use row other in \<open>auto simp: qs_update_def not_own_def split: if_splits\<close>)
  then have second: "keeps cid u (save_member m (\<lambda>x. x\<lparr>member_role := MEMBER\<rparr>) s) (save_member m' (\<lambda>x. x\<lparr>member_role := LEADER\<rparr>)
      (save_member m (\<lambda>x. x\<lparr>member_role := MEMBER\<rparr>) s))"
    by (intro keepsI) (simp_all add: clan_face_def save_member_def)
  have first: "keeps cid u s (save_member m (\<lambda>x. x\<lparr>member_role := MEMBER\<rparr>) s)"
    by (rule face_save_member [OF assms(1) 1(2)]) (use 1(3) other in \<open>auto simp: not_own_def\<close>)
  show ?thesis by (rule keeps_notified [OF keeps_trans [OF first second] 1(11)])
qed

lemma dissolve_face:
  assumes "outsider cid u s" "dissolve_clan s now c u = Inr (r, s')"
  shows "keeps cid u s s'"
  using assms(2)
proof (cases rule: dissolve_clan_InrD)
  case (1 locked)
  have other: "clan_id c \<noteq> cid" by (rule leads_other [OF assms(1) 1(4)])
  have "keeps cid u s ((save_clan locked (\<lambda>x. x\<lparr>deleted_at := Some now\<rparr>) s)\<lparr>memberships := qs_update
          (\<lambda>m. member_clan m = clan_id c \<and> is_active_private m) (\<lambda>m. m\<lparr>is_active_private := False\<rparr>) (memberships s)\<rparr>)"
    using other 1(2) by (intro keepsI) (auto simp: clan_face_def save_clan_def not_own_def intro!: filter_qs_update_keep)
  then show ?thesis using 1(5) by (auto intro: keeps_notified keeps_refl split: if_splits)
qed

lemma locked_other:
  assumes "outsider cid u s" "lock_clan_for_leader s c u x y = Inr locked"
  shows "clan_id locked \<noteq> cid"
  using lock_clan_InrD(2,5) [OF assms(2)] leads_other [OF assms(1)] by auto

lemma update_face:
  assumes "outsider cid u s" "update_clan s c u nm desc pv = Inr (r, s')"
  shows "keeps cid u s s'"
proof -
  from assms(2) obtain locked f where l: "lock_clan_for_leader_edit s c u = Inr locked"
    and w: "s' = s \<or> s' = save_clan locked f s" "\<And>x. clan_id (f x) = clan_id x"
    by (fastforce simp: update_clan_def Let_def split: sum.splits if_splits)
  have "clan_id locked \<noteq> cid" by (rule locked_other [OF assms(1) l [unfolded lock_clan_for_leader_edit_def]])
  with w show ?thesis using face_save_clan keeps_refl by metis
qed

lemma avatar_face:
  assumes "outsider cid u s" "set_clan_avatar s c u up = Inr (r, s')"
  shows "keeps cid u s s'"
proof -
  from assms(2) obtain locked where l: "lock_clan_for_leader_edit s c u = Inr locked"
    by (auto simp: set_clan_avatar_def split: sum.splits)
  have other: "clan_id locked \<noteq> cid" by (rule locked_other [OF assms(1) l [unfolded lock_clan_for_leader_edit_def]])
  from assms(2) obtain k s1
    where k: "(case up of None \<Rightarrow> Inr ([], s) | Some f \<Rightarrow> save_clan_avatar s (clan_id locked) f) = Inr (k, s1)"
    and s': "s' = (save_clan locked (\<lambda>x. x\<lparr>clan_avatar_object_key := k\<rparr>) s1) \<or>
      (\<exists>key. s' = delete_image CLAN_AVATAR_PREFIX (clan_id locked) key (save_clan locked (\<lambda>x. x\<lparr>clan_avatar_object_key := k\<rparr>) s1))"
    by (fastforce simp: set_clan_avatar_def l Let_def delete_clan_avatar_def split: sum.splits if_splits)
  have "keeps cid u s s1"
    using k by (auto simp: save_clan_avatar_def clan_face_def dest!: save_image_InrD split: option.splits intro!: keepsI)
  also have "keeps cid u s1 (save_clan locked (\<lambda>x. x\<lparr>clan_avatar_object_key := k\<rparr>) s1)"
    using other by (rule face_save_clan) simp
  finally show ?thesis
    using s' by (auto simp: clan_face_def delete_image_frame intro: keeps_trans [OF _ keepsI])
qed

lemma try_codes_face:
  "k \<noteq> cid \<Longrightarrow> try_codes hmac s now k a ds = Inr (r, s') \<Longrightarrow> keeps cid u s s'"
proof (induction hmac s now k a ds rule: try_codes.induct)
  case (2 hmac s now k a raw draws)
  then show ?case
    by (auto simp: Let_def invitation_create_def clan_face_def keeps_def codes_ok_def split: sum.splits if_splits)
      (simp add: table_ok_snoc)
qed simp

lemma invite_face:
  assumes "outsider cid u s" "create_clan_invitation hmac s now c u draws = Inr (r, s')"
  shows "keeps cid u s s'"
proof -
  from assms(2) obtain locked where l: "lock_clan_for_invitations s c u = Inr locked"
    and t: "try_codes hmac (s\<lparr>invitations := qs_delete
        (\<lambda>i. invitation_clan i = clan_id locked \<and> expires_at i < now - INVITATION_RETENTION) (invitations s)\<rparr>)
        now (clan_id locked) u (take MAX_CODE_ATTEMPTS draws) = Inr (r, s')"
    by (auto simp: create_clan_invitation_def Let_def split: sum.splits if_splits)
  have o: "clan_id locked \<noteq> cid" by (rule locked_other [OF assms(1) l [unfolded lock_clan_for_invitations_def]])
  have "keeps cid u s (s\<lparr>invitations := qs_delete
        (\<lambda>i. invitation_clan i = clan_id locked \<and> expires_at i < now - INVITATION_RETENTION) (invitations s)\<rparr>)"
    unfolding keeps_def
  proof (intro conjI impI)
    show "codes_ok s \<Longrightarrow> codes_ok (s\<lparr>invitations := qs_delete
        (\<lambda>i. invitation_clan i = clan_id locked \<and> expires_at i < now - INVITATION_RETENTION) (invitations s)\<rparr>)"
      by (simp add: codes_ok_def table_ok_delete)
  qed (use o in \<open>auto simp: clan_face_def qs_delete_def intro!: arg_cong [where f = "map _"] filter_cong\<close>)
  then show ?thesis using try_codes_face [OF o t] by (rule keeps_trans)
qed

lemma revoke_face:
  assumes "outsider cid u s" "codes_ok s" "revoke_clan_invitation s now c u iid = Inr s'"
  shows "keeps cid u s s'"
proof -
  from assms(3) obtain locked i where l: "lock_clan_for_invitations s c u = Inr locked"
    and i: "qs_get (\<lambda>i. invitation_id i = iid \<and> invitation_clan i = clan_id locked) (invitations s) = Inr i"
    and s': "s' = s \<or> s' = s\<lparr>invitations := qs_update (\<lambda>x. invitation_id x = invitation_id i)
                        (\<lambda>x. x\<lparr>revoked_at := Some now\<rparr>) (invitations s)\<rparr>"
    by (auto simp: revoke_clan_invitation_def split: sum.splits if_splits)
  have o: "clan_id locked \<noteq> cid" by (rule locked_other [OF assms(1) l [unfolded lock_clan_for_invitations_def]])
  have ids: "distinct (map invitation_id (invitations s))" using assms(2) by (simp add: codes_ok_def table_ok_def)
  have "invitation_clan r = clan_id locked" if "r \<in> set (invitations s)" "invitation_id r = invitation_id i" for r
    using inj_on_pk [OF ids that(1), of i] that(2) qs_get_InrD(1,2) [OF i] by simp
  then have "filter (\<lambda>i. invitation_clan i = cid) (qs_update (\<lambda>x. invitation_id x = invitation_id i)
      (\<lambda>x. x\<lparr>revoked_at := Some now\<rparr>) (invitations s)) = filter (\<lambda>i. invitation_clan i = cid) (invitations s)"
    using o by (intro filter_qs_update_keep) auto
  with s' show ?thesis by (auto simp: clan_face_def intro!: keepsI)
qed

lemmas service_faces = create_face join_face redeem_face select_face onboard_face kick_face transfer_face dissolve_face
  update_face avatar_face invite_face

lemma called_keeps:
  assumes out: "outsider cid u s" and codes: "codes_ok s" and "called u s s'"
  shows "keeps cid u s s'"
proof -
  obtain call where c: "caller call = Some u" "clan_step call s = Inr s'" using assms(3) by (auto simp: called_def)
  show ?thesis
  proof (cases call)
    case (LeaveCall now k v)
    then obtain d x where x: "get_user s v = Inr x" "leave_clan s now d x = Inr s'"
      using c(2) by (auto dest!: with_clan_InrE split: sum.splits)
    have "user_id x = u" using get_user_InrD [OF x(1)] c(1) LeaveCall by simp
    with leave_face [of cid x s now d s'] out x(2) show ?thesis by simp
  next
    case (AcceptCall now k a v)
    then show ?thesis using c by (auto dest!: with_clan_InrE state_of_InrE intro: decide_face [OF out] accept_decided reject_decided)
  next
    case (RejectCall now k a v)
    then show ?thesis using c by (auto dest!: with_clan_InrE state_of_InrE intro: decide_face [OF out] accept_decided reject_decided)
  next
    case (RevokeCodeCall now k a i)
    then show ?thesis using c by (auto dest!: with_clan_InrE intro: revoke_face [OF out codes])
  qed (use c in \<open>auto dest!: with_clan_InrE state_of_InrE intro: service_faces [OF out]\<close>)
qed

lemma called_refines: "clans_ok s \<Longrightarrow> called u s s' \<Longrightarrow> clans_ok s'"
  by (auto simp: called_def intro: refines_ok clan_step_refines)

definition watched :: "uuid \<Rightarrow> uuid \<Rightarrow> db \<Rightarrow> bool" where
  "watched cid u s \<longleftrightarrow> outsider cid u s \<and> codes_ok s"

lemma served_called:
  assumes "clans_ok s" "served hmac lower u r s = Inr s'"
  shows "called u s s'"
proof -
  obtain x where x: "get_user s u = Inr x" "clan_endpoint hmac lower (fst r) x (snd r) s = Inr s'"
    using assms(2) by (auto simp: served_def split: sum.splits if_splits)
  have id: "user_id x = u" using get_user_InrD [OF x(1)] by simp
  then show ?thesis using endpoint_is_call [OF assms(1), of x] x by simp
qed

lemma watched_keeps:
  assumes "watched cid u s" "keeps cid u s s'" "clans_ok s'"
  shows "watched cid u s'"
  using assms face_leader [of cid u s' s] face_known [of cid u s' s] by (auto simp: watched_def outsider_def keeps_def)

interpretation bystander: monotone_machine "served hmac lower u" "watched cid u" "keeps cid u" for hmac lower u cid
proof unfold_locales
  fix s r s' assume w: "watched cid u s" and "served hmac lower u r s = Inr s'"
  then have c: "called u s s'" by (auto simp: watched_def outsider_def intro: served_called)
  show k: "keeps cid u s s'" using w c by (auto simp: watched_def intro: called_keeps)
  show "watched cid u s'" by (rule watched_keeps [OF w k]) (use w c in \<open>auto simp: watched_def outsider_def intro: called_refines\<close>)
qed (auto intro: keeps_refl keeps_trans)

text \<open>
  C6: only its leader can change a clan. However many requests a person sends, in whatever
  order and whatever role they have in the application, as long as they do not lead a clan at the
  start they never come to lead it and change nothing of it but their own membership: its row,
  the memberships of everybody else, and its invite codes and their revocation stay as they are.
\<close>

theorem only_the_leader_changes_a_clan:
  assumes "clans_ok s" "codes_ok s" "cid \<in> clan_id ` set (clans s)" "\<not> is_clan_leader s cid u"
    "s' = run_calls (served hmac lower u) requests s"
  shows "\<not> is_clan_leader s' cid u \<and> filter (\<lambda>c. clan_id c = cid) (clans s') = filter (\<lambda>c. clan_id c = cid) (clans s) \<and>
    filter (\<lambda>m. member_clan m = cid \<and> member m \<noteq> u) (memberships s') = filter (\<lambda>m. member_clan m = cid \<and> member m \<noteq> u) (memberships s) \<and>
    map (\<lambda>i. (invitation_id i, code_hash i, revoked_at i)) (filter (\<lambda>i. invitation_clan i = cid) (invitations s')) =
      map (\<lambda>i. (invitation_id i, code_hash i, revoked_at i)) (filter (\<lambda>i. invitation_clan i = cid) (invitations s))"
proof -
  have w: "watched cid u s" using assms(1-4) by (simp add: watched_def outsider_def)
  have face: "clan_face cid u s' = clan_face cid u s"
    using bystander.run_le [OF w, where es = requests] assms(5) by (simp add: keeps_def)
  have "watched cid u s'" using bystander.run_inv [OF w, where es = requests] assms(5) by simp
  moreover have "filter (\<lambda>m. member_clan m = cid \<and> member m \<noteq> u) ms = filter (\<lambda>m. member m \<noteq> u) (filter (not_own cid u) ms)" for ms
    by (auto simp: not_own_def intro: filter_cong)
  ultimately show ?thesis using face by (simp add: clan_face_def watched_def outsider_def del: filter_filter)
qed

text \<open>User 11 tries to rename, dissolve and empty the clan of user 10, and joins it.\<close>

definition demo_founded :: db where
  "demo_founded = run_calls clan_step [CreateCall 0 ''Eco'' 10 [] ''PUBLIC''] demo_people"

definition demo_intruder :: "(datetime \<times> clan_request) list" where
  "demo_intruder = [(1, UpdateClan (Some 20) True \<lparr>body_name = Some ''Mine'', body_description = None, body_privacy = None\<rparr>),
     (2, DestroyClan (Some 20)), (3, KickMember (Some 20) (Some 10)), (4, JoinClan (Some 20)),
     (5, TransferLeadership (Some 20) (Some 11))]"

lemma demo_founded_ok: "clans_ok demo_founded"
  unfolding demo_founded_def by (rule clan_machine.run_inv [OF demo_people_ok])

lemma demo_founded_rows: "map clan_id (clans demo_founded) = [20] \<and> map member (memberships demo_founded) = [10] \<and>
    invitations demo_founded = [] \<and> \<not> is_clan_leader demo_founded 20 11"
  by code_simp

lemma demo_intruder_joins:
  "map member (memberships (run_calls (served (\<lambda>_. id) id 11) demo_intruder demo_founded)) = [10, 11]"
  by code_simp

theorem only_the_leader_changes_a_clan_witness:
  "map member (memberships (run_calls (served (\<lambda>_. id) id 11) demo_intruder demo_founded)) = [10, 11] \<and>
   \<not> is_clan_leader (run_calls (served (\<lambda>_. id) id 11) demo_intruder demo_founded) 20 11"
proof -
  have "20 \<in> set (map clan_id (clans demo_founded))" using demo_founded_rows by simp
  then have "20 \<in> clan_id ` set (clans demo_founded)" by simp
  moreover have "codes_ok demo_founded" using demo_founded_rows by (simp add: codes_ok_def)
  ultimately show ?thesis
    using only_the_leader_changes_a_clan [OF demo_founded_ok _ _ _ refl, of 20 11 "\<lambda>_. id" id demo_intruder]
      demo_founded_rows demo_intruder_joins by blast
qed

section \<open>Invite-only clans\<close>

lemma hidden_queryset:
  assumes "rows_ok s" "c \<in> set (clans s)" "privacy c = PRIVATE_INVITE" "role u \<noteq> ADMIN" "act \<noteq> ''join''"
    "\<forall>m \<in> set (memberships s). \<not> (member m = user_id u \<and> member_clan m = clan_id c \<and> member_status m = REQ_ACCEPTED)"
  shows "d \<in> set (clan_queryset lower s u act search) \<Longrightarrow> clan_id d \<noteq> clan_id c"
  using assms inj_on_pk [of clan_id "clans s" c d]
  by (auto simp: clan_queryset_def list_active_clans_def rows_ok_def list_ex_iff)

lemma hidden_object:
  assumes "rows_ok s" "c \<in> set (clans s)" "privacy c = PRIVATE_INVITE" "role u \<noteq> ADMIN" "act \<noteq> ''join''"
    "\<forall>m \<in> set (memberships s). \<not> (member m = user_id u \<and> member_clan m = clan_id c \<and> member_status m = REQ_ACCEPTED)"
  shows "clan_object lower s u act leader_only (Some (clan_id c)) = Inl Http404"
proof -
  have "filter (\<lambda>d. clan_id d = clan_id c) (clan_queryset lower s u act []) = []"
    using hidden_queryset [OF assms] by (simp add: filter_empty_conv)
  then show ?thesis by (simp add: clan_object_def get_or_404_def qs_get_def)
qed

lemma hidden_join:
  assumes ok: "clans_ok s" and c: "c \<in> set (clans s)" "privacy c = PRIVATE_INVITE"
    and j: "join_clan_view lower s now u (Some (clan_id c)) = Inr (m, s')"
    and no: "\<forall>m \<in> set (memberships s). \<not> (member m = user_id u \<and> member_clan m = clan_id c \<and> member_status m = REQ_ACCEPTED)"
  shows "member_status m = REQ_PENDING" "clans_ok s'" "clans s' = clans s"
    "\<forall>m \<in> set (memberships s'). \<not> (member m = user_id u \<and> member_clan m = clan_id c \<and> member_status m = REQ_ACCEPTED)"
proof -
  obtain d where d: "clan_object lower s u ''join'' False (Some (clan_id c)) = Inr d" "join_clan s now d (user_id u) = Inr (m, s')"
    using j by (auto simp: join_clan_view_def elim!: res_bind_InrE)
  note dd = clan_object_InrD [OF ok d(1)]
  have "distinct (map clan_id (clans s))" using ok by (simp add: clans_ok_def rows_ok_def)
  then have "d = c" using inj_on_pk [of clan_id "clans s" d c] clan_get_InrD [OF dd(1)] dd(2) c(1) by auto
  with d(2) c(2) obtain s1
    where sv: "save_membership_status s now (user_id u) (clan_id c) (member_row s (clan_id c) (user_id u)) REQ_PENDING = Inr (m, s1)"
    and n: "only_notifications s1 s'"
    by (auto simp: join_clan_def Let_def dest!: sent split: sum.splits if_splits)
  show "member_status m = REQ_PENDING"
    using sv by (auto simp: save_membership_status_def dest: membership_create_InrD(1) split: option.splits)
  show "clans_ok s'" using refines_ok [OF ok join_clan_refines [OF ok c(1)]] d(2) \<open>d = c\<close> by simp
  show "clans s' = clans s"
    using sv n by (auto simp: only_notifications_frame save_membership_status_def save_member_def dest: membership_create_InrD(2) split: option.splits)
  have "\<forall>x \<in> set (memberships s1). x \<in> set (memberships s) \<or> member_status x = REQ_PENDING"
  proof (cases "member_row s (clan_id c) (user_id u)")
    case None
    then show ?thesis
      using membership_create_InrD(1,2) [of s now "user_id u" "clan_id c" MEMBER REQ_PENDING m s1] sv
      by (simp add: save_membership_status_def)
  next
    case (Some x)
    then show ?thesis using sv by (auto simp: save_membership_status_def save_member_def qs_update_def)
  qed
  moreover have "memberships s' = memberships s1" using n by (simp add: only_notifications_frame)
  ultimately show "\<forall>m \<in> set (memberships s'). \<not> (member m = user_id u \<and> member_clan m = clan_id c \<and> member_status m = REQ_ACCEPTED)"
    using no by fastforce
qed

fun addressed :: "clan_request \<Rightarrow> uuid option" where
  "addressed (UpdateClan pk p b) = pk"
| "addressed (DestroyClan pk) = pk"
| "addressed (CreateInvitation pk d) = pk"
| "addressed (RevokeInvitation pk i) = pk"
| "addressed (LeaveClan pk) = pk"
| "addressed (AcceptRequest pk a) = pk"
| "addressed (RejectRequest pk a) = pk"
| "addressed (TransferLeadership pk b) = pk"
| "addressed (ClanAvatar pk m) = pk"
| "addressed (SelectActive pk) = pk"
| "addressed (KickMember pk t) = pk"
| "addressed r = None"

text \<open>
  C7: an invite-only clan does not exist for those outside it. To a caller who is not an
  administrator and has no accepted membership, pending requests included, every endpoint that
  names the clan, reading or writing, answers 404, and no listing or search shows it; the one
  exception is the request to join, which leaves a pending row, after which the clan is as
  hidden as before.
\<close>

theorem invite_only_clan_is_hidden:
  assumes "clans_ok s" "c \<in> set (clans s)" "privacy c = PRIVATE_INVITE" "role u \<noteq> ADMIN"
    "\<forall>m \<in> set (memberships s). \<not> (member m = user_id u \<and> member_clan m = clan_id c \<and> member_status m = REQ_ACCEPTED)"
  shows "c \<notin> set (list_clans_view lower s u search) \<and>
    retrieve_clan_view lower absolute s u (Some (clan_id c)) = Inl Http404 \<and>
    pending_requests_view lower s u (Some (clan_id c)) = Inl Http404 \<and>
    list_invitations_view lower s now u (Some (clan_id c)) = Inl Http404 \<and>
    (\<forall>r. addressed r = Some (clan_id c) \<longrightarrow> clan_endpoint hmac lower now u r s = Inl Http404) \<and>
    (\<forall>m s'. join_clan_view lower s now u (Some (clan_id c)) = Inr (m, s') \<longrightarrow>
      member_status m = REQ_PENDING \<and> retrieve_clan_view lower absolute s' u (Some (clan_id c)) = Inl Http404)"
proof -
  have rows: "rows_ok s" using assms(1) by (simp add: clans_ok_def)
  note hidden = hidden_object [OF rows assms(2-4) _ assms(5)]
  show ?thesis
  proof (intro conjI allI impI)
    show "c \<notin> set (list_clans_view lower s u search)"
      using hidden_queryset [OF rows assms(2-4) _ assms(5), of "''list''" c lower search] by (auto simp: list_clans_view_def)
    show "clan_endpoint hmac lower now u r s = Inl Http404" if "addressed r = Some (clan_id c)" for r
      using that by (cases r) (auto simp: view_defs hidden state_of_def)
    fix m s' assume "join_clan_view lower s now u (Some (clan_id c)) = Inr (m, s')"
    note j = hidden_join [OF assms(1-3) this assms(5)]
    show "member_status m = REQ_PENDING" by (rule j(1))
    have "rows_ok s'" "c \<in> set (clans s')" using j(2,3) assms(2) by (simp_all add: clans_ok_def)
    then show "retrieve_clan_view lower absolute s' u (Some (clan_id c)) = Inl Http404"
      using hidden_object [of s' c u, OF _ _ assms(3,4) _ j(4)] by (simp add: retrieve_clan_view_def)
  qed (simp_all add: retrieve_clan_view_def pending_requests_view_def list_invitations_view_def hidden)
qed

text \<open>An invite-only clan of user 10, as user 11 meets it.\<close>

definition demo_secret :: db where
  "demo_secret = run_calls clan_step [CreateCall 0 ''Eco'' 10 [] ''PRIVATE_INVITE''] demo_people"

lemma demo_secret_ok: "clans_ok demo_secret"
  unfolding demo_secret_def by (rule clan_machine.run_inv [OF demo_people_ok])

lemma demo_secret_rows:
  "map (\<lambda>c. (clan_id c, privacy c)) (clans demo_secret) = [(20, PRIVATE_INVITE)] \<and> map member (memberships demo_secret) = [10]"
  by code_simp

theorem invite_only_clan_is_hidden_witness:
  "retrieve_clan_view id id demo_secret (demo_user 11 STUDENT) (Some 20) = Inl Http404 \<and>
   clan_endpoint (\<lambda>_. id) id 1 (demo_user 11 STUDENT) (LeaveClan (Some 20)) demo_secret = Inl Http404"
proof -
  obtain c where c: "c \<in> set (clans demo_secret)" "clan_id c = 20" "privacy c = PRIVATE_INVITE"
    using demo_secret_rows by (cases "clans demo_secret") auto
  have "member m = 10" if "m \<in> set (memberships demo_secret)" for m
    using demo_secret_rows that by (cases "memberships demo_secret") auto
  then have "\<forall>m \<in> set (memberships demo_secret). \<not> (member m = user_id (demo_user 11 STUDENT) \<and> member_clan m = clan_id c \<and>
      member_status m = REQ_ACCEPTED)" by (auto simp: demo_user_def)
  note hidden = invite_only_clan_is_hidden [OF demo_secret_ok c(1,3) _ this, of id "[]" id 1 "\<lambda>_. id"]
  have "role (demo_user 11 STUDENT) \<noteq> ADMIN" by (simp add: demo_user_def)
  from hidden [OF this] show ?thesis unfolding c(2) by (metis addressed.simps(5))
qed

end
