(* ===== verification/Calendar.thy ===== *)
theory Calendar
  imports Schema
begin

text \<open>
  Calendar days. \<open>settings.TIME_ZONE\<close> and \<open>ACTION_LIMIT_TIME_ZONE\<close> are both
  \<open>America/Mexico_City\<close>; the time zone database is data outside the repository, so a zone is a
  parameter: the local calendar day of an instant (\<open>localdate\<close>, \<open>TruncDate\<close>, the
  \<open>__date\<close> lookup) and the instant at which a local day begins
  (\<open>datetime.combine(day, time.min, tzinfo=zone)\<close>). What the code relies on is two laws:
  a day is the half-open interval between two midnights, and it is not empty. The standard time of
  Mexico City, UTC-6 without daylight saving since 2022, satisfies it.
\<close>

record zone =
  local_date :: "datetime \<Rightarrow> date"
  local_midnight :: "date \<Rightarrow> datetime"

definition zone_ok :: "zone \<Rightarrow> bool" where
  "zone_ok z \<longleftrightarrow> (\<forall>t d. local_date z t = d \<longleftrightarrow> local_midnight z d \<le> t \<and> t < local_midnight z (d + 1)) \<and>
     (\<forall>d. local_date z (local_midnight z d) = d)"

text \<open>\<open>actions/selectors.py\<close>: the bounds of the current local day.\<close>

definition local_day_utc_bounds :: "zone \<Rightarrow> datetime \<Rightarrow> datetime \<times> datetime" where
  "local_day_utc_bounds z now =
     (let day = local_date z now in (local_midnight z day, local_midnight z (day + 1)))"

definition mexico_city :: zone where
  "mexico_city = \<lparr>local_date = (\<lambda>t. (t - timedelta_hours 6) div timedelta_days 1),
                  local_midnight = (\<lambda>d. d * timedelta_days 1 + timedelta_hours 6)\<rparr>"

locale calendar =
  fixes z :: zone
  assumes day_iff: "local_date z t = d \<longleftrightarrow> local_midnight z d \<le> t \<and> t < local_midnight z (d + 1)"
    and midnight_day: "local_date z (local_midnight z d) = d"
begin

lemma midnight_step: "local_midnight z d < local_midnight z (d + 1)"
  using midnight_day [of d] by (simp add: day_iff)

lemma midnight_mono: "d \<le> d' \<Longrightarrow> local_midnight z d \<le> local_midnight z d'"
proof (induction d' rule: int_ge_induct)
  case (step i)
  then show ?case using midnight_step [of i] by linarith
qed simp

lemma date_mono: "t \<le> t' \<Longrightarrow> local_date z t \<le> local_date z t'"
proof (rule ccontr)
  assume "t \<le> t'" "\<not> local_date z t \<le> local_date z t'"
  then have "local_midnight z (local_date z t' + 1) \<le> local_midnight z (local_date z t)"
    by (intro midnight_mono) simp
  with day_iff [of t "local_date z t"] day_iff [of t' "local_date z t'"] \<open>t \<le> t'\<close> show False by simp
qed

lemma in_today: "fst (local_day_utc_bounds z now) \<le> now" "now < snd (local_day_utc_bounds z now)"
  using day_iff [of now "local_date z now"] by (simp_all add: local_day_utc_bounds_def Let_def)

lemma same_day_iff:
  "local_date z t = local_date z now \<longleftrightarrow>
   fst (local_day_utc_bounds z now) \<le> t \<and> t < snd (local_day_utc_bounds z now)"
  using day_iff [of t "local_date z now"] by (simp add: local_day_utc_bounds_def Let_def)

end

lemma zone_ok_calendar: "zone_ok z \<longleftrightarrow> calendar z"
  by (simp add: zone_ok_def calendar_def)

lemma int_div_eq_iff:
  assumes "0 < D" shows "x div D = d \<longleftrightarrow> D * d \<le> x \<and> x < D * d + (D::int)"
proof
  assume "x div D = d"
  then show "D * d \<le> x \<and> x < D * d + D"
    using mult_div_mod_eq [of D x] pos_mod_bound [OF assms, of x] pos_mod_sign [OF assms, of x] by auto
next
  assume "D * d \<le> x \<and> x < D * d + D"
  then show "x div D = d" by (intro int_div_pos_eq [of x D d "x - D * d"]) auto
qed

interpretation mexico: calendar mexico_city
proof
  show "local_date mexico_city t = d \<longleftrightarrow> local_midnight mexico_city d \<le> t \<and> t < local_midnight mexico_city (d + 1)" for t d
    unfolding mexico_city_def zone.simps timedelta_days_def timedelta_hours_def
    by (subst int_div_eq_iff) auto
  show "local_date mexico_city (local_midnight mexico_city d) = d" for d
    by (simp add: mexico_city_def timedelta_days_def timedelta_hours_def)
qed

lemma mexico_city_ok: "zone_ok mexico_city"
  unfolding zone_ok_calendar by (rule mexico.calendar_axioms)

end
