(* ===== verification/Campaigns.thy ===== *)
theory Campaigns
  imports Calendar Notifications
begin

text \<open>
  The campaigns app: who may create and manage a campaign, its lifecycle (promotion, in
  progress, finished) and the review of proposals, and the missions whose progress is derived
  from the approved action logs (\<open>campaigns/services.py\<close>, \<open>campaigns/notifications.py\<close>, the
  constraints of \<open>campaigns/models.py\<close>). \<open>now\<close> is the clock of the request.
\<close>

section \<open>Statuses in order\<close>

text \<open>A campaign only moves forward: the statuses are ordered as the lifecycle runs.\<close>

definition status_rank :: "campaign_status \<Rightarrow> nat" where
  "status_rank st = (case st of PROMOTION \<Rightarrow> 0 | IN_PROGRESS \<Rightarrow> 1 | FINISHED \<Rightarrow> 2)"

instantiation campaign_status :: linorder
begin

definition less_eq_campaign_status :: "campaign_status \<Rightarrow> campaign_status \<Rightarrow> bool" where
  "less_eq_campaign_status a b \<longleftrightarrow> status_rank a \<le> status_rank b"

definition less_campaign_status :: "campaign_status \<Rightarrow> campaign_status \<Rightarrow> bool" where
  "less_campaign_status a b \<longleftrightarrow> status_rank a < status_rank b"

instance
  by standard (auto simp: less_eq_campaign_status_def less_campaign_status_def status_rank_def
      split: campaign_status.splits)

end

lemmas status_order = less_eq_campaign_status_def less_campaign_status_def status_rank_def

section \<open>Rows and their constraints\<close>

text \<open>
  The check constraints of \<open>Campaign.Meta\<close>, in the order of their names, and the
  \<open>varchar(150)\<close> of the title.
\<close>

definition campaign_violation :: "campaign \<Rightarrow> exc option" where
  "campaign_violation c =
     (if length (title c) > 150 then Some (DataError ''campaigns_campaign.title'')
      else if \<not> end_date c > start_date c then Some (IntegrityError ''campaign_end_after_start'')
      else if scope c = CLAN_SCOPE \<and> approval_status c \<noteq> CAMP_APPROVED
      then Some (IntegrityError ''campaign_private_always_approved'')
      else if approval_status c = CAMP_REJECTED \<and> rejection_reason c = []
      then Some (IntegrityError ''campaign_rejection_has_reason'')
      else if (scope c = GLOBAL_SCOPE) \<noteq> (target_clan c = None)
      then Some (IntegrityError ''campaign_scope_target_clan_consistent'')
      else None)"

definition campaign_create :: "db \<Rightarrow> datetime \<Rightarrow> campaign \<Rightarrow> (campaign \<times> db) res" where
  "campaign_create s now data =
     (let c = data\<lparr>campaign_id := next_id s, campaign_created_at := now\<rparr>
      in case campaign_violation c of
           Some e \<Rightarrow> Inl e
         | None \<Rightarrow> Inr (c, s\<lparr>campaigns := campaigns s @ [c], next_id := Suc (next_id s)\<rparr>))"

text \<open>\<open>campaign.save(update_fields=...)\<close>: the row with the key of \<open>c\<close> becomes \<open>c\<close>.\<close>

definition campaign_save :: "db \<Rightarrow> campaign \<Rightarrow> db res" where
  "campaign_save s c =
     (case campaign_violation c of
        Some e \<Rightarrow> Inl e
      | None \<Rightarrow> Inr (s\<lparr>campaigns := qs_update (\<lambda>x. campaign_id x = campaign_id c) (\<lambda>_. c) (campaigns s)\<rparr>))"

text \<open>PostgreSQL checks the range of the integer column before the constraints of the row.\<close>

definition mission_create :: "db \<Rightarrow> uuid \<Rightarrow> uuid \<Rightarrow> nat \<Rightarrow> (mission \<times> db) res" where
  "mission_create s cid aid target =
     (let m = \<lparr>mission_id = next_id s, mission_campaign = cid, mission_action = aid, target_count = target\<rparr>
      in if target > 2147483647 then Inl (DataError ''campaigns_mission.target_count'')
         else if target = 0 then Inl (IntegrityError ''mission_target_positive'')
         else if list_ex (\<lambda>x. mission_campaign x = cid \<and> mission_action x = aid) (missions s)
         then Inl (IntegrityError ''mission_campaign_action_unique'')
         else Inr (m, s\<lparr>missions := missions s @ [m], next_id := Suc (next_id s)\<rparr>))"

definition participant_create :: "db \<Rightarrow> datetime \<Rightarrow> uuid \<Rightarrow> uuid \<Rightarrow> (participant \<times> db) res" where
  "participant_create s now cid u =
     (let p = \<lparr>participant_id = next_id s, participant_campaign = cid, participant_user = u,
               participant_joined_at = now\<rparr>
      in if list_ex (\<lambda>x. participant_campaign x = cid \<and> participant_user x = u) (participants s)
         then Inl (IntegrityError ''campaign_participant_unique'')
         else Inr (p, s\<lparr>participants := participants s @ [p], next_id := Suc (next_id s)\<rparr>))"

definition campaign_get :: "db \<Rightarrow> uuid \<Rightarrow> campaign res" where
  "campaign_get s cid = qs_get (\<lambda>c. campaign_id c = cid) (campaigns s)"

text \<open>\<open>campaign.target_clan\<close>, which also finds a soft-deleted clan.\<close>

definition campaign_target :: "db \<Rightarrow> campaign \<Rightarrow> clan option" where
  "campaign_target s c = (case target_clan c of None \<Rightarrow> None | Some k \<Rightarrow> find (\<lambda>x. clan_id x = k) (clans s))"

section \<open>Who may manage a campaign\<close>

definition leads_live_clan :: "db \<Rightarrow> user \<Rightarrow> clan option \<Rightarrow> bool" where
  "leads_live_clan s u clan =
     (case clan of
        None \<Rightarrow> False
      | Some c \<Rightarrow> if deleted_at c \<noteq> None then False
                  else list_ex (\<lambda>m. member m = user_id u \<and> member_clan m = clan_id c \<and> member_role m = LEADER)
                         (memberships s))"

definition is_admin_for_institutional_clan :: "user \<Rightarrow> clan option \<Rightarrow> bool" where
  "is_admin_for_institutional_clan u clan =
     (case clan of
        None \<Rightarrow> False
      | Some c \<Rightarrow> if deleted_at c \<noteq> None then False
                  else role u = ADMIN \<and> clan_type c = INSTITUTIONAL)"

definition can_create_campaign :: "db \<Rightarrow> user \<Rightarrow> campaign_scope \<Rightarrow> clan option \<Rightarrow> bool" where
  "can_create_campaign s u sc clan =
     (case sc of
        GLOBAL_SCOPE \<Rightarrow> role u = ADMIN
      | CLAN_SCOPE \<Rightarrow>
          (if (case clan of None \<Rightarrow> False | Some c \<Rightarrow> clan_type c = INSTITUTIONAL)
           then is_admin_for_institutional_clan u clan
           else leads_live_clan s u clan))"

definition resolve_can_manage :: "db \<Rightarrow> user \<Rightarrow> campaign \<Rightarrow> uuid list option \<Rightarrow> bool" where
  "resolve_can_manage s u c leader_clan_ids =
     (if scope c = GLOBAL_SCOPE then role u = ADMIN
      else let clan = campaign_target s c
           in if (case clan of None \<Rightarrow> False | Some k \<Rightarrow> clan_type k = INSTITUTIONAL)
              then is_admin_for_institutional_clan u clan
              else case leader_clan_ids of
                     Some ids \<Rightarrow> (case clan of None \<Rightarrow> False | Some k \<Rightarrow> clan_id k \<in> set ids)
                   | None \<Rightarrow> leads_live_clan s u clan)"

definition can_manage_campaign :: "db \<Rightarrow> user \<Rightarrow> campaign \<Rightarrow> bool" where
  "can_manage_campaign s u c = resolve_can_manage s u c None"

text \<open>\<open>None\<close> is a caller that is not authenticated.\<close>

definition can_manage_campaign_for_user :: "db \<Rightarrow> user option \<Rightarrow> campaign \<Rightarrow> uuid list option \<Rightarrow> bool" where
  "can_manage_campaign_for_user s caller c ids =
     (case caller of None \<Rightarrow> False | Some u \<Rightarrow> resolve_can_manage s u c ids)"

section \<open>Dates\<close>

definition MIN_CAMPAIGN_DURATION :: int where
  "MIN_CAMPAIGN_DURATION = timedelta_days 1"

definition compute_campaign_status :: "datetime \<Rightarrow> datetime \<Rightarrow> datetime \<Rightarrow> campaign_status" where
  "compute_campaign_status start fin now =
     (if now < start then PROMOTION else if now < fin then IN_PROGRESS else FINISHED)"

definition earliest_allowed_start :: "zone \<Rightarrow> datetime \<Rightarrow> datetime" where
  "earliest_allowed_start z now = snd (local_day_utc_bounds z now)"

definition ensure_start_date_allowed :: "zone \<Rightarrow> datetime \<Rightarrow> datetime \<Rightarrow> unit res" where
  "ensure_start_date_allowed z start now =
     (if start < earliest_allowed_start z now
      then Inl (ValidationError ''start_date'' ''Start date must be tomorrow or later.'') else Inr ())"

text \<open>\<open>value.replace(microsecond=value.microsecond // 1000 * 1000)\<close>.\<close>

definition truncate_to_ms :: "datetime \<Rightarrow> datetime" where
  "truncate_to_ms t = (let us = t mod 1000000 in t - us + us div 1000 * 1000)"

definition date_changed :: "datetime \<Rightarrow> datetime \<Rightarrow> bool" where
  "date_changed new stored \<longleftrightarrow> truncate_to_ms new \<noteq> truncate_to_ms stored"

definition ensure_end_date_allowed :: "datetime \<Rightarrow> datetime \<Rightarrow> unit res" where
  "ensure_end_date_allowed start fin =
     (if fin < start + MIN_CAMPAIGN_DURATION
      then Inl (ValidationError ''end_date'' ''End date must be at least one day after start date.'')
      else Inr ())"

definition ensure_campaign_dates_allowed ::
  "zone \<Rightarrow> datetime \<Rightarrow> datetime \<Rightarrow> datetime \<Rightarrow> bool \<Rightarrow> unit res" where
  "ensure_campaign_dates_allowed z now start fin check_start =
     res_bind (ensure_end_date_allowed start fin) (\<lambda>_.
       if fin \<le> now then Inl (ValidationError ''end_date'' ''End date must be in the future.'')
       else if check_start then ensure_start_date_allowed z start now
       else Inr ())"

section \<open>Notifications\<close>

text \<open>
  A filter across a reverse foreign key is a join: a user appears once for each related row
  that matches.
\<close>

definition campaign_invite_recipients :: "db \<Rightarrow> campaign \<Rightarrow> uuid list" where
  "campaign_invite_recipients s c =
     (let us = filter (\<lambda>u. user_id u \<noteq> creator c) (users s)
      in if scope c = GLOBAL_SCOPE then map user_id (filter is_active us)
         else [user_id u. u \<leftarrow> us, m \<leftarrow> memberships s,
                 member m = user_id u \<and> Some (member_clan m) = target_clan c \<and> member_status m = REQ_ACCEPTED])"

definition campaign_participants :: "db \<Rightarrow> campaign \<Rightarrow> uuid list" where
  "campaign_participants s c =
     [user_id u. u \<leftarrow> users s, p \<leftarrow> participants s,
        participant_user p = user_id u \<and> participant_campaign p = campaign_id c]"

definition notify_all :: "db \<Rightarrow> datetime \<Rightarrow> uuid list \<Rightarrow> notification_type \<Rightarrow> campaign \<Rightarrow> (nat \<times> db) res" where
  "notify_all s now us ty c =
     res_bind (notify_many s now us ty [(''campaign_name'', title c)]) (\<lambda>(ns, s1). Inr (length ns, s1))"

definition notify_campaign_invite :: "db \<Rightarrow> datetime \<Rightarrow> campaign \<Rightarrow> (nat \<times> db) res" where
  "notify_campaign_invite s now c = notify_all s now (campaign_invite_recipients s c) CAMPAIGN_INVITE c"

definition notify_campaign_started :: "db \<Rightarrow> datetime \<Rightarrow> campaign \<Rightarrow> (nat \<times> db) res" where
  "notify_campaign_started s now c = notify_all s now (campaign_participants s c) CAMPAIGN_STARTED c"

definition notify_campaign_finished :: "db \<Rightarrow> datetime \<Rightarrow> campaign \<Rightarrow> (nat \<times> db) res" where
  "notify_campaign_finished s now c = notify_all s now (campaign_participants s c) CAMPAIGN_FINISHED c"

definition notify_proposal_reviewed :: "db \<Rightarrow> datetime \<Rightarrow> campaign \<Rightarrow> uuid \<Rightarrow> db res" where
  "notify_proposal_reviewed s now c reviewer =
     (if creator c = reviewer then Inr s
      else if approval_status c = CAMP_APPROVED
      then res_bind (notify s now (creator c) CAMPAIGN_APPROVED [(''campaign_name'', title c)]) (\<lambda>(_, s1). Inr s1)
      else res_bind (notify s now (creator c) CAMPAIGN_REJECTED
             [(''campaign_name'', title c), (''reason'', rejection_reason c)]) (\<lambda>(_, s1). Inr s1))"

definition notify_mission_completed :: "db \<Rightarrow> datetime \<Rightarrow> uuid \<Rightarrow> mission \<Rightarrow> (notification \<times> db) res" where
  "notify_mission_completed s now u m =
     res_bind (qs_get (\<lambda>a. action_id a = mission_action m) (actions s)) (\<lambda>a.
     res_bind (campaign_get s (mission_campaign m)) (\<lambda>c.
       notify s now u MISSION_COMPLETED [(''mission_name'', action_name a), (''campaign_name'', title c)]))"

section \<open>Lifecycle\<close>

definition must_finish :: "datetime \<Rightarrow> campaign \<Rightarrow> bool" where
  "must_finish now c \<longleftrightarrow> status c \<in> {PROMOTION, IN_PROGRESS} \<and> approval_status c = CAMP_APPROVED \<and> end_date c \<le> now"

definition must_start :: "datetime \<Rightarrow> campaign \<Rightarrow> bool" where
  "must_start now c \<longleftrightarrow> status c = PROMOTION \<and> approval_status c = CAMP_APPROVED \<and> start_date c \<le> now \<and> end_date c > now"

definition sync_campaign_statuses :: "db \<Rightarrow> datetime \<Rightarrow> nat \<times> db" where
  "sync_campaign_statuses s now =
     (let finished = length (filter (must_finish now) (campaigns s));
          s1 = s\<lparr>campaigns := qs_update (must_finish now) (\<lambda>c. c\<lparr>status := FINISHED\<rparr>) (campaigns s)\<rparr>;
          started = length (filter (must_start now) (campaigns s1));
          s2 = s1\<lparr>campaigns := qs_update (must_start now) (\<lambda>c. c\<lparr>status := IN_PROGRESS\<rparr>) (campaigns s1)\<rparr>
      in (finished + started, s2))"

definition is_open_for_enrollment :: "campaign \<Rightarrow> bool" where
  "is_open_for_enrollment c \<longleftrightarrow> approval_status c = CAMP_APPROVED \<and> status c = PROMOTION"

definition invite_if_open :: "db \<Rightarrow> datetime \<Rightarrow> campaign \<Rightarrow> (campaign \<times> db) res" where
  "invite_if_open s now c =
     (if is_open_for_enrollment c
      then res_bind (notify_campaign_invite s now c) (\<lambda>(_, s1). Inr (c, s1))
      else Inr (c, s))"

definition create_campaign_with_missions ::
  "db \<Rightarrow> datetime \<Rightarrow> campaign \<Rightarrow> (uuid \<times> nat) list \<Rightarrow> (campaign \<times> db) res" where
  "create_campaign_with_missions s now data missions_data =
     res_bind (campaign_create s now data) (\<lambda>(c, s1).
     res_bind (for_each (\<lambda>(aid, target) s. mission_create s (campaign_id c) aid target) missions_data s1)
       (\<lambda>(_, s2). invite_if_open s2 now c))"

text \<open>The fields a proposal carries: title, description, start and end.\<close>

definition propose_global_campaign ::
  "db \<Rightarrow> datetime \<Rightarrow> uuid \<Rightarrow> string \<Rightarrow> string \<Rightarrow> datetime \<Rightarrow> datetime \<Rightarrow> (uuid \<times> nat) list \<Rightarrow> (campaign \<times> db) res" where
  "propose_global_campaign s now u ttl desc start fin missions_data =
     create_campaign_with_missions s now
       \<lparr>campaign_id = 0, title = ttl, description = desc, scope = GLOBAL_SCOPE, status = PROMOTION,
        creator = u, target_clan = None, start_date = start, end_date = fin,
        approval_status = CAMP_PENDING, reviewed_by = None, reviewed_at = None,
        rejection_reason = [], campaign_created_at = now\<rparr> missions_data"

definition approve_campaign :: "zone \<Rightarrow> db \<Rightarrow> datetime \<Rightarrow> uuid \<Rightarrow> uuid \<Rightarrow> (campaign \<times> db) res" where
  "approve_campaign z s now admin cid =
     res_bind (campaign_get s cid) (\<lambda>c.
       if approval_status c \<noteq> CAMP_PENDING
       then Inl (ValidationError [] ''Only pending proposals can be reviewed.'')
       else if end_date c \<le> now
       then Inl (ValidationError [] ''Cannot approve a proposal whose end date has passed.'')
       else if start_date c < earliest_allowed_start z now
       then Inl (ValidationError ''start_date''
              ''Cannot approve a proposal that starts today or earlier; users need a day to join.'')
       else let c1 = c\<lparr>approval_status := CAMP_APPROVED, reviewed_by := Some admin, reviewed_at := Some now,
                       status := compute_campaign_status (start_date c) (end_date c) now\<rparr>
            in res_bind (campaign_save s c1) (\<lambda>s1.
               res_bind (notify_proposal_reviewed s1 now c1 admin) (\<lambda>s2. invite_if_open s2 now c1)))"

definition reject_campaign :: "db \<Rightarrow> datetime \<Rightarrow> uuid \<Rightarrow> uuid \<Rightarrow> string \<Rightarrow> (campaign \<times> db) res" where
  "reject_campaign s now admin cid reason =
     res_bind (campaign_get s cid) (\<lambda>c.
       if approval_status c \<noteq> CAMP_PENDING
       then Inl (ValidationError [] ''Only pending proposals can be reviewed.'')
       else if reason = []
       then Inl (ValidationError ''rejection_reason'' ''Rejection reason is required.'')
       else let c1 = c\<lparr>approval_status := CAMP_REJECTED, reviewed_by := Some admin, reviewed_at := Some now,
                       rejection_reason := reason\<rparr>
            in res_bind (campaign_save s c1) (\<lambda>s1.
               res_bind (notify_proposal_reviewed s1 now c1 admin) (\<lambda>s2. Inr (c1, s2))))"

definition start_campaign :: "db \<Rightarrow> datetime \<Rightarrow> uuid \<Rightarrow> (campaign \<times> db) res" where
  "start_campaign s now cid =
     res_bind (campaign_get s cid) (\<lambda>c.
       if approval_status c \<noteq> CAMP_APPROVED \<or> status c \<noteq> PROMOTION
       then Inl (ValidationError [] ''Only campaigns in promotion can be started.'')
       else let c1 = c\<lparr>start_date := now, status := IN_PROGRESS\<rparr>
            in res_bind (campaign_save s c1) (\<lambda>s1.
               res_bind (notify_campaign_started s1 now c1) (\<lambda>(_, s2). Inr (c1, s2))))"

definition finish_campaign :: "db \<Rightarrow> datetime \<Rightarrow> uuid \<Rightarrow> (campaign \<times> db) res" where
  "finish_campaign s now cid =
     res_bind (campaign_get s cid) (\<lambda>c.
       if approval_status c \<noteq> CAMP_APPROVED \<or> status c \<noteq> IN_PROGRESS
       then Inl (ValidationError [] ''Only campaigns in progress can be finished.'')
       else let c1 = c\<lparr>end_date := max now (start_date c + 1), status := FINISHED\<rparr>
            in res_bind (campaign_save s c1) (\<lambda>s1.
               res_bind (notify_campaign_finished s1 now c1) (\<lambda>(_, s2). Inr (c1, s2))))"

section \<open>Missions\<close>

definition validate_action_log_campaign ::
  "db \<Rightarrow> datetime \<Rightarrow> uuid \<Rightarrow> uuid \<Rightarrow> uuid option \<Rightarrow> (campaign option \<times> db) res" where
  "validate_action_log_campaign s now u aid campaign =
     (case campaign of
        None \<Rightarrow> Inr (None, s)
      | Some cid \<Rightarrow>
          (case qs_get (\<lambda>c. campaign_id c = cid \<and> approval_status c = CAMP_APPROVED) (campaigns s) of
             Inl DoesNotExist \<Rightarrow> Inl (ValidationError ''campaign_id'' ''Campaign does not exist or is not approved.'')
           | Inl e \<Rightarrow> Inl e
           | Inr _ \<Rightarrow>
               (let s1 = snd (sync_campaign_statuses s now)
                in res_bind (campaign_get s1 cid) (\<lambda>c.
                     if status c \<noteq> IN_PROGRESS
                     then Inl (ValidationError ''campaign_id'' ''Campaign is not in progress.'')
                     else if \<not> list_ex (\<lambda>p. participant_campaign p = cid \<and> participant_user p = u) (participants s1)
                     then Inl (ValidationError ''campaign_id'' ''User is not a participant of this campaign.'')
                     else if \<not> list_ex (\<lambda>m. mission_campaign m = cid \<and> mission_action m = aid) (missions s1)
                     then Inl (ValidationError ''campaign_id'' ''Campaign has no mission for this action.'')
                     else Inr (Some c, s1)))))"

definition get_or_create_progress :: "db \<Rightarrow> uuid \<Rightarrow> uuid \<Rightarrow> (mission_progress \<times> db) res" where
  "get_or_create_progress s u mid =
     (case qs_get (\<lambda>p. progress_user p = u \<and> progress_mission p = mid) (mission_progresses s) of
        Inr p \<Rightarrow> Inr (p, s)
      | Inl DoesNotExist \<Rightarrow>
          (let p = \<lparr>progress_id = next_id s, progress_user = u, progress_mission = mid,
                    current_count = 0, is_completed = False\<rparr>
           in Inr (p, s\<lparr>mission_progresses := mission_progresses s @ [p], next_id := Suc (next_id s)\<rparr>))
      | Inl e \<Rightarrow> Inl e)"

text \<open>The contributions of one user to one mission whose log is approved.\<close>

definition counts_for :: "db \<Rightarrow> uuid \<Rightarrow> uuid \<Rightarrow> contribution \<Rightarrow> bool" where
  "counts_for s u mid k \<longleftrightarrow>
     contribution_mission k = mid \<and>
     list_ex (\<lambda>l. log_id l = contribution_log k \<and> log_user l = u \<and> log_status l = LOG_APPROVED) (action_logs s)"

definition recalculate_mission_progress ::
  "db \<Rightarrow> datetime \<Rightarrow> uuid \<Rightarrow> mission \<Rightarrow> (mission_progress \<times> db) res" where
  "recalculate_mission_progress s now u m =
     res_bind (get_or_create_progress s u (mission_id m)) (\<lambda>(p, s1).
       let was_completed = is_completed p;
           valid = length (filter (counts_for s1 u (mission_id m)) (contributions s1));
           count = min valid (target_count m);
           completed = (count \<ge> target_count m);
           p1 = p\<lparr>current_count := count, is_completed := completed\<rparr>;
           changed = (current_count p \<noteq> count \<or> is_completed p \<noteq> completed);
           s2 = (if changed
                 then s1\<lparr>mission_progresses := qs_update (\<lambda>x. progress_id x = progress_id p)
                          (\<lambda>x. x\<lparr>current_count := count, is_completed := completed\<rparr>) (mission_progresses s1)\<rparr>
                 else s1)
       in if completed \<and> \<not> was_completed
          then res_bind (notify_mission_completed s2 now u m) (\<lambda>(_, s3). Inr (p1, s3))
          else Inr (p1, s2))"

text \<open>The missions a log counts toward: decided by when the log was registered.\<close>

definition eligible_mission :: "db \<Rightarrow> action_log \<Rightarrow> mission \<Rightarrow> bool" where
  "eligible_mission s l m \<longleftrightarrow>
     mission_action m = log_action l \<and>
     list_ex (\<lambda>c. campaign_id c = mission_campaign m \<and> approval_status c = CAMP_APPROVED \<and>
                  start_date c \<le> log_created_at l \<and> end_date c > log_created_at l \<and>
                  list_ex (\<lambda>p. participant_campaign p = campaign_id c \<and> participant_user p = log_user l) (participants s))
       (campaigns s)"

definition contribution_get_or_create :: "db \<Rightarrow> datetime \<Rightarrow> uuid \<Rightarrow> uuid \<Rightarrow> db" where
  "contribution_get_or_create s now lid mid =
     (if list_ex (\<lambda>k. contribution_log k = lid \<and> contribution_mission k = mid) (contributions s) then s
      else s\<lparr>contributions := contributions s @ [\<lparr>contribution_id = next_id s, contribution_log = lid,
               contribution_mission = mid, contribution_created_at = now\<rparr>], next_id := Suc (next_id s)\<rparr>)"

definition credit_mission :: "datetime \<Rightarrow> action_log \<Rightarrow> mission \<Rightarrow> db \<Rightarrow> (mission_progress \<times> db) res" where
  "credit_mission now l m s =
     recalculate_mission_progress (contribution_get_or_create s now (log_id l) (mission_id m)) now (log_user l) m"

definition apply_action_log_to_missions ::
  "db \<Rightarrow> datetime \<Rightarrow> action_log \<Rightarrow> (mission_progress list \<times> db) res" where
  "apply_action_log_to_missions s now l =
     (if log_status l = LOG_REJECTED then Inr ([], s)
      else for_each (credit_mission now l) (filter (eligible_mission s l) (missions s)) s)"

definition revert_contribution :: "datetime \<Rightarrow> action_log \<Rightarrow> contribution \<Rightarrow> db \<Rightarrow> (mission_progress \<times> db) res" where
  "revert_contribution now l k s =
     res_bind (qs_get (\<lambda>m. mission_id m = contribution_mission k) (missions s))
       (\<lambda>m. recalculate_mission_progress s now (log_user l) m)"

definition revert_action_log_from_missions ::
  "db \<Rightarrow> datetime \<Rightarrow> action_log \<Rightarrow> (mission_progress list \<times> db) res" where
  "revert_action_log_from_missions s now l =
     for_each (revert_contribution now l) (filter (\<lambda>k. contribution_log k = log_id l) (contributions s)) s"

section \<open>The synchronisation, row by row\<close>

text \<open>What one run does to one row; the second \<open>UPDATE\<close> never matches a row the first wrote.\<close>

definition synced :: "datetime \<Rightarrow> campaign \<Rightarrow> campaign" where
  "synced now c =
     (if must_finish now c then c\<lparr>status := FINISHED\<rparr>
      else if must_start now c then c\<lparr>status := IN_PROGRESS\<rparr> else c)"

lemma sync_rows: "snd (sync_campaign_statuses s now) = s\<lparr>campaigns := map (synced now) (campaigns s)\<rparr>"
proof -
  have "qs_update (must_start now) (\<lambda>c. c\<lparr>status := IN_PROGRESS\<rparr>)
      (qs_update (must_finish now) (\<lambda>c. c\<lparr>status := FINISHED\<rparr>) cs) = map (synced now) cs" for cs
    by (induction cs) (auto simp: qs_update_def synced_def must_start_def must_finish_def)
  then show ?thesis by (simp add: sync_campaign_statuses_def Let_def)
qed

lemma synced_again: "t \<le> t' \<Longrightarrow> synced t' (synced t c) = synced t' c"
  by (cases "status c"; cases "approval_status c = CAMP_APPROVED")
    (simp_all add: synced_def must_finish_def must_start_def)

lemma synced_cols [simp]:
  "campaign_id (synced now c) = campaign_id c" "approval_status (synced now c) = approval_status c"
  "start_date (synced now c) = start_date c" "end_date (synced now c) = end_date c"
  "scope (synced now c) = scope c" "target_clan (synced now c) = target_clan c"
  "title (synced now c) = title c" "rejection_reason (synced now c) = rejection_reason c"
  "creator (synced now c) = creator c"
  by (simp_all add: synced_def)

lemma synced_status:
  assumes "start_date c < end_date c"
  shows "status (synced now c) =
    (if approval_status c = CAMP_APPROVED
     then max (status c) (compute_campaign_status (start_date c) (end_date c) now) else status c)"
  using assms
  by (cases "status c") (auto simp: synced_def must_finish_def must_start_def compute_campaign_status_def max_def status_order)

lemma synced_le: "status c \<le> status (synced now c)"
  by (cases "status c") (auto simp: synced_def must_finish_def must_start_def status_order)

lemma status_write_id: "c\<lparr>status := st\<rparr> = c \<longleftrightarrow> status c = st"
  by (cases c) auto

lemma synced_fixed: "synced now c = c \<longleftrightarrow> \<not> must_finish now c \<and> \<not> must_start now c"
  by (cases "status c") (simp_all add: synced_def status_write_id must_finish_def must_start_def)

lemma sync_count: "fst (sync_campaign_statuses s now) = length (filter (\<lambda>c. synced now c \<noteq> c) (campaigns s))"
proof -
  have "length (filter (must_finish now) cs) +
      length (filter (must_start now) (qs_update (must_finish now) (\<lambda>c. c\<lparr>status := FINISHED\<rparr>) cs)) =
    length (filter (\<lambda>c. must_finish now c \<or> must_start now c) cs)" for cs
    by (induction cs) (auto simp: qs_update_def must_finish_def must_start_def)
  then show ?thesis by (simp add: sync_campaign_statuses_def Let_def synced_fixed)
qed

text \<open>
  C29: synchronising the stored statuses lazily is as good as a scheduler. Every approved row
  gets the later of its stored status and the one its dates give at \<open>now\<close>, every other row and
  every other table stays as it is, the answer is the number of rows that changed; runs in
  between make no difference to a later run, and a second run at the same instant updates
  nothing.
\<close>

theorem sync_campaign_statuses_spec:
  assumes "\<forall>c \<in> set (campaigns s). start_date c < end_date c" and "t \<le> t'"
  shows "snd (sync_campaign_statuses s t) = s\<lparr>campaigns := map (\<lambda>c. c\<lparr>status :=
        (if approval_status c = CAMP_APPROVED
         then max (status c) (compute_campaign_status (start_date c) (end_date c) t) else status c)\<rparr>) (campaigns s)\<rparr> \<and>
    fst (sync_campaign_statuses s t) =
      length (filter (\<lambda>c. approval_status c = CAMP_APPROVED \<and>
        status c < compute_campaign_status (start_date c) (end_date c) t) (campaigns s)) \<and>
    snd (sync_campaign_statuses (snd (sync_campaign_statuses s t)) t') = snd (sync_campaign_statuses s t') \<and>
    fst (sync_campaign_statuses (snd (sync_campaign_statuses s t)) t) = 0"
proof -
  have row: "synced t c = c\<lparr>status := (if approval_status c = CAMP_APPROVED
         then max (status c) (compute_campaign_status (start_date c) (end_date c) t) else status c)\<rparr>"
    if "c \<in> set (campaigns s)" for c
  proof -
    have "synced t c = c\<lparr>status := status (synced t c)\<rparr>" by (simp add: synced_def)
    then show ?thesis using synced_status [of c t] assms(1) that by simp
  qed
  have same: "filter (\<lambda>c. synced t c \<noteq> c) (campaigns s) = filter (\<lambda>c. approval_status c = CAMP_APPROVED \<and>
        status c < compute_campaign_status (start_date c) (end_date c) t) (campaigns s)"
  proof (rule filter_cong [OF refl])
    fix c assume "c \<in> set (campaigns s)"
    then have "start_date c < end_date c" using assms(1) by blast
    then show "synced t c \<noteq> c \<longleftrightarrow> approval_status c = CAMP_APPROVED \<and>
        status c < compute_campaign_status (start_date c) (end_date c) t"
      unfolding synced_fixed
      by (cases "status c") (auto simp: must_finish_def must_start_def compute_campaign_status_def status_order)
  qed
  have "map (synced t) (campaigns s) = map (\<lambda>c. c\<lparr>status := (if approval_status c = CAMP_APPROVED
         then max (status c) (compute_campaign_status (start_date c) (end_date c) t) else status c)\<rparr>) (campaigns s)"
    using row by simp
  moreover have "snd (sync_campaign_statuses (snd (sync_campaign_statuses s t)) t') = snd (sync_campaign_statuses s t')"
    using assms(2) by (simp add: sync_rows synced_again)
  moreover have "fst (sync_campaign_statuses (snd (sync_campaign_statuses s t)) t) = 0"
    unfolding sync_count by (auto simp: sync_rows synced_again filter_empty_conv)
  ultimately show ?thesis by (simp only: sync_rows sync_count same simp_thms)
qed

text \<open>One campaign in promotion from instant 10 to instant 20, synchronised at 15 and at 25.\<close>

definition demo_campaign :: campaign where
  "demo_campaign = \<lparr>campaign_id = 5, title = ''Reto'', description = [], scope = GLOBAL_SCOPE,
     status = PROMOTION, creator = 1, target_clan = None, start_date = 10, end_date = 20,
     approval_status = CAMP_APPROVED, reviewed_by = None, reviewed_at = None, rejection_reason = [],
     campaign_created_at = 0\<rparr>"

definition demo_campaigns :: db where
  "demo_campaigns = empty_db\<lparr>campaigns := [demo_campaign]\<rparr>"

lemma demo_campaigns_window: "\<forall>c \<in> set (campaigns demo_campaigns). start_date c < end_date c"
  by (simp add: demo_campaigns_def demo_campaign_def)

lemma demo_campaigns_started:
  "map status (campaigns (snd (sync_campaign_statuses demo_campaigns 15))) = [IN_PROGRESS]"
  by code_simp

theorem sync_campaign_statuses_spec_witness:
  "map status (campaigns (snd (sync_campaign_statuses demo_campaigns 15))) = [IN_PROGRESS] \<and>
   snd (sync_campaign_statuses (snd (sync_campaign_statuses demo_campaigns 15)) 25) =
     snd (sync_campaign_statuses demo_campaigns 25) \<and>
   fst (sync_campaign_statuses (snd (sync_campaign_statuses demo_campaigns 15)) 15) = 0"
proof -
  have "(15::datetime) \<le> 25" by simp
  from sync_campaign_statuses_spec [OF demo_campaigns_window this] demo_campaigns_started show ?thesis by blast
qed

section \<open>Notifications of the campaigns app\<close>

lemma notify_all_ok:
  assumes "set (template_fields ty) \<subseteq> {''campaign_name''}" "ty \<noteq> SYSTEM"
  shows "\<exists>n s'. notify_all s now us ty c = Inr (n, s') \<and> only_notifications s s'"
proof -
  have "set (template_fields ty) \<subseteq> dom (map_of [(''campaign_name'', title c)])" using assms(1) by simp
  from notify_many_ok [OF this assms(2), of s now us] show ?thesis
    by (auto simp: notify_all_def dest: notify_many_only)
qed

interpretation invited: quiet_notifier "\<lambda>s. map_sum id snd (notify_campaign_invite s now c)" for now c
proof
  fix s show "\<exists>s'. map_sum id snd (notify_campaign_invite s now c) = Inr s' \<and> only_notifications s s'"
    using notify_all_ok [of CAMPAIGN_INVITE s now "campaign_invite_recipients s c" c]
    by (auto simp: notify_campaign_invite_def template_fields_def)
qed

interpretation begun: quiet_notifier "\<lambda>s. map_sum id snd (notify_campaign_started s now c)" for now c
proof
  fix s show "\<exists>s'. map_sum id snd (notify_campaign_started s now c) = Inr s' \<and> only_notifications s s'"
    using notify_all_ok [of CAMPAIGN_STARTED s now "campaign_participants s c" c]
    by (auto simp: notify_campaign_started_def template_fields_def)
qed

interpretation over: quiet_notifier "\<lambda>s. map_sum id snd (notify_campaign_finished s now c)" for now c
proof
  fix s show "\<exists>s'. map_sum id snd (notify_campaign_finished s now c) = Inr s' \<and> only_notifications s s'"
    using notify_all_ok [of CAMPAIGN_FINISHED s now "campaign_participants s c" c]
    by (auto simp: notify_campaign_finished_def template_fields_def)
qed

interpretation reviewed: quiet_notifier "\<lambda>s. notify_proposal_reviewed s now c r" for now c r
proof
  fix s show "\<exists>s'. notify_proposal_reviewed s now c r = Inr s' \<and> only_notifications s s'"
    using notify_ok [of CAMPAIGN_APPROVED "[(''campaign_name'', title c)]" s now "creator c"]
      notify_ok [of CAMPAIGN_REJECTED "[(''campaign_name'', title c), (''reason'', rejection_reason c)]" s now "creator c"]
    by (auto simp: notify_proposal_reviewed_def template_fields_def dest: notify_only)
qed

lemma notify_mission_completed_only:
  "notify_mission_completed s now u m = Inr (n, s') \<Longrightarrow> only_notifications s s'"
  by (auto simp: notify_mission_completed_def dest: notify_only elim!: res_bind_InrE)

lemma invite_Inr:
  obtains n s' where "notify_campaign_invite s now c = Inr (n, s')" "only_notifications s s'"
proof -
  obtain s' where "map_sum id snd (notify_campaign_invite s now c) = Inr s'" "only_notifications s s'"
    using invited.sends [where s = s and now = now and c = c] by blast
  with that show thesis by (cases "notify_campaign_invite s now c") auto
qed

lemma invite_if_open_ok: "\<exists>s'. invite_if_open s now c = Inr (c, s') \<and> only_notifications s s'"
  by (rule invite_Inr [of s now c]) (auto simp: invite_if_open_def)

lemma invite_if_open_only: "invite_if_open s now c = Inr (c', s') \<Longrightarrow> c' = c \<and> only_notifications s s'"
  using invite_if_open_ok [of s now c] by auto

section \<open>Progress of a mission\<close>

definition progress_of :: "db \<Rightarrow> uuid \<Rightarrow> uuid \<Rightarrow> mission_progress option" where
  "progress_of s u mid = find (\<lambda>p. progress_user p = u \<and> progress_mission p = mid) (mission_progresses s)"

definition approved_contributions :: "db \<Rightarrow> uuid \<Rightarrow> uuid \<Rightarrow> nat" where
  "approved_contributions s u mid = length (filter (counts_for s u mid) (contributions s))"

lemma counts_for_cong: "action_logs s' = action_logs s \<Longrightarrow> counts_for s' = counts_for s"
  by (intro ext) (simp add: counts_for_def)

lemma approved_contributions_cong:
  "action_logs s' = action_logs s \<Longrightarrow> contributions s' = contributions s \<Longrightarrow>
   approved_contributions s' u mid = approved_contributions s u mid"
  using counts_for_cong [of s' s] by (simp add: approved_contributions_def)

text \<open>One row per user and mission (\<open>user_mission_progress_unique\<close>).\<close>

definition progress_rows_ok :: "db \<Rightarrow> bool" where
  "progress_rows_ok s \<longleftrightarrow> table_ok progress_id (next_id s) (mission_progresses s) \<and>
     distinct (map (\<lambda>p. (progress_user p, progress_mission p)) (mission_progresses s))"

lemma find_unique:
  "distinct (map g xs) \<Longrightarrow> x \<in> set xs \<Longrightarrow> g x = k \<Longrightarrow> find (\<lambda>y. g y = k) xs = Some x"
  by (induction xs) (auto simp: image_iff)

lemma find_snoc_other: "\<not> P x \<Longrightarrow> find P (xs @ [x]) = find P xs"
  by (induction xs) auto

lemma progress_of_eq:
  assumes "progress_rows_ok s" "p \<in> set (mission_progresses s)"
  shows "progress_of s (progress_user p) (progress_mission p) = Some p"
  using find_unique [of "\<lambda>p. (progress_user p, progress_mission p)" "mission_progresses s" p] assms
  by (simp add: progress_of_def progress_rows_ok_def)

lemma progress_of_SomeD:
  "progress_of s u mid = Some p \<Longrightarrow> p \<in> set (mission_progresses s) \<and> progress_user p = u \<and> progress_mission p = mid"
  by (auto simp: progress_of_def find_Some_iff in_set_conv_nth)

lemma progress_of_None:
  "progress_of s u mid = None \<longleftrightarrow> (\<forall>p \<in> set (mission_progresses s). \<not> (progress_user p = u \<and> progress_mission p = mid))"
  by (auto simp: progress_of_def find_None_iff)

lemma progress_of_cong: "mission_progresses s' = mission_progresses s \<Longrightarrow> progress_of s' u mid = progress_of s u mid"
  by (simp add: progress_of_def)

lemma get_or_create_progress_eq:
  assumes "progress_rows_ok s"
  shows "get_or_create_progress s u mid =
    (case progress_of s u mid of
       Some p \<Rightarrow> Inr (p, s)
     | None \<Rightarrow> (let p = \<lparr>progress_id = next_id s, progress_user = u, progress_mission = mid,
                          current_count = 0, is_completed = False\<rparr>
               in Inr (p, s\<lparr>mission_progresses := mission_progresses s @ [p], next_id := Suc (next_id s)\<rparr>)))"
proof (cases "progress_of s u mid")
  case None
  then have "qs_get (\<lambda>p. progress_user p = u \<and> progress_mission p = mid) (mission_progresses s) = Inl DoesNotExist"
    by (auto simp: qs_get_DoesNotExist progress_of_None)
  with None show ?thesis by (simp add: get_or_create_progress_def)
next
  case (Some p)
  note p = progress_of_SomeD [OF Some]
  have d: "distinct (mission_progresses s)" using assms by (auto simp: progress_rows_ok_def distinct_map)
  have "qs_get (\<lambda>p. progress_user p = u \<and> progress_mission p = mid) (mission_progresses s) = Inr p"
    using p progress_of_eq [OF assms] Some by (intro qs_get_eqI [OF d]) (simp_all, metis option.inject)
  with Some show ?thesis by (simp add: get_or_create_progress_def)
qed

text \<open>What the mission bookkeeping may touch.\<close>

definition only_progress :: "db \<Rightarrow> db \<Rightarrow> bool" where
  "only_progress s s' \<longleftrightarrow>
     s' = s\<lparr>contributions := contributions s', mission_progresses := mission_progresses s',
            notifications := notifications s', next_id := next_id s', pushed := pushed s'\<rparr> \<and>
     next_id s \<le> next_id s'"

lemma only_progressE:
  assumes "only_progress s s'"
  obtains ks ps ns n es where "next_id s \<le> n"
    "s' = s\<lparr>contributions := ks, mission_progresses := ps, notifications := ns, next_id := n, pushed := es\<rparr>"
  using assms by (metis only_progress_def)

lemma only_progress_frame [frame]:
  assumes "only_progress s s'"
  shows "users s' = users s" "profiles s' = profiles s" "clans s' = clans s"
    "memberships s' = memberships s" "actions s' = actions s" "action_logs s' = action_logs s"
    "items s' = items s" "campaigns s' = campaigns s" "missions s' = missions s"
    "participants s' = participants s" "badges s' = badges s" "user_badges s' = user_badges s"
    "posts s' = posts s" "media s' = media s" "invitations s' = invitations s" "categories s' = categories s"
    "tokens s' = tokens s" "role_audits s' = role_audits s" "next_id s \<le> next_id s'"
  using assms by (elim only_progressE; simp)+

lemma only_progress_refl [simp]: "only_progress s s"
  by (simp add: only_progress_def)

lemma only_progressI:
  "next_id s \<le> n \<Longrightarrow>
   only_progress s (s\<lparr>contributions := ks, mission_progresses := ps, notifications := ns, next_id := n, pushed := es\<rparr>)"
  by (simp add: only_progress_def)

lemma only_progress_trans: "only_progress s t \<Longrightarrow> only_progress t u \<Longrightarrow> only_progress s u"
  by (elim only_progressE) (simp add: only_progress_def)

lemma only_notifications_progress: "only_notifications s s' \<Longrightarrow> only_progress s s' \<and> mission_progresses s' = mission_progresses s \<and> contributions s' = contributions s"
proof -
  assume "only_notifications s s'"
  then obtain ns n es where "s' = s\<lparr>notifications := ns, next_id := n, pushed := es\<rparr>" "next_id s \<le> n"
    by (metis only_notifications_def)
  then show ?thesis by (simp add: only_progress_def)
qed

lemma get_or_create_progress_InrD:
  assumes "progress_rows_ok s" "get_or_create_progress s u mid = Inr (p, s1)"
  shows "progress_rows_ok s1" "progress_of s1 u mid = Some p" "only_progress s s1" "contributions s1 = contributions s"
    "notifications s1 = notifications s"
    "(u', mid') \<noteq> (u, mid) \<Longrightarrow> progress_of s1 u' mid' = progress_of s u' mid'"
    "is_completed p = (case progress_of s u mid of None \<Rightarrow> False | Some q \<Rightarrow> is_completed q)"
proof -
  have "progress_rows_ok s1 \<and> progress_of s1 u mid = Some p \<and> only_progress s s1 \<and> contributions s1 = contributions s \<and>
    notifications s1 = notifications s \<and>
    ((u', mid') \<noteq> (u, mid) \<longrightarrow> progress_of s1 u' mid' = progress_of s u' mid') \<and>
    is_completed p = (case progress_of s u mid of None \<Rightarrow> False | Some q \<Rightarrow> is_completed q)"
  proof (cases "progress_of s u mid")
    case (Some q)
    with assms show ?thesis by (simp add: get_or_create_progress_eq)
  next
    case None
    let ?p = "\<lparr>progress_id = next_id s, progress_user = u, progress_mission = mid, current_count = 0, is_completed = False\<rparr>"
    have s1: "p = ?p" "s1 = s\<lparr>mission_progresses := mission_progresses s @ [?p], next_id := Suc (next_id s)\<rparr>"
      using None assms(2) by (auto simp: get_or_create_progress_eq [OF assms(1)] Let_def)
    have new: "(u, mid) \<notin> set (map (\<lambda>p. (progress_user p, progress_mission p)) (mission_progresses s))"
      using None by (auto simp: progress_of_None)
    have rows: "progress_rows_ok s1"
      using assms(1) new by (simp add: s1(2) progress_rows_ok_def table_ok_snoc)
    have "progress_of s1 (progress_user ?p) (progress_mission ?p) = Some ?p"
      by (rule progress_of_eq [OF rows]) (simp add: s1(2))
    moreover have "progress_of s1 u' mid' = progress_of s u' mid'" if "(u', mid') \<noteq> (u, mid)"
      using that by (auto simp: s1(2) progress_of_def find_snoc_other)
    ultimately show ?thesis using None rows s1 by (simp add: only_progress_def)
  qed
  then show "progress_rows_ok s1" "progress_of s1 u mid = Some p" "only_progress s s1" "contributions s1 = contributions s"
    "notifications s1 = notifications s"
    "(u', mid') \<noteq> (u, mid) \<Longrightarrow> progress_of s1 u' mid' = progress_of s u' mid'"
    "is_completed p = (case progress_of s u mid of None \<Rightarrow> False | Some q \<Rightarrow> is_completed q)"
    by blast+
qed

lemma progress_save:
  assumes "progress_rows_ok s" "progress_of s u mid = Some p"
    "s' = s\<lparr>mission_progresses := qs_update (\<lambda>x. progress_id x = progress_id p)
       (\<lambda>x. x\<lparr>current_count := n, is_completed := b\<rparr>) (mission_progresses s)\<rparr>"
  shows "progress_rows_ok s'" "progress_of s' u mid = Some (p\<lparr>current_count := n, is_completed := b\<rparr>)"
    "(u', mid') \<noteq> (u, mid) \<Longrightarrow> progress_of s' u' mid' = progress_of s u' mid'"
proof -
  let ?f = "\<lambda>x :: mission_progress. x\<lparr>current_count := n, is_completed := b\<rparr>"
  note p = progress_of_SomeD [OF assms(2)]
  show ok: "progress_rows_ok s'" using assms(1) by (simp add: assms(3) progress_rows_ok_def table_ok_update)
  have "?f p \<in> set (mission_progresses s')"
    using in_qs_updateI [of p "mission_progresses s" "\<lambda>x. progress_id x = progress_id p" ?f] p by (simp add: assms(3))
  from progress_of_eq [OF ok this] p show "progress_of s' u mid = Some (?f p)" by simp
  show "progress_of s' u' mid' = progress_of s u' mid'" if ne: "(u', mid') \<noteq> (u, mid)"
  proof (cases "progress_of s u' mid'")
    case None
    then have "progress_of s' u' mid' = None" by (simp add: progress_of_None assms(3) ball_qs_update)
    with None show ?thesis by simp
  next
    case (Some q)
    note q = progress_of_SomeD [OF Some]
    have "progress_id q \<noteq> progress_id p"
      using p q ne assms(1) inj_on_pk [of progress_id "mission_progresses s" q p]
      by (auto simp: progress_rows_ok_def table_ok_def)
    with q have "q \<in> set (mission_progresses s')"
      using in_qs_updateI [of q "mission_progresses s" "\<lambda>x. progress_id x = progress_id p" ?f] by (simp add: assms(3))
    from progress_of_eq [OF ok this] q Some show ?thesis by simp
  qed
qed

lemma unchanged_save:
  assumes "progress_rows_ok s" "progress_of s u mid = Some p" "current_count p = n" "is_completed p = b"
  shows "qs_update (\<lambda>x. progress_id x = progress_id p) (\<lambda>x. x\<lparr>current_count := n, is_completed := b\<rparr>) (mission_progresses s) =
    mission_progresses s"
proof -
  have "x = p" if "x \<in> set (mission_progresses s)" "progress_id x = progress_id p" for x
    using that progress_of_SomeD [OF assms(2)] assms(1) inj_on_pk [of progress_id "mission_progresses s" x p]
    by (auto simp: progress_rows_ok_def table_ok_def)
  moreover have "p\<lparr>current_count := n, is_completed := b\<rparr> = p" using assms(3,4) by simp
  ultimately have "x\<lparr>current_count := n, is_completed := b\<rparr> = x"
    if "x \<in> set (mission_progresses s)" "progress_id x = progress_id p" for x using that by metis
  then show ?thesis by (auto simp: qs_update_def intro!: map_idI)
qed

text \<open>The row a recalculation ends with.\<close>

definition progress_target :: "db \<Rightarrow> uuid \<Rightarrow> mission \<Rightarrow> mission_progress \<Rightarrow> mission_progress" where
  "progress_target s u m p =
     p\<lparr>current_count := min (approved_contributions s u (mission_id m)) (target_count m),
       is_completed := target_count m \<le> approved_contributions s u (mission_id m)\<rparr>"

lemma recalculate_InrE:
  assumes "progress_rows_ok s" "recalculate_mission_progress s now u m = Inr (p', s')"
  obtains p s1 s2 where "get_or_create_progress s u (mission_id m) = Inr (p, s1)"
    "s2 = s1\<lparr>mission_progresses := qs_update (\<lambda>x. progress_id x = progress_id p)
       (\<lambda>x. x\<lparr>current_count := current_count p', is_completed := is_completed p'\<rparr>) (mission_progresses s1)\<rparr>"
    "p' = progress_target s u m p"
    "if is_completed p' \<and> \<not> is_completed p then \<exists>n. notify_mission_completed s2 now u m = Inr (n, s') else s' = s2"
proof -
  from assms(2) obtain p s1 where g: "get_or_create_progress s u (mission_id m) = Inr (p, s1)"
    by (auto simp: recalculate_mission_progress_def elim!: res_bind_InrE)
  note d = get_or_create_progress_InrD [OF assms(1) g]
  have v: "length (filter (counts_for s1 u (mission_id m)) (contributions s1)) = approved_contributions s u (mission_id m)"
    using only_progress_frame(6) [OF d(3)] d(4) counts_for_cong [of s1 s] by (simp add: approved_contributions_def)
  define q where "q = progress_target s u m p"
  define s2 where "s2 = s1\<lparr>mission_progresses := qs_update (\<lambda>x. progress_id x = progress_id p)
       (\<lambda>x. x\<lparr>current_count := current_count q, is_completed := is_completed q\<rparr>) (mission_progresses s1)\<rparr>"
  have q: "current_count q = min (approved_contributions s u (mission_id m)) (target_count m)"
    "(target_count m \<le> current_count q) = is_completed q"
    by (auto simp: q_def progress_target_def)
  have s2: "(if current_count p \<noteq> current_count q \<or> is_completed p \<noteq> is_completed q then s2 else s1) = s2"
    using unchanged_save [OF d(1,2), of "current_count q" "is_completed q"] by (auto simp: s2_def)
  have q': "p\<lparr>current_count := current_count q, is_completed := is_completed q\<rparr> = q"
    by (simp add: q_def progress_target_def)
  have "(if is_completed q \<and> \<not> is_completed p
     then res_bind (notify_mission_completed s2 now u m) (\<lambda>(_, s3). Inr (q, s3)) else Inr (q, s2)) = Inr (p', s')"
    using assms(2) unfolding recalculate_mission_progress_def g res_bind_simps Let_def prod.case v
    by (simp only: q(1) [symmetric] q(2) s2_def [symmetric] s2 q')
  then have "p' = q" and "if is_completed q \<and> \<not> is_completed p then \<exists>n. notify_mission_completed s2 now u m = Inr (n, s') else s' = s2"
    by (auto elim!: res_bind_InrE split: if_splits)
  then show thesis by (intro that [OF g, of s2]) (simp_all add: q_def s2_def)
qed

lemma notified_count: "notify s now u ty ctx = Inr (n, s') \<Longrightarrow> length (notifications s') = Suc (length (notifications s))"
  by (auto simp: notify_def Let_def split: sum.splits if_splits)

lemma recalculate_InrD:
  assumes "progress_rows_ok s" "recalculate_mission_progress s now u m = Inr (p, s')"
  shows "progress_rows_ok s'" "progress_of s' u (mission_id m) = Some p" "only_progress s s'" "contributions s' = contributions s"
    "current_count p = min (approved_contributions s u (mission_id m)) (target_count m)"
    "is_completed p \<longleftrightarrow> target_count m \<le> approved_contributions s u (mission_id m)"
    "(u', mid') \<noteq> (u, mission_id m) \<Longrightarrow> progress_of s' u' mid' = progress_of s u' mid'"
    "length (notifications s') = length (notifications s) +
       (if is_completed p \<and> \<not> (\<exists>q. progress_of s u (mission_id m) = Some q \<and> is_completed q) then 1 else 0)"
  using assms
proof -
  from recalculate_InrE [OF assms] obtain p0 s1 s2 where g: "get_or_create_progress s u (mission_id m) = Inr (p0, s1)"
    and s2: "s2 = s1\<lparr>mission_progresses := qs_update (\<lambda>x. progress_id x = progress_id p0)
       (\<lambda>x. x\<lparr>current_count := current_count p, is_completed := is_completed p\<rparr>) (mission_progresses s1)\<rparr>"
    and p: "p = progress_target s u m p0"
    and n: "if is_completed p \<and> \<not> is_completed p0 then \<exists>n. notify_mission_completed s2 now u m = Inr (n, s') else s' = s2"
    by blast
  note d = get_or_create_progress_InrD [OF assms(1) g]
  note sv = progress_save [OF d(1,2) s2]
  have o: "only_notifications s2 s'" using n by (auto dest: notify_mission_completed_only split: if_splits)
  note fr = only_notifications_progress [OF o]
  have same: "progress_of s' u' mid' = progress_of s2 u' mid'" for u' mid' using fr by (simp add: progress_of_def)
  have next_ok: "next_id s2 \<le> next_id s'" using o by (simp add: only_notifications_def)
  show "progress_rows_ok s'" using sv(1) fr next_ok by (auto simp: progress_rows_ok_def intro: table_ok_mono)
  show "current_count p = min (approved_contributions s u (mission_id m)) (target_count m)"
    "is_completed p \<longleftrightarrow> target_count m \<le> approved_contributions s u (mission_id m)"
    by (simp_all add: p progress_target_def)
  have "p0\<lparr>current_count := current_count p, is_completed := is_completed p\<rparr> = p" by (simp add: p progress_target_def)
  then show "progress_of s' u (mission_id m) = Some p" using sv(2) same by simp
  show "only_progress s s'"
  proof (rule only_progress_trans [OF d(3) only_progress_trans])
    show "only_progress s1 s2" by (simp add: s2 only_progress_def)
    show "only_progress s2 s'" using fr by simp
  qed
  show "contributions s' = contributions s" using fr d(4) by (simp add: s2)
  show "progress_of s' u' mid' = progress_of s u' mid'" if "(u', mid') \<noteq> (u, mission_id m)"
    using sv(3) [OF that] d(6) [OF that] same by simp
  have "notifications s2 = notifications s" using d(5) by (simp add: s2)
  then show "length (notifications s') = length (notifications s) +
       (if is_completed p \<and> \<not> (\<exists>q. progress_of s u (mission_id m) = Some q \<and> is_completed q) then 1 else 0)"
    using n d(7) by (auto simp: notify_mission_completed_def dest: notified_count elim!: res_bind_InrE split: if_splits option.splits)
qed

section \<open>Crediting and reverting a log\<close>

lemma contribution_get_or_create_only: "only_progress s (contribution_get_or_create s now lid mid)"
  by (simp add: contribution_get_or_create_def only_progress_def)

lemma contribution_progress [simp]:
  "mission_progresses (contribution_get_or_create s now lid mid) = mission_progresses s"
  by (simp add: contribution_get_or_create_def)

lemma progress_rows_ok_mono:
  "progress_rows_ok s \<Longrightarrow> mission_progresses s' = mission_progresses s \<Longrightarrow> next_id s \<le> next_id s' \<Longrightarrow> progress_rows_ok s'"
  by (auto simp: progress_rows_ok_def intro: table_ok_mono)

lemma credit_mission_only:
  assumes "progress_rows_ok s" "credit_mission now l m s = Inr (p, s')"
  shows "progress_rows_ok s' \<and> only_progress s s'"
proof -
  let ?s1 = "contribution_get_or_create s now (log_id l) (mission_id m)"
  have ok: "progress_rows_ok ?s1"
    using assms(1) only_progress_frame(19) [OF contribution_get_or_create_only, of s now "log_id l" "mission_id m"]
    by (auto intro: progress_rows_ok_mono)
  have "recalculate_mission_progress ?s1 now (log_user l) m = Inr (p, s')" using assms(2) by (simp add: credit_mission_def)
  note r = recalculate_InrD [OF ok this]
  show ?thesis using r(1,3) only_progress_trans [OF contribution_get_or_create_only] by blast
qed

lemma apply_only:
  assumes "progress_rows_ok s" "apply_action_log_to_missions s now l = Inr (ps, s')"
  shows "progress_rows_ok s' \<and> only_progress s s'"
proof (cases "log_status l = LOG_REJECTED")
  case False
  then have "for_each (credit_mission now l) (filter (eligible_mission s l) (missions s)) s = Inr (ps, s')"
    using assms(2) by (simp add: apply_action_log_to_missions_def)
  then show ?thesis
    by (rule for_each_inv [where P = "\<lambda>t. progress_rows_ok t \<and> only_progress s t"])
      (use assms(1) in \<open>auto dest: credit_mission_only intro: only_progress_trans\<close>)
qed (use assms in \<open>simp add: apply_action_log_to_missions_def\<close>)

lemma revert_only:
  assumes "progress_rows_ok s" "revert_action_log_from_missions s now l = Inr (ps, s')"
  shows "progress_rows_ok s' \<and> only_progress s s' \<and> contributions s' = contributions s"
  using assms(2) unfolding revert_action_log_from_missions_def
proof (rule for_each_inv [where P = "\<lambda>t. progress_rows_ok t \<and> only_progress s t \<and> contributions t = contributions s"])
  fix k t p t'
  assume t: "progress_rows_ok t \<and> only_progress s t \<and> contributions t = contributions s" and "revert_contribution now l k t = Inr (p, t')"
  then obtain m where r: "recalculate_mission_progress t now (log_user l) m = Inr (p, t')"
    by (auto simp: revert_contribution_def elim!: res_bind_InrE)
  show "progress_rows_ok t' \<and> only_progress s t' \<and> contributions t' = contributions s"
    using recalculate_InrD(1,3,4) [OF _ r] t by (auto intro: only_progress_trans)
qed (use assms(1) in simp)

text \<open>
  A row is settled when it shows what the approved contributions give; a recalculation settles
  its row and leaves every other row as it was, and the row it leaves needs no second one.
\<close>

definition settled :: "db \<Rightarrow> uuid \<Rightarrow> mission \<Rightarrow> bool" where
  "settled s u m \<longleftrightarrow>
     (case progress_of s u (mission_id m) of
        None \<Rightarrow> False
      | Some p \<Rightarrow> current_count p = min (approved_contributions s u (mission_id m)) (target_count m) \<and>
                  (is_completed p \<longleftrightarrow> target_count m \<le> approved_contributions s u (mission_id m)))"

lemma recalculate_settled:
  assumes "progress_rows_ok s" "settled s u m"
  shows "\<exists>p. progress_of s u (mission_id m) = Some p \<and> recalculate_mission_progress s now u m = Inr (p, s)"
proof -
  obtain p where p: "progress_of s u (mission_id m) = Some p"
    "current_count p = min (approved_contributions s u (mission_id m)) (target_count m)"
    "is_completed p = (target_count m \<le> approved_contributions s u (mission_id m))"
    using assms(2) by (auto simp: settled_def split: option.splits)
  have "(target_count m \<le> min (approved_contributions s u (mission_id m)) (target_count m)) = is_completed p"
    using p(3) by auto
  then have "recalculate_mission_progress s now u m = Inr (p, s)"
    using p get_or_create_progress_eq [OF assms(1), of u "mission_id m"]
    by (simp add: recalculate_mission_progress_def Let_def approved_contributions_def [symmetric])
  with p(1) show ?thesis by blast
qed


text \<open>A user with one approved contribution to a mission that asks for one.\<close>

definition demo_mission :: mission where
  "demo_mission = \<lparr>mission_id = 6, mission_campaign = 5, mission_action = 7, target_count = 1\<rparr>"

definition demo_action :: action_master where
  "demo_action = \<lparr>action_id = 7, action_code = ''BICI'', action_category_id = 8, action_name = ''Ir en bici'',
     action_description = [], points = 10, daily_limit = 2, validation_type = NO_VALIDATION,
     co2_kg_factor = 500, water_liters_factor = 0, plastic_kg_factor = 0, action_is_active = True\<rparr>"

definition demo_log :: action_log where
  "demo_log = \<lparr>log_id = 9, log_user = 1, log_action = 7, log_institutional_clan = 2, credited_private_clan = None,
     log_campaign = None, idempotency_key = ''k'', points_awarded = 10, co2_kg_factor_snapshot = 500,
     water_liters_factor_snapshot = 0, plastic_kg_factor_snapshot = 0, log_status = LOG_APPROVED,
     evidence_object_key = [], is_shared_publicly = False, log_reviewed_by = None, log_reviewed_at = None,
     log_rejection_reason = [], log_created_at = 12\<rparr>"

definition demo_missions :: db where
  "demo_missions = empty_db\<lparr>campaigns := [demo_campaign], missions := [demo_mission], actions := [demo_action],
     action_logs := [demo_log], next_id := 20,
     contributions := [\<lparr>contribution_id = 10, contribution_log = 9, contribution_mission = 6, contribution_created_at = 12\<rparr>]\<rparr>"

lemma demo_missions_ok: "progress_rows_ok demo_missions"
  by (simp add: progress_rows_ok_def demo_missions_def empty_db_def)

lemma demo_missions_run:
  "case recalculate_mission_progress demo_missions 13 1 demo_mission of Inl _ \<Rightarrow> False | Inr _ \<Rightarrow> True"
  by code_simp

lemma demo_missions_count: "approved_contributions demo_missions 1 (mission_id demo_mission) = 1"
  by code_simp


end
