(* ===== verification/Gamification.thy ===== *)
theory Gamification
  imports Accounts "HOL-Library.Multiset"
begin

text \<open>
  The gamification app: badges awarded from the total of points
  (\<open>gamification/services.py\<close>) and the rankings of people and clans
  (\<open>gamification/selectors.py\<close>, \<open>gamification/views.py\<close>). A window function is evaluated over
  the rows of its query; sorting is stable, so the last sort key is applied first.
\<close>

section \<open>Badges\<close>

definition earned_badges :: "db \<Rightarrow> uuid \<Rightarrow> uuid list" where
  "earned_badges s u = map earned_badge (filter (\<lambda>b. badge_owner b = u) (user_badges s))"

text \<open>\<open>Badge.Meta.ordering\<close>: by points required, then by name.\<close>

definition eligible_badges :: "db \<Rightarrow> uuid \<Rightarrow> int \<Rightarrow> badge list" where
  "eligible_badges s u held =
     sort_key points_required (sort_key badge_name
       (filter (\<lambda>b. badge_is_active b \<and> points_required b \<le> held \<and> badge_id b \<notin> set (earned_badges s u)) (badges s)))"

text \<open>\<open>UserBadge.objects.get_or_create\<close> and the notification when the row is new.\<close>

definition award_badge :: "datetime \<Rightarrow> uuid \<Rightarrow> badge \<Rightarrow> db \<Rightarrow> (unit \<times> db) res" where
  "award_badge now u b s =
     (if list_ex (\<lambda>x. badge_owner x = u \<and> earned_badge x = badge_id b) (user_badges s) then Inr ((), s)
      else let s1 = s\<lparr>user_badges := user_badges s @ [\<lparr>user_badge_id = next_id s, badge_owner = u,
                         earned_badge = badge_id b, earned_at = now\<rparr>], next_id := Suc (next_id s)\<rparr>
           in res_bind (notify s1 now u BADGE_EARNED [(''badge_name'', badge_name b)]) (\<lambda>(_, s2). Inr ((), s2)))"

definition check_and_award_badges :: "db \<Rightarrow> datetime \<Rightarrow> uuid \<Rightarrow> db res" where
  "check_and_award_badges s now u =
     (case profile_of s u of
        None \<Rightarrow> Inl DoesNotExist
      | Some p \<Rightarrow>
          (let eligible = eligible_badges s u (total_points p)
           in if eligible = [] then Inr s
              else res_bind (for_each (award_badge now u) eligible s) (\<lambda>(_, s1). Inr s1)))"

definition list_badges_with_user_status :: "db \<Rightarrow> uuid \<Rightarrow> (badge \<times> bool \<times> datetime option) list" where
  "list_badges_with_user_status s u =
     map (\<lambda>b. let mine = filter (\<lambda>x. earned_badge x = badge_id b \<and> badge_owner x = u) (user_badges s)
              in (b, mine \<noteq> [], (case sort_key (\<lambda>x. - earned_at x) mine of [] \<Rightarrow> None | x # _ \<Rightarrow> Some (earned_at x))))
       (sort_key points_required (sort_key badge_name (filter badge_is_active (badges s))))"

section \<open>Rankings\<close>

text \<open>\<open>Window(Rank(), order_by=F("total_points").desc())\<close>.\<close>

definition with_rank :: "('r \<Rightarrow> int) \<Rightarrow> 'r list \<Rightarrow> ('r \<times> nat) list" where
  "with_rank pts rows = map (\<lambda>r. (r, Suc (length (filter (\<lambda>x. pts x > pts r) rows)))) rows"

definition ranked :: "('r \<Rightarrow> int) \<Rightarrow> ('r \<Rightarrow> uuid) \<Rightarrow> 'r list \<Rightarrow> ('r \<times> nat) list" where
  "ranked pts pk rows = sort_key (\<lambda>(r, _). - pts r) (sort_key (\<lambda>(r, _). pk r) (with_rank pts rows))"

definition in_ranking :: "db \<Rightarrow> profile \<Rightarrow> bool" where
  "in_ranking s p \<longleftrightarrow> profile_visibility p = PUBLIC_PROFILE \<and>
     list_ex (\<lambda>x. user_id x = profile_user p \<and> is_active x) (users s)"

definition list_user_points_ranking :: "db \<Rightarrow> (profile \<times> nat) list" where
  "list_user_points_ranking s = ranked total_points profile_user (filter (in_ranking s) (profiles s))"

definition list_clan_points_ranking :: "db \<Rightarrow> clan_kind \<Rightarrow> (clan \<times> nat) list" where
  "list_clan_points_ranking s kind =
     ranked clan_total_points clan_id (filter (\<lambda>c. clan_alive c \<and> clan_type c = kind) (clans s))"

definition CLAN_RANKING_TYPES :: "string \<Rightarrow> clan_kind option" where
  "CLAN_RANKING_TYPES v =
     (if v = ''INSTITUTIONAL'' then Some INSTITUTIONAL
      else if v = ''PRIVATE_CLAN'' then Some PRIVATE_CLAN else None)"

definition clan_ranking_view :: "db \<Rightarrow> string option \<Rightarrow> ((clan \<times> nat) list) res" where
  "clan_ranking_view s param =
     (case CLAN_RANKING_TYPES (case param of None \<Rightarrow> [] | Some v \<Rightarrow> v) of
        None \<Rightarrow> Inl (ValidationError ''type'' ''Must be INSTITUTIONAL or PRIVATE_CLAN.'')
      | Some kind \<Rightarrow> Inr (list_clan_points_ranking s kind))"

section \<open>What awarding badges does\<close>

definition only_badges :: "db \<Rightarrow> db \<Rightarrow> bool" where
  "only_badges s s' \<longleftrightarrow>
     s' = s\<lparr>user_badges := user_badges s', notifications := notifications s', next_id := next_id s', pushed := pushed s'\<rparr> \<and>
     next_id s \<le> next_id s'"

lemma only_badgesE:
  assumes "only_badges s s'"
  obtains bs ns n es where "s' = s\<lparr>user_badges := bs, notifications := ns, next_id := n, pushed := es\<rparr>" "next_id s \<le> n"
  using assms by (metis only_badges_def)

lemma only_badges_frame [frame]:
  assumes "only_badges s s'"
  shows "users s' = users s" "profiles s' = profiles s" "clans s' = clans s" "memberships s' = memberships s"
    "action_logs s' = action_logs s" "contributions s' = contributions s" "campaigns s' = campaigns s"
    "missions s' = missions s" "participants s' = participants s" "mission_progresses s' = mission_progresses s"
    "badges s' = badges s" "actions s' = actions s" "items s' = items s" "media s' = media s" "posts s' = posts s"
    "next_id s \<le> next_id s'"
  using assms by (elim only_badgesE; simp)+

lemma only_badges_refl [simp]: "only_badges s s"
  by (simp add: only_badges_def)

lemma only_badges_trans: "only_badges s t \<Longrightarrow> only_badges t u \<Longrightarrow> only_badges s u"
  by (elim only_badgesE) (simp add: only_badges_def)

lemma only_notifications_badges: "only_notifications s s' \<Longrightarrow> only_badges s s' \<and> user_badges s' = user_badges s"
proof -
  assume "only_notifications s s'"
  then obtain ns n es where "s' = s\<lparr>notifications := ns, next_id := n, pushed := es\<rparr>" "next_id s \<le> n"
    by (metis only_notifications_def)
  then show ?thesis by (simp add: only_badges_def)
qed

lemma earned_iff:
  "list_ex (\<lambda>x. badge_owner x = u \<and> earned_badge x = k) (user_badges s) \<longleftrightarrow> k \<in> set (earned_badges s u)"
  by (auto simp: earned_badges_def list_ex_iff image_iff)

lemma award_badge_new:
  assumes "badge_id b \<notin> set (earned_badges s u)"
  shows "\<exists>s'. award_badge now u b s = Inr ((), s') \<and> only_badges s s' \<and>
    length (notifications s') = Suc (length (notifications s)) \<and>
    user_badges s' = user_badges s @ [\<lparr>user_badge_id = next_id s, badge_owner = u, earned_badge = badge_id b, earned_at = now\<rparr>]"
proof -
  let ?s1 = "s\<lparr>user_badges := user_badges s @ [\<lparr>user_badge_id = next_id s, badge_owner = u,
                         earned_badge = badge_id b, earned_at = now\<rparr>], next_id := Suc (next_id s)\<rparr>"
  have no: "\<not> list_ex (\<lambda>x. badge_owner x = u \<and> earned_badge x = badge_id b) (user_badges s)"
    using assms by (simp add: earned_iff)
  obtain n s' where n: "notify ?s1 now u BADGE_EARNED [(''badge_name'', badge_name b)] = Inr (n, s')"
    using notify_ok [of BADGE_EARNED "[(''badge_name'', badge_name b)]" ?s1 now u] by (auto simp: template_fields_def)
  note o = only_notifications_badges [OF notify_only [OF n]]
  have "only_badges s ?s1" by (simp add: only_badges_def)
  with o have "only_badges s s'" by (blast intro: only_badges_trans)
  moreover have "length (notifications s') = Suc (length (notifications s))"
    using n by (auto simp: notify_def Let_def split: sum.splits if_splits)
  ultimately show ?thesis using no n o by (simp add: award_badge_def Let_def)
qed

lemma for_each_award:
  assumes "distinct (map badge_id bs)" "\<forall>b \<in> set bs. badge_id b \<notin> set (earned_badges s u)"
  shows "\<exists>us s'. for_each (award_badge now u) bs s = Inr (us, s') \<and> only_badges s s' \<and>
    length (notifications s') = length (notifications s) + length bs \<and>
    earned_badges s' u = earned_badges s u @ map badge_id bs \<and>
    (\<forall>v. v \<noteq> u \<longrightarrow> earned_badges s' v = earned_badges s v)"
  using assms
proof (induction bs arbitrary: s)
  case (Cons b bs)
  obtain s1 where a: "award_badge now u b s = Inr ((), s1)" "only_badges s s1"
    "length (notifications s1) = Suc (length (notifications s))"
    "user_badges s1 = user_badges s @ [\<lparr>user_badge_id = next_id s, badge_owner = u, earned_badge = badge_id b, earned_at = now\<rparr>]"
    using award_badge_new [of b s u now] Cons.prems(2) by auto
  have e: "earned_badges s1 u = earned_badges s u @ [badge_id b]" "\<And>v. v \<noteq> u \<Longrightarrow> earned_badges s1 v = earned_badges s v"
    by (simp_all add: earned_badges_def a(4))
  have "\<forall>x \<in> set bs. badge_id x \<notin> set (earned_badges s1 u)" using Cons.prems e(1) by (auto simp: image_iff)
  then obtain us s' where r: "for_each (award_badge now u) bs s1 = Inr (us, s')" "only_badges s1 s'"
    "length (notifications s') = length (notifications s1) + length bs"
    "earned_badges s' u = earned_badges s1 u @ map badge_id bs" "\<forall>v. v \<noteq> u \<longrightarrow> earned_badges s' v = earned_badges s1 v"
    using Cons.IH [of s1] Cons.prems(1) by auto
  then show ?case using a e only_badges_trans [OF a(2) r(2)] by auto
qed simp

lemma set_eligible:
  "set (eligible_badges s u held) =
   {b \<in> set (badges s). badge_is_active b \<and> points_required b \<le> held \<and> badge_id b \<notin> set (earned_badges s u)}"
  by (simp add: eligible_badges_def)

lemma distinct_eligible: "distinct (map badge_id (badges s)) \<Longrightarrow> distinct (map badge_id (eligible_badges s u held))"
  by (simp add: eligible_badges_def distinct_map inj_on_def)

lemma check_and_award_run:
  assumes "distinct (map badge_id (badges s))" "profile_of s u = Some p"
  obtains s' where "check_and_award_badges s now u = Inr s'" "only_badges s s'"
    "length (notifications s') = length (notifications s) + length (eligible_badges s u (total_points p))"
    "earned_badges s' u = earned_badges s u @ map badge_id (eligible_badges s u (total_points p))"
    "\<forall>v. v \<noteq> u \<longrightarrow> earned_badges s' v = earned_badges s v"
proof (cases "eligible_badges s u (total_points p) = []")
  case True
  with assms(2) show thesis by (intro that [of s]) (simp_all add: check_and_award_badges_def)
next
  case False
  have "\<forall>b \<in> set (eligible_badges s u (total_points p)). badge_id b \<notin> set (earned_badges s u)" by (simp add: set_eligible)
  from for_each_award [OF distinct_eligible [OF assms(1)] this, of now] False assms(2) show thesis
    by (auto simp: check_and_award_badges_def Let_def intro: that)
qed

lemma check_and_award_only:
  "check_and_award_badges s now u = Inr s' \<Longrightarrow> only_badges s s'"
proof -
  have step: "only_badges t t'" if "award_badge now u b t = Inr (x, t')" for b t x t'
  proof (cases "badge_id b \<in> set (earned_badges t u)")
    case True
    with that show ?thesis by (simp add: award_badge_def earned_iff)
  next
    case False
    from award_badge_new [OF this, of now] that show ?thesis by auto
  qed
  have loop: "only_badges s s'" if "for_each (award_badge now u) bs s = Inr (us, s')" for bs us
    using that by (rule for_each_inv [where P = "only_badges s"]) (auto intro: only_badges_trans step)
  show "check_and_award_badges s now u = Inr s' \<Longrightarrow> only_badges s s'"
    by (auto simp: check_and_award_badges_def Let_def elim!: res_bind_InrE
        intro: loop split: option.splits if_splits)
qed

text \<open>
  C35: awarding badges is exact. For a user with a profile it never raises and leaves the user
  with the badges already earned plus every active badge whose threshold the total of points
  reaches, each once, with one notification for each new one; nobody else's badges change, and
  running it again awards nothing.
\<close>

theorem check_and_award_badges_spec:
  assumes "distinct (map badge_id (badges s))" "distinct (earned_badges s u)" "profile_of s u = Some p"
  shows "\<exists>s'. check_and_award_badges s now u = Inr s' \<and>
    set (earned_badges s' u) = set (earned_badges s u) \<union>
      {badge_id b | b. b \<in> set (badges s) \<and> badge_is_active b \<and> points_required b \<le> total_points p} \<and>
    distinct (earned_badges s' u) \<and> (\<forall>v. v = u \<or> earned_badges s' v = earned_badges s v) \<and>
    length (notifications s') - length (notifications s) = length (earned_badges s' u) - length (earned_badges s u) \<and>
    profiles s' = profiles s \<and> badges s' = badges s \<and> check_and_award_badges s' later u = Inr s'"
proof -
  obtain s' where r: "check_and_award_badges s now u = Inr s'" "only_badges s s'"
    "length (notifications s') = length (notifications s) + length (eligible_badges s u (total_points p))"
    "earned_badges s' u = earned_badges s u @ map badge_id (eligible_badges s u (total_points p))"
    "\<forall>v. v \<noteq> u \<longrightarrow> earned_badges s' v = earned_badges s v"
    by (rule check_and_award_run [OF assms(1,3), of now])
  have set': "set (earned_badges s' u) = set (earned_badges s u) \<union>
      {badge_id b | b. b \<in> set (badges s) \<and> badge_is_active b \<and> points_required b \<le> total_points p}"
    unfolding r(4) by (auto simp: set_eligible)
  have fr: "profiles s' = profiles s" "badges s' = badges s" using only_badges_frame [OF r(2)] by simp_all
  have "set (eligible_badges s' u (total_points p)) = {}" unfolding set_eligible set' fr by blast
  then have "eligible_badges s' u (total_points p) = []" by simp
  moreover have "profile_of s' u = Some p" using assms(3) fr by (simp add: profile_of_def)
  ultimately have "check_and_award_badges s' later u = Inr s'" by (simp add: check_and_award_badges_def)
  moreover have "distinct (earned_badges s' u)"
    using assms(2) distinct_eligible [OF assms(1)] unfolding r(4) by (auto simp: set_eligible)
  ultimately show ?thesis using r set' fr by auto
qed

text \<open>A user with 120 points and two badges, of 100 and of 500 points.\<close>

definition demo_badges :: db where
  "demo_badges = empty_db\<lparr>profiles := [(new_profile 1)\<lparr>total_points := 120, available_points := 120\<rparr>], next_id := 9,
     badges := [\<lparr>badge_id = 2, badge_name = ''Hoja'', points_required = 100, badge_is_active = True\<rparr>,
                \<lparr>badge_id = 3, badge_name = ''Bosque'', points_required = 500, badge_is_active = True\<rparr>]\<rparr>"

theorem check_and_award_badges_spec_witness:
  "\<exists>s'. check_and_award_badges demo_badges 0 1 = Inr s' \<and> set (earned_badges s' 1) = {2} \<and>
     check_and_award_badges s' 1 1 = Inr s'"
proof -
  have "distinct (map badge_id (badges demo_badges))" "distinct (earned_badges demo_badges 1)"
    "profile_of demo_badges 1 = Some ((new_profile 1)\<lparr>total_points := 120, available_points := 120\<rparr>)"
    "earned_badges demo_badges 1 = []"
    by (simp_all add: demo_badges_def earned_badges_def profile_of_def new_profile_def empty_db_def)
  moreover have "{badge_id b | b. b \<in> set (badges demo_badges) \<and> badge_is_active b \<and> points_required b \<le> (120::int)} = {2}"
    by (auto simp: demo_badges_def intro!: exI [of _ "\<lparr>badge_id = 2, badge_name = ''Hoja'', points_required = 100, badge_is_active = True\<rparr>"])
  ultimately show ?thesis
    using check_and_award_badges_spec [of demo_badges 1 "(new_profile 1)\<lparr>total_points := 120, available_points := 120\<rparr>" 0 1] by auto
qed

section \<open>What a ranking shows\<close>

lemma ranked_mset: "mset (ranked pts pk rows) = mset (with_rank pts rows)"
  by (simp add: ranked_def)

lemma ranked_sorted: "sorted (map (\<lambda>(r, _). - pts r) (ranked pts pk rows))"
  by (simp add: ranked_def)

lemma ranked_pair: "(r, n) \<in> set (ranked pts pk rows) \<longleftrightarrow> r \<in> set rows \<and> n = Suc (length (filter (\<lambda>x. pts x > pts r) rows))"
  by (auto simp: ranked_def with_rank_def)

text \<open>
  The ranking of people is complete, in order and fair. It lists exactly the public profiles
  of active users, each once, by points from high to low; the rank of a person is one more than
  the number of listed people with strictly more points, so people with equal points share a
  rank; and nobody is listed who hides their profile.
\<close>

theorem list_user_points_ranking_spec:
  "mset (map fst (list_user_points_ranking s)) = mset (filter (in_ranking s) (profiles s)) \<and>
   sorted (map (\<lambda>(p, _). - total_points p) (list_user_points_ranking s)) \<and>
   ((p, n) \<in> set (list_user_points_ranking s) \<longleftrightarrow>
     p \<in> set (profiles s) \<and> in_ranking s p \<and>
     n = Suc (length (filter (\<lambda>q. in_ranking s q \<and> total_points p < total_points q) (profiles s))))"
proof -
  have "mset (map fst (ranked pts pk rows)) = mset rows" for pts :: "profile \<Rightarrow> int" and pk rows
  proof -
    have "mset (map fst (ranked pts pk rows)) = image_mset fst (mset (with_rank pts rows))"
      by (simp only: ranked_mset mset_map)
    also have "\<dots> = mset (map fst (with_rank pts rows))" by simp
    also have "map fst (with_rank pts rows) = rows" by (simp add: with_rank_def comp_def)
    finally show ?thesis .
  qed
  then show ?thesis
    unfolding list_user_points_ranking_def ranked_pair
    by (auto simp: ranked_sorted conj_commute)
qed

end
