(* ===== verification/Feed.thy ===== *)
theory Feed
  imports Accounts
begin

text \<open>
  The community feed: the checks of \<open>Post.save\<close> (\<open>feed/models.py\<close>), the post other apps
  publish (\<open>feed/services.py\<close>), the rules of the serializer and the permission classes of the
  viewset (\<open>feed/serializers.py\<close>, \<open>feed/views.py\<close>). Whether a string is a URL is decided by
  Django's validator, a parameter of the definitions. A caller is \<open>None\<close> when not authenticated.
\<close>

section \<open>Storing a post\<close>

definition badge_row :: "db \<Rightarrow> uuid \<Rightarrow> user_badge option" where
  "badge_row s k = find (\<lambda>b. user_badge_id b = k) (user_badges s)"

definition foreign_badge :: "db \<Rightarrow> post \<Rightarrow> bool" where
  "foreign_badge s p \<longleftrightarrow>
     (case badge_user p of
        None \<Rightarrow> False
      | Some k \<Rightarrow> (case badge_row s k of None \<Rightarrow> False
                  | Some b \<Rightarrow> author p \<noteq> None \<and> Some (badge_owner b) \<noteq> author p))"

text \<open>\<open>full_clean()\<close>: the fields, then \<open>clean()\<close>.\<close>

definition post_full_clean :: "(string \<Rightarrow> bool) \<Rightarrow> db \<Rightarrow> post \<Rightarrow> unit res" where
  "post_full_clean valid_url s p =
     (if content p = [] then Inl (ValidationError ''content'' ''This field cannot be blank.'')
      else if image_url p \<noteq> [] \<and> \<not> valid_url (image_url p) then Inl (ValidationError ''image_url'' ''Enter a valid URL.'')
      else if length (image_url p) > 500
      then Inl (ValidationError ''image_url'' ''Ensure this value has at most 500 characters.'')
      else if (case badge_user p of None \<Rightarrow> False | Some k \<Rightarrow> badge_row s k = None)
      then Inl (ValidationError ''badge_user'' ''user badge instance does not exist.'')
      else if py_strip (content p) = [] then Inl (ValidationError ''content'' ''Content cannot be empty.'')
      else if foreign_badge s p
      then Inl (ValidationError ''badge_user'' ''The attached badge must belong to the post author.'')
      else Inr ())"

definition post_create ::
  "(string \<Rightarrow> bool) \<Rightarrow> db \<Rightarrow> datetime \<Rightarrow> uuid option \<Rightarrow> post_type \<Rightarrow> string \<Rightarrow> string \<Rightarrow> uuid option \<Rightarrow> (post \<times> db) res" where
  "post_create valid_url s now by_user ty body img badge =
     (let p = \<lparr>post_id = next_id s, author = by_user, post_type = ty, content = body, image_url = img,
               badge_user = badge, post_created_at = now\<rparr>
      in res_bind (post_full_clean valid_url s p) (\<lambda>_.
           Inr (p, s\<lparr>posts := posts s @ [p], next_id := Suc (next_id s)\<rparr>)))"

definition create_shared_evidence_post ::
  "(string \<Rightarrow> bool) \<Rightarrow> db \<Rightarrow> datetime \<Rightarrow> uuid \<Rightarrow> string \<Rightarrow> string \<Rightarrow> (post \<times> db) res" where
  "create_shared_evidence_post valid_url s now by_user body img =
     post_create valid_url s now (Some by_user) SHARED_EVIDENCE body img None"

section \<open>Who may do what\<close>

datatype feed_method = SAFE_METHOD | PATCH_METHOD | DELETE_METHOD

definition is_admin_user :: "user option \<Rightarrow> bool" where
  "is_admin_user caller = (case caller of None \<Rightarrow> False | Some u \<Rightarrow> role u = ADMIN)"

definition is_author :: "user option \<Rightarrow> post \<Rightarrow> bool" where
  "is_author caller p = (case caller of None \<Rightarrow> False | Some u \<Rightarrow> author p = Some (user_id u))"

definition author_or_read_only :: "feed_method \<Rightarrow> user option \<Rightarrow> post \<Rightarrow> bool" where
  "author_or_read_only method caller p =
     (case method of
        SAFE_METHOD \<Rightarrow> True
      | DELETE_METHOD \<Rightarrow> is_author caller p \<or> is_admin_user caller
      | PATCH_METHOD \<Rightarrow> is_author caller p)"

section \<open>The serializer\<close>

definition validate_content :: "string \<Rightarrow> string res" where
  "validate_content v =
     (if py_strip v = [] then Inl (ValidationError ''content'' ''Content cannot be empty.'') else Inr (py_strip v))"

definition validate_badge_user :: "db \<Rightarrow> user option \<Rightarrow> uuid option \<Rightarrow> unit res" where
  "validate_badge_user s caller badge =
     (case badge of
        None \<Rightarrow> Inr ()
      | Some k \<Rightarrow>
          (case badge_row s k of
             None \<Rightarrow> Inl (ValidationError ''badge_user'' ''Invalid pk - object does not exist.'')
           | Some b \<Rightarrow>
               (case caller of
                  Some u \<Rightarrow> (if badge_owner b \<noteq> user_id u
                             then Inl (ValidationError ''badge_user'' ''You can only attach a badge that you have earned.'')
                             else Inr ())
                | None \<Rightarrow> Inr ())))"

definition validate_image_url :: "(string \<Rightarrow> bool) \<Rightarrow> string \<Rightarrow> unit res" where
  "validate_image_url valid_url v =
     (if v \<noteq> [] \<and> \<not> valid_url v then Inl (ValidationError ''image_url'' ''Enter a valid URL.'')
      else if length v > 500 then Inl (ValidationError ''image_url'' ''Ensure this field has no more than 500 characters.'')
      else Inr ())"

definition validate_official :: "user option \<Rightarrow> post option \<Rightarrow> post_type option \<Rightarrow> unit res" where
  "validate_official caller current new_type =
     (if ((case current of None \<Rightarrow> False | Some p \<Rightarrow> post_type p = OFFICIAL_ANNOUNCEMENT) \<or>
          new_type = Some OFFICIAL_ANNOUNCEMENT) \<and> \<not> is_admin_user caller
      then Inl (PermissionDenied ''Solo los administradores pueden crear o editar anuncios oficiales.'')
      else Inr ())"

section \<open>The viewset\<close>

text \<open>A patch: \<open>None\<close> is a field the request leaves out; \<open>patch_badge (Some None)\<close> clears the badge.\<close>

record post_patch =
  patch_type :: "post_type option"
  patch_content :: "string option"
  patch_image :: "string option"
  patch_badge :: "uuid option option"

definition apply_patch :: "post_patch \<Rightarrow> string option \<Rightarrow> post \<Rightarrow> post" where
  "apply_patch d body p =
     p\<lparr>post_type := (case patch_type d of None \<Rightarrow> post_type p | Some t \<Rightarrow> t),
       content := (case body of None \<Rightarrow> content p | Some b \<Rightarrow> b),
       image_url := (case patch_image d of None \<Rightarrow> image_url p | Some v \<Rightarrow> v),
       badge_user := (case patch_badge d of None \<Rightarrow> badge_user p | Some b \<Rightarrow> b)\<rparr>"

definition validate_post ::
  "(string \<Rightarrow> bool) \<Rightarrow> db \<Rightarrow> user option \<Rightarrow> post option \<Rightarrow> post_patch \<Rightarrow> string option res" where
  "validate_post valid_url s caller current d =
     res_bind (case patch_content d of None \<Rightarrow> Inr None | Some v \<Rightarrow> map_sum id Some (validate_content v)) (\<lambda>body.
     res_bind (case patch_image d of None \<Rightarrow> Inr () | Some v \<Rightarrow> validate_image_url valid_url v) (\<lambda>_.
     res_bind (case patch_badge d of None \<Rightarrow> Inr () | Some b \<Rightarrow> validate_badge_user s caller b) (\<lambda>_.
     res_bind (validate_official caller current (patch_type d)) (\<lambda>_. Inr body))))"

definition post_list :: "db \<Rightarrow> post list" where
  "post_list s = sort_key (\<lambda>p. - post_created_at p) (posts s)"

definition create_post_view ::
  "(string \<Rightarrow> bool) \<Rightarrow> db \<Rightarrow> datetime \<Rightarrow> user option \<Rightarrow> post_type \<Rightarrow> string \<Rightarrow> string \<Rightarrow> uuid option \<Rightarrow> (post \<times> db) res" where
  "create_post_view valid_url s now caller ty body img badge =
     (case caller of
        None \<Rightarrow> Inl (PermissionDenied ''Authentication credentials were not provided.'')
      | Some u \<Rightarrow>
          res_bind (validate_post valid_url s caller None
                      \<lparr>patch_type = Some ty, patch_content = Some body, patch_image = Some img, patch_badge = Some badge\<rparr>)
            (\<lambda>clean. post_create valid_url s now (Some (user_id u)) ty (case clean of None \<Rightarrow> [] | Some b \<Rightarrow> b) img badge))"

definition get_post :: "db \<Rightarrow> uuid \<Rightarrow> post res" where
  "get_post s k = (case qs_get (\<lambda>p. post_id p = k) (posts s) of Inl _ \<Rightarrow> Inl Http404 | Inr p \<Rightarrow> Inr p)"

definition patch_post_view :: "(string \<Rightarrow> bool) \<Rightarrow> db \<Rightarrow> user option \<Rightarrow> uuid \<Rightarrow> post_patch \<Rightarrow> (post \<times> db) res" where
  "patch_post_view valid_url s caller k d =
     (if caller = None then Inl (PermissionDenied ''Authentication credentials were not provided.'')
      else res_bind (get_post s k) (\<lambda>p.
        if \<not> author_or_read_only PATCH_METHOD caller p
        then Inl (PermissionDenied ''You do not have permission to perform this action.'')
        else res_bind (validate_post valid_url s caller (Some p) d) (\<lambda>body.
          let p1 = apply_patch d body p
          in res_bind (post_full_clean valid_url s p1) (\<lambda>_.
               Inr (p1, s\<lparr>posts := qs_update (\<lambda>x. post_id x = post_id p) (\<lambda>_. p1) (posts s)\<rparr>)))))"

definition delete_post_view :: "db \<Rightarrow> user option \<Rightarrow> uuid \<Rightarrow> db res" where
  "delete_post_view s caller k =
     (if caller = None then Inl (PermissionDenied ''Authentication credentials were not provided.'')
      else res_bind (get_post s k) (\<lambda>p.
        if \<not> author_or_read_only DELETE_METHOD caller p
        then Inl (PermissionDenied ''You do not have permission to perform this action.'')
        else Inr (s\<lparr>posts := qs_delete (\<lambda>x. post_id x = post_id p) (posts s)\<rparr>)))"

section \<open>The feed as a machine\<close>

datatype feed_call =
    PostCreate datetime post_type string string "uuid option"
  | PostPatch uuid post_patch
  | PostDelete uuid

fun feed_step :: "(string \<Rightarrow> bool) \<Rightarrow> user option \<Rightarrow> feed_call \<Rightarrow> db \<Rightarrow> db res" where
  "feed_step valid_url caller (PostCreate now ty body img badge) s =
     state_of (create_post_view valid_url s now caller ty body img badge)"
| "feed_step valid_url caller (PostPatch k d) s = state_of (patch_post_view valid_url s caller k d)"
| "feed_step valid_url caller (PostDelete k) s = delete_post_view s caller k"

text \<open>
  A well-formed feed: unique keys, no blank body, and a badge that is shown was earned by the
  author.
\<close>

definition feed_ok :: "db \<Rightarrow> bool" where
  "feed_ok s \<longleftrightarrow> table_ok post_id (next_id s) (posts s) \<and>
     (\<forall>p \<in> set (posts s). py_strip (content p) \<noteq> [] \<and> \<not> foreign_badge s p)"

lemma full_clean_InrD:
  "post_full_clean valid_url s p = Inr () \<Longrightarrow> py_strip (content p) \<noteq> [] \<and> \<not> foreign_badge s p"
  by (auto simp: post_full_clean_def split: if_splits)

lemma get_post_InrD: "get_post s k = Inr p \<Longrightarrow> p \<in> set (posts s) \<and> post_id p = k"
  by (auto simp: get_post_def dest: qs_get_InrD split: sum.splits)

lemma post_create_InrD:
  assumes "post_create valid_url s now a ty body img badge = Inr (p, s')"
  shows "s' = s\<lparr>posts := posts s @ [p], next_id := Suc (next_id s)\<rparr>" "post_id p = next_id s" "author p = a"
    "post_type p = ty" "py_strip (content p) \<noteq> []" "\<not> foreign_badge s p"
proof -
  have "post_full_clean valid_url s p = Inr ()" using assms by (auto simp: post_create_def Let_def elim!: res_bind_InrE)
  then show "py_strip (content p) \<noteq> []" "\<not> foreign_badge s p" by (auto dest: full_clean_InrD)
  show "s' = s\<lparr>posts := posts s @ [p], next_id := Suc (next_id s)\<rparr>" "post_id p = next_id s" "author p = a" "post_type p = ty"
    using assms by (auto simp: post_create_def Let_def elim!: res_bind_InrE)
qed

lemma create_view_InrD:
  assumes "create_post_view valid_url s now caller ty body img badge = Inr (p, s')"
  shows "\<exists>u body'. caller = Some u \<and> (ty = OFFICIAL_ANNOUNCEMENT \<longrightarrow> role u = ADMIN) \<and>
    post_create valid_url s now (Some (user_id u)) ty body' img badge = Inr (p, s')"
  using assms
  by (auto simp: create_post_view_def validate_post_def validate_official_def is_admin_user_def
      elim!: res_bind_InrE split: option.splits if_splits)

lemma patch_view_InrD:
  assumes "patch_post_view valid_url s caller k d = Inr (p1, s')"
  obtains p u where "caller = Some u" "p \<in> set (posts s)" "post_id p = k" "author p = Some (user_id u)"
    "post_id p1 = k" "author p1 = author p" "py_strip (content p1) \<noteq> []" "\<not> foreign_badge s p1"
    "role u = ADMIN \<or> post_type p \<noteq> OFFICIAL_ANNOUNCEMENT \<and> post_type p1 \<noteq> OFFICIAL_ANNOUNCEMENT"
    "s' = s\<lparr>posts := qs_update (\<lambda>x. post_id x = post_id p) (\<lambda>_. p1) (posts s)\<rparr>"
proof -
  from assms obtain p u body where 1: "caller = Some u" "get_post s k = Inr p" "author p = Some (user_id u)"
    "validate_post valid_url s caller (Some p) d = Inr body" "p1 = apply_patch d body p"
    "post_full_clean valid_url s p1 = Inr ()"
    "s' = s\<lparr>posts := qs_update (\<lambda>x. post_id x = post_id p) (\<lambda>_. p1) (posts s)\<rparr>"
    by (auto simp: patch_post_view_def author_or_read_only_def is_author_def Let_def
        elim!: res_bind_InrE split: if_splits option.splits)
  have "role u = ADMIN \<or> post_type p \<noteq> OFFICIAL_ANNOUNCEMENT \<and> post_type p1 \<noteq> OFFICIAL_ANNOUNCEMENT"
    using 1(1,4,5) by (auto simp: validate_post_def validate_official_def is_admin_user_def apply_patch_def
        elim!: res_bind_InrE split: if_splits option.splits)
  moreover have "post_id p1 = post_id p" "author p1 = author p" using 1(5) by (simp_all add: apply_patch_def)
  ultimately show thesis using 1 get_post_InrD [OF 1(2)] full_clean_InrD [OF 1(6)] by (intro that [of u p]) auto
qed

lemma delete_view_InrD:
  assumes "delete_post_view s caller k = Inr s'"
  obtains p u where "caller = Some u" "p \<in> set (posts s)" "post_id p = k" "author p = Some (user_id u) \<or> role u = ADMIN"
    "s' = s\<lparr>posts := qs_delete (\<lambda>x. post_id x = k) (posts s)\<rparr>"
proof -
  from assms obtain p u where "caller = Some u" "get_post s k = Inr p" "author p = Some (user_id u) \<or> role u = ADMIN"
    "s' = s\<lparr>posts := qs_delete (\<lambda>x. post_id x = post_id p) (posts s)\<rparr>"
    by (auto simp: delete_post_view_def author_or_read_only_def is_author_def is_admin_user_def
        elim!: res_bind_InrE split: if_splits option.splits)
  with get_post_InrD show thesis by (intro that) blast+
qed

lemma foreign_badge_cong: "user_badges s' = user_badges s \<Longrightarrow> foreign_badge s' p = foreign_badge s p"
  unfolding foreign_badge_def badge_row_def by (cases "badge_user p") simp_all

interpretation feed: service_machine "feed_step valid_url caller" feed_ok for valid_url caller
proof
  fix s e s'
  assume ok: "feed_ok s" and step: "feed_step valid_url caller e s = Inr s'"
  show "feed_ok s'"
  proof (cases e)
    case (PostCreate now ty body img badge)
    with step obtain p where "create_post_view valid_url s now caller ty body img badge = Inr (p, s')" by (auto dest: state_of_InrE)
    from create_view_InrD [OF this]
    obtain u body' where u: "caller = Some u"
      "post_create valid_url s now (Some (user_id u)) ty body' img badge = Inr (p, s')" by blast
    note p = post_create_InrD [OF u(2)]
    then show ?thesis using ok foreign_badge_cong [of s' s] by (auto simp: feed_ok_def table_ok_snoc)
  next
    case (PostPatch k d)
    with step obtain p1 where "patch_post_view valid_url s caller k d = Inr (p1, s')" by (auto dest: state_of_InrE)
    then show ?thesis
    proof (cases rule: patch_view_InrD)
      case (1 p u)
      then show ?thesis using ok foreign_badge_cong [of s' s]
        by (simp add: feed_ok_def table_ok_update_row ball_qs_update)
    qed
  next
    case (PostDelete k)
    with step have "delete_post_view s caller k = Inr s'" by simp
    then show ?thesis
    proof (cases rule: delete_view_InrD)
      case (1 p u)
      then show ?thesis using ok foreign_badge_cong [of s' s] by (simp add: feed_ok_def table_ok_delete)
    qed
  qed
qed

lemma not_admin_official:
  assumes "feed_ok s" "feed_step valid_url (Some u) e s = Inr s'" "role u \<noteq> ADMIN" "p \<in> set (posts s')"
    "post_type p = OFFICIAL_ANNOUNCEMENT"
  shows "p \<in> set (posts s)"
proof (cases e)
  case (PostCreate now ty body img badge)
  with assms(2) obtain q where "create_post_view valid_url s now (Some u) ty body img badge = Inr (q, s')" by (auto dest: state_of_InrE)
  from create_view_InrD [OF this] assms(3) obtain body' where t: "ty \<noteq> OFFICIAL_ANNOUNCEMENT"
    "post_create valid_url s now (Some (user_id u)) ty body' img badge = Inr (q, s')" by auto
  with post_create_InrD [OF t(2)] assms(4,5) show ?thesis by auto
next
  case (PostPatch k d)
  with assms(2) obtain p1 where "patch_post_view valid_url s (Some u) k d = Inr (p1, s')" by (auto dest: state_of_InrE)
  then show ?thesis using assms(3-5) by (cases rule: patch_view_InrD) (auto elim!: in_qs_updateE)
next
  case (PostDelete k)
  with assms(2) have "delete_post_view s (Some u) k = Inr s'" by simp
  then show ?thesis using assms(4) by (cases rule: delete_view_InrD) auto
qed

lemma others_posts_kept:
  assumes "feed_ok s" "feed_step valid_url (Some u) e s = Inr s'" "role u \<noteq> ADMIN" "p \<in> set (posts s)" "author p \<noteq> Some (user_id u)"
  shows "p \<in> set (posts s')"
proof (cases e)
  case (PostCreate now ty body img badge)
  with assms(2) obtain q where "create_post_view valid_url s now (Some u) ty body img badge = Inr (q, s')" by (auto dest: state_of_InrE)
  from create_view_InrD [OF this] obtain body' where
    "post_create valid_url s now (Some (user_id u)) ty body' img badge = Inr (q, s')" by auto
  with post_create_InrD(1) [OF this] assms(4) show ?thesis by simp
next
  case (PostPatch k d)
  with assms(2) obtain p1 where "patch_post_view valid_url s (Some u) k d = Inr (p1, s')" by (auto dest: state_of_InrE)
  then show ?thesis
  proof (cases rule: patch_view_InrD)
    case (1 q v)
    have "post_id p \<noteq> post_id q"
      using inj_on_pk [of post_id "posts s" p q] assms(1,4,5) 1(1,2,4) by (auto simp: feed_ok_def table_ok_def)
    with in_qs_updateI [OF assms(4), of "\<lambda>x. post_id x = post_id q" "\<lambda>_. p1"] 1(10) show ?thesis by simp
  qed
next
  case (PostDelete k)
  with assms(2) have "delete_post_view s (Some u) k = Inr s'" by simp
  then show ?thesis
  proof (cases rule: delete_view_InrD)
    case (1 q v)
    have "post_id p \<noteq> k"
      using inj_on_pk [of post_id "posts s" p q] assms(1,3,4,5) 1(1-4) by (auto simp: feed_ok_def table_ok_def)
    with assms(4) 1(5) show ?thesis by simp
  qed
qed

text \<open>
  C38: the feed belongs to its authors. In every run of requests of one user who is not an
  administrator the feed stays well formed (no blank post, no badge its author has not earned),
  no official announcement appears or changes, and the posts of everybody else stay as they
  are.
\<close>

theorem feed_runs_safe:
  assumes "feed_ok s" "role u \<noteq> ADMIN" "s' = run_calls (feed_step valid_url (Some u)) calls s"
  shows "feed_ok s' \<and>
    {p \<in> set (posts s'). post_type p = OFFICIAL_ANNOUNCEMENT} \<subseteq> {p \<in> set (posts s). post_type p = OFFICIAL_ANNOUNCEMENT} \<and>
    {p \<in> set (posts s). author p \<noteq> Some (user_id u)} \<subseteq> {p \<in> set (posts s'). author p \<noteq> Some (user_id u)}"
  unfolding assms(3) using assms(1)
proof (induction calls arbitrary: s)
  case (Cons e calls)
  let ?s1 = "commit s (feed_step valid_url (Some u) e s)"
  have ok: "feed_ok ?s1" using feed.commit_inv Cons.prems by blast
  have "{p \<in> set (posts ?s1). post_type p = OFFICIAL_ANNOUNCEMENT} \<subseteq> {p \<in> set (posts s). post_type p = OFFICIAL_ANNOUNCEMENT} \<and>
    {p \<in> set (posts s). author p \<noteq> Some (user_id u)} \<subseteq> {p \<in> set (posts ?s1). author p \<noteq> Some (user_id u)}"
    using not_admin_official [OF Cons.prems _ assms(2)] others_posts_kept [OF Cons.prems _ assms(2)]
    by (cases "feed_step valid_url (Some u) e s") auto
  then show ?case using Cons.IH [OF ok] by auto
qed simp

text \<open>A student posts, tries an official announcement and tries to delete somebody else's post.\<close>

definition demo_feed :: db where
  "demo_feed = empty_db\<lparr>posts := [\<lparr>post_id = 1, author = Some 5, post_type = OFFICIAL_ANNOUNCEMENT, content = ''Aviso'',
     image_url = [], badge_user = None, post_created_at = 0\<rparr>], next_id := 10\<rparr>"

definition demo_feed_run :: "feed_call list" where
  "demo_feed_run = [PostCreate 1 SHARED_EVIDENCE '' Hola '' [] None, PostCreate 2 OFFICIAL_ANNOUNCEMENT ''Aviso'' [] None, PostDelete 1]"

lemma demo_feed_ok: "feed_ok demo_feed"
  by (simp add: feed_ok_def demo_feed_def empty_db_def table_ok_def foreign_badge_def py_strip_def is_space_def)

lemma demo_feed_result:
  "map (\<lambda>p. (author p, content p)) (posts (run_calls (feed_step (\<lambda>_. True) (Some (demo_user 7 STUDENT))) demo_feed_run demo_feed)) =
     [(Some 5, ''Aviso''), (Some 7, ''Hola'')]"
  by code_simp

theorem feed_runs_safe_witness:
  "map (\<lambda>p. (author p, content p)) (posts (run_calls (feed_step (\<lambda>_. True) (Some (demo_user 7 STUDENT))) demo_feed_run demo_feed)) =
     [(Some 5, ''Aviso''), (Some 7, ''Hola'')] \<and>
   feed_ok (run_calls (feed_step (\<lambda>_. True) (Some (demo_user 7 STUDENT))) demo_feed_run demo_feed)"
proof -
  have "role (demo_user 7 STUDENT) \<noteq> ADMIN" by (simp add: demo_user_def)
  from feed_runs_safe [OF demo_feed_ok this refl, of "\<lambda>_. True" demo_feed_run] demo_feed_result show ?thesis by blast
qed

end
