(* ===== verification/Actions.thy ===== *)
theory Actions
  imports Campaigns Gamification Feed
begin

text \<open>
  The actions app: the catalog and log queries (\<open>actions/selectors.py\<close>), streaks, redemption
  of cosmetics and revocation of points (\<open>actions/services.py\<close>), and the requests that register
  a log, audit it and redeem an item (\<open>actions/views.py\<close>, \<open>actions/serializers.py\<close>). The zone
  \<open>z\<close> is the one of the settings; \<open>now\<close> is the clock of the request.
\<close>

section \<open>Selectors\<close>

definition count_user_action_logs_for_local_day :: "zone \<Rightarrow> db \<Rightarrow> datetime \<Rightarrow> uuid \<Rightarrow> uuid \<Rightarrow> nat" where
  "count_user_action_logs_for_local_day z s now u aid =
     (let (lo, hi) = local_day_utc_bounds z now
      in length (filter (\<lambda>l. log_user l = u \<and> log_action l = aid \<and> lo \<le> log_created_at l \<and> log_created_at l < hi)
                   (action_logs s)))"

definition list_active_action_categories :: "db \<Rightarrow> action_category list" where
  "list_active_action_categories s = sort_key category_code (categories s)"

definition list_active_actions :: "db \<Rightarrow> action_master list" where
  "list_active_actions s = sort_key action_code (filter action_is_active (actions s))"

definition list_active_exchangeables :: "db \<Rightarrow> exchangeable_item list" where
  "list_active_exchangeables s = sort_key points_cost (sort_key item_name (filter item_is_active (items s)))"

definition list_action_logs_by_status :: "db \<Rightarrow> log_status \<Rightarrow> action_log list" where
  "list_action_logs_by_status s st =
     sort_key log_created_at (sort_key log_id (filter (\<lambda>l. log_status l = st) (action_logs s)))"

definition list_my_action_logs :: "db \<Rightarrow> uuid \<Rightarrow> log_status option \<Rightarrow> action_log list" where
  "list_my_action_logs s u st =
     sort_key (\<lambda>l. - log_created_at l) (sort_key (\<lambda>l. - int (log_id l))
       (filter (\<lambda>l. log_user l = u \<and> (case st of None \<Rightarrow> True | Some x \<Rightarrow> log_status l = x)) (action_logs s)))"

section \<open>Streaks\<close>

definition STREAK_WINDOW_DAYS :: int where
  "STREAK_WINDOW_DAYS = 400"

definition active_days :: "zone \<Rightarrow> db \<Rightarrow> date \<Rightarrow> uuid \<Rightarrow> date list" where
  "active_days z s today u =
     remdups (map (\<lambda>l. local_date z (log_created_at l))
       (filter (\<lambda>l. log_user l = u \<and> log_status l = LOG_APPROVED \<and>
                     local_date z (log_created_at l) \<ge> today - STREAK_WINDOW_DAYS) (action_logs s)))"

text \<open>\<open>while cursor in active_days\<close>: every turn passes one of finitely many days.\<close>

function streak_from :: "date list \<Rightarrow> date \<Rightarrow> nat" where
  "streak_from days cursor = (if cursor \<in> set days then Suc (streak_from days (cursor - 1)) else 0)"
  by pat_completeness auto
termination
proof (relation "measure (\<lambda>(days, cursor). card {d \<in> set days. d \<le> cursor})")
  fix days :: "date list" and cursor :: date
  assume "cursor \<in> set days"
  then have "{d \<in> set days. d \<le> cursor - 1} \<subset> {d \<in> set days. d \<le> cursor}" by force
  then show "((days, cursor - 1), days, cursor) \<in> measure (\<lambda>(days, cursor). card {d \<in> set days. d \<le> cursor})"
    by (simp add: psubset_card_mono)
qed simp

declare streak_from.simps [simp del]

definition recalculate_streak :: "zone \<Rightarrow> db \<Rightarrow> datetime \<Rightarrow> uuid \<Rightarrow> nat \<times> db" where
  "recalculate_streak z s now u =
     (let today = local_date z now;
          days = active_days z s today u;
          cursor = (if today \<in> set days then today else today - 1);
          streak = streak_from days cursor;
          last_day = (if days = [] then None else Some (Max (set days)));
          (p, s1) = ensure_profile s u
      in (streak,
          if current_streak p \<noteq> streak \<or> last_action_date p \<noteq> last_day
          then edit_profile u (\<lambda>x. x\<lparr>current_streak := streak, last_action_date := last_day\<rparr>) s1
          else s1))"

section \<open>Cosmetics\<close>

definition find_item :: "db \<Rightarrow> string option \<Rightarrow> uuid option \<Rightarrow> exchangeable_item res" where
  "find_item s key iid =
     (case qs_get (\<lambda>i. case iid of Some k \<Rightarrow> item_id i = k | None \<Rightarrow> Some (item_key i) = key) (items s) of
        Inl DoesNotExist \<Rightarrow> Inl (ItemInactiveError ''not found'')
      | Inl e \<Rightarrow> Inl e
      | Inr i \<Rightarrow> Inr i)"

definition redeem_exchangeable :: "db \<Rightarrow> uuid \<Rightarrow> string option \<Rightarrow> uuid option \<Rightarrow> (profile \<times> db) res" where
  "redeem_exchangeable s u key iid =
     (let (p, s1) = ensure_profile s u
      in if (key = None \<or> key = Some []) \<and> iid = None then Inl (ItemInactiveError ''no id or key'')
         else res_bind (find_item s1 key iid) (\<lambda>i.
           if \<not> item_is_active i then Inl (ItemInactiveError ''not available'')
           else if item_key i \<in> set (unlocked_cosmetics p) then Inl AlreadyUnlockedError
           else if available_points p < points_cost i then Inl InsufficientPointsError
           else let f = (\<lambda>x. x\<lparr>available_points := available_points p - points_cost i,
                              unlocked_cosmetics := unlocked_cosmetics p @ [item_key i]\<rparr>)
                in Inr (f p, edit_profile u f s1)))"

section \<open>Mission progress and points of a log\<close>

definition notify_mission_progress :: "db \<Rightarrow> datetime \<Rightarrow> action_log \<Rightarrow> (mission_progress list \<times> db) res" where
  "notify_mission_progress s now l =
     (if log_status l \<noteq> LOG_APPROVED then Inr ([], s) else apply_action_log_to_missions s now l)"

definition revert_mission_progress :: "db \<Rightarrow> datetime \<Rightarrow> action_log \<Rightarrow> (mission_progress list \<times> db) res" where
  "revert_mission_progress s now l =
     (if log_status l \<noteq> LOG_REJECTED then Inr ([], s) else revert_action_log_from_missions s now l)"

text \<open>The clans a log credits, the institutional one first.\<close>

definition credited_clans :: "action_log \<Rightarrow> uuid list" where
  "credited_clans l =
     log_institutional_clan l # (case credited_private_clan l of None \<Rightarrow> [] | Some c \<Rightarrow> [c])"

definition add_points_to_clans :: "int \<Rightarrow> uuid list \<Rightarrow> db \<Rightarrow> db res" where
  "add_points_to_clans n cids s = state_of (for_each (\<lambda>c s. map_sum id (\<lambda>s1. ((), s1)) (add_clan_points s c n)) cids s)"

definition revoke_awarded_points :: "db \<Rightarrow> action_log \<Rightarrow> db res" where
  "revoke_awarded_points s l =
     res_bind (qs_get (\<lambda>p. profile_user p = log_user l) (profiles s)) (\<lambda>p.
       if available_points p < points_awarded l then Inl PointsAlreadySpentError
       else res_bind (add_profile_points s (log_user l) (- points_awarded l))
              (add_points_to_clans (- points_awarded l) (credited_clans l)))"

section \<open>Registering a log\<close>

text \<open>The validated body of \<open>POST /action-logs/\<close> and what the endpoint answers.\<close>

record log_data =
  data_action :: uuid
  data_idempotency_key :: string
  data_evidence :: "upload option"
  data_evidence_key :: string
  data_shared :: bool

datatype log_response =
    KeyReused | AlreadyLogged log_status uuid | ActionNotFound | EvidenceRequired | LimitReached
  | NoInstitutionalClan | Logged log_status uuid

text \<open>
  The surroundings of a request: Django's URL validator, and the SHA-256 of an upload and of a
  stored evidence object (the hash of a missing file is the empty string).
\<close>

record surroundings =
  valid_url :: "string \<Rightarrow> bool"
  evidence_fingerprint :: "upload \<Rightarrow> string"
  stored_evidence_fingerprint :: "string \<Rightarrow> string"

definition validate_log_data :: "log_data \<Rightarrow> log_data res" where
  "validate_log_data d =
     (let key = py_strip (data_idempotency_key d)
      in if key = [] then Inl (ValidationError ''idempotency_key'' ''This field may not be blank.'')
         else if length key > 128
         then Inl (ValidationError ''idempotency_key'' ''Ensure this field has no more than 128 characters.'')
         else res_bind (case data_evidence d of None \<Rightarrow> Inr [] | Some up \<Rightarrow> validate_evidence_upload up) (\<lambda>_.
              if length (py_strip (data_evidence_key d)) > 500
              then Inl (ValidationError ''evidence_object_key'' ''Ensure this field has no more than 500 characters.'')
              else Inr (d\<lparr>data_idempotency_key := key, data_evidence_key := py_strip (data_evidence_key d)\<rparr>)))"

definition get_active_private_clan :: "db \<Rightarrow> uuid \<Rightarrow> uuid option" where
  "get_active_private_clan s u =
     map_option member_clan (qs_first membership_id (filter (\<lambda>m. member m = u \<and> is_active_private m) (memberships s)))"

definition get_profile_clans :: "db \<Rightarrow> uuid \<Rightarrow> (profile \<times> uuid option \<times> uuid option) res" where
  "get_profile_clans s u =
     res_bind (qs_get (\<lambda>p. profile_user p = u) (profiles s)) (\<lambda>p.
       Inr (p, institutional_clan p, get_active_private_clan s u))"

definition same_evidence :: "surroundings \<Rightarrow> action_log \<Rightarrow> log_data \<Rightarrow> bool" where
  "same_evidence env l d \<longleftrightarrow>
     (case data_evidence d of
        Some up \<Rightarrow> stored_evidence_fingerprint env (evidence_object_key l) = evidence_fingerprint env up
      | None \<Rightarrow> evidence_object_key l = data_evidence_key d)"

definition build_shared_evidence_content :: "action_master \<Rightarrow> int \<Rightarrow> string" where
  "build_shared_evidence_content a pts =
     ''Nueva acci'' @ [CHR 0xF3] @ ''n registrada: '' @ action_name a @ '' (+'' @ nat_str (nat pts) @ '' puntos).''"

definition resolve_evidence_image_url :: "string \<Rightarrow> string" where
  "resolve_evidence_image_url key =
     (if py_startswith key ''http://'' \<or> py_startswith key ''https://'' then key else [])"

definition initial_log_status :: "action_master \<Rightarrow> log_status" where
  "initial_log_status a = (if validation_type a = PHOTO then LOG_PENDING_AUDIT else LOG_APPROVED)"

definition action_log_create ::
  "db \<Rightarrow> datetime \<Rightarrow> uuid \<Rightarrow> action_master \<Rightarrow> uuid \<Rightarrow> uuid option \<Rightarrow> log_data \<Rightarrow> string \<Rightarrow> (action_log \<times> db) res" where
  "action_log_create s now u a inst priv d evidence_key =
     (let l = \<lparr>log_id = next_id s, log_user = u, log_action = action_id a, log_institutional_clan = inst,
               credited_private_clan = priv, log_campaign = None, idempotency_key = data_idempotency_key d,
               points_awarded = points a, co2_kg_factor_snapshot = co2_kg_factor a,
               water_liters_factor_snapshot = water_liters_factor a,
               plastic_kg_factor_snapshot = plastic_kg_factor a, log_status = initial_log_status a,
               evidence_object_key = evidence_key, is_shared_publicly = data_shared d,
               log_reviewed_by = None, log_reviewed_at = None, log_rejection_reason = [], log_created_at = now\<rparr>
      in if idempotency_key l = [] then Inl (IntegrityError ''action_log_idempotency_nonblank'')
         else if list_ex (\<lambda>x. log_user x = u \<and> idempotency_key x = idempotency_key l) (action_logs s)
         then Inl (IntegrityError ''action_log_user_idempotency_unique'')
         else Inr (l, s\<lparr>action_logs := action_logs s @ [l], next_id := Suc (next_id s)\<rparr>))"

text \<open>
  What crediting an approved log does: points of the profile and of the clans, badges, missions
  and the streak, in this order.
\<close>

definition credit_log :: "zone \<Rightarrow> db \<Rightarrow> datetime \<Rightarrow> action_log \<Rightarrow> db res" where
  "credit_log z s now l =
     res_bind (add_profile_points s (log_user l) (points_awarded l)) (\<lambda>s1.
     res_bind (add_points_to_clans (points_awarded l) (credited_clans l) s1) (\<lambda>s2.
     res_bind (check_and_award_badges s2 now (log_user l)) (\<lambda>s3.
     res_bind (notify_mission_progress s3 now l) (\<lambda>(_, s4).
       Inr (snd (recalculate_streak z s4 now (log_user l)))))))"

definition share_log :: "surroundings \<Rightarrow> db \<Rightarrow> datetime \<Rightarrow> action_master \<Rightarrow> action_log \<Rightarrow> db res" where
  "share_log env s now a l =
     (if is_shared_publicly l
      then state_of (create_shared_evidence_post (valid_url env) s now (log_user l)
             (build_shared_evidence_content a (points_awarded l)) (resolve_evidence_image_url (evidence_object_key l)))
      else Inr s)"

definition create_action_log ::
  "zone \<Rightarrow> surroundings \<Rightarrow> db \<Rightarrow> datetime \<Rightarrow> datetime \<Rightarrow> uuid \<Rightarrow> log_data \<Rightarrow> (log_response \<times> db) res" where
  "create_action_log z env s requested_at now uid d =
     res_bind (get_user s uid) (\<lambda>u.
     res_bind (ensure_account_writable s u (Some requested_at)) (\<lambda>_.
       case qs_first log_id (filter (\<lambda>l. log_user l = uid \<and> idempotency_key l = data_idempotency_key d) (action_logs s)) of
         Some l \<Rightarrow>
           (if log_action l \<noteq> data_action d \<or> \<not> same_evidence env l d then Inr (KeyReused, s)
            else Inr (AlreadyLogged (log_status l) (log_id l), s))
       | None \<Rightarrow>
     (case qs_get (\<lambda>a. action_id a = data_action d \<and> action_is_active a) (actions s) of
        Inl DoesNotExist \<Rightarrow> Inr (ActionNotFound, s)
      | Inl e \<Rightarrow> Inl e
      | Inr a \<Rightarrow>
          if validation_type a = PHOTO \<and> data_evidence d = None \<and> data_evidence_key d = []
          then Inr (EvidenceRequired, s)
          else if count_user_action_logs_for_local_day z s now uid (action_id a) \<ge> daily_limit a
          then Inr (LimitReached, s)
          else res_bind (get_profile_clans s uid) (\<lambda>(p, inst, priv).
            case inst of
              None \<Rightarrow> Inr (NoInstitutionalClan, s)
            | Some c \<Rightarrow>
     res_bind (case data_evidence d of
                 None \<Rightarrow> Inr (data_evidence_key d, s)
               | Some up \<Rightarrow> save_action_evidence s uid up) (\<lambda>(key, s1).
     res_bind (action_log_create s1 now uid a c priv d key) (\<lambda>(l, s2).
     res_bind (share_log env s2 now a l) (\<lambda>s3.
     res_bind (if log_status l = LOG_APPROVED then credit_log z s3 now l else Inr s3) (\<lambda>s4.
       Inr (Logged (log_status l) (log_id l), s4)))))))))"

definition action_log_post ::
  "zone \<Rightarrow> surroundings \<Rightarrow> db \<Rightarrow> datetime \<Rightarrow> datetime \<Rightarrow> uuid \<Rightarrow> log_data \<Rightarrow> (log_response \<times> db) res" where
  "action_log_post z env s requested_at now uid d =
     res_bind (validate_log_data d) (create_action_log z env s requested_at now uid)"

section \<open>Auditing a log\<close>

datatype audit_response = Audited | AuditNotFound | PointsSpent

text \<open>\<open>ActionLogAuditSerializer\<close>: \<open>True\<close> approves; a rejection needs a reason.\<close>

definition validate_audit :: "bool \<Rightarrow> string \<Rightarrow> string res" where
  "validate_audit approve reason =
     (if \<not> approve \<and> py_strip reason = []
      then Inl (ValidationError ''rejection_reason'' ''Se requiere un motivo al rechazar la evidencia.'')
      else Inr (py_strip reason))"

definition review_log :: "bool \<Rightarrow> string \<Rightarrow> uuid \<Rightarrow> datetime \<Rightarrow> action_log \<Rightarrow> action_log" where
  "review_log approve reason admin now l =
     l\<lparr>log_status := (if approve then LOG_APPROVED else LOG_REJECTED), log_rejection_reason := reason,
       log_reviewed_by := Some admin, log_reviewed_at := Some now\<rparr>"

definition save_log :: "action_log \<Rightarrow> db \<Rightarrow> db" where
  "save_log l s = s\<lparr>action_logs := qs_update (\<lambda>x. log_id x = log_id l) (\<lambda>_. l) (action_logs s)\<rparr>"

definition reject_log :: "zone \<Rightarrow> db \<Rightarrow> datetime \<Rightarrow> action_log \<Rightarrow> string \<Rightarrow> db res" where
  "reject_log z s now l reason =
     res_bind (notify s now (log_user l) AUDIT_REJECT [(''reason'', reason)]) (\<lambda>(_, s1).
     res_bind (revert_mission_progress s1 now l) (\<lambda>(_, s2).
       Inr (snd (recalculate_streak z s2 now (log_user l)))))"

text \<open>The points are credited as on creation; then the author is told.\<close>

definition approve_log :: "zone \<Rightarrow> db \<Rightarrow> datetime \<Rightarrow> action_log \<Rightarrow> db res" where
  "approve_log z s now l =
     res_bind (if profile_of s (log_user l) = None then Inl DoesNotExist else Inr ()) (\<lambda>_.
     res_bind (credit_log z s now l) (\<lambda>s1.
     res_bind (qs_get (\<lambda>a. action_id a = log_action l) (actions s1)) (\<lambda>a.
       state_of (notify s1 now (log_user l) AUDIT_APPROVED
         [(''action_name'', action_name a), (''points'', nat_str (nat (points_awarded l)))]))))"

definition audit_action_log ::
  "zone \<Rightarrow> db \<Rightarrow> datetime \<Rightarrow> uuid \<Rightarrow> uuid \<Rightarrow> bool \<Rightarrow> string \<Rightarrow> (audit_response \<times> db) res" where
  "audit_action_log z s now admin lid approve raw_reason =
     res_bind (validate_audit approve raw_reason) (\<lambda>reason.
       let auditable = (\<lambda>l. log_id l = lid \<and>
             (log_status l = LOG_PENDING_AUDIT \<or> \<not> approve \<and> log_status l = LOG_APPROVED))
       in case qs_get auditable (action_logs s) of
            Inl DoesNotExist \<Rightarrow> Inr (AuditNotFound, s)
          | Inl e \<Rightarrow> Inl e
          | Inr l \<Rightarrow>
              (case (if log_status l = LOG_APPROVED then revoke_awarded_points s l else Inr s) of
                 Inl PointsAlreadySpentError \<Rightarrow> Inr (PointsSpent, s)
               | Inl e \<Rightarrow> Inl e
               | Inr s1 \<Rightarrow>
                   (let l1 = review_log approve reason admin now l; s2 = save_log l1 s1
                    in res_bind (if approve then approve_log z s2 now l1 else reject_log z s2 now l1 reason)
                         (\<lambda>s3. Inr (Audited, s3)))))"

section \<open>Redeeming through the API\<close>

text \<open>
  \<open>POST /exchangeables/{pk}/redeem/\<close> looks the item up among the active ones;
  \<open>POST /exchangeables/redeem/\<close> takes a key or an id. Both answer the key they report as
  unlocked, the remaining balance and the cosmetics.
\<close>

definition redeem_view :: "db \<Rightarrow> uuid \<Rightarrow> uuid \<Rightarrow> ((string \<times> int \<times> string list) \<times> db) res" where
  "redeem_view s u iid =
     (case qs_get (\<lambda>i. item_is_active i \<and> item_id i = iid) (items s) of
        Inl _ \<Rightarrow> Inl Http404
      | Inr i \<Rightarrow> res_bind (redeem_exchangeable s u None (Some (item_id i))) (\<lambda>(p, s1).
          Inr ((item_key i, available_points p, unlocked_cosmetics p), s1)))"

definition redeem_by_body ::
  "db \<Rightarrow> uuid \<Rightarrow> string option \<Rightarrow> uuid option \<Rightarrow> ((string \<times> int \<times> string list) \<times> db) res" where
  "redeem_by_body s u raw_key iid =
     (let key = map_option py_strip raw_key
      in if key = Some [] then Inl (ValidationError ''item_key'' ''This field may not be blank.'')
         else if (case key of None \<Rightarrow> False | Some k \<Rightarrow> length k > 50)
         then Inl (ValidationError ''item_key'' ''Ensure this field has no more than 50 characters.'')
         else if key = None \<and> iid = None then Inl (ValidationError [] ''Debes enviar item_key o item_id.'')
         else res_bind (redeem_exchangeable s u key iid) (\<lambda>(p, s1).
              res_bind (case key of
                          Some k \<Rightarrow> Inr k
                        | None \<Rightarrow> res_bind (qs_get (\<lambda>i. Some (item_id i) = iid) (items s1)) (\<lambda>i. Inr (item_key i))) (\<lambda>k.
                Inr ((k, available_points p, unlocked_cosmetics p), s1))))"

definition my_inventory :: "db \<Rightarrow> uuid \<Rightarrow> string list res" where
  "my_inventory s u = (case profile_of s u of None \<Rightarrow> Inl DoesNotExist | Some p \<Rightarrow> Inr (unlocked_cosmetics p))"

section \<open>Streaks, proved\<close>

lemma streak_from_days: "i < int (streak_from days c) \<Longrightarrow> 0 \<le> i \<Longrightarrow> c - i \<in> set days"
proof (induction days c arbitrary: i rule: streak_from.induct)
  case (1 days c)
  show ?case
  proof (cases "c \<in> set days")
    case True
    then have "streak_from days c = Suc (streak_from days (c - 1))" by (simp add: streak_from.simps)
    then show ?thesis using 1(1) [OF True, of "i - 1"] 1(2,3) True by (cases "i = 0") auto
  next
    case False
    then show ?thesis using 1(2,3) by (simp add: streak_from.simps)
  qed
qed

lemma streak_from_stops: "c - int (streak_from days c) \<notin> set days"
proof (induction days c rule: streak_from.induct)
  case (1 days c)
  then show ?case by (cases "c \<in> set days") (auto simp: streak_from.simps [of days c] algebra_simps)
qed

definition active_day :: "zone \<Rightarrow> db \<Rightarrow> uuid \<Rightarrow> date \<Rightarrow> bool" where
  "active_day z s u d \<longleftrightarrow>
     list_ex (\<lambda>l. log_user l = u \<and> log_status l = LOG_APPROVED \<and> local_date z (log_created_at l) = d) (action_logs s)"

lemma set_active_days: "d \<in> set (active_days z s today u) \<longleftrightarrow> active_day z s u d \<and> today - STREAK_WINDOW_DAYS \<le> d"
  by (auto simp: active_days_def active_day_def list_ex_iff)

lemma fst_recalculate_streak:
  "fst (recalculate_streak z s now u) =
   (let today = local_date z now; days = active_days z s today u
    in streak_from days (if today \<in> set days then today else today - 1))"
  by (simp add: recalculate_streak_def Let_def split: prod.splits)

text \<open>
  C25: the streak is what it says. With \<open>start\<close> today when today has an approved log and
  yesterday otherwise, a streak of \<open>n\<close> means an approved log of that user on each of the \<open>n\<close>
  local days that end at \<open>start\<close>, and none on the day before them as long as that day lies in
  the window of 400 days, which bounds the streak by 401; a streak below 400 therefore does not
  depend on the window.
\<close>

theorem recalculate_streak_correct:
  fixes z s now u
  defines "n \<equiv> fst (recalculate_streak z s now u)"
    and "today \<equiv> local_date z now"
    and "start \<equiv> (if active_day z s u (local_date z now) then local_date z now else local_date z now - 1)"
  shows "n \<le> 401 \<and> (\<forall>i. i < n \<longrightarrow> active_day z s u (start - int i)) \<and>
    (n < 400 \<longrightarrow> \<not> active_day z s u (start - int n))"
proof -
  let ?days = "active_days z s today u"
  have w: "today \<in> set ?days \<longleftrightarrow> active_day z s u today" by (simp add: set_active_days STREAK_WINDOW_DAYS_def)
  have n: "n = streak_from ?days start"
    unfolding n_def start_def fst_recalculate_streak Let_def using w by (simp add: today_def)
  have in_days: "start - int i \<in> set ?days" if "i < n" for i
    using streak_from_days [of "int i" ?days start] that by (simp add: n)
  have "n \<le> 401"
  proof (rule ccontr)
    assume "\<not> n \<le> 401"
    then have "start - int 401 \<in> set ?days" using in_days [of 401] by simp
    then show False by (auto simp: set_active_days STREAK_WINDOW_DAYS_def start_def today_def split: if_splits)
  qed
  moreover have "\<forall>i. i < n \<longrightarrow> active_day z s u (start - int i)" using in_days by (simp add: set_active_days)
  moreover have "\<not> active_day z s u (start - int n)" if "n < 400"
  proof -
    have "today - STREAK_WINDOW_DAYS \<le> start - int n"
      using that by (auto simp: STREAK_WINDOW_DAYS_def start_def today_def)
    moreover have "start - int n \<notin> set ?days" using streak_from_stops [of start ?days] by (simp add: n)
    ultimately show ?thesis by (simp add: set_active_days)
  qed
  ultimately show ?thesis by blast
qed

text \<open>Approved logs on the last three days, and one five days ago.\<close>

definition demo_day_log :: "uuid \<Rightarrow> date \<Rightarrow> action_log" where
  "demo_day_log k d = demo_log\<lparr>log_id := k, log_created_at := local_midnight mexico_city d\<rparr>"

definition demo_streak :: db where
  "demo_streak = empty_db\<lparr>action_logs := [demo_day_log 1 95, demo_day_log 2 98, demo_day_log 3 99, demo_day_log 4 100],
     profiles := [new_profile 1], next_id := 9\<rparr>"

lemma demo_streak_value: "fst (recalculate_streak mexico_city demo_streak (local_midnight mexico_city 100) 1) = 3"
  by code_simp

lemma demo_streak_today: "active_day mexico_city demo_streak 1 (local_date mexico_city (local_midnight mexico_city 100))"
  by code_simp

theorem recalculate_streak_correct_witness:
  "fst (recalculate_streak mexico_city demo_streak (local_midnight mexico_city 100) 1) = 3 \<and>
   active_day mexico_city demo_streak 1 98 \<and> \<not> active_day mexico_city demo_streak 1 97"
  using recalculate_streak_correct [of mexico_city demo_streak "local_midnight mexico_city 100" 1]
    demo_streak_value demo_streak_today mexico.midnight_day [of 100]
  by (auto dest: spec [of _ 2])

end
