(* ===== verification/Ledger.thy ===== *)
theory Ledger
  imports Actions
begin

text \<open>
  The points ledger: what the requests of the actions app do to balances, clan totals and logs,
  and the properties of registering, auditing and redeeming. A balance is a row
  \<open>(user, total, available)\<close>, a clan total a pair; the ledger is well formed when each of them
  is the sum of the approved logs that credit it.
\<close>

section \<open>Balances and totals\<close>

definition balances :: "db \<Rightarrow> (uuid \<times> int \<times> int) list" where
  "balances s = map (\<lambda>p. (profile_user p, total_points p, available_points p)) (profiles s)"

definition totals :: "db \<Rightarrow> (uuid \<times> int) list" where
  "totals s = map (\<lambda>c. (clan_id c, clan_total_points c)) (clans s)"

definition pay :: "uuid \<Rightarrow> int \<Rightarrow> (uuid \<times> int \<times> int) list \<Rightarrow> (uuid \<times> int \<times> int) list" where
  "pay u n = map (\<lambda>(v, t, a). if v = u then (v, t + n, a + n) else (v, t, a))"

definition pay_clans :: "uuid list \<Rightarrow> int \<Rightarrow> (uuid \<times> int) list \<Rightarrow> (uuid \<times> int) list" where
  "pay_clans cids n = map (\<lambda>(c, t). (c, t + n * int (count_list cids c)))"

text \<open>The catalog: actions give points, items cost some.\<close>

definition catalog :: "db \<Rightarrow> action_master list \<times> exchangeable_item list" where
  "catalog s = (actions s, items s)"

definition catalog_ok :: "action_master list \<times> exchangeable_item list \<Rightarrow> bool" where
  "catalog_ok k \<longleftrightarrow> (\<forall>a \<in> set (fst k). 0 \<le> points a) \<and> (\<forall>i \<in> set (snd k). 0 < points_cost i)"

text \<open>What one log contributes to a person and to a clan.\<close>

definition user_credit :: "uuid \<Rightarrow> action_log \<Rightarrow> int" where
  "user_credit u l = (if log_status l = LOG_APPROVED \<and> log_user l = u then points_awarded l else 0)"

definition clan_credit :: "uuid \<Rightarrow> action_log \<Rightarrow> int" where
  "clan_credit c l = (if log_status l = LOG_APPROVED then points_awarded l * int (count_list (credited_clans l) c) else 0)"

definition sum_logs :: "(action_log \<Rightarrow> int) \<Rightarrow> db \<Rightarrow> int" where
  "sum_logs f s = sum_list (map f (action_logs s))"

lemma add_profile_points_InrD:
  assumes "add_profile_points s u n = Inr s'"
  shows "balances s' = pay u n (balances s)" "s' = s\<lparr>profiles := profiles s'\<rparr>"
    "map profile_user (profiles s') = map profile_user (profiles s)"
  using assms by (auto simp: add_profile_points_def balances_def pay_def qs_update_def split: if_splits)

lemma add_clan_points_InrD:
  assumes "add_clan_points s c n = Inr s'"
  shows "totals s' = pay_clans [c] n (totals s)" "s' = s\<lparr>clans := clans s'\<rparr>"
  using assms by (auto simp: add_clan_points_def totals_def pay_clans_def qs_update_def split: if_splits)

lemma pay_clans_Nil: "pay_clans [] n ts = ts"
  by (auto simp: pay_clans_def intro: map_idI)

lemma pay_clans_Cons: "pay_clans cs n (pay_clans [c] n ts) = pay_clans (c # cs) n ts"
  by (auto simp: pay_clans_def algebra_simps)

lemma add_points_to_clans_simps:
  "add_points_to_clans n [] s = Inr s"
  "add_points_to_clans n (c # cs) s = res_bind (add_clan_points s c n) (add_points_to_clans n cs)"
proof -
  show "add_points_to_clans n [] s = Inr s" by (simp add: add_points_to_clans_def state_of_def)
  show "add_points_to_clans n (c # cs) s = res_bind (add_clan_points s c n) (add_points_to_clans n cs)"
  proof (cases "add_clan_points s c n")
    case (Inr s1)
    then show ?thesis
      by (cases "for_each (\<lambda>c s. map_sum id (\<lambda>s1. ((), s1)) (add_clan_points s c n)) cs s1")
        (auto simp: add_points_to_clans_def state_of_def)
  qed (simp add: add_points_to_clans_def state_of_def)
qed

lemma add_points_to_clans_InrD:
  assumes "add_points_to_clans n cids s = Inr s'"
  shows "totals s' = pay_clans cids n (totals s)" "s' = s\<lparr>clans := clans s'\<rparr>"
proof -
  have "totals s' = pay_clans cids n (totals s) \<and> s' = s\<lparr>clans := clans s'\<rparr>"
    using assms
  proof (induction cids arbitrary: s)
    case (Cons c cs)
    then obtain s1 where 1: "add_clan_points s c n = Inr s1" "add_points_to_clans n cs s1 = Inr s'"
      by (auto simp: add_points_to_clans_simps elim: res_bind_InrE)
    obtain cs1 where s1: "s1 = s\<lparr>clans := cs1\<rparr>" using add_clan_points_InrD(2) [OF 1(1)] by metis
    obtain cs2 where "s' = s1\<lparr>clans := cs2\<rparr>" using Cons.IH [OF 1(2)] by metis
    then have "s' = s\<lparr>clans := clans s'\<rparr>" by (simp add: s1)
    then show ?case using add_clan_points_InrD(1) [OF 1(1)] Cons.IH [OF 1(2)] pay_clans_Cons by simp
  qed (simp add: add_points_to_clans_simps pay_clans_Nil)
  then show "totals s' = pay_clans cids n (totals s)" "s' = s\<lparr>clans := clans s'\<rparr>" by blast+
qed

lemma recalculate_streak_points:
  assumes "u \<in> profile_user ` set (profiles s)"
  shows "balances (snd (recalculate_streak z s now u)) = balances s"
    "snd (recalculate_streak z s now u) = s\<lparr>profiles := profiles (snd (recalculate_streak z s now u))\<rparr>"
proof -
  obtain p where p: "profile_of s u = Some p"
    using assms by (cases "profile_of s u") (auto simp: profile_of_def find_None_iff)
  have e: "ensure_profile s u = (p, s)" by (simp add: ensure_profile_def p)
  show "balances (snd (recalculate_streak z s now u)) = balances s"
    "snd (recalculate_streak z s now u) = s\<lparr>profiles := profiles (snd (recalculate_streak z s now u))\<rparr>"
    by (auto simp: recalculate_streak_def Let_def e balances_def edit_profile_def qs_update_def)
qed

section \<open>Crediting a log\<close>

lemma balance_owner: "u \<in> profile_user ` set (profiles s) \<longleftrightarrow> u \<in> fst ` set (balances s)"
  by (force simp: balances_def)

lemma fst_pay [simp]: "fst ` set (pay u n bs) = fst ` set bs"
  by (force simp: pay_def)

text \<open>What the bookkeeping that follows the points leaves alone.\<close>

definition same_points :: "db \<Rightarrow> db \<Rightarrow> bool" where
  "same_points s s' \<longleftrightarrow> balances s' = balances s \<and> totals s' = totals s \<and> action_logs s' = action_logs s \<and>
     catalog s' = catalog s \<and> badges s' = badges s \<and> missions s' = missions s \<and> users s' = users s \<and> memberships s' = memberships s \<and> next_id s \<le> next_id s'"

lemma same_points_refl [simp]: "same_points s s"
  by (simp add: same_points_def)

lemma same_points_trans: "same_points s t \<Longrightarrow> same_points t u \<Longrightarrow> same_points s u"
  by (simp add: same_points_def)

lemma only_notifications_points: "only_notifications s s' \<Longrightarrow> same_points s s'"
  using only_notifications_frame [of s s'] by (simp add: same_points_def balances_def totals_def catalog_def)

lemma only_badges_points: "only_badges s s' \<Longrightarrow> same_points s s'"
  by (elim only_badgesE) (simp add: same_points_def balances_def totals_def catalog_def)

lemma only_progress_points: "only_progress s s' \<Longrightarrow> same_points s s'"
  using only_progress_frame [of s s'] by (simp add: same_points_def balances_def totals_def catalog_def)

lemma streak_points:
  "u \<in> fst ` set (balances s) \<Longrightarrow> same_points s (snd (recalculate_streak z s now u))"
proof -
  assume "u \<in> fst ` set (balances s)"
  then have u: "u \<in> profile_user ` set (profiles s)" by (simp add: balance_owner)
  obtain ps where "snd (recalculate_streak z s now u) = s\<lparr>profiles := ps\<rparr>"
    using recalculate_streak_points(2) [OF u] by metis
  then show ?thesis using recalculate_streak_points(1) [OF u, of z now] by (simp add: same_points_def totals_def catalog_def)
qed

lemma notify_mission_progress_only:
  assumes "progress_rows_ok s" "notify_mission_progress s now l = Inr (ps, s')"
  shows "progress_rows_ok s' \<and> only_progress s s'"
  using assms apply_only [OF assms(1), of now l ps s'] by (auto simp: notify_mission_progress_def split: if_splits)

lemma revert_mission_progress_only:
  assumes "progress_rows_ok s" "revert_mission_progress s now l = Inr (ps, s')"
  shows "progress_rows_ok s' \<and> only_progress s s'"
  using assms revert_only [OF assms(1), of now l ps s'] by (auto simp: revert_mission_progress_def split: if_splits)

lemma streak_progress [simp]:
  "mission_progresses (snd (recalculate_streak z s now u)) = mission_progresses s"
  "next_id (snd (recalculate_streak z s now u)) = next_id s"
  "contributions (snd (recalculate_streak z s now u)) = contributions s"
  "action_logs (snd (recalculate_streak z s now u)) = action_logs s"
  "missions (snd (recalculate_streak z s now u)) = missions s"
  by (auto simp: recalculate_streak_def ensure_profile_def edit_profile_def Let_def split: option.splits)

lemma same_points_owner: "same_points s s' \<Longrightarrow> fst ` set (balances s') = fst ` set (balances s)"
  by (simp add: same_points_def)

lemma credit_log_InrD:
  assumes "progress_rows_ok s" "log_user l \<in> fst ` set (balances s)" "credit_log z s now l = Inr s'"
  shows "balances s' = pay (log_user l) (points_awarded l) (balances s)"
    "totals s' = pay_clans (credited_clans l) (points_awarded l) (totals s)"
    "action_logs s' = action_logs s" "catalog s' = catalog s" "progress_rows_ok s'" "next_id s \<le> next_id s'"
proof -
  from assms(3) obtain s1 s2 s3 ps s4 where
    1: "add_profile_points s (log_user l) (points_awarded l) = Inr s1"
      "add_points_to_clans (points_awarded l) (credited_clans l) s1 = Inr s2"
      "check_and_award_badges s2 now (log_user l) = Inr s3"
      "notify_mission_progress s3 now l = Inr (ps, s4)"
      "s' = snd (recalculate_streak z s4 now (log_user l))"
    by (auto simp: credit_log_def elim!: res_bind_InrE)
  note a = add_profile_points_InrD [OF 1(1)] and b = add_points_to_clans_InrD [OF 1(2)]
    and c = check_and_award_only [OF 1(3)]
  obtain ps1 cs2 where s2: "s1 = s\<lparr>profiles := ps1\<rparr>" "s2 = s1\<lparr>clans := cs2\<rparr>" using a(2) b(2) by metis
  have p3: "progress_rows_ok s3"
    by (rule progress_rows_ok_mono [OF assms(1)]) (use only_badges_frame(10,16) [OF c] in \<open>simp_all add: s2\<close>)
  note d = notify_mission_progress_only [OF p3 1(4)]
  have pts: "same_points s2 s4"
    using only_badges_points [OF c] only_progress_points d by (blast intro: same_points_trans)
  have e: "balances s2 = balances s1" "totals s1 = totals s" by (simp_all add: s2 balances_def totals_def)
  have own: "log_user l \<in> fst ` set (balances s4)"
    unfolding same_points_owner [OF pts] e(1) a(1) using assms(2) by simp
  have all: "same_points s2 s'" using same_points_trans [OF pts streak_points [OF own, of z now]] by (simp add: 1(5))
  show "balances s' = pay (log_user l) (points_awarded l) (balances s)"
    "totals s' = pay_clans (credited_clans l) (points_awarded l) (totals s)"
    "action_logs s' = action_logs s" "catalog s' = catalog s" "next_id s \<le> next_id s'"
    using all a(1) b(1) e by (simp_all add: same_points_def s2 catalog_def)
  show "progress_rows_ok s'" using d by (auto simp: 1(5) intro: progress_rows_ok_mono)
qed

lemma revoke_InrD:
  assumes "distinct (map fst (balances s))" "revoke_awarded_points s l = Inr s'"
  shows "balances s' = pay (log_user l) (- points_awarded l) (balances s)"
    "totals s' = pay_clans (credited_clans l) (- points_awarded l) (totals s)"
    "s' = s\<lparr>profiles := profiles s', clans := clans s'\<rparr>" "log_user l \<in> fst ` set (balances s)"
    "\<forall>(v, t, a) \<in> set (balances s). v = log_user l \<longrightarrow> points_awarded l \<le> a"
proof -
  from assms(2) obtain p s1 where 1: "qs_get (\<lambda>p. profile_user p = log_user l) (profiles s) = Inr p"
    "points_awarded l \<le> available_points p" "add_profile_points s (log_user l) (- points_awarded l) = Inr s1"
    "add_points_to_clans (- points_awarded l) (credited_clans l) s1 = Inr s'"
    by (auto simp: revoke_awarded_points_def not_less elim!: res_bind_InrE split: if_splits)
  note a = add_profile_points_InrD [OF 1(3)] and b = add_points_to_clans_InrD [OF 1(4)]
  obtain ps1 cs2 where s': "s1 = s\<lparr>profiles := ps1\<rparr>" "s' = s1\<lparr>clans := cs2\<rparr>" using a(2) b(2) by metis
  have e: "balances s' = balances s1" "totals s1 = totals s" by (simp_all add: s' balances_def totals_def)
  show "balances s' = pay (log_user l) (- points_awarded l) (balances s)" using a(1) e by simp
  show "totals s' = pay_clans (credited_clans l) (- points_awarded l) (totals s)" using b(1) e by simp
  show "s' = s\<lparr>profiles := profiles s', clans := clans s'\<rparr>" by (simp add: s')
  show "log_user l \<in> fst ` set (balances s)" using qs_get_InrD(1,2) [OF 1(1)] unfolding balance_owner [symmetric] by (metis imageI)
  show "\<forall>(v, t, a) \<in> set (balances s). v = log_user l \<longrightarrow> points_awarded l \<le> a"
    using qs_get_InrD(3) [OF 1(1)] 1(2) by (auto simp: balances_def)
qed

section \<open>The invariant\<close>

definition ledger_ok :: "db \<Rightarrow> bool" where
  "ledger_ok s \<longleftrightarrow>
     distinct (map fst (balances s)) \<and>
     (\<forall>(v, t, a) \<in> set (balances s). t = sum_logs (user_credit v) s \<and> 0 \<le> a \<and> a \<le> t) \<and>
     (\<forall>(c, t) \<in> set (totals s). t = sum_logs (clan_credit c) s) \<and>
     table_ok log_id (next_id s) (action_logs s) \<and>
     (\<forall>l \<in> set (action_logs s). 0 \<le> points_awarded l \<and> log_user l \<in> fst ` set (balances s)) \<and>
     catalog_ok (catalog s) \<and> progress_rows_ok s"

lemma sum_save:
  assumes "distinct (map pk rows)" "r \<in> set rows" "pk r' = pk r"
  shows "sum_list (map f (qs_update (\<lambda>x. pk x = pk r') (\<lambda>_. r') rows)) = sum_list (map f rows) - f r + (f r' :: int)"
  using assms(1,2)
proof (induction rows)
  case (Cons x rows)
  show ?case
  proof (cases "x = r")
    case True
    have "qs_update (\<lambda>x. pk x = pk r') (\<lambda>_. r') rows = rows"
      using Cons.prems(1) True assms(3) by (intro qs_update_none) (auto simp: image_iff)
    then show ?thesis using True assms(3) by (simp add: qs_update_def)
  next
    case False
    then have "pk x \<noteq> pk r'" using Cons.prems assms(3) by (auto simp: image_iff)
    then show ?thesis using Cons False by (simp add: qs_update_def)
  qed
qed simp

lemma sum_logs_save:
  assumes "table_ok log_id n (action_logs s)" "l \<in> set (action_logs s)" "log_id l' = log_id l"
  shows "sum_logs f (save_log l' s) = sum_logs f s - f l + f l'"
  using sum_save [OF table_ok_distinct [OF assms(1)] assms(2,3)] by (simp add: sum_logs_def save_log_def)

text \<open>
  A state moves by \<open>n\<close> points for the person and the clans of \<open>l\<close> when balances, totals and the
  sums over the logs all move by them; then the sums still agree.
\<close>

lemma ledger_move:
  assumes ok: "ledger_ok s"
    and b: "balances s' = pay (log_user l) n (balances s)" and t: "totals s' = pay_clans (credited_clans l) n (totals s)"
    and u: "\<And>v. sum_logs (user_credit v) s' = sum_logs (user_credit v) s + (if v = log_user l then n else 0)"
    and c: "\<And>c. sum_logs (clan_credit c) s' = sum_logs (clan_credit c) s + n * int (count_list (credited_clans l) c)"
    and av: "\<forall>(v, t, a) \<in> set (balances s). v = log_user l \<longrightarrow> 0 \<le> a + n"
    and logs: "table_ok log_id (next_id s') (action_logs s')"
      "\<forall>x \<in> set (action_logs s'). 0 \<le> points_awarded x \<and> log_user x \<in> fst ` set (balances s)"
    and rest: "catalog_ok (catalog s')" "progress_rows_ok s'"
  shows "ledger_ok s'"
proof -
  have "distinct (map fst (balances s'))"
  proof -
    have "map fst (pay (log_user l) n bs) = map fst bs" for bs by (auto simp: pay_def)
    then show ?thesis using ok by (simp add: b ledger_ok_def)
  qed
  moreover have "\<forall>(v, t, a) \<in> set (balances s'). t = sum_logs (user_credit v) s' \<and> 0 \<le> a \<and> a \<le> t"
  proof (clarify)
    fix v t a assume "(v, t, a) \<in> set (balances s')"
    then obtain t0 a0 where 0: "(v, t0, a0) \<in> set (balances s)"
      "t = t0 + (if v = log_user l then n else 0)" "a = a0 + (if v = log_user l then n else 0)"
      by (auto simp: b pay_def split: if_splits)
    have "t0 = sum_logs (user_credit v) s \<and> 0 \<le> a0 \<and> a0 \<le> t0" using ok 0(1) by (auto simp: ledger_ok_def)
    moreover have "v = log_user l \<Longrightarrow> 0 \<le> a0 + n" using av 0(1) by auto
    ultimately show "t = sum_logs (user_credit v) s' \<and> 0 \<le> a \<and> a \<le> t" using 0(2,3) u [of v] by auto
  qed
  moreover have "\<forall>(c, t) \<in> set (totals s'). t = sum_logs (clan_credit c) s'"
    using ok unfolding t c by (auto simp: pay_clans_def ledger_ok_def)
  ultimately show ?thesis using logs rest by (simp add: ledger_ok_def b)
qed

lemma ledger_cong:
  assumes "ledger_ok s" "balances s' = balances s" "totals s' = totals s" "action_logs s' = action_logs s"
    "catalog s' = catalog s" "mission_progresses s' = mission_progresses s" "next_id s \<le> next_id s'"
  shows "ledger_ok s'"
proof -
  have "progress_rows_ok s'" using assms by (auto simp: ledger_ok_def intro: progress_rows_ok_mono)
  then show ?thesis using assms by (auto simp: ledger_ok_def sum_logs_def intro: table_ok_mono)
qed

section \<open>Registering a log\<close>

lemma save_evidence_InrD:
  "save_action_evidence s u up = Inr (key, s1) \<Longrightarrow> s1 = s\<lparr>media := media s1, next_id := next_id s1\<rparr> \<and> next_id s \<le> next_id s1"
  by (auto simp: save_action_evidence_def store_key_def Let_def split: sum.splits option.splits)

lemma share_log_InrD:
  assumes "share_log env s now a l = Inr s1"
  shows "s1 = s\<lparr>posts := posts s1, next_id := next_id s1\<rparr> \<and> next_id s \<le> next_id s1"
proof (cases "is_shared_publicly l")
  case True
  with assms obtain p where "post_create (valid_url env) s now (Some (log_user l)) SHARED_EVIDENCE
      (build_shared_evidence_content a (points_awarded l)) (resolve_evidence_image_url (evidence_object_key l)) None = Inr (p, s1)"
    by (auto simp: share_log_def create_shared_evidence_post_def dest!: state_of_InrE)
  from post_create_InrD(1) [OF this] show ?thesis by simp
qed (use assms in \<open>simp add: share_log_def\<close>)

text \<open>The log a request registers, in the order of the columns.\<close>

definition new_log :: "uuid \<Rightarrow> datetime \<Rightarrow> uuid \<Rightarrow> action_master \<Rightarrow> uuid \<Rightarrow> uuid option \<Rightarrow> log_data \<Rightarrow> string \<Rightarrow> action_log" where
  "new_log k now u a c priv d key =
     \<lparr>log_id = k, log_user = u, log_action = action_id a, log_institutional_clan = c, credited_private_clan = priv,
      log_campaign = None, idempotency_key = data_idempotency_key d, points_awarded = points a,
      co2_kg_factor_snapshot = co2_kg_factor a, water_liters_factor_snapshot = water_liters_factor a,
      plastic_kg_factor_snapshot = plastic_kg_factor a, log_status = initial_log_status a,
      evidence_object_key = key, is_shared_publicly = data_shared d, log_reviewed_by = None,
      log_reviewed_at = None, log_rejection_reason = [], log_created_at = now\<rparr>"

lemma action_log_create_InrD:
  assumes "action_log_create s now u a c priv d key = Inr (l, s')"
  shows "l = new_log (next_id s) now u a c priv d key" "s' = s\<lparr>action_logs := action_logs s @ [l], next_id := Suc (next_id s)\<rparr>"
  using assms by (auto simp: action_log_create_def new_log_def Let_def split: if_splits)

lemma get_profile_clans_InrD:
  "get_profile_clans s u = Inr (p, inst, priv) \<Longrightarrow>
   p \<in> set (profiles s) \<and> profile_user p = u \<and> inst = institutional_clan p \<and> priv = get_active_private_clan s u"
  by (auto simp: get_profile_clans_def dest: qs_get_InrD elim!: res_bind_InrE)

lemma create_cases:
  assumes "create_action_log z env s requested_at now uid d = Inr (r, s')"
  obtains (refused) "s' = s" "\<And>st k. r \<noteq> Logged st k"
  | (logged) a p c key s1 l s2 s3 where
      "a \<in> set (actions s)" "action_id a = data_action d" "action_is_active a"
      "\<forall>x \<in> set (action_logs s). \<not> (log_user x = uid \<and> idempotency_key x = data_idempotency_key d)"
      "count_user_action_logs_for_local_day z s now uid (action_id a) < daily_limit a"
      "p \<in> set (profiles s)" "profile_user p = uid" "institutional_clan p = Some c"
      "s1 = s\<lparr>media := media s1, next_id := next_id s1\<rparr>" "next_id s \<le> next_id s1"
      "data_evidence d = None \<Longrightarrow> key = data_evidence_key d"
      "l = new_log (next_id s1) now uid a c (get_active_private_clan s uid) d key"
      "s2 = s1\<lparr>action_logs := action_logs s @ [l], next_id := Suc (next_id s1)\<rparr>"
      "s3 = s2\<lparr>posts := posts s3, next_id := next_id s3\<rparr>" "next_id s2 \<le> next_id s3"
      "r = Logged (log_status l) (log_id l)"
      "if log_status l = LOG_APPROVED then credit_log z s3 now l = Inr s' else s' = s3"
proof -
  from assms obtain u where w: "get_user s uid = Inr u" "ensure_account_writable s u (Some requested_at) = Inr ()"
    by (auto simp: create_action_log_def elim!: res_bind_InrE)
  note body = assms [unfolded create_action_log_def w res_bind_simps]
  show thesis
  proof (cases "qs_first log_id (filter (\<lambda>l. log_user l = uid \<and> idempotency_key l = data_idempotency_key d) (action_logs s))")
    case (Some l)
    with body show thesis by (intro refused) (auto split: if_splits)
  next
    case fresh: None
    then have none: "\<forall>x \<in> set (action_logs s). \<not> (log_user x = uid \<and> idempotency_key x = data_idempotency_key d)"
      by (simp add: filter_empty_conv)
    show thesis
    proof (cases "qs_get (\<lambda>a. action_id a = data_action d \<and> action_is_active a) (actions s)")
      case (Inl e)
      with body fresh show thesis by (intro refused) (auto split: exc.splits)
    next
      case act: (Inr a)
      note a = qs_get_InrD(1,2) [OF act]
      show thesis
      proof (cases "(validation_type a = PHOTO \<and> data_evidence d = None \<and> data_evidence_key d = []) \<or>
          count_user_action_logs_for_local_day z s now uid (action_id a) \<ge> daily_limit a")
        case True
        with body fresh act show thesis by (intro refused) (auto split: if_splits)
      next
        case False
        with body fresh act obtain p inst priv where g: "get_profile_clans s uid = Inr (p, inst, priv)"
          by (auto split: if_splits elim!: res_bind_InrE)
        note p = get_profile_clans_InrD [OF g]
        show thesis
        proof (cases inst)
          case None
          with body fresh act False g show thesis by (intro refused) (auto split: if_splits)
        next
          case (Some c)
          with body fresh act False g obtain key s1 l s2 s3 where
            k: "(case data_evidence d of None \<Rightarrow> Inr (data_evidence_key d, s) | Some up \<Rightarrow> save_action_evidence s uid up) = Inr (key, s1)"
            and cr: "action_log_create s1 now uid a c priv d key = Inr (l, s2)"
            and sh: "share_log env s2 now a l = Inr s3" and r: "r = Logged (log_status l) (log_id l)"
            and e: "(if log_status l = LOG_APPROVED then credit_log z s3 now l else Inr s3) = Inr s'"
            by (auto split: if_splits elim!: res_bind_InrE)
          have s1: "s1 = s\<lparr>media := media s1, next_id := next_id s1\<rparr>" "next_id s \<le> next_id s1"
            "data_evidence d = None \<Longrightarrow> key = data_evidence_key d"
            using k save_evidence_InrD [of s uid] by (auto split: option.splits)
          have "action_logs s1 = action_logs s" by (subst s1(1)) simp
          with action_log_create_InrD [OF cr] share_log_InrD [OF sh] p a none False s1 r e Some show thesis
            by (intro logged [of a p c s1 key l s2 s3]) (auto split: if_splits)
        qed
      qed
    qed
  qed
qed

lemma pay_0 [simp]: "pay u 0 bs = bs" "pay_clans cids 0 ts = ts"
  by (auto simp: pay_def pay_clans_def intro: map_idI)

lemma ledger_ok_rows: "ledger_ok s \<Longrightarrow> table_ok log_id (next_id s) (action_logs s) \<and> progress_rows_ok s \<and> distinct (map fst (balances s))"
  by (simp add: ledger_ok_def)

lemma create_keeps:
  assumes ok: "ledger_ok s" and c: "create_action_log z env s requested_at now uid d = Inr (r, s')"
  shows "ledger_ok s'"
  using c
proof (cases rule: create_cases)
  case refused
  with ok show ?thesis by simp
next
  case (logged a p c key s1 l s2 s3)
  let ?n = "if log_status l = LOG_APPROVED then points_awarded l else 0"
  obtain ms n1 ps n3 where st: "s1 = s\<lparr>media := ms, next_id := n1\<rparr>" "s3 = s2\<lparr>posts := ps, next_id := n3\<rparr>"
    using logged(9,14) by metis
  have n: "next_id s \<le> n1" "Suc n1 \<le> n3" using logged(10,13,15) by (simp_all add: st)
  have l: "log_user l = uid" "points_awarded l = points a" "log_id l = n1" using logged(12) by (simp_all add: new_log_def st)
  have s3: "balances s3 = balances s" "totals s3 = totals s" "action_logs s3 = action_logs s @ [l]" "catalog s3 = catalog s"
      "mission_progresses s3 = mission_progresses s" "next_id s3 = n3"
    by (simp_all add: st logged(13) balances_def totals_def catalog_def)
  have own: "uid \<in> fst ` set (balances s)" using logged(6,7) by (force simp: balances_def)
  have pr: "progress_rows_ok s3"
    by (rule progress_rows_ok_mono [of s]) (use ok n s3 in \<open>auto simp: ledger_ok_def\<close>)
  have eff: "balances s' = pay (log_user l) ?n (balances s)" "totals s' = pay_clans (credited_clans l) ?n (totals s)"
      "action_logs s' = action_logs s @ [l]" "catalog s' = catalog s" "progress_rows_ok s'" "n3 \<le> next_id s'"
    using credit_log_InrD [of s3 l z now s'] logged(17) own pr s3 l(1) by (auto split: if_splits)
  show ?thesis
  proof (rule ledger_move [OF ok eff(1,2)])
    show "sum_logs (user_credit v) s' = sum_logs (user_credit v) s + (if v = log_user l then ?n else 0)" for v
      by (simp add: sum_logs_def eff(3) user_credit_def)
    show "sum_logs (clan_credit c) s' = sum_logs (clan_credit c) s + ?n * int (count_list (credited_clans l) c)" for c
      by (simp add: sum_logs_def eff(3) clan_credit_def)
    have pos: "0 \<le> points_awarded l" using ok logged(1) l(2) by (simp add: ledger_ok_def catalog_ok_def catalog_def)
    then show "\<forall>(v, t, a) \<in> set (balances s). v = log_user l \<longrightarrow> 0 \<le> a + ?n" using ok by (auto simp: ledger_ok_def)
    show "\<forall>x \<in> set (action_logs s'). 0 \<le> points_awarded x \<and> log_user x \<in> fst ` set (balances s)"
      using ok own pos l(1) by (auto simp: eff(3) ledger_ok_def)
    have "table_ok log_id n1 (action_logs s)" using ok n(1) by (auto simp: ledger_ok_def intro: table_ok_mono)
    from table_ok_snoc [of log_id n1 "action_logs s" l, OF this l(3)] n(2) eff(6)
    show "table_ok log_id (next_id s') (action_logs s')" by (auto simp: eff(3) intro: table_ok_mono)
    show "catalog_ok (catalog s')" using ok by (simp add: eff(4) ledger_ok_def)
  qed (rule eff(5))
qed

section \<open>Auditing a log\<close>

lemma audit_cases:
  assumes "audit_action_log z s now admin lid approve raw = Inr (r, s')"
  obtains (refused) "s' = s" "r \<noteq> Audited"
  | (approved) l l1 where "approve" "r = Audited" "l \<in> set (action_logs s)" "log_id l = lid" "log_status l = LOG_PENDING_AUDIT"
      "l1 = review_log True (py_strip raw) admin now l" "approve_log z (save_log l1 s) now l1 = Inr s'"
  | (rejected) l l1 s1 where "\<not> approve" "r = Audited" "py_strip raw \<noteq> []" "l \<in> set (action_logs s)" "log_id l = lid"
      "log_status l = LOG_PENDING_AUDIT \<and> s1 = s \<or> log_status l = LOG_APPROVED \<and> revoke_awarded_points s l = Inr s1"
      "l1 = review_log False (py_strip raw) admin now l" "reject_log z (save_log l1 s1) now l1 (py_strip raw) = Inr s'"
proof -
  let ?P = "\<lambda>l. log_id l = lid \<and> (log_status l = LOG_PENDING_AUDIT \<or> \<not> approve \<and> log_status l = LOG_APPROVED)"
  have v: "validate_audit approve raw = Inr (py_strip raw)" and ne: "\<not> approve \<Longrightarrow> py_strip raw \<noteq> []"
    using assms by (auto simp: audit_action_log_def validate_audit_def elim!: res_bind_InrE split: if_splits)
  note body = assms [unfolded audit_action_log_def v res_bind_simps Let_def]
  show thesis
  proof (cases "qs_get ?P (action_logs s)")
    case (Inl e)
    with body show thesis by (intro refused) (auto split: exc.splits)
  next
    case (Inr l)
    note l = qs_get_InrD(1,2) [OF Inr]
    show thesis
    proof (cases "if log_status l = LOG_APPROVED then revoke_awarded_points s l else Inr s")
      case i: (Inl e)
      with body Inr show thesis by (intro refused) (auto split: exc.splits)
    next
      case s1: (Inr s1)
      from body obtain "r = Audited" "(if approve then approve_log z (save_log (review_log approve (py_strip raw) admin now l) s1) now
            (review_log approve (py_strip raw) admin now l)
          else reject_log z (save_log (review_log approve (py_strip raw) admin now l) s1) now
            (review_log approve (py_strip raw) admin now l) (py_strip raw)) = Inr s'"
        by (simp only: Inr s1 sum.case) (auto elim!: res_bind_InrE)
      with l ne s1 show thesis
        by (cases approve) (auto intro: approved rejected split: if_splits)
    qed
  qed
qed

lemma review_cols [simp]:
  "log_id (review_log b reason admin now l) = log_id l" "log_user (review_log b reason admin now l) = log_user l"
  "points_awarded (review_log b reason admin now l) = points_awarded l"
  "credited_clans (review_log b reason admin now l) = credited_clans l"
  "log_status (review_log b reason admin now l) = (if b then LOG_APPROVED else LOG_REJECTED)"
  "log_action (review_log b reason admin now l) = log_action l"
  by (simp_all add: review_log_def credited_clans_def)

lemma save_log_tables [simp]:
  "balances (save_log l s) = balances s" "totals (save_log l s) = totals s" "next_id (save_log l s) = next_id s"
  "mission_progresses (save_log l s) = mission_progresses s" "catalog (save_log l s) = catalog s"
  "contributions (save_log l s) = contributions s" "missions (save_log l s) = missions s"
  by (simp_all add: save_log_def balances_def totals_def catalog_def)

lemma approve_log_InrD:
  assumes "progress_rows_ok s" "log_user l \<in> fst ` set (balances s)" "approve_log z s now l = Inr s'"
  shows "balances s' = pay (log_user l) (points_awarded l) (balances s)"
    "totals s' = pay_clans (credited_clans l) (points_awarded l) (totals s)"
    "action_logs s' = action_logs s" "catalog s' = catalog s" "progress_rows_ok s'" "next_id s \<le> next_id s'"
proof -
  from assms(3) obtain s1 n ty ctx where 1: "credit_log z s now l = Inr s1" "notify s1 now (log_user l) ty ctx = Inr (n, s')"
    by (auto simp: approve_log_def elim!: res_bind_InrE dest!: state_of_InrE split: if_splits)
  note c = credit_log_InrD [OF assms(1,2) 1(1)]
  have o: "only_notifications s1 s'" using 1(2) by (rule notify_only)
  have f: "same_points s1 s'" "mission_progresses s' = mission_progresses s1"
    using only_notifications_points [OF o] only_notifications_frame [OF o] by simp_all
  show "balances s' = pay (log_user l) (points_awarded l) (balances s)"
    "totals s' = pay_clans (credited_clans l) (points_awarded l) (totals s)"
    "action_logs s' = action_logs s" "catalog s' = catalog s" "next_id s \<le> next_id s'"
    using c f by (simp_all add: same_points_def)
  show "progress_rows_ok s'" using progress_rows_ok_mono [OF c(5) f(2)] f(1) by (simp add: same_points_def)
qed

lemma reject_log_InrD:
  assumes "progress_rows_ok s" "log_user l \<in> fst ` set (balances s)" "reject_log z s now l reason = Inr s'"
  shows "same_points s s'" "progress_rows_ok s'"
proof -
  from assms(3) obtain n s1 ps s2 where 1: "notify s now (log_user l) AUDIT_REJECT [(''reason'', reason)] = Inr (n, s1)"
    "revert_mission_progress s1 now l = Inr (ps, s2)" "s' = snd (recalculate_streak z s2 now (log_user l))"
    by (auto simp: reject_log_def elim!: res_bind_InrE)
  have o: "only_notifications s s1" using 1(1) by (rule notify_only)
  have p1: "progress_rows_ok s1"
    by (rule progress_rows_ok_mono [OF assms(1)]) (use only_notifications_frame [OF o] in simp_all)
  note r = revert_mission_progress_only [OF p1 1(2)]
  have pts: "same_points s s2" using only_notifications_points [OF o] only_progress_points r by (blast intro: same_points_trans)
  then show "same_points s s'"
    using streak_points [of "log_user l" s2 z now] same_points_owner [OF pts] assms(2)
    by (auto simp: 1(3) intro: same_points_trans)
  show "progress_rows_ok s'" using r by (auto simp: 1(3) intro: progress_rows_ok_mono)
qed

lemma saved_logs:
  assumes "ledger_ok s" "l \<in> set (action_logs s)" "log_id l1 = log_id l" "log_user l1 = log_user l" "points_awarded l1 = points_awarded l"
  shows "table_ok log_id (next_id s) (action_logs (save_log l1 s))"
    "\<forall>x \<in> set (action_logs (save_log l1 s)). 0 \<le> points_awarded x \<and> log_user x \<in> fst ` set (balances s)"
proof -
  have "table_ok log_id (next_id s) (action_logs s)" using assms(1) by (simp add: ledger_ok_def)
  then show "table_ok log_id (next_id s) (action_logs (save_log l1 s))"
    unfolding save_log_def by (simp add: table_ok_update_row)
  show "\<forall>x \<in> set (action_logs (save_log l1 s)). 0 \<le> points_awarded x \<and> log_user x \<in> fst ` set (balances s)"
    using assms unfolding save_log_def by (auto simp: ball_qs_update ledger_ok_def)
qed

lemma audit_keeps:
  assumes ok: "ledger_ok s" and a: "audit_action_log z s now admin lid approve raw = Inr (r, s')"
  shows "ledger_ok s'"
  using a
proof (cases rule: audit_cases)
  case refused
  with ok show ?thesis by simp
next
  case (approved l l1)
  have own: "log_user l \<in> fst ` set (balances s)" and pos: "0 \<le> points_awarded l" using ok approved(3) by (auto simp: ledger_ok_def)
  have pr: "progress_rows_ok (save_log l1 s)"
    by (rule progress_rows_ok_mono [of s]) (use ok in \<open>simp_all add: ledger_ok_def\<close>)
  have l1: "log_user l1 = log_user l" "points_awarded l1 = points_awarded l" "log_id l1 = log_id l"
      "log_status l1 = LOG_APPROVED" "credited_clans l1 = credited_clans l" by (simp_all add: approved(6))
  have u1: "log_user l1 \<in> fst ` set (balances (save_log l1 s))" using own l1 by simp
  note e = approve_log_InrD [OF pr u1 approved(7)]
  have sl: "sum_logs f s' = sum_logs f s - f l + f l1" for f
    using sum_logs_save [OF conjunct1 [OF ledger_ok_rows [OF ok]] approved(3) l1(3), of f] e(3) by (simp add: sum_logs_def)
  note lg = saved_logs [OF ok approved(3) l1(3,1,2)]
  show ?thesis
  proof (rule ledger_move [OF ok, where l = l1 and n = "points_awarded l1"])
    show "balances s' = pay (log_user l1) (points_awarded l1) (balances s)"
      "totals s' = pay_clans (credited_clans l1) (points_awarded l1) (totals s)" using e(1,2) by simp_all
    show "sum_logs (user_credit v) s' = sum_logs (user_credit v) s + (if v = log_user l1 then points_awarded l1 else 0)" for v
      using approved(5) l1 by (simp add: sl user_credit_def)
    show "sum_logs (clan_credit c) s' = sum_logs (clan_credit c) s + points_awarded l1 * int (count_list (credited_clans l1) c)" for c
      using approved(5) l1 by (simp add: sl clan_credit_def)
    show "\<forall>(v, t, a) \<in> set (balances s). v = log_user l1 \<longrightarrow> 0 \<le> a + points_awarded l1"
      using ok pos l1 by (auto simp: ledger_ok_def)
    show "table_ok log_id (next_id s') (action_logs s')" using lg(1) e(6) by (simp add: e(3) table_ok_mono)
    show "\<forall>x \<in> set (action_logs s'). 0 \<le> points_awarded x \<and> log_user x \<in> fst ` set (balances s)" using lg(2) by (simp only: e(3))
    show "catalog_ok (catalog s')" using ok by (simp add: e(4) ledger_ok_def)
  qed (rule e(5))
next
  case (rejected l l1 s1)
  let ?n = "if log_status l = LOG_APPROVED then - points_awarded l else 0"
  have own: "log_user l \<in> fst ` set (balances s)" using ok rejected(4) by (auto simp: ledger_ok_def)
  have l1: "log_user l1 = log_user l" "points_awarded l1 = points_awarded l" "log_id l1 = log_id l"
      "log_status l1 = LOG_REJECTED" "credited_clans l1 = credited_clans l" by (simp_all add: rejected(7))
  have s1: "balances s1 = pay (log_user l) ?n (balances s)" "totals s1 = pay_clans (credited_clans l) ?n (totals s)"
      "s1 = s\<lparr>profiles := profiles s1, clans := clans s1\<rparr>"
      "\<forall>(v, t, a) \<in> set (balances s). v = log_user l \<longrightarrow> 0 \<le> a + ?n"
    using rejected(6) revoke_InrD [of s l s1] ok by (auto simp: ledger_ok_def)
  obtain ps cs where st: "s1 = s\<lparr>profiles := ps, clans := cs\<rparr>" using s1(3) by metis
  have pr: "progress_rows_ok (save_log l1 s1)"
    by (rule progress_rows_ok_mono [of s]) (use ok in \<open>simp_all add: ledger_ok_def st\<close>)
  have u1: "log_user l1 \<in> fst ` set (balances (save_log l1 s1))" using own l1 s1(1) by simp
  note e = reject_log_InrD [OF pr u1 rejected(8)]
  have logs: "action_logs s' = action_logs (save_log l1 s)" "next_id s \<le> next_id s'" "catalog s' = catalog s"
      "balances s' = balances s1" "totals s' = totals s1"
    using e(1) by (simp_all add: same_points_def save_log_def st balances_def totals_def catalog_def)
  have sl: "sum_logs f s' = sum_logs f s - f l + f l1" for f
    using sum_logs_save [OF conjunct1 [OF ledger_ok_rows [OF ok]] rejected(4) l1(3), of f] logs(1) by (simp add: sum_logs_def)
  note lg = saved_logs [OF ok rejected(4) l1(3,1,2)]
  show ?thesis
  proof (rule ledger_move [OF ok, where l = l and n = ?n])
    show "balances s' = pay (log_user l) ?n (balances s)" "totals s' = pay_clans (credited_clans l) ?n (totals s)"
      using logs s1 by simp_all
    show "sum_logs (user_credit v) s' = sum_logs (user_credit v) s + (if v = log_user l then ?n else 0)" for v
      using l1 by (simp add: sl user_credit_def)
    show "sum_logs (clan_credit c) s' = sum_logs (clan_credit c) s + ?n * int (count_list (credited_clans l) c)" for c
      using l1 by (simp add: sl clan_credit_def)
    show "table_ok log_id (next_id s') (action_logs s')" using lg(1) logs(2) by (simp add: logs(1) table_ok_mono)
    show "\<forall>x \<in> set (action_logs s'). 0 \<le> points_awarded x \<and> log_user x \<in> fst ` set (balances s)" using lg(2) by (simp only: logs(1))
    show "catalog_ok (catalog s')" using ok by (simp add: logs(3) ledger_ok_def)
  qed (use s1(4) e(2) in auto)
qed

section \<open>Spending\<close>

lemma sum_logs_none: "\<forall>l \<in> set (action_logs s). log_user l \<noteq> u \<Longrightarrow> sum_logs (user_credit u) s = 0"
proof -
  have "\<forall>l \<in> set ls. log_user l \<noteq> u \<Longrightarrow> sum_list (map (user_credit u) ls) = 0" for ls
    by (induction ls) (auto simp: user_credit_def)
  then show "\<forall>l \<in> set (action_logs s). log_user l \<noteq> u \<Longrightarrow> sum_logs (user_credit u) s = 0" by (simp add: sum_logs_def)
qed

lemma ensure_profile_ledger:
  assumes ok: "ledger_ok s" and e: "ensure_profile s u = (p, s1)"
  shows "ledger_ok s1" "p \<in> set (profiles s1)" "profile_user p = u" "q \<in> set (profiles s1) \<Longrightarrow> profile_user q = u \<Longrightarrow> q = p"
    "action_logs s1 = action_logs s" "items s1 = items s" "s1 = s\<lparr>profiles := profiles s1\<rparr>"
proof -
  have "ledger_ok s1 \<and> p \<in> set (profiles s1) \<and> profile_user p = u"
  proof (cases "profile_of s u")
    case (Some q)
    then have "p = q" "s1 = s" using e by (simp_all add: ensure_profile_def)
    moreover have "q \<in> set (profiles s)" "profile_user q = u" using Some by (auto simp: profile_of_def find_Some_iff)
    ultimately show ?thesis using ok by simp
  next
    case None
    then have s1: "p = new_profile u" "s1 = s\<lparr>profiles := profiles s @ [new_profile u]\<rparr>" using e by (auto simp: ensure_profile_def)
    have b: "balances s1 = balances s @ [(u, 0, 0)]" by (simp add: s1 balances_def new_profile_def)
    have new: "u \<notin> fst ` set (balances s)" unfolding balance_owner [symmetric] using None by (auto simp: profile_of_def find_None_iff)
    then have "sum_logs (user_credit u) s = 0" using ok by (intro sum_logs_none) (auto simp: ledger_ok_def)
    moreover have "sum_logs f s1 = sum_logs f s" "totals s1 = totals s" "progress_rows_ok s1 = progress_rows_ok s" for f
      by (simp_all add: s1 sum_logs_def totals_def progress_rows_ok_def)
    moreover have "action_logs s1 = action_logs s" "catalog s1 = catalog s" "next_id s1 = next_id s" by (simp_all add: s1 catalog_def)
    ultimately have "ledger_ok s1" using ok new by (auto simp: ledger_ok_def b)
    then show ?thesis by (simp add: s1 new_profile_def)
  qed
  then show 1: "ledger_ok s1" "p \<in> set (profiles s1)" "profile_user p = u" by simp_all
  have "distinct (map profile_user (profiles s1))" using 1(1) by (simp add: ledger_ok_def balances_def comp_def)
  then show "q \<in> set (profiles s1) \<Longrightarrow> profile_user q = u \<Longrightarrow> q = p" using 1(2,3) by (auto dest: inj_on_pk)
  show "action_logs s1 = action_logs s" "items s1 = items s" "s1 = s\<lparr>profiles := profiles s1\<rparr>"
    using e by (auto simp: ensure_profile_def split: option.splits)
qed

lemma ledger_spend:
  assumes ok: "ledger_ok s"
    and f: "\<And>p. p \<in> set (profiles s) \<Longrightarrow> profile_user p = u \<Longrightarrow> profile_user (f p) = u \<and> total_points (f p) = total_points p \<and>
      0 \<le> available_points (f p) \<and> available_points (f p) \<le> available_points p"
  shows "ledger_ok (edit_profile u f s)"
proof -
  let ?s = "edit_profile u f s"
  have eq: "sum_logs g ?s = sum_logs g s" "totals ?s = totals s" "progress_rows_ok ?s = progress_rows_ok s" for g
    by (simp_all add: edit_profile_def sum_logs_def totals_def progress_rows_ok_def)
  have users: "map fst (balances ?s) = map fst (balances s)"
    using f by (auto simp: balances_def edit_profile_def qs_update_def)
  have "\<forall>(v, t, a) \<in> set (balances ?s). t = sum_logs (user_credit v) ?s \<and> 0 \<le> a \<and> a \<le> t"
  proof (clarify)
    fix v t a assume "(v, t, a) \<in> set (balances ?s)"
    then obtain p where p: "p \<in> set (profiles s)" "v = profile_user p" "t = total_points p"
      "a = available_points p \<or> 0 \<le> a \<and> a \<le> available_points p"
      using f by (fastforce simp: balances_def edit_profile_def elim!: in_qs_updateE)
    then have "(v, total_points p, available_points p) \<in> set (balances s)" by (auto simp: balances_def)
    then show "t = sum_logs (user_credit v) ?s \<and> 0 \<le> a \<and> a \<le> t" using ok p eq(1) by (fastforce simp: ledger_ok_def)
  qed
  moreover have "fst ` set (balances ?s) = fst ` set (balances s)" using users by (metis list.set_map)
  moreover have "action_logs ?s = action_logs s" "next_id ?s = next_id s" "catalog ?s = catalog s" by (simp_all add: edit_profile_def catalog_def)
  ultimately show ?thesis using ok users eq by (simp add: ledger_ok_def)
qed

lemma redeem_item_InrD:
  assumes "redeem_exchangeable s u key iid = Inr (q, s')" "ensure_profile s u = (p, s1)"
  obtains i where "i \<in> set (items s1)" "item_is_active i" "case iid of Some k \<Rightarrow> item_id i = k | None \<Rightarrow> Some (item_key i) = key"
    "item_key i \<notin> set (unlocked_cosmetics p)" "points_cost i \<le> available_points p"
    "q = p\<lparr>available_points := available_points p - points_cost i, unlocked_cosmetics := unlocked_cosmetics p @ [item_key i]\<rparr>"
    "s' = edit_profile u (\<lambda>x. x\<lparr>available_points := available_points p - points_cost i,
       unlocked_cosmetics := unlocked_cosmetics p @ [item_key i]\<rparr>) s1"
proof -
  from assms obtain i where i: "find_item s1 key iid = Inr i" "item_is_active i" "item_key i \<notin> set (unlocked_cosmetics p)"
    "points_cost i \<le> available_points p"
    "q = p\<lparr>available_points := available_points p - points_cost i, unlocked_cosmetics := unlocked_cosmetics p @ [item_key i]\<rparr>"
    "s' = edit_profile u (\<lambda>x. x\<lparr>available_points := available_points p - points_cost i,
       unlocked_cosmetics := unlocked_cosmetics p @ [item_key i]\<rparr>) s1"
    by (auto simp: redeem_exchangeable_def Let_def not_less elim!: res_bind_InrE split: if_splits)
  have "qs_get (\<lambda>i. case iid of Some k \<Rightarrow> item_id i = k | None \<Rightarrow> Some (item_key i) = key) (items s1) = Inr i"
    using i(1) by (auto simp: find_item_def split: sum.splits exc.splits)
  from qs_get_InrD(1,2) [OF this] i(2-6) show thesis by (intro that)
qed

lemma redeem_keeps:
  assumes ok: "ledger_ok s" and r: "redeem_exchangeable s u key iid = Inr (q, s')"
  shows "ledger_ok s'"
proof -
  obtain p s1 where e: "ensure_profile s u = (p, s1)" by force
  note d = ensure_profile_ledger [OF ok e]
  from r e show ?thesis
  proof (cases rule: redeem_item_InrD)
    case (1 i)
    have "0 < points_cost i" using d(1) 1(1) by (simp add: ledger_ok_def catalog_ok_def catalog_def)
    then show ?thesis unfolding 1(7) using d(4) 1(5) by (intro ledger_spend [OF d(1)]) auto
  qed
qed

lemma rename_keeps:
  assumes ok: "ledger_ok s" and r: "change_nickname s u nick = Inr (q, s')"
  shows "ledger_ok s'"
proof -
  obtain p s1 where e: "ensure_profile s u = (p, s1)" by force
  note d = ensure_profile_ledger [OF ok e] and c = change_nickname_InrD [OF r e]
  have cost: "0 \<le> nickname_change_cost p" by (simp add: nickname_change_cost_def NICKNAME_CHANGE_COST_POINTS_def)
  let ?s2 = "edit_user u (\<lambda>x. x\<lparr>nickname := nick\<rparr>) s1"
  have ok2: "ledger_ok ?s2" by (rule ledger_cong [OF d(1)]) (simp_all add: edit_user_def balances_def totals_def catalog_def)
  have "profiles ?s2 = profiles s1" by (simp add: edit_user_def)
  then show ?thesis using c d(4) cost by (auto intro!: ledger_spend [OF ok2])
qed

section \<open>The ledger in every run\<close>

text \<open>The requests that move points: registering, auditing, redeeming and renaming.\<close>

datatype ledger_call =
    LogRequest datetime datetime uuid log_data
  | AuditRequest datetime uuid uuid bool string
  | RedeemRequest uuid "string option" "uuid option"
  | RenameRequest uuid string

fun ledger_step :: "zone \<Rightarrow> surroundings \<Rightarrow> ledger_call \<Rightarrow> db \<Rightarrow> db res" where
  "ledger_step z env (LogRequest requested_at now u d) s = state_of (action_log_post z env s requested_at now u d)"
| "ledger_step z env (AuditRequest now admin lid approve reason) s =
     state_of (audit_action_log z s now admin lid approve reason)"
| "ledger_step z env (RedeemRequest u key iid) s = state_of (redeem_by_body s u key iid)"
| "ledger_step z env (RenameRequest u nick) s = state_of (change_nickname s u nick)"

lemma redeem_by_body_InrD:
  "redeem_by_body s u raw iid = Inr (r, s') \<Longrightarrow> \<exists>key q. redeem_exchangeable s u key iid = Inr (q, s')"
  by (auto simp: redeem_by_body_def Let_def elim!: res_bind_InrE split: if_splits)

lemma action_log_post_InrD:
  "action_log_post z env s ra now u d = Inr (r, s') \<Longrightarrow>
   \<exists>d1. validate_log_data d = Inr d1 \<and> create_action_log z env s ra now u d1 = Inr (r, s')"
  by (auto simp: action_log_post_def elim!: res_bind_InrE)

lemma credit_funs:
  "user_credit u = (\<lambda>l. if log_status l = LOG_APPROVED \<and> log_user l = u then points_awarded l else 0)"
  "clan_credit c = (\<lambda>l. if log_status l = LOG_APPROVED then points_awarded l * int (count_list (credited_clans l) c) else 0)"
  by (auto simp: user_credit_def clan_credit_def)

interpretation ledger: service_machine "ledger_step z env" ledger_ok for z env
proof
  fix s e s' assume ok: "ledger_ok s" and st: "ledger_step z env e s = Inr s'"
  show "ledger_ok s'"
    by (cases e; use st in \<open>auto dest!: state_of_InrE action_log_post_InrD redeem_by_body_InrD
        intro: create_keeps [OF ok] audit_keeps [OF ok] redeem_keeps [OF ok] rename_keeps [OF ok]\<close>)
qed


text \<open>
  User 1 of clan 2 with a catalog of two actions, one of them with photographic evidence, and one
  item of 15 points: an action that counts at once, one that waits for its audit, its approval,
  the purchase of the item, a rejection that comes too late and one in time.
\<close>

definition demo_photo_action :: action_master where
  "demo_photo_action = demo_action\<lparr>action_id := 17, action_code := ''FOTO'', points := 5, validation_type := PHOTO\<rparr>"

definition demo_item :: exchangeable_item where
  "demo_item = \<lparr>item_id = 30, item_key = ''marco'', item_name = ''Marco'', item_description = [], item_category = FRAME,
     points_cost = 8, item_is_active = True, item_image_url = []\<rparr>"

definition demo_shop :: db where
  "demo_shop = empty_db\<lparr>users := [demo_user 1 STUDENT], profiles := [(new_profile 1)\<lparr>institutional_clan := Some 2\<rparr>],
     clans := [\<lparr>clan_id = 2, clan_name = ''ISC'', clan_description = [], clan_avatar_object_key = [], clan_type = INSTITUTIONAL,
       privacy = PUBLIC_CLAN, clan_total_points = 0, clan_created_by = None, deleted_at = None, clan_created_at = 0\<rparr>],
     actions := [demo_action, demo_photo_action], items := [demo_item], next_id := 50\<rparr>"

definition demo_env :: surroundings where
  "demo_env = \<lparr>valid_url = (\<lambda>_. True), evidence_fingerprint = (\<lambda>_. []), stored_evidence_fingerprint = (\<lambda>_. [])\<rparr>"

definition demo_data :: "uuid \<Rightarrow> string \<Rightarrow> string \<Rightarrow> log_data" where
  "demo_data aid k ev = \<lparr>data_action = aid, data_idempotency_key = k, data_evidence = None, data_evidence_key = ev, data_shared = False\<rparr>"

definition demo_ledger_run :: "ledger_call list" where
  "demo_ledger_run = [LogRequest 100 100 1 (demo_data 7 ''a'' []), LogRequest 101 101 1 (demo_data 17 ''b'' ''foto.jpg''),
     AuditRequest 102 9 51 True [], RedeemRequest 1 (Some ''marco'') None, AuditRequest 103 9 50 False ''no'',
     AuditRequest 104 9 51 False ''borrosa'']"

lemma demo_shop_ok: "ledger_ok demo_shop"
  by (simp add: ledger_ok_def balances_def totals_def demo_shop_def empty_db_def new_profile_def sum_logs_def catalog_ok_def
      catalog_def demo_action_def demo_photo_action_def demo_item_def progress_rows_ok_def)

lemma demo_ledger_result:
  "(let s' = run_calls (ledger_step mexico_city demo_env) demo_ledger_run demo_shop
    in (balances s', totals s', map log_status (action_logs s'))) =
   ([(1, 10, 2)], [(2, 10)], [LOG_APPROVED, LOG_REJECTED])"
  by code_simp


section \<open>Revoking\<close>

lemma sum_list_member_le:
  "\<forall>x \<in> set xs. 0 \<le> f x \<Longrightarrow> x \<in> set xs \<Longrightarrow> f x \<le> (sum_list (map f xs) :: int)"
proof (induction xs)
  case (Cons y xs)
  have "0 \<le> sum_list (map f xs)" by (rule sum_list_nonneg) (use Cons.prems(1) in auto)
  then show ?case using Cons by auto
qed simp

lemma clan_credit_nonneg: "ledger_ok s \<Longrightarrow> \<forall>x \<in> set (action_logs s). 0 \<le> clan_credit c x"
  by (auto simp: clan_credit_def ledger_ok_def)

text \<open>A clan credited by an approved log holds at least the points of the log.\<close>

lemma clan_covers:
  assumes "ledger_ok s" "l \<in> set (action_logs s)" "log_status l = LOG_APPROVED" "(c, t) \<in> set (totals s)"
  shows "points_awarded l * int (count_list (credited_clans l) c) \<le> t"
proof -
  have "t = sum_logs (clan_credit c) s" using assms(1,4) by (auto simp: ledger_ok_def)
  then show ?thesis
    using sum_list_member_le [OF clan_credit_nonneg [OF assms(1), of c] assms(2)] assms(3) by (simp add: sum_logs_def credit_funs)
qed

lemma debit_clans_ok:
  assumes "\<forall>(c, t) \<in> set (totals s). n * int (count_list cids c) \<le> t" "0 \<le> n"
  shows "\<exists>s'. add_points_to_clans (- n) cids s = Inr s'"
  using assms(1)
proof (induction cids arbitrary: s)
  case Nil
  then show ?case by (simp add: add_points_to_clans_simps)
next
  case (Cons k cids)
  have "\<not> (clan_id x = k \<and> clan_total_points x + - n < 0)" if "x \<in> set (clans s)" for x
  proof -
    have "n * int (count_list (k # cids) (clan_id x)) \<le> clan_total_points x"
      using Cons.prems that by (auto simp: totals_def)
    moreover have "0 \<le> n * int (count_list cids (clan_id x))" using assms(2) by simp
    ultimately show ?thesis by (auto simp: algebra_simps)
  qed
  then obtain s1 where s1: "add_clan_points s k (- n) = Inr s1" by (auto simp: add_clan_points_def list_ex_iff)
  have "\<forall>(c, t) \<in> set (totals s1). n * int (count_list cids c) \<le> t"
  proof (clarify)
    fix c t assume "(c, t) \<in> set (totals s1)"
    then obtain t0 where t0: "(c, t0) \<in> set (totals s)" "t = t0 + - n * int (count_list [k] c)"
      unfolding add_clan_points_InrD(1) [OF s1] pay_clans_def by auto
    have "n * int (count_list (k # cids) c) \<le> t0" using Cons.prems t0(1) by blast
    then show "n * int (count_list cids c) \<le> t" using t0(2) by (auto simp: algebra_simps split: if_splits)
  qed
  with Cons.IH [OF this] s1 show ?case by (simp add: add_points_to_clans_simps)
qed

lemma revoke_total:
  assumes ok: "ledger_ok s" and l: "l \<in> set (action_logs s)" "log_status l = LOG_APPROVED"
  shows "(\<exists>s'. revoke_awarded_points s l = Inr s') \<or> revoke_awarded_points s l = Inl PointsAlreadySpentError"
proof -
  have dp: "distinct (map profile_user (profiles s))" using ok by (simp add: ledger_ok_def balances_def comp_def)
  have "log_user l \<in> profile_user ` set (profiles s)" unfolding balance_owner using ok l(1) by (simp add: ledger_ok_def)
  then obtain p where p: "p \<in> set (profiles s)" "profile_user p = log_user l" by auto
  have uniq: "q = p" if "q \<in> set (profiles s)" "profile_user q = log_user l" for q
    using inj_on_pk [OF dp that(1) p(1)] that(2) p(2) by simp
  have get: "qs_get (\<lambda>p. profile_user p = log_user l) (profiles s) = Inr p"
  proof (rule qs_get_eqI)
    show "distinct (profiles s)" using dp by (simp add: distinct_map)
    show "\<forall>q \<in> set (profiles s). profile_user q = log_user l \<longrightarrow> q = p" using uniq by blast
  qed (use p in simp_all)
  show ?thesis
  proof (cases "available_points p < points_awarded l")
    case True
    then show ?thesis by (simp add: revoke_awarded_points_def get)
  next
    case False
    have le: "available_points p \<le> total_points p" using ok p(1) by (auto simp: ledger_ok_def balances_def)
    have "\<not> (profile_user q = log_user l \<and> (total_points q + - points_awarded l < 0 \<or> available_points q + - points_awarded l < 0))"
      if "q \<in> set (profiles s)" for q using uniq [OF that] False le by auto
    then obtain s1 where s1: "add_profile_points s (log_user l) (- points_awarded l) = Inr s1"
      by (auto simp: add_profile_points_def list_ex_iff)
    obtain ps where "s1 = s\<lparr>profiles := ps\<rparr>" using add_profile_points_InrD(2) [OF s1] by metis
    then have "totals s1 = totals s" by (simp add: totals_def)
    then have "\<forall>(c, t) \<in> set (totals s1). points_awarded l * int (count_list (credited_clans l) c) \<le> t"
      using clan_covers [OF ok l] by auto
    moreover have "0 \<le> points_awarded l" using ok l(1) by (simp add: ledger_ok_def)
    ultimately obtain s2 where "add_points_to_clans (- points_awarded l) (credited_clans l) s1 = Inr s2"
      using debit_clans_ok by blast
    then show ?thesis using False by (simp add: revoke_awarded_points_def get s1)
  qed
qed

text \<open>
  Revoking an approved log never meets a check constraint. With a consistent ledger it
  commits, taking exactly the points of the log from its author and from each clan it credited,
  or it raises \<open>PointsAlreadySpentError\<close>, and that only when the author has fewer points
  available; no other exception is possible.
\<close>

theorem revoke_awarded_points_spec:
  assumes "ledger_ok s" "l \<in> set (action_logs s)" "log_status l = LOG_APPROVED"
  shows "if \<exists>p \<in> set (profiles s). profile_user p = log_user l \<and> available_points p < points_awarded l
    then revoke_awarded_points s l = Inl PointsAlreadySpentError
    else \<exists>s'. revoke_awarded_points s l = Inr s' \<and> balances s' = pay (log_user l) (- points_awarded l) (balances s) \<and>
      totals s' = pay_clans (credited_clans l) (- points_awarded l) (totals s) \<and> action_logs s' = action_logs s"
proof (cases "revoke_awarded_points s l")
  case (Inl e)
  then have e: "e = PointsAlreadySpentError" using revoke_total [OF assms] by auto
  have "\<exists>p \<in> set (profiles s). profile_user p = log_user l \<and> available_points p < points_awarded l"
  proof (cases "qs_get (\<lambda>p. profile_user p = log_user l) (profiles s)")
    case i: (Inl e')
    then show ?thesis using Inl e by (auto simp: revoke_awarded_points_def dest: qs_get_InlD)
  next
    case (Inr p)
    have "available_points p < points_awarded l"
    proof (rule ccontr)
      assume "\<not> available_points p < points_awarded l"
      with Inl e Inr obtain e' where "add_profile_points s (log_user l) (- points_awarded l) = Inl e' \<and> e' = PointsAlreadySpentError \<or>
        (\<exists>s1 c n. add_points_to_clans n c s1 = Inl PointsAlreadySpentError)"
        by (cases "add_profile_points s (log_user l) (- points_awarded l)") (auto simp: revoke_awarded_points_def)
      moreover have "add_points_to_clans n c s1 \<noteq> Inl PointsAlreadySpentError" for n c s1
        by (induction c arbitrary: s1) (auto simp: add_points_to_clans_simps add_clan_points_def)
      ultimately show False by (auto simp: add_profile_points_def split: if_splits)
    qed
    with qs_get_InrD(1,2) [OF Inr] show ?thesis by blast
  qed
  with Inl e show ?thesis by simp
next
  case (Inr s')
  have "distinct (map fst (balances s))" using assms(1) by (simp add: ledger_ok_def)
  note r = revoke_InrD [OF this Inr]
  have "\<not> (\<exists>p \<in> set (profiles s). profile_user p = log_user l \<and> available_points p < points_awarded l)"
    using r(5) by (force simp: balances_def)
  moreover have "action_logs s' = action_logs s" by (subst r(3)) simp
  ultimately show ?thesis using Inr r(1,2) by auto
qed

text \<open>The first request of the run above, revoked.\<close>

definition demo_logged :: db where
  "demo_logged = run_calls (ledger_step mexico_city demo_env) [LogRequest 100 100 1 (demo_data 7 ''a'' [])] demo_shop"

lemma demo_logged_ok: "ledger_ok demo_logged"
  unfolding demo_logged_def by (rule ledger.run_inv [OF demo_shop_ok])

lemma demo_logged_tables:
  "(balances demo_logged, totals demo_logged, map (\<lambda>l. (log_id l, log_user l, log_status l, points_awarded l)) (action_logs demo_logged),
    map (\<lambda>p. (profile_user p, available_points p)) (profiles demo_logged)) =
   ([(1, 10, 10)], [(2, 10)], [(50, 1, LOG_APPROVED, 10)], [(1, 10)])"
  by code_simp

theorem revoke_awarded_points_spec_witness:
  "\<exists>s'. revoke_awarded_points demo_logged (hd (action_logs demo_logged)) = Inr s' \<and> balances s' = [(1, 0, 0)]"
proof -
  let ?l = "hd (action_logs demo_logged)"
  have l: "?l \<in> set (action_logs demo_logged)" "log_status ?l = LOG_APPROVED" "log_user ?l = 1" "points_awarded ?l = 10"
    using demo_logged_tables by (cases "action_logs demo_logged"; simp)+
  have "\<not> (\<exists>p \<in> set (profiles demo_logged). profile_user p = log_user ?l \<and> available_points p < points_awarded ?l)"
    using demo_logged_tables l by auto
  with revoke_awarded_points_spec [OF demo_logged_ok l(1,2)] demo_logged_tables l show ?thesis
    by (auto simp: pay_def)
qed

end
