(* ===== verification/Action_Rules.thy ===== *)
theory Action_Rules
  imports Ledger
begin

text \<open>
  Properties of the action requests: the life of a log, the round trip of an audit, idempotent
  registration, the daily limit, redemption, and mission progress along every run.
\<close>

section \<open>The life of a log\<close>

text \<open>A pending log is approved or rejected, an approved one can be rejected, a rejected one is final.\<close>

inductive log_move :: "log_status \<Rightarrow> log_status \<Rightarrow> bool" where
  approve: "log_move LOG_PENDING_AUDIT LOG_APPROVED"
| reject: "log_move LOG_PENDING_AUDIT LOG_REJECTED"
| revoke: "log_move LOG_APPROVED LOG_REJECTED"

inductive_cases from_rejected: "log_move LOG_REJECTED st"

text \<open>Everything but the review: what a log keeps for ever.\<close>

definition unreviewed :: "action_log \<Rightarrow> action_log" where
  "unreviewed l = l\<lparr>log_status := LOG_APPROVED, log_reviewed_by := None, log_reviewed_at := None, log_rejection_reason := []\<rparr>"

definition log_le :: "action_log \<Rightarrow> action_log \<Rightarrow> bool" where
  "log_le l l' \<longleftrightarrow> unreviewed l' = unreviewed l \<and> log_move\<^sup>*\<^sup>* (log_status l) (log_status l')"

definition logs_le :: "db \<Rightarrow> db \<Rightarrow> bool" where
  "logs_le s s' \<longleftrightarrow> rows_le log_le (action_logs s) (action_logs s')"

interpretation log_rows: row_order log_le
  by unfold_locales (auto simp: log_le_def)

lemma logs_le_save:
  assumes "table_ok log_id n (action_logs s)" "l \<in> set (action_logs s)" "log_id l1 = log_id l" "log_le l l1"
    "action_logs s' = action_logs (save_log l1 s)"
  shows "logs_le s s'"
  using log_rows.rows_save [OF table_ok_distinct [OF assms(1)] assms(2-4)] by (simp add: logs_le_def assms(5) save_log_def)

lemma create_logged:
  assumes "ledger_ok s" "create_action_log z env s ra now uid d = Inr (Logged st k, s')"
  obtains a p c key n l where "a \<in> set (actions s)" "action_id a = data_action d" "action_is_active a"
    "\<forall>x \<in> set (action_logs s). \<not> (log_user x = uid \<and> idempotency_key x = data_idempotency_key d)"
    "count_user_action_logs_for_local_day z s now uid (action_id a) < daily_limit a"
    "p \<in> set (profiles s)" "profile_user p = uid" "institutional_clan p = Some c" "next_id s \<le> n"
    "data_evidence d = None \<Longrightarrow> key = data_evidence_key d"
    "l = new_log n now uid a c (get_active_private_clan s uid) d key" "action_logs s' = action_logs s @ [l]"
    "st = log_status l" "k = log_id l" "catalog s' = catalog s"
  using assms(2)
proof (cases rule: create_cases)
  case (logged a p c key s1 l s2 s3)
  obtain ms n1 ps n3 where st: "s1 = s\<lparr>media := ms, next_id := n1\<rparr>" "s3 = s2\<lparr>posts := ps, next_id := n3\<rparr>"
    using logged(9,14) by metis
  have n: "next_id s \<le> n1" "next_id s \<le> n3" using logged(10,13,15) by (simp_all add: st)
  have s3: "balances s3 = balances s" "action_logs s3 = action_logs s @ [l]" "mission_progresses s3 = mission_progresses s" "next_id s3 = n3"
    by (simp_all add: st logged(13) balances_def)
  have pr: "progress_rows_ok s3"
    by (rule progress_rows_ok_mono [of s]) (use assms(1) n s3 in \<open>auto simp: ledger_ok_def\<close>)
  have "log_user l \<in> fst ` set (balances s3)" using logged(6,7,12) s3(1) by (force simp: balances_def new_log_def)
  with credit_log_InrD(3,4) [OF pr this, of z now s'] logged(17) s3(2)
  have "action_logs s' = action_logs s @ [l]" "catalog s' = catalog s"
    by (auto simp: catalog_def st logged(13) split: if_splits)
  with logged(1-8,11,12,16) n(1) show thesis by (intro that [of a p c n1 key l]) (simp_all add: st)
qed blast

lemma create_logs:
  assumes "ledger_ok s" "create_action_log z env s ra now uid d = Inr (r, s')"
  shows "catalog s' = catalog s \<and> (action_logs s' = action_logs s \<or>
    (\<exists>a l. action_logs s' = action_logs s @ [l] \<and> a \<in> set (actions s) \<and> log_user l = uid \<and> log_action l = action_id a \<and>
       log_created_at l = now \<and> count_user_action_logs_for_local_day z s now uid (action_id a) < daily_limit a))"
proof (cases "\<exists>st k. r = Logged st k")
  case True
  then obtain st k where "create_action_log z env s ra now uid d = Inr (Logged st k, s')" using assms(2) by blast
  with assms(1) show ?thesis
  proof (cases rule: create_logged)
    case (1 a p c key n l)
    then show ?thesis by (intro conjI disjI2 exI [of _ a] exI [of _ l]) (simp_all add: new_log_def)
  qed
next
  case False
  from assms(2) show ?thesis using False by (cases rule: create_cases) auto
qed

lemma audit_logs:
  assumes "ledger_ok s" "audit_action_log z s now admin lid ok raw = Inr (r, s')"
  shows "catalog s' = catalog s \<and> (action_logs s' = action_logs s \<or>
    (\<exists>l l1. l \<in> set (action_logs s) \<and> log_id l = lid \<and> log_move (log_status l) (log_status l1) \<and>
       l1 = review_log ok (py_strip raw) admin now l \<and> action_logs s' = action_logs (save_log l1 s)))"
  using assms(2)
proof (cases rule: audit_cases)
  case (approved l l1)
  have pr: "progress_rows_ok (save_log l1 s)"
    by (rule progress_rows_ok_mono [of s]) (use assms(1) in \<open>simp_all add: ledger_ok_def\<close>)
  have "log_user l1 \<in> fst ` set (balances (save_log l1 s))" using assms(1) approved(3,6) by (auto simp: ledger_ok_def)
  from approve_log_InrD(3,4) [OF pr this approved(7)] approved show ?thesis
    by (intro conjI disjI2 exI [of _ l] exI [of _ l1]) (auto intro: log_move.intros)
next
  case (rejected l l1 s1)
  obtain ps cs where st: "s1 = s\<lparr>profiles := ps, clans := cs\<rparr>"
    using rejected(6) revoke_InrD(3) [of s l s1] assms(1)
    by (metis (no_types) ledger_ok_rows db.surjective db.update_convs(2,3))
  have b: "fst ` set (balances s1) = fst ` set (balances s)"
  proof -
    have "balances s1 = balances s \<or> balances s1 = pay (log_user l) (- points_awarded l) (balances s)"
      using rejected(6) revoke_InrD(1) [of s l s1] ledger_ok_rows [OF assms(1)] by blast
    then show ?thesis by (elim disjE) (simp_all only: fst_pay)
  qed
  have pr: "progress_rows_ok (save_log l1 s1)"
    by (rule progress_rows_ok_mono [of s]) (use assms(1) in \<open>simp_all add: ledger_ok_def st\<close>)
  have "log_user l1 \<in> fst ` set (balances (save_log l1 s1))" using assms(1) rejected(4,7) b by (auto simp: ledger_ok_def)
  from reject_log_InrD(1) [OF pr this rejected(8)] rejected show ?thesis
    by (intro conjI disjI2 exI [of _ l] exI [of _ l1])
      (auto simp: same_points_def save_log_def st catalog_def intro: log_move.intros)
qed simp

lemma redeem_logs: "ledger_ok s \<Longrightarrow> redeem_exchangeable s u key iid = Inr (q, s') \<Longrightarrow> catalog s' = catalog s \<and> action_logs s' = action_logs s"
proof -
  assume ok: "ledger_ok s" and r: "redeem_exchangeable s u key iid = Inr (q, s')"
  obtain p s1 where e: "ensure_profile s u = (p, s1)" by force
  from r e show ?thesis 
  proof (cases rule: redeem_item_InrD)
    case (1 i)
    have "catalog s1 = catalog s" by (subst ensure_profile_ledger(7) [OF ok e]) (simp add: catalog_def)
    then show ?thesis by (simp add: 1(7) edit_profile_def ensure_profile_ledger(5) [OF ok e] catalog_def)
  qed
qed

lemma rename_logs: "ledger_ok s \<Longrightarrow> change_nickname s u nick = Inr (q, s') \<Longrightarrow> catalog s' = catalog s \<and> action_logs s' = action_logs s"
proof -
  assume ok: "ledger_ok s" and r: "change_nickname s u nick = Inr (q, s')"
  obtain p s1 where e: "ensure_profile s u = (p, s1)" by force
  have "catalog s1 = catalog s" by (subst ensure_profile_ledger(7) [OF ok e]) (simp add: catalog_def)
  then show ?thesis using change_nickname_InrD [OF r e] ensure_profile_ledger(5) [OF ok e]
    by (auto simp: edit_profile_def edit_user_def catalog_def)
qed

lemma logs_le_snoc: "action_logs s' = action_logs s \<or> (\<exists>l. action_logs s' = action_logs s @ [l]) \<Longrightarrow> logs_le s s'"
  by (auto simp: logs_le_def intro: log_rows.rows_refl log_rows.rows_append)

lemma ledger_step_logs:
  assumes ok: "ledger_ok s" and st: "ledger_step z env e s = Inr s'"
  shows "logs_le s s'"
proof (cases e)
  case (LogRequest ra now u d)
  with st obtain r d1 where "create_action_log z env s ra now u d1 = Inr (r, s')"
    by (auto dest!: state_of_InrE action_log_post_InrD)
  then show ?thesis using create_logs [OF ok] logs_le_snoc by blast
next
  case (AuditRequest now admin lid b raw)
  with st obtain r where "audit_action_log z s now admin lid b raw = Inr (r, s')" by (auto dest!: state_of_InrE)
  from conjunct2 [OF audit_logs [OF ok this]] show ?thesis
  proof
    assume "\<exists>l l1. l \<in> set (action_logs s) \<and> log_id l = lid \<and> log_move (log_status l) (log_status l1) \<and>
       l1 = review_log b (py_strip raw) admin now l \<and> action_logs s' = action_logs (save_log l1 s)"
    then obtain l l1 where l: "l \<in> set (action_logs s)" "log_move (log_status l) (log_status l1)"
      "l1 = review_log b (py_strip raw) admin now l" "action_logs s' = action_logs (save_log l1 s)" by blast
    have "log_le l l1" using l(2) by (auto simp: log_le_def l(3) review_log_def unreviewed_def)
    then show ?thesis using ledger_ok_rows [OF ok] l by (intro logs_le_save [of _ s l l1]) auto
  qed (simp add: logs_le_snoc)
next
  case (RedeemRequest u key iid)
  with st redeem_logs [OF ok] show ?thesis by (intro logs_le_snoc) (auto dest!: state_of_InrE redeem_by_body_InrD)
next
  case (RenameRequest u nick)
  with st rename_logs [OF ok] show ?thesis by (intro logs_le_snoc) (auto dest!: state_of_InrE)
qed

interpretation logbook: monotone_machine "ledger_step z env" ledger_ok logs_le for z env
  proof unfold_locales
  fix s t u
  show "logs_le s s" by (simp add: logs_le_def log_rows.rows_refl)
  show "logs_le s t \<Longrightarrow> logs_le t u \<Longrightarrow> logs_le s u" unfolding logs_le_def by (rule log_rows.rows_trans)
qed (rule ledger_step_logs)

lemma log_move_final: "log_move\<^sup>*\<^sup>* LOG_REJECTED st \<longleftrightarrow> st = LOG_REJECTED"
proof
  assume "log_move\<^sup>*\<^sup>* LOG_REJECTED st"
  then show "st = LOG_REJECTED" by (induction rule: rtranclp_induct) (auto elim: from_rejected)
qed simp

lemma log_move_not_pending: "log_move\<^sup>*\<^sup>* a LOG_PENDING_AUDIT \<Longrightarrow> a = LOG_PENDING_AUDIT"
  by (induction rule: converse_rtranclp_induct) (auto elim: log_move.cases)

text \<open>
  C21: a log is never lost, rewritten or reopened. Along every run each log stays at its place in
  the table with its author, action, points, impact factors, credited clans and key as they were;
  only its review changes, a rejected log stays rejected for ever, and no log goes back to
  pending.
\<close>

theorem ledger_runs_keep_logs:
  assumes "ledger_ok s" "s' = run_calls (ledger_step z env) calls s" "i < length (action_logs s)"
  shows "i < length (action_logs s') \<and> unreviewed (action_logs s' ! i) = unreviewed (action_logs s ! i) \<and>
    (log_status (action_logs s ! i) = LOG_REJECTED \<longrightarrow> log_status (action_logs s' ! i) = LOG_REJECTED) \<and>
    (log_status (action_logs s' ! i) = LOG_PENDING_AUDIT \<longrightarrow> log_status (action_logs s ! i) = LOG_PENDING_AUDIT)"
proof -
  have "logs_le s s'" using logbook.run_le [OF assms(1)] by (simp add: assms(2))
  then have len: "length (action_logs s) \<le> length (action_logs s')"
    and le: "log_le (action_logs s ! i) (action_logs s' ! i)" using assms(3) by (auto simp: logs_le_def rows_le_def)
  from le have m: "log_move\<^sup>*\<^sup>* (log_status (action_logs s ! i)) (log_status (action_logs s' ! i))"
    and "unreviewed (action_logs s' ! i) = unreviewed (action_logs s ! i)" by (simp_all add: log_le_def)
  then show ?thesis using len assms(3) log_move_final log_move_not_pending by auto
qed

definition demo_after :: db where
  "demo_after = run_calls (ledger_step mexico_city demo_env) demo_ledger_run demo_shop"

lemma demo_after_ok: "ledger_ok demo_after"
  unfolding demo_after_def by (rule ledger.run_inv [OF demo_shop_ok])

lemma demo_after_logs: "map log_status (action_logs demo_after) = [LOG_APPROVED, LOG_REJECTED]"
  by code_simp

text \<open>The run of the previous theory ends with its second log rejected; a later approval does nothing.\<close>

theorem ledger_runs_keep_logs_witness:
  "log_status (action_logs demo_after ! 1) = LOG_REJECTED \<and>
   log_status (action_logs (run_calls (ledger_step mexico_city demo_env) [AuditRequest 200 9 51 True []] demo_after) ! 1) = LOG_REJECTED"
proof -
  have len: "1 < length (action_logs demo_after)" and st: "log_status (action_logs demo_after ! 1) = LOG_REJECTED"
    using demo_after_logs by (cases "action_logs demo_after"; auto)+
  from ledger_runs_keep_logs [OF demo_after_ok refl len, of mexico_city demo_env "[AuditRequest 200 9 51 True []]"] st
  show ?thesis by blast
qed

section \<open>Approval and revocation\<close>

lemma pay_back: "pay u (- n) (pay u n bs) = bs" "pay_clans cs (- n) (pay_clans cs n ts) = ts"
  by (auto simp: pay_def pay_clans_def comp_def case_prod_unfold intro!: map_idI)

lemma audit_approve_effect:
  assumes "ledger_ok s" "audit_action_log z s now admin lid True raw = Inr (Audited, s')"
  obtains l where "l \<in> set (action_logs s)" "log_id l = lid" "log_status l = LOG_PENDING_AUDIT"
    "action_logs s' = action_logs (save_log (review_log True (py_strip raw) admin now l) s)"
    "balances s' = pay (log_user l) (points_awarded l) (balances s)"
    "totals s' = pay_clans (credited_clans l) (points_awarded l) (totals s)"
  using assms(2)
proof (cases rule: audit_cases)
  case (approved l l1)
  have pr: "progress_rows_ok (save_log l1 s)"
    by (rule progress_rows_ok_mono [of s]) (use assms(1) in \<open>simp_all add: ledger_ok_def\<close>)
  have u: "log_user l1 \<in> fst ` set (balances (save_log l1 s))" using assms(1) approved(3,6) by (auto simp: ledger_ok_def)
  from approve_log_InrD(1-3) [OF pr u approved(7)] approved that show thesis by simp
qed simp_all

lemma audit_reject_effect:
  assumes "ledger_ok s" "audit_action_log z s now admin lid False raw = Inr (Audited, s')"
  obtains l where "l \<in> set (action_logs s)" "log_id l = lid" "log_status l \<noteq> LOG_REJECTED"
    "balances s' = pay (log_user l) (if log_status l = LOG_APPROVED then - points_awarded l else 0) (balances s)"
    "totals s' = pay_clans (credited_clans l) (if log_status l = LOG_APPROVED then - points_awarded l else 0) (totals s)"
  using assms(2)
proof (cases rule: audit_cases)
  case (rejected l l1 s1)
  have s1: "balances s1 = pay (log_user l) (if log_status l = LOG_APPROVED then - points_awarded l else 0) (balances s)"
    "totals s1 = pay_clans (credited_clans l) (if log_status l = LOG_APPROVED then - points_awarded l else 0) (totals s)"
    using rejected(6) revoke_InrD(1,2) [of s l s1] ledger_ok_rows [OF assms(1)] by auto
  have "s1 = s\<lparr>profiles := profiles s1, clans := clans s1\<rparr>"
    using rejected(6) revoke_InrD(3) [of s l s1] ledger_ok_rows [OF assms(1)] by (elim disjE conjE) simp_all
  then obtain ps cs where st: "s1 = s\<lparr>profiles := ps, clans := cs\<rparr>" by metis
  have b: "fst ` set (balances s1) = fst ` set (balances s)" by (simp only: s1(1) fst_pay)
  have pr: "progress_rows_ok (save_log l1 s1)"
    by (rule progress_rows_ok_mono [of s]) (use assms(1) in \<open>simp_all add: ledger_ok_def st\<close>)
  have u: "log_user l1 \<in> fst ` set (balances (save_log l1 s1))" using assms(1) rejected(4,7) b by (auto simp: ledger_ok_def)
  from reject_log_InrD(1) [OF pr u rejected(8)] rejected(4-6) s1(1,2) show thesis
    by (intro that [of l]) (auto simp: same_points_def)
qed simp_all

text \<open>
  C28: approving a pending log and rejecting it afterwards is a round trip of the points: every
  balance and every clan total ends where it began.
\<close>

theorem approve_then_reject_restores:
  assumes "ledger_ok s" "audit_action_log z s now admin lid True r1 = Inr (Audited, s1)"
    "audit_action_log z s1 later admin' lid False r2 = Inr (Audited, s2)"
  shows "balances s2 = balances s \<and> totals s2 = totals s"
proof -
  obtain l where l: "l \<in> set (action_logs s)" "log_id l = lid" "log_status l = LOG_PENDING_AUDIT"
    "action_logs s1 = action_logs (save_log (review_log True (py_strip r1) admin now l) s)"
    "balances s1 = pay (log_user l) (points_awarded l) (balances s)"
    "totals s1 = pay_clans (credited_clans l) (points_awarded l) (totals s)"
    by (rule audit_approve_effect [OF assms(1,2)])
  let ?l1 = "review_log True (py_strip r1) admin now l"
  have ok1: "ledger_ok s1" using audit_keeps assms(1,2) by blast
  obtain m where m: "m \<in> set (action_logs s1)" "log_id m = lid"
    "balances s2 = pay (log_user m) (if log_status m = LOG_APPROVED then - points_awarded m else 0) (balances s1)"
    "totals s2 = pay_clans (credited_clans m) (if log_status m = LOG_APPROVED then - points_awarded m else 0) (totals s1)"
    by (rule audit_reject_effect [OF ok1 assms(3)])
  have "?l1 \<in> set (action_logs s1)"
    using in_qs_updateI [OF l(1), of "\<lambda>x. log_id x = log_id ?l1" "\<lambda>_. ?l1"] by (simp add: l(4) save_log_def)
  then have "m = ?l1"
    using inj_on_pk [OF table_ok_distinct m(1)] ledger_ok_rows [OF ok1] l(2) m(2) by fastforce
  then show ?thesis using m(3,4) l(5,6) by (simp add: pay_back)
qed

text \<open>The photographic log of the run, approved and rejected.\<close>

definition demo_pending :: db where
  "demo_pending = run_calls (ledger_step mexico_city demo_env) (take 2 demo_ledger_run) demo_shop"

lemma demo_pending_ok: "ledger_ok demo_pending"
  unfolding demo_pending_def by (rule ledger.run_inv [OF demo_shop_ok])

definition demo_approved :: db where
  "demo_approved = commit demo_pending (state_of (audit_action_log mexico_city demo_pending 102 9 51 True []))"

lemma demo_pending_approves:
  "map_sum id fst (audit_action_log mexico_city demo_pending 102 9 51 True []) = Inr Audited"
  by code_simp

lemma demo_approved_rejects:
  "map_sum id fst (audit_action_log mexico_city demo_approved 103 9 51 False ''no'') = Inr Audited"
  by code_simp

lemma demo_approved_balances: "(balances demo_pending, balances demo_approved) = ([(1, 10, 10)], [(1, 15, 15)])"
  by code_simp

theorem approve_then_reject_restores_witness:
  "\<exists>s2. audit_action_log mexico_city demo_approved 103 9 51 False ''no'' = Inr (Audited, s2) \<and>
     balances demo_approved = [(1, 15, 15)] \<and> balances s2 = [(1, 10, 10)]"
proof -
  obtain s1 where 1: "audit_action_log mexico_city demo_pending 102 9 51 True [] = Inr (Audited, s1)"
    using demo_pending_approves by (cases "audit_action_log mexico_city demo_pending 102 9 51 True []") auto
  then have s1: "s1 = demo_approved" by (simp add: demo_approved_def state_of_def)
  obtain s2 where 2: "audit_action_log mexico_city demo_approved 103 9 51 False ''no'' = Inr (Audited, s2)"
    using demo_approved_rejects by (cases "audit_action_log mexico_city demo_approved 103 9 51 False ''no''") auto
  from approve_then_reject_restores [OF demo_pending_ok 1, of 103 9 "''no''" s2] 2 s1 demo_approved_balances show ?thesis by auto
qed

section \<open>Idempotent registration\<close>

lemma qs_first_only:
  "\<forall>x \<in> set rows. x = r \<Longrightarrow> r \<in> set rows \<Longrightarrow> qs_first pk rows = Some r"
  by (metis qs_first_None qs_first_SomeD empty_iff empty_set option.exhaust)

text \<open>
  C20: registering is idempotent. Once a request has registered a log, repeating it with the same
  key, action and evidence, at any later instant while the account is open, answers the same log
  and changes nothing, so no points are credited twice. For a file the stored object has to hash
  like the upload it was stored from.
\<close>

theorem create_action_log_idempotent:
  assumes "ledger_ok s" "create_action_log z env s ra now uid d = Inr (Logged st k, s')"
    "get_user s' uid = Inr u" "ensure_account_writable s' u (Some ra') = Inr ()"
    "\<forall>l up. l \<in> set (action_logs s') \<and> data_evidence d = Some up \<and> log_id l = k \<longrightarrow>
       stored_evidence_fingerprint env (evidence_object_key l) = evidence_fingerprint env up"
  shows "create_action_log z env s' ra' later uid d = Inr (AlreadyLogged st k, s')"
  using assms(1,2)
proof (cases rule: create_logged)
  case (1 a p c key n l)
  have f: "log_user l = uid" "idempotency_key l = data_idempotency_key d" "log_action l = data_action d" "evidence_object_key l = key"
    using 1(2) by (simp_all add: 1(11) new_log_def)
  have "filter (\<lambda>x. log_user x = uid \<and> idempotency_key x = data_idempotency_key d) (action_logs s') = [l]"
    using 1(4) f by (simp add: 1(12) filter_empty_conv)
  moreover have "same_evidence env l d"
    using assms(5) 1(10,12,14) f(4) by (auto simp: same_evidence_def split: option.splits)
  ultimately show ?thesis using assms(3,4) f(3) 1(13,14) by (simp add: create_action_log_def)
qed

text \<open>The first request of the run, sent twice.\<close>

lemma demo_logged_first:
  "map_sum id fst (create_action_log mexico_city demo_env demo_shop 100 100 1 (demo_data 7 ''a'' [])) = Inr (Logged LOG_APPROVED 50)"
  by code_simp

lemma demo_logged_open:
  "(case create_action_log mexico_city demo_env demo_shop 100 100 1 (demo_data 7 ''a'' []) of
      Inl _ \<Rightarrow> False | Inr (_, s') \<Rightarrow> get_user s' 1 = Inr (demo_user 1 STUDENT) \<and>
        ensure_account_writable s' (demo_user 1 STUDENT) (Some 105) = Inr ())"
  by code_simp

theorem create_action_log_idempotent_witness:
  "\<exists>s'. create_action_log mexico_city demo_env demo_shop 100 100 1 (demo_data 7 ''a'' []) = Inr (Logged LOG_APPROVED 50, s') \<and>
     create_action_log mexico_city demo_env s' 105 106 1 (demo_data 7 ''a'' []) = Inr (AlreadyLogged LOG_APPROVED 50, s')"
proof -
  obtain s' where c: "create_action_log mexico_city demo_env demo_shop 100 100 1 (demo_data 7 ''a'' []) = Inr (Logged LOG_APPROVED 50, s')"
    using demo_logged_first by (cases "create_action_log mexico_city demo_env demo_shop 100 100 1 (demo_data 7 ''a'' [])") auto
  have "get_user s' 1 = Inr (demo_user 1 STUDENT)" "ensure_account_writable s' (demo_user 1 STUDENT) (Some 105) = Inr ()"
    using demo_logged_open unfolding c by simp_all
  from create_action_log_idempotent [OF demo_shop_ok c this] c show ?thesis by (simp add: demo_data_def)
qed

section \<open>The daily limit\<close>

text \<open>When and by whom each action was submitted, whatever became of the log.\<close>

definition submissions :: "db \<Rightarrow> (uuid \<times> uuid \<times> datetime) list" where
  "submissions s = map (\<lambda>l. (log_user l, log_action l, log_created_at l)) (action_logs s)"

definition submitted_on :: "zone \<Rightarrow> db \<Rightarrow> uuid \<Rightarrow> uuid \<Rightarrow> date \<Rightarrow> nat" where
  "submitted_on z s u aid day = length (filter (\<lambda>(v, a, t). v = u \<and> a = aid \<and> local_date z t = day) (submissions s))"

definition limits_ok :: "zone \<Rightarrow> db \<Rightarrow> bool" where
  "limits_ok z s \<longleftrightarrow> distinct (map action_id (actions s)) \<and>
     (\<forall>a \<in> set (actions s). \<forall>u day. submitted_on z s u (action_id a) day \<le> daily_limit a)"

lemma count_is_submitted:
  assumes "zone_ok z"
  shows "count_user_action_logs_for_local_day z s now u aid = submitted_on z s u aid (local_date z now)"
proof -
  have "local_date z t = local_date z now \<longleftrightarrow> fst (local_day_utc_bounds z now) \<le> t \<and> t < snd (local_day_utc_bounds z now)" for t
    using assms unfolding zone_ok_calendar by (rule calendar.same_day_iff)
  then show ?thesis
    by (simp add: count_user_action_logs_for_local_day_def submitted_on_def submissions_def filter_map comp_def case_prod_beta)
qed

lemma limits_same:
  "limits_ok z s \<Longrightarrow> catalog s' = catalog s \<Longrightarrow> submissions s' = submissions s \<Longrightarrow> limits_ok z s'"
  by (simp add: limits_ok_def catalog_def submitted_on_def)

lemma submissions_save:
  assumes "log_user l1 = log_user l" "log_action l1 = log_action l" "log_created_at l1 = log_created_at l"
    "table_ok log_id n (action_logs s)" "l \<in> set (action_logs s)" "log_id l1 = log_id l"
  shows "submissions (save_log l1 s) = submissions s"
proof -
  have "x = l" if "x \<in> set (action_logs s)" "log_id x = log_id l1" for x
    using inj_on_pk [OF table_ok_distinct [OF assms(4)] that(1) assms(5)] that(2) assms(6) by simp
  then show ?thesis using assms(1-3) by (auto simp: submissions_def save_log_def qs_update_def)
qed

lemma ledger_step_limits:
  assumes z: "zone_ok z" and ok: "ledger_ok s" and lim: "limits_ok z s" and st: "ledger_step z env e s = Inr s'"
  shows "limits_ok z s'"
proof (cases e)
  case (LogRequest ra now u d)
  with st obtain r d1 where c: "create_action_log z env s ra now u d1 = Inr (r, s')"
    by (auto dest!: state_of_InrE action_log_post_InrD)
  note cr = create_logs [OF ok c]
  show ?thesis
  proof (cases "action_logs s' = action_logs s")
    case True
    then show ?thesis using cr by (intro limits_same [OF lim]) (simp_all add: submissions_def)
  next
    case False
    then obtain a l where l: "action_logs s' = action_logs s @ [l]" "a \<in> set (actions s)" "log_user l = u" "log_action l = action_id a"
      "log_created_at l = now" "count_user_action_logs_for_local_day z s now u (action_id a) < daily_limit a" using cr by blast
    have sub: "submitted_on z s' v aid day = submitted_on z s v aid day +
        (if v = u \<and> aid = action_id a \<and> day = local_date z now then 1 else 0)" for v aid day
      using l(3-5) by (simp add: submitted_on_def submissions_def l(1))
    have one: "b = a" if "b \<in> set (actions s)" "action_id b = action_id a" for b
      using lim that l(2) inj_on_pk [of action_id "actions s" b a] by (simp add: limits_ok_def)
    have acts: "actions s' = actions s" using cr by (simp add: catalog_def)
    show ?thesis
      unfolding limits_ok_def acts
    proof (intro conjI ballI allI)
      fix b v day assume b: "b \<in> set (actions s)"
      have "submitted_on z s v (action_id b) day \<le> daily_limit b" using lim b by (simp add: limits_ok_def)
      then show "submitted_on z s' v (action_id b) day \<le> daily_limit b"
        using l(6) one [OF b] unfolding count_is_submitted [OF z] sub by auto
    qed (use lim in \<open>simp add: limits_ok_def\<close>)
  qed
next
  case (AuditRequest now admin lid b raw)
  with st obtain r where a: "audit_action_log z s now admin lid b raw = Inr (r, s')" by (auto dest!: state_of_InrE)
  note au = audit_logs [OF ok a]
  have "submissions s' = submissions s"
  proof (cases "action_logs s' = action_logs s")
    case False
    then obtain l where "l \<in> set (action_logs s)" "action_logs s' = action_logs (save_log (review_log b (py_strip raw) admin now l) s)"
      using au by blast
    then show ?thesis
      using submissions_save [of "review_log b (py_strip raw) admin now l" l "next_id s" s] ledger_ok_rows [OF ok]
      by (simp add: submissions_def review_log_def)
  qed (simp add: submissions_def)
  then show ?thesis using au by (intro limits_same [OF lim]) simp_all
next
  case (RedeemRequest u key iid)
  with st redeem_logs [OF ok] show ?thesis
    by (intro limits_same [OF lim]) (auto simp: submissions_def dest!: state_of_InrE redeem_by_body_InrD)
next
  case (RenameRequest u nick)
  with st rename_logs [OF ok] show ?thesis by (intro limits_same [OF lim]) (auto simp: submissions_def dest!: state_of_InrE)
qed

lemma ledger_step_catalog: "ledger_ok s \<Longrightarrow> ledger_step z env e s = Inr s' \<Longrightarrow> catalog s' = catalog s"
  by (cases e) (auto dest!: state_of_InrE action_log_post_InrD redeem_by_body_InrD
      dest: create_logs audit_logs redeem_logs rename_logs)

interpretation limited: service_machine "ledger_step z env" "\<lambda>s. zone_ok z \<and> ledger_ok s \<and> limits_ok z s \<and> catalog s = k" for z env k
  by unfold_locales (auto intro: ledger.call_inv ledger_step_limits simp: ledger_step_catalog)

text \<open>
  C23: the daily limit holds. Along every run nobody has more logs of one action on one local
  calendar day than its limit, rejected ones included, at whatever instants of the day and with
  whatever keys they are submitted.
\<close>

theorem daily_limit_holds:
  assumes "zone_ok z" "ledger_ok s" "limits_ok z s" "a \<in> set (actions s)" "s' = run_calls (ledger_step z env) calls s"
  shows "length (filter (\<lambda>l. log_user l = u \<and> log_action l = action_id a \<and> local_date z (log_created_at l) = day) (action_logs s'))
    \<le> daily_limit a"
proof -
  have "limits_ok z s'" "catalog s' = catalog s"
    using limited.run_inv [of z s "catalog s" env calls] assms(1-3) by (simp_all add: assms(5))
  then show ?thesis using assms(4)
    by (auto simp: limits_ok_def submitted_on_def submissions_def filter_map comp_def case_prod_beta catalog_def)
qed

text \<open>Three submissions of an action with limit two on one day, and one on the next.\<close>

definition demo_greedy_run :: "ledger_call list" where
  "demo_greedy_run = map (\<lambda>(t, k). LogRequest t t 1 (demo_data 7 k []))
     [(100, ''a''), (101, ''b''), (102, ''c''), (timedelta_days 1, ''d'')]"

lemma demo_shop_limits: "limits_ok mexico_city demo_shop"
  by (simp add: limits_ok_def submitted_on_def submissions_def demo_shop_def empty_db_def demo_action_def demo_photo_action_def)

lemma demo_greedy_logs:
  "map log_created_at (action_logs (run_calls (ledger_step mexico_city demo_env) demo_greedy_run demo_shop)) = [100, 101, timedelta_days 1]"
  by code_simp

theorem daily_limit_holds_witness:
  "map log_created_at (action_logs (run_calls (ledger_step mexico_city demo_env) demo_greedy_run demo_shop)) = [100, 101, timedelta_days 1] \<and>
   length (filter (\<lambda>l. log_user l = 1 \<and> log_action l = action_id demo_action \<and> local_date mexico_city (log_created_at l) = local_date mexico_city 100)
     (action_logs (run_calls (ledger_step mexico_city demo_env) demo_greedy_run demo_shop))) \<le> 2"
proof -
  have a: "demo_action \<in> set (actions demo_shop)" by (simp add: demo_shop_def)
  have "daily_limit demo_action = 2" by (simp add: demo_action_def)
  with daily_limit_holds [OF mexico_city_ok demo_shop_ok demo_shop_limits a refl, of 1 "local_date mexico_city 100" demo_env demo_greedy_run]
    demo_greedy_logs show ?thesis by simp
qed

end
