(* ===== verification/Spending.thy ===== *)
theory Spending
  imports Action_Rules
begin

text \<open>
  Where the points went: every point a person no longer has was spent on a cosmetic they own or
  on a nickname change, at the price of the catalog.
\<close>

section \<open>Purses\<close>

text \<open>What a person has spent, owns and has renamed; crediting and debiting a log leave it alone.\<close>

definition purse :: "profile \<Rightarrow> uuid \<times> int \<times> string list \<times> nat" where
  "purse p = (profile_user p, total_points p - available_points p, unlocked_cosmetics p, nickname_changes p)"

definition purses :: "db \<Rightarrow> (uuid \<times> int \<times> string list \<times> nat) list" where
  "purses s = map purse (profiles s)"

lemma purses_pay: "add_profile_points s u n = Inr s' \<Longrightarrow> purses s' = purses s"
  by (auto simp: add_profile_points_def purses_def purse_def qs_update_def split: if_splits)

lemma purses_clans: "add_points_to_clans n cids s = Inr s' \<Longrightarrow> purses s' = purses s"
proof -
  assume "add_points_to_clans n cids s = Inr s'"
  then obtain cs where "s' = s\<lparr>clans := cs\<rparr>" using add_points_to_clans_InrD(2) by metis
  then show ?thesis by (simp add: purses_def)
qed

lemma purses_streak: "u \<in> fst ` set (balances s) \<Longrightarrow> purses (snd (recalculate_streak z s now u)) = purses s"
proof -
  assume "u \<in> fst ` set (balances s)"
  then have "u \<in> profile_user ` set (profiles s)" by (simp add: balance_owner)
  then obtain p where "profile_of s u = Some p" by (cases "profile_of s u") (auto simp: profile_of_def find_None_iff)
  then show ?thesis by (simp add: recalculate_streak_def ensure_profile_def edit_profile_def purses_def purse_def qs_update_def Let_def)
qed

lemma credit_purses:
  assumes "progress_rows_ok s" "log_user l \<in> fst ` set (balances s)" "credit_log z s now l = Inr s'"
  shows "purses s' = purses s"
proof -
  from assms(3) obtain s1 s2 s3 ps s4 where
    1: "add_profile_points s (log_user l) (points_awarded l) = Inr s1"
      "add_points_to_clans (points_awarded l) (credited_clans l) s1 = Inr s2"
      "check_and_award_badges s2 now (log_user l) = Inr s3"
      "notify_mission_progress s3 now l = Inr (ps, s4)"
      "s' = snd (recalculate_streak z s4 now (log_user l))"
    by (auto simp: credit_log_def elim!: res_bind_InrE)
  note a = add_profile_points_InrD [OF 1(1)] and b = add_points_to_clans_InrD [OF 1(2)] and c = check_and_award_only [OF 1(3)]
  obtain ps1 cs2 where s2: "s1 = s\<lparr>profiles := ps1\<rparr>" "s2 = s1\<lparr>clans := cs2\<rparr>" using a(2) b(2) by metis
  have p3: "progress_rows_ok s3"
    by (rule progress_rows_ok_mono [OF assms(1)]) (use only_badges_frame(10,16) [OF c] in \<open>simp_all add: s2\<close>)
  note d = notify_mission_progress_only [OF p3 1(4)]
  have prof: "profiles s4 = profiles s2" using only_badges_frame(2) [OF c] only_progress_frame(2) [OF conjunct2 [OF d]] by simp
  have "balances s4 = balances s1" using prof by (simp add: balances_def s2)
  then have own: "log_user l \<in> fst ` set (balances s4)" using a(1) assms(2) by simp
  have "purses s' = purses s4" using purses_streak [OF own] by (simp add: 1(5))
  also have "\<dots> = purses s2" by (simp add: purses_def prof)
  finally show ?thesis using purses_clans [OF 1(2)] purses_pay [OF 1(1)] by simp
qed

lemma approve_purses:
  assumes "progress_rows_ok s" "log_user l \<in> fst ` set (balances s)" "approve_log z s now l = Inr s'"
  shows "purses s' = purses s"
proof -
  from assms(3) obtain s1 n ty ctx where 1: "credit_log z s now l = Inr s1" "notify s1 now (log_user l) ty ctx = Inr (n, s')"
    by (auto simp: approve_log_def elim!: res_bind_InrE dest!: state_of_InrE split: if_splits)
  have "profiles s' = profiles s1" using only_notifications_frame(2) [OF notify_only [OF 1(2)]] .
  then show ?thesis using credit_purses [OF assms(1,2) 1(1)] by (simp add: purses_def)
qed

lemma reject_purses:
  assumes "progress_rows_ok s" "log_user l \<in> fst ` set (balances s)" "reject_log z s now l reason = Inr s'"
  shows "purses s' = purses s"
proof -
  from assms(3) obtain n s1 ps s2 where 1: "notify s now (log_user l) AUDIT_REJECT [(''reason'', reason)] = Inr (n, s1)"
    "revert_mission_progress s1 now l = Inr (ps, s2)" "s' = snd (recalculate_streak z s2 now (log_user l))"
    by (auto simp: reject_log_def elim!: res_bind_InrE)
  have o: "only_notifications s s1" using 1(1) by (rule notify_only)
  have p1: "progress_rows_ok s1"
    by (rule progress_rows_ok_mono [OF assms(1)]) (use only_notifications_frame [OF o] in simp_all)
  note r = revert_mission_progress_only [OF p1 1(2)]
  have prof: "profiles s2 = profiles s" using only_notifications_frame(2) [OF o] only_progress_frame(2) [OF conjunct2 [OF r]] by simp
  then have "log_user l \<in> fst ` set (balances s2)" using assms(2) by (simp add: balances_def)
  from purses_streak [OF this] prof show ?thesis by (simp add: 1(3) purses_def)
qed

lemma create_purses:
  assumes ok: "ledger_ok s" and c: "create_action_log z env s requested_at now uid d = Inr (r, s')"
  shows "purses s' = purses s"
  using c
proof (cases rule: create_cases)
  case (logged a p c key s1 l s2 s3)
  obtain ms n1 ps n3 where st: "s1 = s\<lparr>media := ms, next_id := n1\<rparr>" "s3 = s2\<lparr>posts := ps, next_id := n3\<rparr>"
    using logged(9,14) by metis
  have n: "next_id s \<le> n3" using logged(10,13,15) by (simp add: st)
  have s3: "profiles s3 = profiles s" "mission_progresses s3 = mission_progresses s" by (simp_all add: st logged(13))
  have pr: "progress_rows_ok s3"
    by (rule progress_rows_ok_mono [of s]) (use ok n s3 in \<open>auto simp: ledger_ok_def st\<close>)
  have "log_user l \<in> fst ` set (balances s3)" using logged(6,7,12) s3(1) by (force simp: balances_def new_log_def)
  from credit_purses [OF pr this, of z now s'] logged(17) s3(1) show ?thesis by (auto simp: purses_def split: if_splits)
qed simp

lemma audit_purses:
  assumes ok: "ledger_ok s" and a: "audit_action_log z s now admin lid approve raw = Inr (r, s')"
  shows "purses s' = purses s"
  using a
proof (cases rule: audit_cases)
  case (approved l l1)
  have pr: "progress_rows_ok (save_log l1 s)"
    by (rule progress_rows_ok_mono [of s]) (use ok in \<open>simp_all add: ledger_ok_def\<close>)
  have "log_user l1 \<in> fst ` set (balances (save_log l1 s))" using ok approved(3,6) by (auto simp: ledger_ok_def)
  from approve_purses [OF pr this approved(7)] show ?thesis by (simp add: purses_def save_log_def)
next
  case (rejected l l1 s1)
  have s1: "purses s1 = purses s \<and> fst ` set (balances s1) = fst ` set (balances s) \<and>
      mission_progresses s1 = mission_progresses s \<and> next_id s1 = next_id s"
  proof (cases "log_status l = LOG_APPROVED")
    case True
    then have rev: "revoke_awarded_points s l = Inr s1" using rejected(6) by auto
    then obtain s0 where "add_profile_points s (log_user l) (- points_awarded l) = Inr s0"
      "add_points_to_clans (- points_awarded l) (credited_clans l) s0 = Inr s1"
      by (auto simp: revoke_awarded_points_def elim!: res_bind_InrE split: if_splits)
    then have "purses s1 = purses s" using purses_pay purses_clans by simp
    moreover have "distinct (map fst (balances s))" using ok by (simp add: ledger_ok_def)
    note rv = revoke_InrD [OF this rev]
    obtain ps cs where "s1 = s\<lparr>profiles := ps, clans := cs\<rparr>" using rv(3) by metis
    ultimately show ?thesis using rv(1) by simp
  qed (use rejected(6) in auto)
  have pr: "progress_rows_ok (save_log l1 s1)"
    by (rule progress_rows_ok_mono [of s]) (use ok s1 in \<open>simp_all add: ledger_ok_def\<close>)
  have "log_user l1 \<in> fst ` set (balances (save_log l1 s1))" using ok rejected(4,7) s1 by (auto simp: ledger_ok_def)
  from reject_purses [OF pr this rejected(8)] s1 show ?thesis by (simp add: purses_def save_log_def)
qed simp

section \<open>The books balance\<close>

definition price :: "db \<Rightarrow> string \<Rightarrow> int" where
  "price s key = (\<Sum>i \<leftarrow> items s. if item_key i = key then points_cost i else 0)"

definition purse_ok :: "db \<Rightarrow> uuid \<times> int \<times> string list \<times> nat \<Rightarrow> bool" where
  "purse_ok s = (\<lambda>(_, spent, owned, changes). distinct owned \<and>
     spent = (\<Sum>key \<leftarrow> owned. price s key) + NICKNAME_CHANGE_COST_POINTS * int (changes - 1))"

definition spending_ok :: "db \<Rightarrow> bool" where
  "spending_ok s \<longleftrightarrow> distinct (map item_key (items s)) \<and> (\<forall>p \<in> set (profiles s). purse_ok s (purse p))"

lemma price_unique: "distinct (map item_key (items s)) \<Longrightarrow> i \<in> set (items s) \<Longrightarrow> price s (item_key i) = points_cost i"
proof -
  have "distinct (map item_key xs) \<Longrightarrow> i \<in> set xs \<Longrightarrow> (\<Sum>j \<leftarrow> xs. if item_key j = item_key i then points_cost j else 0) = points_cost i" for xs
  proof (induction xs)
    case (Cons x xs)
    show ?case
    proof (cases "x = i")
      case True
      have "(\<Sum>j \<leftarrow> xs. if item_key j = item_key i then points_cost j else 0) = (\<Sum>j \<leftarrow> xs. 0)"
        by (rule arg_cong [where f = sum_list], rule map_cong) (use Cons.prems(1) True in \<open>auto simp: image_iff\<close>)
      then show ?thesis using True by (simp add: sum_list_0)
    next
      case False
      then have "item_key x \<noteq> item_key i" using Cons.prems by (auto simp: image_iff)
      then show ?thesis using Cons False by simp
    qed
  qed simp
  then show "distinct (map item_key (items s)) \<Longrightarrow> i \<in> set (items s) \<Longrightarrow> price s (item_key i) = points_cost i"
    by (simp add: price_def)
qed

lemma spending_same:
  assumes "spending_ok s" "purses s' = purses s" "items s' = items s"
  shows "spending_ok s'"
proof -
  have "purse ` set (profiles s') = purse ` set (profiles s)" using assms(2) by (metis list.set_map purses_def)
  moreover have "purse_ok s' = purse_ok s" by (simp add: purse_ok_def price_def assms(3) fun_eq_iff)
  ultimately show ?thesis using assms(1,3) by (auto simp: spending_ok_def) (metis imageE imageI)
qed

lemma spending_ensure:
  assumes "spending_ok s" "ensure_profile s u = (p, s1)"
  shows "spending_ok s1"
proof (cases "profile_of s u")
  case None
  have "purse_ok s (purse (new_profile u))" by (simp add: purse_ok_def purse_def new_profile_def)
  moreover have s1: "s1 = s\<lparr>profiles := profiles s @ [new_profile u]\<rparr>" using assms(2) None by (auto simp: ensure_profile_def)
  moreover have "purse_ok s1 = purse_ok s" by (simp add: s1 purse_ok_def price_def fun_eq_iff)
  ultimately show ?thesis using assms(1) by (auto simp: spending_ok_def)
qed (use assms in \<open>simp add: ensure_profile_def\<close>)

lemma spending_edit:
  assumes "spending_ok s" "\<And>p. p \<in> set (profiles s) \<Longrightarrow> profile_user p = u \<Longrightarrow> purse_ok s (purse (f p))"
  shows "spending_ok (edit_profile u f s)"
  using assms by (auto simp: spending_ok_def edit_profile_def ball_qs_update purse_ok_def price_def)

lemma redeem_spending:
  assumes ok: "ledger_ok s" and sp: "spending_ok s" and r: "redeem_exchangeable s u key iid = Inr (q, s')"
  shows "spending_ok s'"
proof -
  obtain p s1 where e: "ensure_profile s u = (p, s1)" by force
  note d = ensure_profile_ledger [OF ok e] and sp1 = spending_ensure [OF sp e]
  from r e show ?thesis
  proof (cases rule: redeem_item_InrD)
    case (1 i)
    have "price s1 (item_key i) = points_cost i" using price_unique [of s1 i] sp1 1(1) by (simp add: spending_ok_def)
    moreover have "purse_ok s1 (purse p)" using sp1 d(2) by (simp add: spending_ok_def)
    ultimately have "purse_ok s1 (purse (p\<lparr>available_points := available_points p - points_cost i,
        unlocked_cosmetics := unlocked_cosmetics p @ [item_key i]\<rparr>))"
      using 1(4) by (simp add: purse_ok_def purse_def new_profile_def)
    then show ?thesis unfolding 1(7) using d(4) by (intro spending_edit [OF sp1]) auto
  qed
qed

lemma rename_spending:
  assumes ok: "ledger_ok s" and sp: "spending_ok s" and r: "change_nickname s u nick = Inr (q, s')"
  shows "spending_ok s'"
proof -
  obtain p s1 where e: "ensure_profile s u = (p, s1)" by force
  note d = ensure_profile_ledger [OF ok e] and sp1 = spending_ensure [OF sp e] and c = change_nickname_InrD [OF r e]
  let ?s2 = "edit_user u (\<lambda>x. x\<lparr>nickname := nick\<rparr>) s1"
  have sp2: "spending_ok ?s2" by (rule spending_same [OF sp1]) (simp_all add: edit_user_def purses_def)
  have "purse_ok s1 (purse p)" using sp1 d(2) by (simp add: spending_ok_def)
  then have "purse_ok ?s2 (purse (p\<lparr>available_points := available_points p - nickname_change_cost p,
      nickname_changes := Suc (nickname_changes p)\<rparr>))"
    by (cases "nickname_changes p")
      (simp_all add: purse_ok_def purse_def nickname_change_cost_def price_def edit_user_def algebra_simps)
  moreover have "profiles ?s2 = profiles s1" by (simp add: edit_user_def)
  ultimately show ?thesis using c d(4) by (auto intro!: spending_edit [OF sp2])
qed

interpretation books: service_machine "ledger_step z env" "\<lambda>s. ledger_ok s \<and> spending_ok s \<and> catalog s = k" for z env k
proof
  fix s e s' assume a: "ledger_ok s \<and> spending_ok s \<and> catalog s = k" and st: "ledger_step z env e s = Inr s'"
  then have ok: "ledger_ok s" and sp: "spending_ok s" by simp_all
  have cat: "catalog s' = catalog s" using ledger_step_catalog [OF ok st] .
  then have same: "purses s' = purses s \<Longrightarrow> spending_ok s'" using spending_same [OF sp] by (simp add: catalog_def)
  have "spending_ok s'"
    by (cases e; use st same in \<open>auto dest!: state_of_InrE action_log_post_InrD redeem_by_body_InrD
        intro: create_purses [OF ok] audit_purses [OF ok] redeem_spending [OF ok sp] rename_spending [OF ok sp]\<close>)
  then show "ledger_ok s' \<and> spending_ok s' \<and> catalog s' = k" using ledger.call_inv [OF ok st] cat a by simp
qed

text \<open>
  C24: every spent point is accounted for. Along every run the points a person has earned and no
  longer has are the prices of the cosmetics they own, each owned once and paid once, and fifty
  points for every nickname change after the first; a revoked log never comes out of what was
  spent.
\<close>

theorem spending_is_accounted:
  assumes "ledger_ok s" "spending_ok s" "s' = run_calls (ledger_step z env) calls s" "p \<in> set (profiles s')"
  shows "distinct (unlocked_cosmetics p) \<and>
    total_points p - available_points p =
      (\<Sum>key \<leftarrow> unlocked_cosmetics p. price s key) + 50 * int (nickname_changes p - 1)"
proof -
  have "spending_ok s'" "catalog s' = catalog s"
    using books.run_inv [of s "catalog s" z env calls] assms(1,2) by (simp_all add: assms(3))
  then show ?thesis using assms(4)
    by (auto simp: spending_ok_def purse_ok_def purse_def price_def catalog_def NICKNAME_CHANGE_COST_POINTS_def)
qed

definition demo_spender_run :: "ledger_call list" where
  "demo_spender_run = demo_ledger_run @ [RedeemRequest 1 (Some ''marco'') None]"

lemma demo_shop_spending: "spending_ok demo_shop"
  by (simp add: spending_ok_def demo_shop_def empty_db_def purse_ok_def purse_def new_profile_def demo_item_def)

lemma demo_spender_purses:
  "purses (run_calls (ledger_step mexico_city demo_env) demo_spender_run demo_shop) = [(1, 8, [''marco''], 0)]"
  by code_simp

lemma demo_price: "price demo_shop ''marco'' = 8"
  by code_simp

theorem spending_is_accounted_witness:
  "\<exists>p \<in> set (profiles (run_calls (ledger_step mexico_city demo_env) demo_spender_run demo_shop)).
     unlocked_cosmetics p = [''marco''] \<and> total_points p - available_points p = price demo_shop ''marco''"
proof -
  let ?s' = "run_calls (ledger_step mexico_city demo_env) demo_spender_run demo_shop"
  obtain p where p: "p \<in> set (profiles ?s')" "purse p = (1, 8, [''marco''], 0)"
    using demo_spender_purses unfolding purses_def by (cases "profiles ?s'") auto
  have "total_points p - available_points p = (\<Sum>key \<leftarrow> unlocked_cosmetics p. price demo_shop key) + 50 * int (nickname_changes p - 1)"
    using spending_is_accounted [OF demo_shop_ok demo_shop_spending refl p(1)] by blast
  then show ?thesis using p by (intro bexI [of _ p]) (auto simp: purse_def)
qed

end
