(* ===== verification/Campaign_Views.thy ===== *)
theory Campaign_Views
  imports Campaigns Accounts
begin

text \<open>
  The requests of the campaigns app (\<open>campaigns/views.py\<close>) with the validation of their bodies
  (\<open>campaigns/serializers.py\<close>): what a caller sees, creating and editing a campaign, its manual
  start and finish, its missions and participants, and the review of proposals. A serializer
  answers every field error at once; the model answers the first. Each request first
  synchronises the statuses, in a transaction of its own.
\<close>

section \<open>Visibility\<close>

definition leader_clan_ids :: "db \<Rightarrow> user option \<Rightarrow> uuid list" where
  "leader_clan_ids s caller =
     (case caller of
        None \<Rightarrow> []
      | Some u \<Rightarrow> map member_clan (filter (\<lambda>m. member m = user_id u \<and> member_role m = LEADER \<and>
                    list_ex (\<lambda>c. clan_id c = member_clan m \<and> deleted_at c = None) (clans s)) (memberships s)))"

text \<open>
  \<open>target_clan__deleted_at__isnull=True\<close> joins from the campaign outwards, so it also holds of a
  campaign without a target.
\<close>

definition live_target :: "db \<Rightarrow> campaign \<Rightarrow> bool" where
  "live_target s c =
     (case target_clan c of None \<Rightarrow> True | Some k \<Rightarrow> list_ex (\<lambda>x. clan_id x = k \<and> deleted_at x = None) (clans s))"

definition accepted_member :: "db \<Rightarrow> uuid \<Rightarrow> campaign \<Rightarrow> bool" where
  "accepted_member s u c \<longleftrightarrow>
     list_ex (\<lambda>m. Some (member_clan m) = target_clan c \<and> member m = u \<and> member_status m = REQ_ACCEPTED) (memberships s)"

definition visible_campaign :: "db \<Rightarrow> user \<Rightarrow> campaign \<Rightarrow> bool" where
  "visible_campaign s u c \<longleftrightarrow>
     approval_status c = CAMP_APPROVED \<and>
     (scope c = GLOBAL_SCOPE \<or>
      scope c = CLAN_SCOPE \<and> live_target s c \<and> (role u = ADMIN \<or> accepted_member s (user_id u) c))"

definition visible_campaigns :: "db \<Rightarrow> user \<Rightarrow> campaign list" where
  "visible_campaigns s u = filter (visible_campaign s u) (campaigns s)"

definition get_visible :: "db \<Rightarrow> user \<Rightarrow> uuid \<Rightarrow> campaign res" where
  "get_visible s u cid = get_or_404 (\<lambda>c. campaign_id c = cid) (visible_campaigns s u)"

definition is_participant :: "db \<Rightarrow> user option \<Rightarrow> uuid \<Rightarrow> bool" where
  "is_participant s caller cid =
     (case caller of
        None \<Rightarrow> False
      | Some u \<Rightarrow> list_ex (\<lambda>p. participant_campaign p = cid \<and> participant_user p = user_id u) (participants s))"

text \<open>\<open>setdefault(campaign_id, []).append(progress)\<close> over the progress rows of the caller.\<close>

definition append_at :: "'k \<Rightarrow> 'v \<Rightarrow> ('k \<rightharpoonup> 'v list) \<Rightarrow> 'k \<rightharpoonup> 'v list" where
  "append_at k v m = m(k \<mapsto> (case m k of None \<Rightarrow> [] | Some vs \<Rightarrow> vs) @ [v])"

definition progress_by_campaign :: "db \<Rightarrow> user option \<Rightarrow> uuid list \<Rightarrow> uuid \<rightharpoonup> mission_progress list" where
  "progress_by_campaign s caller ids =
     (case caller of
        None \<Rightarrow> Map.empty
      | Some u \<Rightarrow>
          fold (\<lambda>(cid, p). append_at cid p)
            [(mission_campaign m, p). p \<leftarrow> mission_progresses s, m \<leftarrow> missions s,
               progress_user p = user_id u \<and> mission_id m = progress_mission p \<and> mission_campaign m \<in> set ids]
            Map.empty)"

section \<open>What a campaign looks like to a caller\<close>

record campaign_view =
  view_campaign :: campaign
  view_clan_name :: "string option"
  view_missions :: "mission list"
  view_is_participant :: bool
  view_can_manage :: bool

definition campaign_missions :: "db \<Rightarrow> uuid \<Rightarrow> mission list" where
  "campaign_missions s cid = filter (\<lambda>m. mission_campaign m = cid) (missions s)"

definition serialize_campaign :: "db \<Rightarrow> user option \<Rightarrow> campaign \<Rightarrow> campaign_view" where
  "serialize_campaign s caller c =
     \<lparr>view_campaign = c, view_clan_name = map_option clan_name (campaign_target s c),
      view_missions = campaign_missions s (campaign_id c),
      view_is_participant = is_participant s caller (campaign_id c),
      view_can_manage = can_manage_campaign_for_user s caller c (Some (leader_clan_ids s caller))\<rparr>"

record list_query =
  query_scope :: string
  query_scopes :: string
  query_status :: string
  query_target_clan :: string
  query_is_active :: string
  query_participating :: string

fun scope_value :: "campaign_scope \<Rightarrow> string" where
  "scope_value GLOBAL_SCOPE = ''GLOBAL''"
| "scope_value CLAN_SCOPE = ''PRIVATE''"

fun status_value :: "campaign_status \<Rightarrow> string" where
  "status_value PROMOTION = ''PROMOTION''"
| "status_value IN_PROGRESS = ''IN_PROGRESS''"
| "status_value FINISHED = ''FINISHED''"

text \<open>A parameter that is missing is the empty string; \<open>parse_uuid\<close> is the constructor \<open>UUID\<close>.\<close>

definition campaign_query ::
  "(string \<Rightarrow> uuid option) \<Rightarrow> db \<Rightarrow> user \<Rightarrow> list_query \<Rightarrow> campaign list res" where
  "campaign_query parse_uuid s u q =
     (let scopes = filter (\<lambda>v. v \<noteq> []) (map py_strip (py_split_on (CHR '','') (query_scopes q)));
          keep = (\<lambda>c.
            (query_scope q = [] \<or> scope_value (scope c) = query_scope q) \<and>
            (scopes = [] \<or> scope_value (scope c) \<in> set scopes) \<and>
            (query_status q = [] \<or> status_value (status c) = query_status q) \<and>
            (py_lower (query_is_active q) \<noteq> ''true'' \<or> status c = IN_PROGRESS) \<and>
            (py_lower (query_participating q) \<noteq> ''true'' \<or> is_participant s (Some u) (campaign_id c)))
      in res_bind (if query_target_clan q = [] then Inr (\<lambda>c. True)
                   else case parse_uuid (query_target_clan q) of
                          None \<Rightarrow> Inl (ValidationError ''target_clan'' ''Enter a valid clan id.'')
                        | Some k \<Rightarrow> Inr (\<lambda>c. target_clan c = Some k)) (\<lambda>targets.
           Inr (sort_key (\<lambda>c. - start_date c)
             (filter (\<lambda>c. keep c \<and> targets c) (visible_campaigns s u)))))"

definition campaign_list ::
  "(string \<Rightarrow> uuid option) \<Rightarrow> db \<Rightarrow> user \<Rightarrow> list_query \<Rightarrow> (campaign_view \<times> mission_progress list) list res" where
  "campaign_list parse_uuid s u q =
     res_bind (campaign_query parse_uuid s u q) (\<lambda>cs.
       let progress = progress_by_campaign s (Some u) (map campaign_id cs)
       in Inr (map (\<lambda>c. (serialize_campaign s (Some u) c,
                         case progress (campaign_id c) of None \<Rightarrow> [] | Some ps \<Rightarrow> ps)) cs))"

definition campaign_detail ::
  "db \<Rightarrow> user \<Rightarrow> uuid \<Rightarrow> (campaign_view \<times> participant list \<times> mission_progress list) res" where
  "campaign_detail s u cid =
     res_bind (get_visible s u cid) (\<lambda>c.
       Inr (serialize_campaign s (Some u) c,
            filter (\<lambda>p. participant_campaign p = campaign_id c) (participants s),
            case progress_by_campaign s (Some u) [campaign_id c] (campaign_id c) of None \<Rightarrow> [] | Some ps \<Rightarrow> ps))"

section \<open>Validation of a body\<close>

record campaign_data =
  data_title :: string
  data_description :: string
  data_scope :: campaign_scope
  data_target_clan :: "uuid option"
  data_start :: datetime
  data_end :: datetime
  data_missions :: "(uuid \<times> int) list"

definition validate_title :: "string \<Rightarrow> string res" where
  "validate_title raw =
     (let t = py_strip raw
      in if t = [] then Inl (ValidationError ''title'' ''This field may not be blank.'')
         else if length t > 150 then Inl (ValidationError ''title'' ''Ensure this field has no more than 150 characters.'')
         else Inr t)"

definition validate_mission :: "db \<Rightarrow> uuid \<times> int \<Rightarrow> (uuid \<times> nat) res" where
  "validate_mission s d =
     (let (aid, n) = d
      in if \<not> list_ex (\<lambda>a. action_id a = aid \<and> action_is_active a) (actions s)
         then Inl (ValidationError ''action_id'' ''Action does not exist or is inactive.'')
         else if n < 1 then Inl (ValidationError ''target_count'' ''Target count must be greater than zero.'')
         else Inr (aid, nat n))"

fun validate_each :: "('a \<Rightarrow> 'b res) \<Rightarrow> 'a list \<Rightarrow> 'b list res" where
  "validate_each f [] = Inr []"
| "validate_each f (x # xs) = res_bind (f x) (\<lambda>y. res_bind (validate_each f xs) (\<lambda>ys. Inr (y # ys)))"

definition validate_missions :: "db \<Rightarrow> (uuid \<times> int) list \<Rightarrow> (uuid \<times> nat) list res" where
  "validate_missions s ds =
     res_bind (validate_each (validate_mission s) ds) (\<lambda>ms.
       let action_ids = map fst ms
       in if length action_ids \<noteq> card (set action_ids)
          then Inl (ValidationError ''missions'' ''Each action can appear only once per campaign.'')
          else Inr ms)"

definition validate_target_clan :: "db \<Rightarrow> uuid option \<Rightarrow> clan option res" where
  "validate_target_clan s target =
     (case target of
        None \<Rightarrow> Inr None
      | Some k \<Rightarrow> (case qs_get (\<lambda>c. clan_id c = k) (filter clan_alive (clans s)) of
                     Inl _ \<Rightarrow> Inl (ValidationError ''target_clan'' ''Clan does not exist or was deleted.'')
                   | Inr c \<Rightarrow> Inr (Some c)))"

definition validate_scope :: "db \<Rightarrow> user \<Rightarrow> campaign_scope \<Rightarrow> clan option \<Rightarrow> unit res" where
  "validate_scope s u sc clan =
     (if sc = GLOBAL_SCOPE \<and> clan \<noteq> None
      then Inl (ValidationError ''target_clan'' ''Global campaigns cannot target a clan.'')
      else if sc = CLAN_SCOPE \<and> clan = None
      then Inl (ValidationError ''target_clan'' ''Private campaigns must target a clan.'')
      else if sc = CLAN_SCOPE \<and> clan_type (the clan) \<notin> {PRIVATE_CLAN, INSTITUTIONAL}
      then Inl (ValidationError ''target_clan'' ''Private campaigns must target a private or institutional clan.'')
      else if sc = CLAN_SCOPE \<and> clan_type (the clan) = INSTITUTIONAL \<and> role u \<noteq> ADMIN
      then Inl (ValidationError ''target_clan'' ''Only administrators can create campaigns for an institutional clan.'')
      else if \<not> can_create_campaign s u sc clan
      then (if sc = GLOBAL_SCOPE
            then Inl (PermissionDenied ''Only administrators can create global campaigns.'')
            else Inl (PermissionDenied ''Only the clan leader can create campaigns for this clan.''))
      else Inr ())"

definition validate_campaign ::
  "zone \<Rightarrow> db \<Rightarrow> datetime \<Rightarrow> user \<Rightarrow> campaign_data \<Rightarrow> (string \<times> (uuid \<times> nat) list) res" where
  "validate_campaign z s now u d =
     res_bind (validate_title (data_title d)) (\<lambda>t.
     res_bind (validate_target_clan s (data_target_clan d)) (\<lambda>clan.
     res_bind (validate_missions s (data_missions d)) (\<lambda>ms.
     res_bind (ensure_campaign_dates_allowed z now (data_start d) (data_end d) True) (\<lambda>_.
     res_bind (validate_scope s u (data_scope d) clan) (\<lambda>_.
       if ms = [] then Inl (ValidationError ''missions'' ''A campaign must have at least one mission.'')
       else Inr (t, ms))))))"

section \<open>Creating and editing\<close>

definition new_campaign :: "user \<Rightarrow> datetime \<Rightarrow> string \<Rightarrow> campaign_data \<Rightarrow> campaign" where
  "new_campaign u now t d =
     \<lparr>campaign_id = 0, title = t, description = py_strip (data_description d), scope = data_scope d,
      status = compute_campaign_status (data_start d) (data_end d) now, creator = user_id u,
      target_clan = data_target_clan d, start_date = data_start d, end_date = data_end d,
      approval_status = CAMP_APPROVED, reviewed_by = None, reviewed_at = None, rejection_reason = [],
      campaign_created_at = now\<rparr>"

definition create_campaign_view ::
  "zone \<Rightarrow> db \<Rightarrow> datetime \<Rightarrow> user \<Rightarrow> campaign_data \<Rightarrow> (campaign \<times> db) res" where
  "create_campaign_view z s now u d =
     res_bind (validate_campaign z s now u d) (\<lambda>(t, ms).
     res_bind (create_campaign_with_missions s now (new_campaign u now t d) ms) (\<lambda>(c, s1).
       if scope c = CLAN_SCOPE \<and> leads_live_clan s1 u (campaign_target s1 c)
       then res_bind (participant_create s1 now (campaign_id c) (user_id u)) (\<lambda>(_, s2). Inr (c, s2))
       else Inr (c, s1)))"

record campaign_patch =
  patch_title :: "string option"
  patch_description :: "string option"
  patch_start :: "datetime option"
  patch_end :: "datetime option"
  patch_others :: "string list"

definition if_changed :: "datetime option \<Rightarrow> datetime \<Rightarrow> datetime option" where
  "if_changed new stored =
     (case new of None \<Rightarrow> None | Some t \<Rightarrow> if date_changed t stored then Some t else None)"

definition or_stored :: "'a option \<Rightarrow> 'a \<Rightarrow> 'a" where
  "or_stored new stored = (case new of None \<Rightarrow> stored | Some v \<Rightarrow> v)"

definition validate_update :: "zone \<Rightarrow> datetime \<Rightarrow> campaign \<Rightarrow> campaign_patch \<Rightarrow> campaign_patch res" where
  "validate_update z now c p =
     res_bind (case patch_title p of None \<Rightarrow> Inr None | Some raw \<Rightarrow> map_sum id Some (validate_title raw)) (\<lambda>t.
       if patch_others p \<noteq> []
       then Inl (ValidationError (hd (sort (patch_others p))) ''This field cannot be edited.'')
       else let start = if_changed (patch_start p) (start_date c);
                fin = if_changed (patch_end p) (end_date c);
                p1 = \<lparr>patch_title = t, patch_description = map_option py_strip (patch_description p),
                      patch_start = start, patch_end = fin, patch_others = []\<rparr>
            in if start = None \<and> fin = None then Inr p1
               else res_bind (ensure_campaign_dates_allowed z now (or_stored start (start_date c))
                                (or_stored fin (end_date c)) (start \<noteq> None)) (\<lambda>_. Inr p1))"

definition update_campaign :: "datetime \<Rightarrow> campaign \<Rightarrow> campaign_patch \<Rightarrow> campaign" where
  "update_campaign now c p =
     (let c1 = c\<lparr>title := or_stored (patch_title p) (title c),
                description := or_stored (patch_description p) (description c),
                start_date := or_stored (patch_start p) (start_date c),
                end_date := or_stored (patch_end p) (end_date c)\<rparr>
      in c1\<lparr>status := compute_campaign_status (start_date c1) (end_date c1) now\<rparr>)"

definition patch_campaign_view ::
  "zone \<Rightarrow> db \<Rightarrow> datetime \<Rightarrow> user \<Rightarrow> uuid \<Rightarrow> campaign_patch \<Rightarrow> (campaign \<times> db) res" where
  "patch_campaign_view z s now u cid p =
     res_bind (get_visible s u cid) (\<lambda>v.
       if \<not> can_manage_campaign s u v then Inl (PermissionDenied ''You cannot edit this campaign.'')
       else res_bind (campaign_get s (campaign_id v)) (\<lambda>c.
         if status c \<noteq> PROMOTION
         then Inl (ValidationError [] ''Campaigns can only be edited while in promotion.'')
         else res_bind (validate_update z now c p) (\<lambda>p1.
              let c1 = update_campaign now c p1
              in res_bind (campaign_save s c1) (\<lambda>s1. Inr (c1, s1)))))"

definition transition_view ::
  "(db \<Rightarrow> datetime \<Rightarrow> uuid \<Rightarrow> (campaign \<times> db) res) \<Rightarrow> string \<Rightarrow> db \<Rightarrow> datetime \<Rightarrow> user \<Rightarrow> uuid \<Rightarrow> (campaign \<times> db) res" where
  "transition_view transition denied_message s now u cid =
     res_bind (get_visible s u cid) (\<lambda>v.
       if \<not> can_manage_campaign s u v then Inl (PermissionDenied denied_message)
       else transition s now (campaign_id v))"

definition start_campaign_view :: "db \<Rightarrow> datetime \<Rightarrow> user \<Rightarrow> uuid \<Rightarrow> (campaign \<times> db) res" where
  "start_campaign_view = transition_view start_campaign ''You cannot start this campaign.''"

definition finish_campaign_view :: "db \<Rightarrow> datetime \<Rightarrow> user \<Rightarrow> uuid \<Rightarrow> (campaign \<times> db) res" where
  "finish_campaign_view = transition_view finish_campaign ''You cannot finish this campaign.''"

section \<open>Missions, participants and progress\<close>

definition mission_list_view :: "db \<Rightarrow> user \<Rightarrow> uuid \<Rightarrow> mission list res" where
  "mission_list_view s u cid =
     res_bind (get_visible s u cid) (\<lambda>c. Inr (sort_key mission_id (campaign_missions s (campaign_id c))))"

definition add_mission_view :: "db \<Rightarrow> user \<Rightarrow> uuid \<Rightarrow> uuid \<times> int \<Rightarrow> (mission \<times> db) res" where
  "add_mission_view s u cid d =
     res_bind (get_visible s u cid) (\<lambda>c.
       if \<not> can_manage_campaign s u c
       then Inl (PermissionDenied ''You cannot manage missions in this campaign.'')
       else if status c \<noteq> PROMOTION
       then Inl (ValidationError [] ''Missions can only be added while the campaign is in promotion.'')
       else res_bind (validate_mission s d) (\<lambda>(aid, n).
         if list_ex (\<lambda>m. mission_campaign m = campaign_id c \<and> mission_action m = aid) (missions s)
         then Inl (ValidationError ''action_id'' ''This action already has a mission in this campaign.'')
         else case mission_create s (campaign_id c) aid n of
                Inl (IntegrityError _) \<Rightarrow>
                  Inl (ValidationError ''action_id'' ''This action already has a mission in this campaign.'')
              | r \<Rightarrow> r))"

definition participant_list_view :: "db \<Rightarrow> user \<Rightarrow> uuid \<Rightarrow> participant list res" where
  "participant_list_view s u cid =
     res_bind (get_visible s u cid) (\<lambda>c. Inr (filter (\<lambda>p. participant_campaign p = campaign_id c) (participants s)))"

datatype join_response = Enrolled participant | CampaignNotActive | NotAClanMember | AlreadyEnrolled

definition joinable :: "db \<Rightarrow> campaign \<Rightarrow> bool" where
  "joinable s c \<longleftrightarrow>
     (scope c = GLOBAL_SCOPE \<or> scope c = CLAN_SCOPE \<and> live_target s c) \<and> approval_status c = CAMP_APPROVED"

definition join_campaign_view :: "db \<Rightarrow> datetime \<Rightarrow> user \<Rightarrow> uuid \<Rightarrow> (join_response \<times> db) res" where
  "join_campaign_view s now u cid =
     res_bind (get_or_404 (\<lambda>c. joinable s c \<and> campaign_id c = cid) (campaigns s)) (\<lambda>c.
       if status c \<noteq> PROMOTION then Inr (CampaignNotActive, s)
       else if scope c = CLAN_SCOPE \<and> \<not> accepted_member s (user_id u) c then Inr (NotAClanMember, s)
       else if is_participant s (Some u) (campaign_id c) then Inr (AlreadyEnrolled, s)
       else case participant_create s now (campaign_id c) (user_id u) of
              Inl (IntegrityError _) \<Rightarrow> Inr (AlreadyEnrolled, s)
            | Inl e \<Rightarrow> Inl e
            | Inr (p, s1) \<Rightarrow> Inr (Enrolled p, s1))"

definition mission_progress_view :: "db \<Rightarrow> user \<Rightarrow> uuid \<Rightarrow> (mission_progress \<times> db) res" where
  "mission_progress_view s u mid =
     res_bind (get_or_404 (\<lambda>m. mission_id m = mid) (missions s)) (\<lambda>m.
       if \<not> is_participant s (Some u) (mission_campaign m)
       then Inl (PermissionDenied ''User must join the campaign before tracking mission progress.'')
       else get_or_create_progress s (user_id u) (mission_id m))"

section \<open>Proposals\<close>

definition proposal_list :: "db \<Rightarrow> user \<Rightarrow> approval_status option \<Rightarrow> campaign list" where
  "proposal_list s u st =
     sort_key (\<lambda>c. - campaign_created_at c)
       (filter (\<lambda>c. scope c = GLOBAL_SCOPE \<and>
          (if role u = ADMIN then \<not> list_ex (\<lambda>x. user_id x = creator c \<and> role x = ADMIN) (users s)
           else creator c = user_id u) \<and>
          (case st of None \<Rightarrow> True | Some a \<Rightarrow> approval_status c = a)) (campaigns s))"

definition validate_proposal ::
  "zone \<Rightarrow> db \<Rightarrow> datetime \<Rightarrow> campaign_data \<Rightarrow> (string \<times> (uuid \<times> nat) list) res" where
  "validate_proposal z s now d =
     res_bind (validate_title (data_title d)) (\<lambda>t.
     res_bind (validate_missions s (data_missions d)) (\<lambda>ms.
     res_bind (ensure_campaign_dates_allowed z now (data_start d) (data_end d) True) (\<lambda>_.
       if ms = [] then Inl (ValidationError ''missions'' ''A campaign must have at least one mission.'')
       else Inr (t, ms))))"

definition propose_view :: "zone \<Rightarrow> db \<Rightarrow> datetime \<Rightarrow> user \<Rightarrow> campaign_data \<Rightarrow> (campaign \<times> db) res" where
  "propose_view z s now u d =
     (if role u = ADMIN then Inl (PermissionDenied ''Administrators create global campaigns directly.'')
      else res_bind (validate_proposal z s now d) (\<lambda>(t, ms).
        propose_global_campaign s now (user_id u) t (py_strip (data_description d)) (data_start d) (data_end d) ms))"

definition approve_proposal_view :: "zone \<Rightarrow> db \<Rightarrow> datetime \<Rightarrow> user \<Rightarrow> uuid \<Rightarrow> (campaign \<times> db) res" where
  "approve_proposal_view z s now u cid =
     (case approve_campaign z s now (user_id u) cid of Inl DoesNotExist \<Rightarrow> Inl Http404 | r \<Rightarrow> r)"

definition reject_proposal_view :: "db \<Rightarrow> datetime \<Rightarrow> user \<Rightarrow> uuid \<Rightarrow> string \<Rightarrow> (campaign \<times> db) res" where
  "reject_proposal_view s now u cid raw =
     (if py_strip raw = [] then Inl (ValidationError ''rejection_reason'' ''This field may not be blank.'')
      else case reject_campaign s now (user_id u) cid (py_strip raw) of Inl DoesNotExist \<Rightarrow> Inl Http404 | r \<Rightarrow> r)"

section \<open>Requests\<close>

datatype campaign_call =
    ReadCampaigns
  | CreateCampaign campaign_data
  | EditCampaign uuid campaign_patch
  | StartCampaign uuid
  | FinishCampaign uuid
  | AddMission uuid "uuid \<times> int"
  | JoinCampaign uuid
  | ReadProgress uuid
  | ProposeCampaign campaign_data
  | ApproveProposal uuid
  | RejectProposal uuid string

fun campaign_action :: "zone \<Rightarrow> datetime \<Rightarrow> user \<Rightarrow> campaign_call \<Rightarrow> db \<Rightarrow> db res" where
  "campaign_action z now u ReadCampaigns s = Inr s"
| "campaign_action z now u (CreateCampaign d) s = state_of (create_campaign_view z s now u d)"
| "campaign_action z now u (EditCampaign cid p) s = state_of (patch_campaign_view z s now u cid p)"
| "campaign_action z now u (StartCampaign cid) s = state_of (start_campaign_view s now u cid)"
| "campaign_action z now u (FinishCampaign cid) s = state_of (finish_campaign_view s now u cid)"
| "campaign_action z now u (AddMission cid d) s = state_of (add_mission_view s u cid d)"
| "campaign_action z now u (JoinCampaign cid) s = state_of (join_campaign_view s now u cid)"
| "campaign_action z now u (ReadProgress mid) s = state_of (mission_progress_view s u mid)"
| "campaign_action z now u (ProposeCampaign d) s = state_of (propose_view z s now u d)"
| "campaign_action z now u (ApproveProposal cid) s = state_of (approve_proposal_view z s now u cid)"
| "campaign_action z now u (RejectProposal cid reason) s = state_of (reject_proposal_view s now u cid reason)"

fun admin_only :: "campaign_call \<Rightarrow> bool" where
  "admin_only (ApproveProposal _) = True"
| "admin_only (RejectProposal _ _) = True"
| "admin_only _ = False"

text \<open>
  \<open>initial\<close> checks the caller, then synchronises. The synchronised statuses stay when the body
  of the request is refused, so a request that passes \<open>initial\<close> always leaves a new state; its
  answer is \<^const>\<open>campaign_action\<close> at the synchronised state.
\<close>

definition campaign_request :: "zone \<Rightarrow> datetime \<times> uuid \<times> campaign_call \<Rightarrow> db \<Rightarrow> db res" where
  "campaign_request z req s =
     (let (now, uid, call) = req
      in res_bind (get_user s uid) (\<lambda>u.
         if \<not> is_active u then Inl (PermissionDenied ''not authenticated'')
         else if admin_only call \<and> role u \<noteq> ADMIN then Inl (PermissionDenied ''not an administrator'')
         else let s1 = snd (sync_campaign_statuses s now)
              in Inr (commit s1 (campaign_action z now u call s1))))"

end
