(* ===== verification/Campaign_Rules.thy ===== *)
theory Campaign_Rules
  imports Campaign_Views
begin

text \<open>
  What the requests of the campaigns app keep: the life of a campaign along every run of
  requests, the errors a request can answer, editing during promotion, the flag that tells a
  client who may manage, and the grouping of progress rows.
\<close>

section \<open>The life of a campaign\<close>

text \<open>
  What may happen to one stored campaign. Its identity, author, scope and target never change;
  the status only moves forward; a review is final; the text and the start are fixed once it has
  started; a finished or rejected campaign is fixed altogether.
\<close>

definition campaign_le :: "campaign \<Rightarrow> campaign \<Rightarrow> bool" where
  "campaign_le c c' \<longleftrightarrow>
     campaign_id c' = campaign_id c \<and> creator c' = creator c \<and> scope c' = scope c \<and>
     target_clan c' = target_clan c \<and> campaign_created_at c' = campaign_created_at c \<and>
     status c \<le> status c' \<and>
     (approval_status c \<noteq> CAMP_PENDING \<longrightarrow>
        approval_status c' = approval_status c \<and> reviewed_by c' = reviewed_by c \<and>
        reviewed_at c' = reviewed_at c \<and> rejection_reason c' = rejection_reason c) \<and>
     (status c \<noteq> PROMOTION \<longrightarrow> title c' = title c \<and> description c' = description c \<and> start_date c' = start_date c) \<and>
     (status c = FINISHED \<or> approval_status c = CAMP_REJECTED \<longrightarrow> c' = c)"

lemma promotion_least [simp]: "PROMOTION \<le> st" "st \<le> FINISHED"
  by (cases st; simp add: status_order)+

lemma below_promotion [simp]: "st \<le> PROMOTION \<longleftrightarrow> st = PROMOTION" "FINISHED \<le> st \<longleftrightarrow> st = FINISHED"
  by (cases st; simp add: status_order)+

interpretation campaign_rows: row_order campaign_le
proof
  show "campaign_le c c" for c by (simp add: campaign_le_def)
next
  fix a b c assume ab: "campaign_le a b" and bc: "campaign_le b c"
  show "campaign_le a c"
  proof (cases "status a = FINISHED \<or> approval_status a = CAMP_REJECTED")
    case True
    then have "b = a" using ab by (auto simp: campaign_le_def)
    with bc show ?thesis by simp
  next
    case False
    have "status b \<noteq> PROMOTION" if "status a \<noteq> PROMOTION"
      using ab that by (auto simp: campaign_le_def)
    then show ?thesis using ab bc False by (auto simp: campaign_le_def)
  qed
qed

lemma synced_forward: "campaign_le c (synced now c)"
  using synced_le [of c now] by (auto simp: campaign_le_def synced_def must_finish_def must_start_def)

section \<open>Well-formed campaigns\<close>

definition row_ok :: "campaign \<Rightarrow> bool" where
  "row_ok c \<longleftrightarrow> campaign_violation c = None \<and> (approval_status c \<noteq> CAMP_APPROVED \<longrightarrow> status c = PROMOTION)"

definition campaigns_ok :: "db \<Rightarrow> bool" where
  "campaigns_ok s \<longleftrightarrow>
     table_ok campaign_id (next_id s) (campaigns s) \<and> (\<forall>c \<in> set (campaigns s). row_ok c) \<and>
     table_ok mission_id (next_id s) (missions s) \<and> (\<forall>m \<in> set (missions s). mission_campaign m < next_id s \<and> 0 < target_count m) \<and>
     table_ok participant_id (next_id s) (participants s) \<and> (\<forall>p \<in> set (participants s). participant_campaign p < next_id s) \<and>
     progress_rows_ok s"

lemma row_okD:
  assumes "row_ok c"
  shows "start_date c < end_date c" "length (title c) \<le> 150" "(scope c = GLOBAL_SCOPE) = (target_clan c = None)"
    "scope c = CLAN_SCOPE \<Longrightarrow> approval_status c = CAMP_APPROVED"
    "approval_status c = CAMP_REJECTED \<Longrightarrow> rejection_reason c \<noteq> []"
    "approval_status c \<noteq> CAMP_APPROVED \<Longrightarrow> status c = PROMOTION"
  using assms by (auto simp: row_ok_def campaign_violation_def split: if_splits)

lemma row_okI:
  assumes "start_date c < end_date c" "length (title c) \<le> 150" "(scope c = GLOBAL_SCOPE) = (target_clan c = None)"
    "scope c = CLAN_SCOPE \<Longrightarrow> approval_status c = CAMP_APPROVED"
    "approval_status c = CAMP_REJECTED \<Longrightarrow> rejection_reason c \<noteq> []"
    "approval_status c \<noteq> CAMP_APPROVED \<Longrightarrow> status c = PROMOTION"
  shows "row_ok c"
  using assms by (auto simp: row_ok_def campaign_violation_def)

text \<open>Missions and participants of a campaign that has started are settled.\<close>

definition grown :: "db \<Rightarrow> db \<Rightarrow> bool" where
  "grown s s' \<longleftrightarrow>
     set (missions s) \<subseteq> set (missions s') \<and> set (participants s) \<subseteq> set (participants s') \<and>
     (\<forall>c \<in> set (campaigns s). status c \<noteq> PROMOTION \<longrightarrow>
        (\<forall>m \<in> set (missions s'). mission_campaign m = campaign_id c \<longrightarrow> m \<in> set (missions s)) \<and>
        (\<forall>p \<in> set (participants s'). participant_campaign p = campaign_id c \<longrightarrow> p \<in> set (participants s)))"

definition campaigns_le :: "db \<Rightarrow> db \<Rightarrow> bool" where
  "campaigns_le s s' \<longleftrightarrow> rows_le campaign_le (campaigns s) (campaigns s') \<and> grown s s'"

lemma rows_le_member:
  assumes "rows_le le xs ys" "x \<in> set xs"
  shows "\<exists>y \<in> set ys. le x y"
proof -
  obtain i where "i < length xs" "x = xs ! i" using assms(2) by (auto simp: in_set_conv_nth)
  with assms(1) have "ys ! i \<in> set ys" "le x (ys ! i)" by (auto simp: rows_le_def)
  then show ?thesis by blast
qed

lemma grown_same: "missions s' = missions s \<Longrightarrow> participants s' = participants s \<Longrightarrow> grown s s'"
  by (simp add: grown_def)

lemma campaigns_le_refl: "campaigns_le s s"
  by (simp add: campaigns_le_def campaign_rows.rows_refl grown_same)

lemma campaigns_le_trans:
  assumes st: "campaigns_le s t" and tu: "campaigns_le t u"
  shows "campaigns_le s u"
proof -
  have "grown s u"
    unfolding grown_def
  proof (intro conjI ballI impI)
    fix c assume c: "c \<in> set (campaigns s)" "status c \<noteq> PROMOTION"
    obtain c' where c': "c' \<in> set (campaigns t)" "campaign_le c c'"
      using st c(1) rows_le_member [of campaign_le "campaigns s" "campaigns t" c] by (auto simp: campaigns_le_def)
    then have "status c' \<noteq> PROMOTION" "campaign_id c' = campaign_id c" using c(2) by (auto simp: campaign_le_def)
    then show "m \<in> set (missions s)" if "m \<in> set (missions u)" "mission_campaign m = campaign_id c" for m
      using that st tu c c'(1) by (auto simp: campaigns_le_def grown_def)
    show "p \<in> set (participants s)" if "p \<in> set (participants u)" "participant_campaign p = campaign_id c" for p
      using that st tu c c'(1) \<open>status c' \<noteq> PROMOTION\<close> \<open>campaign_id c' = campaign_id c\<close>
      by (auto simp: campaigns_le_def grown_def)
  qed (use st tu in \<open>auto simp: campaigns_le_def grown_def\<close>)
  then show ?thesis using st tu campaign_rows.rows_trans by (auto simp: campaigns_le_def)
qed

text \<open>A committed write: it keeps the rules and moves forward.\<close>

definition moves :: "db \<Rightarrow> db \<Rightarrow> bool" where
  "moves s s' \<longleftrightarrow> campaigns_ok s' \<and> campaigns_le s s'"

lemma moves_trans: "moves s t \<Longrightarrow> moves t u \<Longrightarrow> moves s u"
  by (auto simp: moves_def intro: campaigns_le_trans)

lemma moves_refl: "campaigns_ok s \<Longrightarrow> moves s s"
  by (simp add: moves_def campaigns_le_refl)

lemma campaigns_ok_later:
  assumes "campaigns_ok s" "campaigns s' = campaigns s" "missions s' = missions s" "participants s' = participants s"
    "mission_progresses s' = mission_progresses s" "next_id s \<le> next_id s'"
  shows "campaigns_ok s'"
  using assms unfolding campaigns_ok_def progress_rows_ok_def
  by (auto intro: table_ok_mono order.strict_trans2)

lemma moves_notified: "campaigns_ok s \<Longrightarrow> only_notifications s s' \<Longrightarrow> moves s s'"
  using only_notifications_frame [of s s'] campaigns_ok_later [of s s']
  by (auto simp: moves_def campaigns_le_def grown_same campaign_rows.rows_refl)

lemma sync_moves: "campaigns_ok s \<Longrightarrow> moves s (snd (sync_campaign_statuses s now))"
proof -
  assume ok: "campaigns_ok s"
  have "row_ok (synced now c)" if "row_ok c" for c
    using row_okD [OF that] by (intro row_okI) (auto simp: synced_def must_finish_def must_start_def)
  moreover have "table_ok campaign_id (next_id s) (map (synced now) (campaigns s))"
    using ok by (auto simp: campaigns_ok_def table_ok_def comp_def)
  ultimately have "campaigns_ok (s\<lparr>campaigns := map (synced now) (campaigns s)\<rparr>)"
    using ok by (auto simp: campaigns_ok_def progress_rows_ok_def)
  moreover have "campaigns_le s (s\<lparr>campaigns := map (synced now) (campaigns s)\<rparr>)"
    by (auto simp: campaigns_le_def grown_def intro: campaign_rows.rows_map synced_forward)
  ultimately show ?thesis by (simp add: moves_def sync_rows)
qed

lemma save_moves:
  assumes "campaigns_ok s" "c \<in> set (campaigns s)" "campaign_le c c1" "row_ok c1"
  obtains s1 where "campaign_save s c1 = Inr s1" "moves s s1"
    "s1 = s\<lparr>campaigns := qs_update (\<lambda>x. campaign_id x = campaign_id c1) (\<lambda>_. c1) (campaigns s)\<rparr>"
proof -
  let ?s1 = "s\<lparr>campaigns := qs_update (\<lambda>x. campaign_id x = campaign_id c1) (\<lambda>_. c1) (campaigns s)\<rparr>"
  have "campaign_save s c1 = Inr ?s1" using assms(4) by (simp add: campaign_save_def row_ok_def)
  moreover have "moves s ?s1"
  proof -
    have "campaigns_ok ?s1"
      using assms(1,4) table_ok_update_row [of campaign_id "next_id s" "campaigns s" c1 "campaign_id c1"]
      by (auto simp: campaigns_ok_def progress_rows_ok_def ball_qs_update)
    moreover have "rows_le campaign_le (campaigns s) (campaigns ?s1)"
      using campaign_rows.rows_save [of campaign_id "campaigns s" c c1] assms(1-3)
      by (auto simp: campaigns_ok_def table_ok_def campaign_le_def)
    ultimately show ?thesis by (simp add: moves_def campaigns_le_def grown_def)
  qed
  ultimately show thesis by (rule that) simp
qed

section \<open>What a request answers\<close>

text \<open>The errors of the API, and the one database error a body can still provoke.\<close>

definition api_error :: "exc \<Rightarrow> bool" where
  "api_error e \<longleftrightarrow>
     (case e of ValidationError _ _ \<Rightarrow> True | PermissionDenied _ \<Rightarrow> True | Http404 \<Rightarrow> True
      | DataError col \<Rightarrow> col = ''campaigns_mission.target_count'' | _ \<Rightarrow> False)"

lemma api_error_simps [simp]:
  "api_error (ValidationError f m)" "api_error (PermissionDenied m)" "api_error Http404"
  "api_error (DataError ''campaigns_mission.target_count'')"
  by (simp_all add: api_error_def)

definition answers :: "db \<Rightarrow> ('a \<times> db) res \<Rightarrow> bool" where
  "answers s r \<longleftrightarrow> (case r of Inl e \<Rightarrow> api_error e | Inr (_, s') \<Rightarrow> moves s s')"

lemma answers_simps [simp]: "answers s (Inl e) \<longleftrightarrow> api_error e" "answers s (Inr (v, s')) \<longleftrightarrow> moves s s'"
  by (simp_all add: answers_def)

lemma answers_InrD: "answers s r \<Longrightarrow> r = Inr (v, s') \<Longrightarrow> moves s s'"
  by simp

lemma answers_check:
  "(\<And>e. r = Inl e \<Longrightarrow> api_error e) \<Longrightarrow> (\<And>x. r = Inr x \<Longrightarrow> answers s (f x)) \<Longrightarrow> answers s (res_bind r f)"
  by (cases r) auto

lemma answers_then:
  assumes "answers s r" "\<And>v s1. r = Inr (v, s1) \<Longrightarrow> moves s s1 \<Longrightarrow> answers s1 (f (v, s1))"
  shows "answers s (res_bind r f)"
proof (cases r)
  case (Inr x)
  obtain v s1 where x: "x = (v, s1)" by (cases x)
  have m: "moves s s1" using assms(1) by (simp add: Inr x)
  from assms(2) [of v s1] have "answers s1 (f (v, s1))" using Inr x m by simp
  with m show ?thesis by (cases "f (v, s1)") (auto simp: Inr x intro: moves_trans)
qed (use assms(1) in simp)

lemma answers_else: "answers s r \<Longrightarrow> answers s r' \<Longrightarrow> answers s (if b then r else r')"
  by simp

section \<open>Inserts\<close>

lemma campaign_create_answers:
  assumes "campaigns_ok s" "row_ok (data\<lparr>campaign_id := next_id s, campaign_created_at := now\<rparr>)"
  obtains s1 where "campaign_create s now data = Inr (data\<lparr>campaign_id := next_id s, campaign_created_at := now\<rparr>, s1)"
    "moves s s1" "next_id s1 = Suc (next_id s)" "missions s1 = missions s" "participants s1 = participants s"
    "campaigns s1 = campaigns s @ [data\<lparr>campaign_id := next_id s, campaign_created_at := now\<rparr>]"
    "clans s1 = clans s" "memberships s1 = memberships s"
proof -
  let ?c = "data\<lparr>campaign_id := next_id s, campaign_created_at := now\<rparr>"
  let ?s1 = "s\<lparr>campaigns := campaigns s @ [?c], next_id := Suc (next_id s)\<rparr>"
  have "campaigns_ok ?s1"
    using assms table_ok_snoc [of campaign_id "next_id s" "campaigns s" ?c]
    by (auto simp: campaigns_ok_def progress_rows_ok_def intro: table_ok_mono)
  then have "moves s ?s1"
    by (simp add: moves_def campaigns_le_def grown_def campaign_rows.rows_append)
  then show thesis using assms(2) by (intro that [of ?s1]) (simp_all add: campaign_create_def Let_def row_ok_def)
qed

text \<open>A mission is added to a campaign that is new or in promotion.\<close>

lemma mission_create_answers:
  assumes "campaigns_ok s" "0 < n" "\<not> list_ex (\<lambda>x. mission_campaign x = cid \<and> mission_action x = aid) (missions s)"
    "cid < next_id s" "\<And>c. c \<in> set (campaigns s) \<Longrightarrow> campaign_id c = cid \<Longrightarrow> status c = PROMOTION"
  shows "answers s (mission_create s cid aid n)"
proof -
  let ?m = "\<lparr>mission_id = next_id s, mission_campaign = cid, mission_action = aid, target_count = n\<rparr>"
  let ?s1 = "s\<lparr>missions := missions s @ [?m], next_id := Suc (next_id s)\<rparr>"
  have "campaigns_ok ?s1"
    using assms table_ok_snoc [of mission_id "next_id s" "missions s" ?m]
    by (auto simp: campaigns_ok_def progress_rows_ok_def intro: table_ok_mono)
  moreover have "campaigns_le s ?s1"
    using assms(5) by (auto simp: campaigns_le_def grown_def campaign_rows.rows_refl)
  ultimately have "moves s ?s1" by (simp add: moves_def)
  then show ?thesis using assms(2,3) by (simp add: mission_create_def Let_def)
qed

lemma participant_create_answers:
  assumes "campaigns_ok s" "\<not> list_ex (\<lambda>x. participant_campaign x = cid \<and> participant_user x = u) (participants s)"
    "cid < next_id s" "\<And>c. c \<in> set (campaigns s) \<Longrightarrow> campaign_id c = cid \<Longrightarrow> status c = PROMOTION"
  obtains p s1 where "participant_create s now cid u = Inr (p, s1)" "moves s s1" "participants s1 = participants s @ [p]"
    "participant_campaign p = cid" "participant_user p = u"
proof -
  let ?p = "\<lparr>participant_id = next_id s, participant_campaign = cid, participant_user = u, participant_joined_at = now\<rparr>"
  let ?s1 = "s\<lparr>participants := participants s @ [?p], next_id := Suc (next_id s)\<rparr>"
  have "campaigns_ok ?s1"
    using assms table_ok_snoc [of participant_id "next_id s" "participants s" ?p]
    by (auto simp: campaigns_ok_def progress_rows_ok_def intro: table_ok_mono)
  moreover have "campaigns_le s ?s1"
    using assms(4) by (auto simp: campaigns_le_def grown_def campaign_rows.rows_refl)
  ultimately have "moves s ?s1" by (simp add: moves_def)
  then show thesis using assms(2) by (intro that [of ?p ?s1]) (simp_all add: participant_create_def Let_def)
qed

lemma mission_create_InrD:
  "mission_create s cid aid n = Inr (m, s') \<Longrightarrow>
   s' = s\<lparr>missions := missions s @ [m], next_id := Suc (next_id s)\<rparr> \<and> mission_campaign m = cid \<and> mission_action m = aid"
  by (auto simp: mission_create_def Let_def split: if_splits)

lemma missions_loop:
  assumes "campaigns_ok s" "distinct (map fst ms)" "\<forall>x \<in> set ms. 0 < snd x" "cid < next_id s"
    "\<And>m. m \<in> set (missions s) \<Longrightarrow> mission_campaign m = cid \<Longrightarrow> mission_action m \<notin> fst ` set ms"
    "\<And>c. c \<in> set (campaigns s) \<Longrightarrow> campaign_id c = cid \<Longrightarrow> status c = PROMOTION"
  shows "answers s (for_each (\<lambda>(aid, target) s. mission_create s cid aid target) ms s) \<and>
    (\<forall>ys s'. for_each (\<lambda>(aid, target) s. mission_create s cid aid target) ms s = Inr (ys, s') \<longrightarrow>
      campaigns s' = campaigns s \<and> participants s' = participants s \<and> clans s' = clans s \<and>
      memberships s' = memberships s \<and> next_id s \<le> next_id s')"
  using assms
proof (induction ms arbitrary: s)
  case Nil
  then show ?case by (simp add: moves_refl)
next
  case (Cons x ms)
  obtain aid n where x: "x = (aid, n)" by (cases x)
  have one: "answers s (mission_create s cid aid n)"
    using Cons.prems(3,5) by (intro mission_create_answers Cons.prems(1,4,6)) (auto simp: list_ex_iff x)
  show ?case
  proof (cases "mission_create s cid aid n")
    case (Inl e)
    with one show ?thesis by (simp add: x)
  next
    case (Inr r)
    then obtain m s1 where r: "mission_create s cid aid n = Inr (m, s1)" by (cases r) auto
    note d = mission_create_InrD [OF r]
    have m: "moves s s1" using one r by simp
    have "answers s1 (for_each (\<lambda>(aid, target) s. mission_create s cid aid target) ms s1) \<and>
      (\<forall>ys s'. for_each (\<lambda>(aid, target) s. mission_create s cid aid target) ms s1 = Inr (ys, s') \<longrightarrow>
        campaigns s' = campaigns s1 \<and> participants s' = participants s1 \<and> clans s' = clans s1 \<and>
        memberships s' = memberships s1 \<and> next_id s1 \<le> next_id s')"
      by (rule Cons.IH) (use Cons.prems m d in \<open>auto simp: moves_def x\<close>)
    then show ?thesis using r d m
      by (cases "for_each (\<lambda>(aid, target) s. mission_create s cid aid target) ms s1") (auto simp: x intro: moves_trans)
  qed
qed

lemma create_with_missions_answers:
  assumes "campaigns_ok s" "row_ok (data\<lparr>campaign_id := next_id s, campaign_created_at := now\<rparr>)" "status data = PROMOTION"
    "distinct (map fst ms)" "\<forall>x \<in> set ms. 0 < snd x"
  shows "answers s (create_campaign_with_missions s now data ms)"
    "create_campaign_with_missions s now data ms = Inr (c, s') \<Longrightarrow>
      c = data\<lparr>campaign_id := next_id s, campaign_created_at := now\<rparr> \<and> campaigns s' = campaigns s @ [c] \<and>
      participants s' = participants s \<and> clans s' = clans s \<and> memberships s' = memberships s \<and> next_id s < next_id s'"
proof -
  let ?c = "data\<lparr>campaign_id := next_id s, campaign_created_at := now\<rparr>"
  obtain s1 where c: "campaign_create s now data = Inr (?c, s1)" and s1: "moves s s1"
    "next_id s1 = Suc (next_id s)" "missions s1 = missions s" "participants s1 = participants s"
    "campaigns s1 = campaigns s @ [?c]" "clans s1 = clans s" "memberships s1 = memberships s"
    by (rule campaign_create_answers [OF assms(1,2)])
  let ?loop = "for_each (\<lambda>(aid, target) t. mission_create t (next_id s) aid target) ms s1"
  have ok: "campaigns_ok s1" using s1(1) by (simp add: moves_def)
  have fresh: "\<forall>m \<in> set (missions s). mission_campaign m \<noteq> next_id s" "\<forall>c \<in> set (campaigns s). campaign_id c \<noteq> next_id s"
    using assms(1) by (auto simp: campaigns_ok_def table_ok_def)
  have loop: "answers s1 (?loop) \<and> (\<forall>ys s'. ?loop = Inr (ys, s') \<longrightarrow>
      campaigns s' = campaigns s1 \<and> participants s' = participants s1 \<and> clans s' = clans s1 \<and>
      memberships s' = memberships s1 \<and> next_id s1 \<le> next_id s')"
    by (rule missions_loop [OF ok assms(4,5)]) (use s1 fresh assms(3) in auto)
  have create: "create_campaign_with_missions s now data ms = res_bind (?loop) (\<lambda>(_, s2). invite_if_open s2 now ?c)"
    by (simp add: create_campaign_with_missions_def c)
  show "answers s (create_campaign_with_missions s now data ms)"
  proof (cases "?loop")
    case (Inr r)
    obtain ys s2 where r: "r = (ys, s2)" by (cases r)
    obtain s3 where s3: "invite_if_open s2 now ?c = Inr (?c, s3)" "only_notifications s2 s3"
      using invite_if_open_ok by blast
    have "moves s1 s2" using loop Inr by (simp add: r)
    then have "moves s s3"
      using s1(1) s3(2) moves_notified moves_trans unfolding moves_def [of _ s2] by (metis moves_def)
    then show ?thesis by (simp add: create Inr r s3(1))
  qed (use loop in \<open>simp add: create\<close>)
  assume "create_campaign_with_missions s now data ms = Inr (c, s')"
  then obtain ys s2 where "?loop = Inr (ys, s2)" "invite_if_open s2 now ?c = Inr (c, s')"
    by (auto simp: create elim!: res_bind_InrE)
  then show "c = ?c \<and> campaigns s' = campaigns s @ [c] \<and> participants s' = participants s \<and> clans s' = clans s \<and>
      memberships s' = memberships s \<and> next_id s < next_id s'"
    using loop s1 invite_if_open_only [of s2 now ?c c s'] only_notifications_frame [of s2 s'] by fastforce
qed

section \<open>Lookups and validation\<close>

lemma get_or_404_keyed:
  assumes "distinct (map pk rows)" "\<And>r. P r \<Longrightarrow> pk r = k"
  obtains (none) "get_or_404 P rows = Inl Http404" "\<forall>r \<in> set rows. \<not> P r"
  | (found) r where "get_or_404 P rows = Inr r" "r \<in> set rows" "P r"
proof (cases "filter P rows")
  case Nil
  then show thesis by (intro none) (auto simp: get_or_404_def qs_get_def filter_empty_conv)
next
  case (Cons x xs)
  have "xs = []"
  proof (rule ccontr)
    assume "xs \<noteq> []"
    then obtain y ys where "filter P rows = x # y # ys" using Cons by (cases xs) auto
    moreover have "distinct (map pk (filter P rows))" using assms(1) by (simp add: distinct_map_filter)
    moreover have "P x" "P y" using filter_set [of P rows] calculation(1) by (auto simp: filter_eq_Cons_iff)
    ultimately show False using assms(2) by auto
  qed
  then show thesis using Cons filter_eq_ConsD [OF Cons] by (intro found [of x]) (auto simp: get_or_404_def qs_get_def)
qed

lemma campaigns_distinct: "campaigns_ok s \<Longrightarrow> distinct (map campaign_id (campaigns s))"
  by (simp add: campaigns_ok_def table_ok_def)

lemma get_visible_cases:
  assumes "campaigns_ok s"
  obtains (none) "get_visible s u cid = Inl Http404"
  | (found) c where "get_visible s u cid = Inr c" "c \<in> set (campaigns s)" "campaign_id c = cid" "visible_campaign s u c"
proof -
  have "distinct (map campaign_id (visible_campaigns s u))"
    using campaigns_distinct [OF assms] by (simp add: visible_campaigns_def distinct_map_filter)
  then show thesis
    by (rule get_or_404_keyed [of campaign_id "visible_campaigns s u" "\<lambda>c. campaign_id c = cid" cid])
      (use none found in \<open>auto simp: get_visible_def visible_campaigns_def\<close>)
qed

lemma campaign_get_eq: "campaigns_ok s \<Longrightarrow> c \<in> set (campaigns s) \<Longrightarrow> campaign_get s (campaign_id c) = Inr c"
  unfolding campaign_get_def
  using campaigns_distinct [of s] by (intro qs_get_eqI) (auto simp: distinct_map dest: inj_onD)

lemma validate_title_ok: "validate_title raw = Inr t \<Longrightarrow> length t \<le> 150"
  by (auto simp: validate_title_def Let_def split: if_splits)

lemma validate_title_error: "validate_title raw = Inl e \<Longrightarrow> api_error e"
  by (auto simp: validate_title_def Let_def split: if_splits)

lemma validate_mission_error: "validate_mission s d = Inl e \<Longrightarrow> api_error e"
  by (auto simp: validate_mission_def Let_def split: if_splits prod.splits)

lemma validate_mission_ok: "validate_mission s d = Inr x \<Longrightarrow> 0 < snd x"
  by (auto simp: validate_mission_def Let_def split: if_splits prod.splits)

lemma validate_each_ok:
  "validate_each f xs = Inr ys \<Longrightarrow> \<forall>y \<in> set ys. \<exists>x \<in> set xs. f x = Inr y"
  by (induction xs arbitrary: ys) (fastforce elim!: res_bind_InrE)+

lemma validate_each_error: "validate_each f xs = Inl e \<Longrightarrow> \<exists>x \<in> set xs. f x = Inl e"
proof (induction xs)
  case (Cons x xs)
  then show ?case by (cases "f x"; cases "validate_each f xs") auto
qed simp

lemma validate_missions_ok:
  "validate_missions s ds = Inr ms \<Longrightarrow> distinct (map fst ms) \<and> (\<forall>x \<in> set ms. 0 < snd x)"
  by (auto simp: validate_missions_def Let_def card_distinct dest!: validate_each_ok validate_mission_ok
      elim!: res_bind_InrE split: if_splits)

lemma validate_missions_error: "validate_missions s ds = Inl e \<Longrightarrow> api_error e"
  using validate_each_error [of "validate_mission s" ds] validate_mission_error
  by (cases "validate_each (validate_mission s) ds") (auto simp: validate_missions_def Let_def split: if_splits)

lemma validate_scope_error: "validate_scope s u sc clan = Inl e \<Longrightarrow> api_error e"
  by (auto simp: validate_scope_def split: if_splits)

lemma validate_target_error: "validate_target_clan s target = Inl e \<Longrightarrow> api_error e"
  by (auto simp: validate_target_clan_def split: option.splits sum.splits)

lemma dates_error: "ensure_campaign_dates_allowed z now start fin b = Inl e \<Longrightarrow> api_error e"
  by (auto simp: ensure_campaign_dates_allowed_def ensure_end_date_allowed_def ensure_start_date_allowed_def split: if_splits)

lemma dates_ok:
  assumes "ensure_campaign_dates_allowed z now start fin b = Inr x"
  shows "start < fin" "now < fin" "b \<Longrightarrow> earliest_allowed_start z now \<le> start"
  using assms
  by (auto simp: ensure_campaign_dates_allowed_def ensure_end_date_allowed_def ensure_start_date_allowed_def
      MIN_CAMPAIGN_DURATION_def timedelta_days_def split: if_splits)

lemma earliest_is_later: "zone_ok z \<Longrightarrow> now < earliest_allowed_start z now"
  by (simp add: zone_ok_calendar earliest_allowed_start_def calendar.in_today)

lemma validate_scope_target:
  assumes "validate_target_clan s t = Inr clan" "validate_scope s u sc clan = Inr x"
  shows "(sc = GLOBAL_SCOPE) = (t = None)"
  using assms by (cases sc) (auto simp: validate_target_clan_def validate_scope_def split: if_splits option.splits sum.splits)

section \<open>Every request answers\<close>

lemma validate_campaign_ok:
  assumes "validate_campaign z s now u d = Inr (t, ms)"
  shows "length t \<le> 150" "data_start d < data_end d" "earliest_allowed_start z now \<le> data_start d"
    "(data_scope d = GLOBAL_SCOPE) = (data_target_clan d = None)" "distinct (map fst ms)" "\<forall>x \<in> set ms. 0 < snd x"
  using assms dates_ok [of z now "data_start d" "data_end d" True] validate_scope_target [of s "data_target_clan d" _ u "data_scope d"]
  by (auto simp: validate_campaign_def dest!: validate_title_ok validate_missions_ok elim!: res_bind_InrE split: if_splits)

lemma validate_campaign_error: "validate_campaign z s now u d = Inl e \<Longrightarrow> api_error e"
  unfolding validate_campaign_def res_bind_def
  by (auto split: sum.splits if_splits
      dest: validate_title_error validate_target_error validate_missions_error dates_error validate_scope_error)

lemma validate_proposal_ok:
  assumes "validate_proposal z s now d = Inr (t, ms)"
  shows "length t \<le> 150" "data_start d < data_end d" "distinct (map fst ms)" "\<forall>x \<in> set ms. 0 < snd x"
  using assms dates_ok [of z now "data_start d" "data_end d" True]
  by (auto simp: validate_proposal_def dest!: validate_title_ok validate_missions_ok elim!: res_bind_InrE split: if_splits)

lemma validate_proposal_error: "validate_proposal z s now d = Inl e \<Longrightarrow> api_error e"
  unfolding validate_proposal_def res_bind_def
  by (auto split: sum.splits if_splits dest: validate_title_error validate_missions_error dates_error)

lemma create_view_answers:
  assumes ok: "campaigns_ok s" and z: "zone_ok z"
  shows "answers s (create_campaign_view z s now u d)"
  unfolding create_campaign_view_def
proof (rule answers_check)
  fix x assume v: "validate_campaign z s now u d = Inr x"
  obtain t ms where x: "x = (t, ms)" by (cases x)
  note vok = validate_campaign_ok [OF v [unfolded x]]
  let ?data = "new_campaign u now t d"
  have "now < data_start d" using vok(3) earliest_is_later [OF z, of now] by simp
  then have st: "status ?data = PROMOTION" by (simp add: new_campaign_def compute_campaign_status_def)
  have row: "row_ok (?data\<lparr>campaign_id := next_id s, campaign_created_at := now\<rparr>)"
    using vok by (intro row_okI) (auto simp: new_campaign_def)
  note created = create_with_missions_answers [OF ok row st vok(5,6)]
  show "answers s (case x of (t, ms) \<Rightarrow> res_bind (create_campaign_with_missions s now (new_campaign u now t d) ms) (\<lambda>(c, s1).
       if scope c = CLAN_SCOPE \<and> leads_live_clan s1 u (campaign_target s1 c)
       then res_bind (participant_create s1 now (campaign_id c) (user_id u)) (\<lambda>(_, s2). Inr (c, s2)) else Inr (c, s1)))"
    unfolding x prod.case
  proof (rule answers_then [OF created(1)])
    fix c s1 assume c: "create_campaign_with_missions s now ?data ms = Inr (c, s1)" and m: "moves s s1"
    note d = created(2) [OF c]
    have ok1: "campaigns_ok s1" using m by (simp add: moves_def)
    obtain p s2 where p: "participant_create s1 now (campaign_id c) (user_id u) = Inr (p, s2)" "moves s1 s2"
    proof (rule participant_create_answers [OF ok1, of "campaign_id c" "user_id u" now])
      show "\<not> list_ex (\<lambda>x. participant_campaign x = campaign_id c \<and> participant_user x = user_id u) (participants s1)"
        using ok d by (auto simp: list_ex_iff campaigns_ok_def)
      show "\<And>c'. c' \<in> set (campaigns s1) \<Longrightarrow> campaign_id c' = campaign_id c \<Longrightarrow> status c' = PROMOTION"
        using ok d st by (auto simp: campaigns_ok_def table_ok_def)
    qed (use d in auto)
    then show "answers s1 (case (c, s1) of (c, s1) \<Rightarrow> if scope c = CLAN_SCOPE \<and> leads_live_clan s1 u (campaign_target s1 c)
       then res_bind (participant_create s1 now (campaign_id c) (user_id u)) (\<lambda>(_, s2). Inr (c, s2)) else Inr (c, s1))"
      using moves_refl [OF ok1] by simp
  qed
qed (rule validate_campaign_error)

lemma propose_view_answers:
  assumes ok: "campaigns_ok s"
  shows "answers s (propose_view z s now u d)"
  unfolding propose_view_def
proof (rule answers_else)
  show "answers s (res_bind (validate_proposal z s now d) (\<lambda>(t, ms).
      propose_global_campaign s now (user_id u) t (py_strip (data_description d)) (data_start d) (data_end d) ms))"
  proof (rule answers_check)
    fix x assume v: "validate_proposal z s now d = Inr x"
    obtain t ms where x: "x = (t, ms)" by (cases x)
    note vok = validate_proposal_ok [OF v [unfolded x]]
    show "answers s (case x of (t, ms) \<Rightarrow>
      propose_global_campaign s now (user_id u) t (py_strip (data_description d)) (data_start d) (data_end d) ms)"
      unfolding x prod.case propose_global_campaign_def
      by (rule create_with_missions_answers(1) [OF ok _ _ vok(3,4)]) (use vok in \<open>auto intro!: row_okI\<close>)
  qed (rule validate_proposal_error)
qed simp

lemma save_answers:
  assumes "campaigns_ok s" "c \<in> set (campaigns s)" "campaign_le c c1" "row_ok c1"
    "\<And>s1. \<exists>v s2. f s1 = Inr (v, s2) \<and> only_notifications s1 s2"
  shows "answers s (res_bind (campaign_save s c1) f)"
proof -
  obtain s1 where s1: "campaign_save s c1 = Inr s1" "moves s s1" by (rule save_moves [OF assms(1-4)])
  obtain v s2 where "f s1 = Inr (v, s2)" "only_notifications s1 s2" using assms(5) by blast
  moreover have "moves s1 s2" using s1(2) calculation(2) by (auto simp: moves_def [of s] intro: moves_notified)
  ultimately show ?thesis using s1 by (auto intro: moves_trans)
qed

text \<open>After a synchronisation at \<open>now\<close> there is nothing left to synchronise.\<close>

definition in_sync :: "db \<Rightarrow> datetime \<Rightarrow> bool" where
  "in_sync s now \<longleftrightarrow> (\<forall>c \<in> set (campaigns s). synced now c = c)"

lemma in_syncD:
  assumes "in_sync s now" "c \<in> set (campaigns s)" "approval_status c = CAMP_APPROVED" "status c = PROMOTION"
    "start_date c < end_date c"
  shows "now < start_date c" "now < end_date c"
  using assms by (auto simp: in_sync_def synced_fixed must_finish_def must_start_def)

lemma sync_in_sync: "in_sync (snd (sync_campaign_statuses s now)) now"
  by (simp add: in_sync_def sync_rows synced_again)

lemma validate_update_error: "validate_update z now c p = Inl e \<Longrightarrow> api_error e"
  unfolding validate_update_def res_bind_def Let_def
  by (cases "patch_title p"; cases "validate_title (the (patch_title p))")
    (auto split: sum.splits if_splits dest: validate_title_error dates_error)

lemma validate_update_cases:
  assumes "validate_update z now c p = Inr p1"
  shows "\<And>x. patch_title p1 = Some x \<Longrightarrow> length x \<le> 150"
    "patch_start p1 = if_changed (patch_start p) (start_date c)" "patch_end p1 = if_changed (patch_end p) (end_date c)"
    "patch_description p1 = map_option py_strip (patch_description p)"
    "patch_start p1 = None \<and> patch_end p1 = None \<or>
     ensure_campaign_dates_allowed z now (or_stored (patch_start p1) (start_date c)) (or_stored (patch_end p1) (end_date c))
       (patch_start p1 \<noteq> None) = Inr ()"
proof -
  obtain t where t: "(case patch_title p of None \<Rightarrow> Inr None | Some raw \<Rightarrow> map_sum id Some (validate_title raw)) = Inr t"
    using assms by (auto simp: validate_update_def elim!: res_bind_InrE)
  have "length x \<le> 150" if "t = Some x" for x
    using t that by (cases "patch_title p"; cases "validate_title (the (patch_title p))") (auto dest: validate_title_ok)
  moreover have "patch_title p1 = t"
    using assms t by (auto simp: validate_update_def Let_def elim!: res_bind_InrE split: if_splits)
  ultimately show "\<And>x. patch_title p1 = Some x \<Longrightarrow> length x \<le> 150" by simp
qed (use assms in \<open>auto simp: validate_update_def Let_def elim!: res_bind_InrE split: if_splits\<close>)

lemma validate_update_ok:
  assumes "validate_update z now c p = Inr p1" "length (title c) \<le> 150" "start_date c < end_date c"
  shows "length (or_stored (patch_title p1) (title c)) \<le> 150"
    "or_stored (patch_start p1) (start_date c) < or_stored (patch_end p1) (end_date c)"
    "patch_start p1 \<noteq> None \<Longrightarrow> earliest_allowed_start z now \<le> the (patch_start p1)"
proof -
  note t = validate_update_cases(1) [OF assms(1)] and d = validate_update_cases(5) [OF assms(1)]
  show "length (or_stored (patch_title p1) (title c)) \<le> 150"
    using t assms(2) by (simp add: or_stored_def split: option.splits)
  show "or_stored (patch_start p1) (start_date c) < or_stored (patch_end p1) (end_date c)"
    using d assms(3) by (auto simp: or_stored_def dest: dates_ok(1))
  show "earliest_allowed_start z now \<le> the (patch_start p1)" if "patch_start p1 \<noteq> None"
    using d that dates_ok(3) by (auto simp: or_stored_def)
qed

lemma patch_view_answers:
  assumes ok: "campaigns_ok s"
  shows "answers s (patch_campaign_view z s now u cid p)"
  using ok
proof (cases rule: get_visible_cases [where u = u and cid = cid])
  case (found v)
  note get = campaign_get_eq [OF ok found(2)]
  have row: "row_ok v" using ok found(2) by (simp add: campaigns_ok_def)
  have app: "approval_status v = CAMP_APPROVED" using found(4) by (simp add: visible_campaign_def)
  show ?thesis
  proof (cases "validate_update z now v p")
    case (Inl e)
    then show ?thesis using get by (simp add: patch_campaign_view_def found validate_update_error)
  next
    case (Inr p1)
    note vok = validate_update_ok [OF Inr row_okD(2,1) [OF row]]
    have "answers s (res_bind (campaign_save s (update_campaign now v p1)) (\<lambda>s1. Inr (update_campaign now v p1, s1)))"
      if "status v = PROMOTION"
    proof (rule save_answers [OF ok found(2)])
      show "row_ok (update_campaign now v p1)"
        using vok row_okD [OF row] app by (intro row_okI) (auto simp: update_campaign_def Let_def)
      show "campaign_le v (update_campaign now v p1)"
        using that app by (auto simp: campaign_le_def update_campaign_def Let_def)
      show "\<exists>w s2. Inr (update_campaign now v p1, s1) = Inr (w, s2) \<and> only_notifications s1 s2" for s1
        by (simp add: only_notifications_refl)
    qed
    then show ?thesis using get by (simp add: patch_campaign_view_def found Inr Let_def)
  qed
qed (simp add: patch_campaign_view_def)

lemma begun_Inr: "\<exists>n s'. notify_campaign_started s now c = Inr (n, s') \<and> only_notifications s s'"
  unfolding notify_campaign_started_def by (rule notify_all_ok) (simp_all add: template_fields_def)

lemma over_Inr: "\<exists>n s'. notify_campaign_finished s now c = Inr (n, s') \<and> only_notifications s s'"
  unfolding notify_campaign_finished_def by (rule notify_all_ok) (simp_all add: template_fields_def)

lemma start_answers:
  assumes ok: "campaigns_ok s" and c: "c \<in> set (campaigns s)" and now: "in_sync s now"
  shows "answers s (start_campaign s now (campaign_id c))"
proof -
  have row: "row_ok c" using ok c by (simp add: campaigns_ok_def)
  let ?c1 = "c\<lparr>start_date := now, status := IN_PROGRESS\<rparr>"
  have "answers s (res_bind (campaign_save s ?c1) (\<lambda>s1. res_bind (notify_campaign_started s1 now ?c1) (\<lambda>(_, s2). Inr (?c1, s2))))"
    if "approval_status c = CAMP_APPROVED" "status c = PROMOTION"
  proof (rule save_answers [OF ok c])
    show "row_ok ?c1" using row_okD [OF row] in_syncD [OF now c that] that by (intro row_okI) auto
    show "campaign_le c ?c1" using that by (simp add: campaign_le_def)
    show "\<exists>v s2. res_bind (notify_campaign_started s1 now ?c1) (\<lambda>(_, s2). Inr (?c1, s2)) = Inr (v, s2) \<and> only_notifications s1 s2" for s1
      using begun_Inr [of s1 now ?c1] by auto
  qed
  then show ?thesis by (simp add: start_campaign_def campaign_get_eq [OF ok c] Let_def)
qed

lemma finish_answers:
  assumes ok: "campaigns_ok s" and c: "c \<in> set (campaigns s)"
  shows "answers s (finish_campaign s now (campaign_id c))"
proof -
  have row: "row_ok c" using ok c by (simp add: campaigns_ok_def)
  let ?c1 = "c\<lparr>end_date := max now (start_date c + 1), status := FINISHED\<rparr>"
  have "answers s (res_bind (campaign_save s ?c1) (\<lambda>s1. res_bind (notify_campaign_finished s1 now ?c1) (\<lambda>(_, s2). Inr (?c1, s2))))"
    if "approval_status c = CAMP_APPROVED" "status c = IN_PROGRESS"
  proof (rule save_answers [OF ok c])
    show "row_ok ?c1" using row_okD [OF row] that by (intro row_okI) auto
    show "campaign_le c ?c1" using that by (simp add: campaign_le_def)
    show "\<exists>v s2. res_bind (notify_campaign_finished s1 now ?c1) (\<lambda>(_, s2). Inr (?c1, s2)) = Inr (v, s2) \<and> only_notifications s1 s2" for s1
      using over_Inr [of s1 now ?c1] by auto
  qed
  then show ?thesis by (simp add: finish_campaign_def campaign_get_eq [OF ok c] Let_def)
qed

lemma transition_answers:
  assumes "campaigns_ok s" "\<And>c. c \<in> set (campaigns s) \<Longrightarrow> answers s (transition s now (campaign_id c))"
  shows "answers s (transition_view transition msg s now u cid)"
  by (rule get_visible_cases [OF assms(1), of u cid]) (use assms(2) in \<open>auto simp: transition_view_def\<close>)

lemma add_mission_answers:
  assumes ok: "campaigns_ok s"
  shows "answers s (add_mission_view s u cid d)"
  using ok
proof (cases rule: get_visible_cases [where u = u and cid = cid])
  case (found c)
  have "answers s (case mission_create s (campaign_id c) aid n of
      Inl (IntegrityError _) \<Rightarrow> Inl (ValidationError ''action_id'' ''This action already has a mission in this campaign.'')
    | r \<Rightarrow> r)"
    if "validate_mission s d = Inr (aid, n)" "status c = PROMOTION"
      "\<not> list_ex (\<lambda>m. mission_campaign m = campaign_id c \<and> mission_action m = aid) (missions s)" for aid n
  proof -
    have "answers s (mission_create s (campaign_id c) aid n)"
      using validate_mission_ok [OF that(1)] that(2,3) found(2) ok campaigns_distinct [OF ok]
      by (intro mission_create_answers) (auto simp: campaigns_ok_def table_ok_def dest: inj_on_pk [OF campaigns_distinct [OF ok]])
    then show ?thesis by (auto split: sum.splits exc.splits)
  qed
  then show ?thesis
    by (auto simp: add_mission_view_def found split: prod.splits intro!: answers_check dest: validate_mission_error)
qed (simp add: add_mission_view_def)

lemma join_outcome:
  assumes ok: "campaigns_ok s"
  obtains (none) "join_campaign_view s now u cid = Inl Http404" "\<forall>c \<in> set (campaigns s). \<not> (joinable s c \<and> campaign_id c = cid)"
  | (refused) c r where "join_campaign_view s now u cid = Inr (r, s)" "\<And>p. r \<noteq> Enrolled p"
      "c \<in> set (campaigns s)" "campaign_id c = cid"
      "\<not> (status c = PROMOTION \<and> (scope c = CLAN_SCOPE \<longrightarrow> accepted_member s (user_id u) c) \<and> \<not> is_participant s (Some u) cid)"
  | (enrolled) c p s1 where "join_campaign_view s now u cid = Inr (Enrolled p, s1)" "moves s s1"
      "c \<in> set (campaigns s)" "campaign_id c = cid" "joinable s c" "status c = PROMOTION"
      "scope c = CLAN_SCOPE \<Longrightarrow> accepted_member s (user_id u) c" "\<not> is_participant s (Some u) cid"
      "participants s1 = participants s @ [p]" "participant_campaign p = cid" "participant_user p = user_id u"
proof (rule get_or_404_keyed [OF campaigns_distinct [OF ok], of "\<lambda>c. joinable s c \<and> campaign_id c = cid" cid])
  fix c assume c: "get_or_404 (\<lambda>c. joinable s c \<and> campaign_id c = cid) (campaigns s) = Inr c" "c \<in> set (campaigns s)"
    "joinable s c \<and> campaign_id c = cid"
  show thesis
  proof (cases "status c = PROMOTION \<and> (scope c = CLAN_SCOPE \<longrightarrow> accepted_member s (user_id u) c) \<and> \<not> is_participant s (Some u) cid")
    case True
    then have "\<not> list_ex (\<lambda>x. participant_campaign x = campaign_id c \<and> participant_user x = user_id u) (participants s)"
      using c by (simp add: is_participant_def)
    from ok this obtain p s1 where "participant_create s now (campaign_id c) (user_id u) = Inr (p, s1)" "moves s s1"
      "participants s1 = participants s @ [p]" "participant_campaign p = campaign_id c" "participant_user p = user_id u"
      by (rule participant_create_answers)
        (use c True ok campaigns_distinct [OF ok] in \<open>auto simp: campaigns_ok_def table_ok_def dest: inj_on_pk\<close>)
    then show thesis using c True by (intro enrolled) (auto simp: join_campaign_view_def)
  next
    case False
    then show thesis using c
      by (intro refused [of "if status c \<noteq> PROMOTION then CampaignNotActive
          else if scope c = CLAN_SCOPE \<and> \<not> accepted_member s (user_id u) c then NotAClanMember else AlreadyEnrolled"])
        (auto simp: join_campaign_view_def)
  qed
qed (use none in \<open>auto simp: join_campaign_view_def\<close>)

lemma join_answers:
  assumes "campaigns_ok s" shows "answers s (join_campaign_view s now u cid)"
  by (rule join_outcome [OF assms, where now = now and u = u and cid = cid]) (use moves_refl [OF assms] in auto)

lemma progress_answers:
  assumes ok: "campaigns_ok s"
  shows "answers s (mission_progress_view s u mid)"
proof (rule get_or_404_keyed [of mission_id "missions s" "\<lambda>m. mission_id m = mid" mid])
  fix m assume m: "get_or_404 (\<lambda>m. mission_id m = mid) (missions s) = Inr m"
  have pr: "progress_rows_ok s" using ok by (simp add: campaigns_ok_def)
  have "answers s (get_or_create_progress s (user_id u) (mission_id m))"
  proof (cases "get_or_create_progress s (user_id u) (mission_id m)")
    case (Inr r)
    obtain p s1 where r: "get_or_create_progress s (user_id u) (mission_id m) = Inr (p, s1)" using Inr by (cases r) auto
    note d = get_or_create_progress_InrD [OF pr r]
    have "campaigns_ok s1"
      using ok d only_progress_frame [OF d(3)] unfolding campaigns_ok_def
      by (auto intro: table_ok_mono order.strict_trans2)
    then show ?thesis using only_progress_frame [OF d(3)]
      by (auto simp: r moves_def campaigns_le_def campaign_rows.rows_refl grown_same)
  next
    case (Inl e)
    then show ?thesis using get_or_create_progress_eq [OF pr, of "user_id u" "mission_id m"] by (auto simp: Let_def split: option.splits)
  qed
  then show ?thesis by (simp add: mission_progress_view_def m)
qed (use ok in \<open>auto simp: mission_progress_view_def campaigns_ok_def table_ok_def\<close>)

lemma campaign_get_cases:
  assumes "campaigns_ok s"
  obtains (none) "campaign_get s cid = Inl DoesNotExist"
  | (found) c where "campaign_get s cid = Inr c" "c \<in> set (campaigns s)" "campaign_id c = cid"
proof (cases "\<exists>c \<in> set (campaigns s). campaign_id c = cid")
  case True
  then show thesis using campaign_get_eq [OF assms] found by blast
next
  case False
  then show thesis by (intro none) (simp add: campaign_get_def qs_get_def filter_False)
qed

lemma approve_answers:
  assumes ok: "campaigns_ok s"
  shows "answers s (approve_proposal_view z s now u cid)"
  using ok
proof (cases rule: campaign_get_cases [where cid = cid])
  case (found c)
  have row: "row_ok c" using ok found(2) by (simp add: campaigns_ok_def)
  let ?c1 = "c\<lparr>approval_status := CAMP_APPROVED, reviewed_by := Some (user_id u), reviewed_at := Some now,
    status := compute_campaign_status (start_date c) (end_date c) now\<rparr>"
  let ?save = "res_bind (campaign_save s ?c1) (\<lambda>s1. res_bind (notify_proposal_reviewed s1 now ?c1 (user_id u)) (\<lambda>s2. invite_if_open s2 now ?c1))"
  have "answers s ?save" if pending: "approval_status c = CAMP_PENDING"
  proof (rule save_answers [OF ok found(2)])
    show "row_ok ?c1" using row_okD [OF row] by (intro row_okI) auto
    show "campaign_le c ?c1" using row_okD(6) [OF row] pending by (simp add: campaign_le_def)
    fix s1
    obtain s2 where s2: "notify_proposal_reviewed s1 now ?c1 (user_id u) = Inr s2" "only_notifications s1 s2"
      using reviewed.sends by blast
    obtain s3 where "invite_if_open s2 now ?c1 = Inr (?c1, s3)" "only_notifications s2 s3" using invite_if_open_ok by blast
    then show "\<exists>v s3. res_bind (notify_proposal_reviewed s1 now ?c1 (user_id u)) (\<lambda>s2. invite_if_open s2 now ?c1) = Inr (v, s3) \<and>
      only_notifications s1 s3" using s2 by (auto intro: only_notifications_trans)
  qed
  then have "answers s (approve_campaign z s now (user_id u) cid)"
    by (simp add: approve_campaign_def found(1) Let_def)
  then show ?thesis by (auto simp: approve_proposal_view_def split: sum.splits exc.splits)
qed (simp add: approve_proposal_view_def approve_campaign_def)

lemma reject_answers:
  assumes ok: "campaigns_ok s"
  shows "answers s (reject_proposal_view s now u cid raw)"
  using ok
proof (cases rule: campaign_get_cases [where cid = cid])
  case (found c)
  have row: "row_ok c" using ok found(2) by (simp add: campaigns_ok_def)
  let ?c1 = "c\<lparr>approval_status := CAMP_REJECTED, reviewed_by := Some (user_id u), reviewed_at := Some now,
    rejection_reason := py_strip raw\<rparr>"
  have "answers s (res_bind (campaign_save s ?c1) (\<lambda>s1. res_bind (notify_proposal_reviewed s1 now ?c1 (user_id u)) (\<lambda>s2. Inr (?c1, s2))))"
    if pending: "approval_status c = CAMP_PENDING" and reason: "py_strip raw \<noteq> []"
  proof (rule save_answers [OF ok found(2)])
    show "row_ok ?c1" using row_okD [OF row] pending reason by (intro row_okI) auto
    show "campaign_le c ?c1" using row_okD(6) [OF row] pending by (simp add: campaign_le_def)
    show "\<exists>v s2. res_bind (notify_proposal_reviewed s1 now ?c1 (user_id u)) (\<lambda>s2. Inr (?c1, s2)) = Inr (v, s2) \<and> only_notifications s1 s2" for s1
      using reviewed.sends [where s = s1 and now = now and c = ?c1 and r = "user_id u"] by auto
  qed
  then have "answers s (reject_campaign s now (user_id u) cid (py_strip raw))"
    by (simp add: reject_campaign_def found(1) Let_def)
  then show ?thesis by (auto simp: reject_proposal_view_def split: sum.splits exc.splits)
qed (simp add: reject_proposal_view_def reject_campaign_def)

section \<open>Runs of requests\<close>

lemma state_of_answers:
  "answers s r \<Longrightarrow> (case state_of r of Inl e \<Rightarrow> api_error e | Inr s' \<Rightarrow> moves s s')"
  by (cases r) (auto simp: state_of_def)

lemmas view_answers = create_view_answers patch_view_answers add_mission_answers join_answers progress_answers
  propose_view_answers approve_answers reject_answers

lemma campaign_action_answers:
  assumes "campaigns_ok s" "zone_ok z" "in_sync s now"
  shows "case campaign_action z now u call s of Inl e \<Rightarrow> api_error e | Inr s' \<Rightarrow> moves s s'"
proof (cases call)
  case ReadCampaigns
  then show ?thesis by (simp add: moves_refl assms(1))
next
  case (StartCampaign cid)
  then show ?thesis
    using transition_answers [of s start_campaign now] start_answers [OF assms(1) _ assms(3)] assms(1)
    by (auto simp: start_campaign_view_def intro!: state_of_answers)
next
  case (FinishCampaign cid)
  then show ?thesis
    using transition_answers [of s finish_campaign now] finish_answers [OF assms(1)] assms(1)
    by (auto simp: finish_campaign_view_def intro!: state_of_answers)
qed (use assms(1,2) in \<open>simp_all add: state_of_answers view_answers\<close>)

interpretation campaign_life: monotone_machine "campaign_request z" "\<lambda>s. campaigns_ok s \<and> zone_ok z" campaigns_le for z
proof unfold_locales
  fix s e s' assume ok: "campaigns_ok s \<and> zone_ok z" and r: "campaign_request z e s = Inr s'"
  obtain now uid call where e: "e = (now, uid, call)" by (cases e)
  let ?s1 = "snd (sync_campaign_statuses s now)"
  have s1: "moves s ?s1" using ok by (simp add: sync_moves)
  obtain u where "s' = commit ?s1 (campaign_action z now u call ?s1)"
    using r by (auto simp: campaign_request_def e Let_def elim!: res_bind_InrE split: if_splits)
  then have "moves s s'"
    using campaign_action_answers [of ?s1 z now u call] s1 ok sync_in_sync [of s now]
      moves_trans [OF s1]
    by (cases "campaign_action z now u call ?s1") (auto simp: moves_def [of s ?s1])
  then show "campaigns_ok s' \<and> zone_ok z" "campaigns_le s s'" using ok by (simp_all add: moves_def)
qed (rule campaigns_le_refl, erule campaigns_le_trans)

text \<open>
  C4: a campaign only moves forward. Along every run of requests of any callers at any times,
  refused or not, a stored campaign stays, with its author, scope, target clan and creation time
  as they were. Its status never goes back; a review is final; a finished or rejected campaign
  never changes again; and from the moment it leaves promotion nobody can join it and no mission
  can be added.
\<close>

theorem campaign_runs_forward:
  assumes "campaigns_ok s" "zone_ok z" "s' = run_calls (campaign_request z) calls s" "c \<in> set (campaigns s)"
  shows "(\<exists>c' \<in> set (campaigns s'). campaign_id c' = campaign_id c \<and> creator c' = creator c \<and> scope c' = scope c \<and>
      target_clan c' = target_clan c \<and> campaign_created_at c' = campaign_created_at c \<and> status c \<le> status c' \<and>
      (approval_status c \<noteq> CAMP_PENDING \<longrightarrow> approval_status c' = approval_status c \<and> reviewed_by c' = reviewed_by c) \<and>
      (status c = FINISHED \<or> approval_status c = CAMP_REJECTED \<longrightarrow> c' = c)) \<and>
    (status c \<noteq> PROMOTION \<longrightarrow>
      {m \<in> set (missions s'). mission_campaign m = campaign_id c} = {m \<in> set (missions s). mission_campaign m = campaign_id c} \<and>
      {p \<in> set (participants s'). participant_campaign p = campaign_id c} =
        {p \<in> set (participants s). participant_campaign p = campaign_id c})"
proof -
  have le: "campaigns_le s s'" using campaign_life.run_le [where z = z] assms(1,2) by (simp add: assms(3))
  then have rows: "rows_le campaign_le (campaigns s) (campaigns s')" and g: "grown s s'" by (simp_all add: campaigns_le_def)
  obtain c' where "c' \<in> set (campaigns s')" "campaign_le c c'" using rows_le_member [OF rows assms(4)] by (rule bexE)
  moreover have "{m \<in> set (missions s'). mission_campaign m = campaign_id c} = {m \<in> set (missions s). mission_campaign m = campaign_id c} \<and>
      {p \<in> set (participants s'). participant_campaign p = campaign_id c} =
        {p \<in> set (participants s). participant_campaign p = campaign_id c}" if "status c \<noteq> PROMOTION"
    using g assms(4) that by (auto simp: grown_def)
  ultimately show ?thesis by (intro conjI bexI [of _ c'] impI) (simp_all add: campaign_le_def)
qed

text \<open>
  Administrator 1 starts campaign 5 during its promotion, somebody comes too late to join, and
  the campaign is finished.
\<close>

definition demo_promotion :: db where
  "demo_promotion = demo_missions\<lparr>users := [demo_user 1 ADMIN, demo_user 2 STUDENT]\<rparr>"

definition demo_campaign_run :: "(datetime \<times> uuid \<times> campaign_call) list" where
  "demo_campaign_run = [(5, 1, StartCampaign 5), (6, 2, JoinCampaign 5), (7, 2, FinishCampaign 5), (8, 1, FinishCampaign 5)]"

lemma demo_promotion_ok: "campaigns_ok demo_promotion"
  by (simp add: campaigns_ok_def demo_promotion_def demo_missions_def demo_campaign_def demo_mission_def empty_db_def
      table_ok_def row_ok_def campaign_violation_def progress_rows_ok_def)

lemma demo_promotion_row: "demo_campaign \<in> set (campaigns demo_promotion)"
  by (simp add: demo_promotion_def demo_missions_def)

lemma demo_campaign_started:
  "map status (campaigns (run_calls (campaign_request mexico_city) (take 1 demo_campaign_run) demo_promotion)) = [IN_PROGRESS]"
  by code_simp

lemma demo_campaign_finished:
  "map (\<lambda>c. (status c, end_date c)) (campaigns (run_calls (campaign_request mexico_city) demo_campaign_run demo_promotion)) = [(FINISHED, 8)]"
  by code_simp

theorem campaign_runs_forward_witness:
  "\<exists>c' \<in> set (campaigns (run_calls (campaign_request mexico_city) demo_campaign_run demo_promotion)).
     campaign_id c' = 5 \<and> creator c' = 1 \<and> status c' = FINISHED \<and> approval_status c' = CAMP_APPROVED"
proof -
  let ?s' = "run_calls (campaign_request mexico_city) demo_campaign_run demo_promotion"
  obtain c' where c': "c' \<in> set (campaigns ?s')" "campaign_id c' = campaign_id demo_campaign" "creator c' = creator demo_campaign"
      "approval_status c' = approval_status demo_campaign"
    using campaign_runs_forward [OF demo_promotion_ok mexico_city_ok refl demo_promotion_row, of demo_campaign_run]
    by (auto simp: demo_campaign_def)
  have "status c' = FINISHED"
    using arg_cong [where f = set, OF demo_campaign_finished] c'(1) by auto
  with c' show ?thesis by (auto simp: demo_campaign_def)
qed


lemma demo_late_start:
  "case campaign_action mexico_city 15 (demo_user 1 ADMIN) (StartCampaign 5) (snd (sync_campaign_statuses demo_promotion 15)) of
     Inl e \<Rightarrow> e \<noteq> Http404 \<and> e \<noteq> DataError ''campaigns_mission.target_count'' | Inr _ \<Rightarrow> False"
  by code_simp


text \<open>
  The exception is real. A manager who adds a mission for an active action, new to a campaign
  in promotion, with a target count above the largest 32-bit integer passes the validation and
  the insert fails with a database error, which the view does not turn into a 400.
\<close>

theorem add_mission_overflow:
  assumes "get_visible s u cid = Inr c" "can_manage_campaign s u c" "status c = PROMOTION"
    "a \<in> set (actions s)" "action_is_active a" "\<forall>m \<in> set (missions s). mission_campaign m \<noteq> campaign_id c \<or> mission_action m \<noteq> action_id a"
    "2147483647 < n"
  shows "add_mission_view s u cid (action_id a, n) = Inl (DataError ''campaigns_mission.target_count'')"
proof -
  have "list_ex (\<lambda>x. action_id x = action_id a \<and> action_is_active x) (actions s)"
    using assms(4,5) by (auto simp: list_ex_iff)
  moreover have "\<not> list_ex (\<lambda>m. mission_campaign m = campaign_id c \<and> mission_action m = action_id a) (missions s)"
    using assms(6) by (auto simp: list_ex_iff)
  moreover have "2147483647 < nat n" using assms(7) by (simp add: zless_nat_conj)
  ultimately show ?thesis using assms(1-3,7) by (simp add: add_mission_view_def validate_mission_def mission_create_def Let_def)
qed

definition demo_two_actions :: db where
  "demo_two_actions = demo_promotion\<lparr>actions := [demo_action\<lparr>action_id := 11\<rparr>]\<rparr>"

theorem add_mission_overflow_witness:
  "add_mission_view demo_two_actions (demo_user 1 ADMIN) 5 (11, 2147483648) = Inl (DataError ''campaigns_mission.target_count'')"
proof -
  have "get_visible demo_two_actions (demo_user 1 ADMIN) 5 = Inr demo_campaign" by code_simp
  moreover have "can_manage_campaign demo_two_actions (demo_user 1 ADMIN) demo_campaign" by code_simp
  moreover have "status demo_campaign = PROMOTION" by code_simp
  moreover have "demo_action\<lparr>action_id := 11\<rparr> \<in> set (actions demo_two_actions)" by (simp add: demo_two_actions_def)
  moreover have "action_is_active (demo_action\<lparr>action_id := 11\<rparr>)" by code_simp
  moreover have "\<forall>m \<in> set (missions demo_two_actions). mission_campaign m \<noteq> campaign_id demo_campaign \<or>
      mission_action m \<noteq> action_id (demo_action\<lparr>action_id := 11\<rparr>)"
    by (simp add: demo_two_actions_def demo_promotion_def demo_missions_def demo_mission_def)
  ultimately show ?thesis
    using add_mission_overflow [of demo_two_actions "demo_user 1 ADMIN" 5 demo_campaign "demo_action\<lparr>action_id := 11\<rparr>" 2147483648]
    by simp
qed

section \<open>Editing, managing and joining\<close>

text \<open>
  C31: an edit that is accepted is an edit of a campaign in promotion by somebody who manages it,
  and keeps it in promotion. The stored row is the one answered; a date the client sends back
  unchanged, compared at milliseconds, keeps its stored microseconds; no other campaign changes.
\<close>

theorem patch_campaign_spec:
  assumes "campaigns_ok s" "zone_ok z" "s1 = snd (sync_campaign_statuses s now)"
    "patch_campaign_view z s1 now u cid p = Inr (c', s')"
  shows "campaign_id c' = cid \<and> c' \<in> set (campaigns s') \<and> can_manage_campaign s1 u c' \<and>
    status c' = PROMOTION \<and> now < start_date c' \<and> start_date c' < end_date c' \<and>
    (\<exists>c \<in> set (campaigns s1). campaign_id c = cid \<and> status c = PROMOTION \<and> approval_status c = CAMP_APPROVED \<and>
      start_date c' = or_stored (if_changed (patch_start p) (start_date c)) (start_date c) \<and>
      end_date c' = or_stored (if_changed (patch_end p) (end_date c)) (end_date c)) \<and>
    filter (\<lambda>x. campaign_id x \<noteq> cid) (campaigns s') = filter (\<lambda>x. campaign_id x \<noteq> cid) (campaigns s1)"
proof -
  have ok: "campaigns_ok s1" using sync_moves [OF assms(1), of now] by (simp add: moves_def assms(3))
  show ?thesis
    using ok
  proof (cases rule: get_visible_cases [where u = u and cid = cid])
    case (found c)
    have row: "row_ok c" using ok found(2) by (simp add: campaigns_ok_def)
    have app: "approval_status c = CAMP_APPROVED" using found(4) by (simp add: visible_campaign_def)
    from assms(4) obtain p1 where m: "can_manage_campaign s1 u c" and st: "status c = PROMOTION"
      and v: "validate_update z now c p = Inr p1" and c': "c' = update_campaign now c p1" and save: "campaign_save s1 c' = Inr s'"
      by (auto simp: patch_campaign_view_def found(1) campaign_get_eq [OF ok found(2)] Let_def elim!: res_bind_InrE split: if_splits)
    note vok = validate_update_ok [OF v row_okD(2,1) [OF row]] and vc = validate_update_cases [OF v]
    have cols: "campaign_id c' = cid" "scope c' = scope c" "target_clan c' = target_clan c"
        "start_date c' = or_stored (patch_start p1) (start_date c)" "end_date c' = or_stored (patch_end p1) (end_date c)"
      by (simp_all add: c' update_campaign_def Let_def found(3))
    have "now < start_date c"
      using in_syncD(1) [OF _ found(2) app st row_okD(1) [OF row]] sync_in_sync by (simp add: assms(3))
    then have start: "now < start_date c'"
      using vok(3) earliest_is_later [OF assms(2), of now] cols(4) by (cases "patch_start p1") (auto simp: or_stored_def)
    then have "status c' = PROMOTION"
      by (simp add: c' update_campaign_def Let_def compute_campaign_status_def)
    moreover have "can_manage_campaign s1 u c'"
    proof -
      have "campaign_target s1 c' = campaign_target s1 c" by (simp add: campaign_target_def cols)
      then show ?thesis using m by (simp add: can_manage_campaign_def resolve_can_manage_def cols)
    qed
    moreover have "campaigns s' = qs_update (\<lambda>x. campaign_id x = cid) (\<lambda>_. c') (campaigns s1)"
      using save cols(1) by (auto simp: campaign_save_def split: option.splits)
    moreover from this have "c' \<in> set (campaigns s')" using found(2,3) by (auto simp: qs_update_def)
    moreover have "filter (\<lambda>x. campaign_id x \<noteq> cid) (qs_update (\<lambda>x. campaign_id x = cid) (\<lambda>_. c') cs) =
        filter (\<lambda>x. campaign_id x \<noteq> cid) cs" for cs
      using cols(1) by (induction cs) (auto simp: qs_update_def)
    ultimately show ?thesis using cols start vok(2) found(2,3) st app vc(2,3) by auto
  qed (use assms(4) in \<open>simp add: patch_campaign_view_def\<close>)
qed

definition demo_patch :: campaign_patch where
  "demo_patch = \<lparr>patch_title = Some '' Reto verde '', patch_description = None, patch_start = Some 10, patch_end = None, patch_others = []\<rparr>"

lemma demo_patch_runs:
  "case patch_campaign_view mexico_city (snd (sync_campaign_statuses demo_promotion 5)) 5 (demo_user 1 ADMIN) 5 demo_patch of
     Inl _ \<Rightarrow> False | Inr (c, _) \<Rightarrow> title c = ''Reto verde''"
  by code_simp

theorem patch_campaign_spec_witness:
  "\<exists>c' s'. patch_campaign_view mexico_city (snd (sync_campaign_statuses demo_promotion 5)) 5 (demo_user 1 ADMIN) 5 demo_patch = Inr (c', s') \<and>
     title c' = ''Reto verde'' \<and> status c' = PROMOTION \<and> c' \<in> set (campaigns s')"
proof (cases "patch_campaign_view mexico_city (snd (sync_campaign_statuses demo_promotion 5)) 5 (demo_user 1 ADMIN) 5 demo_patch")
  case (Inr r)
  obtain c' s' where r: "r = (c', s')" by (cases r)
  from patch_campaign_spec [OF demo_promotion_ok mexico_city_ok refl Inr [unfolded r]] Inr r demo_patch_runs show ?thesis by auto
qed (use demo_patch_runs in simp)

text \<open>
  The flag a client sees is the permission the server applies. Serialising a campaign with
  the precomputed set of clans the caller leads answers \<open>can_manage\<close> exactly when an edit, a start
  or a finish by the same caller passes the permission check, and nobody else: an administrator
  for a global campaign or one of a living institutional clan, the leader of the living target
  clan otherwise.
\<close>

theorem can_manage_flag_agrees:
  assumes "distinct (map clan_id (clans s))"
  shows "view_can_manage (serialize_campaign s (Some u) c) \<longleftrightarrow> can_manage_campaign s u c"
    (is "?flag \<longleftrightarrow> _")
proof -
  have "clan_id k \<in> set (leader_clan_ids s (Some u)) \<longleftrightarrow> leads_live_clan s u (Some k)"
    if "campaign_target s c = Some k" for k
  proof -
    have k: "k \<in> set (clans s)"
      using that by (auto simp: campaign_target_def find_Some_iff split: option.splits)
    have "list_ex (\<lambda>x. clan_id x = clan_id k \<and> deleted_at x = None) (clans s) \<longleftrightarrow> deleted_at k = None"
      using k inj_on_pk [OF assms k] by (auto simp: list_ex_iff) metis
    moreover have "clan_id k \<in> set (leader_clan_ids s (Some u)) \<longleftrightarrow>
        list_ex (\<lambda>x. clan_id x = clan_id k \<and> deleted_at x = None) (clans s) \<and>
        list_ex (\<lambda>m. member m = user_id u \<and> member_clan m = clan_id k \<and> member_role m = LEADER) (memberships s)"
      unfolding leader_clan_ids_def by (force simp: list_ex_iff [of _ "memberships s"])
    ultimately show ?thesis by (simp add: leads_live_clan_def)
  qed
  then show ?thesis
    by (auto simp: serialize_campaign_def can_manage_campaign_for_user_def can_manage_campaign_def resolve_can_manage_def Let_def
        leads_live_clan_def split: option.splits)
qed

definition demo_flagged :: db where
  "demo_flagged = demo_promotion\<lparr>clans := []\<rparr>"

theorem can_manage_flag_agrees_witness:
  "view_can_manage (serialize_campaign demo_flagged (Some (demo_user 1 ADMIN)) demo_campaign) \<and>
   \<not> view_can_manage (serialize_campaign demo_flagged (Some (demo_user 2 STUDENT)) demo_campaign)"
proof -
  have d: "distinct (map clan_id (clans demo_flagged))" by (simp add: demo_flagged_def)
  have "can_manage_campaign demo_flagged (demo_user 1 ADMIN) demo_campaign" by code_simp
  moreover have "\<not> can_manage_campaign demo_flagged (demo_user 2 STUDENT) demo_campaign" by code_simp
  ultimately show ?thesis using can_manage_flag_agrees [OF d] by blast
qed

text \<open>
  Enrolment. A join succeeds exactly when the campaign is approved, in promotion, not of a
  dissolved clan, the caller is an accepted member of its clan where it has one and not enrolled
  yet; it then adds one row for this caller and this campaign and changes nothing else of the
  enrolments. Any other join changes nothing at all.
\<close>

theorem join_campaign_spec:
  assumes "campaigns_ok s"
  shows "((\<exists>p s'. join_campaign_view s now u cid = Inr (Enrolled p, s')) \<longleftrightarrow>
      (\<exists>c \<in> set (campaigns s). campaign_id c = cid \<and> joinable s c \<and> status c = PROMOTION \<and>
         (scope c = CLAN_SCOPE \<longrightarrow> accepted_member s (user_id u) c) \<and> \<not> is_participant s (Some u) cid)) \<and>
    (\<forall>r s'. join_campaign_view s now u cid = Inr (r, s') \<longrightarrow>
      (case r of Enrolled p \<Rightarrow> participants s' = participants s @ [p] \<and> participant_campaign p = cid \<and> participant_user p = user_id u
       | _ \<Rightarrow> s' = s))"
  using assms
proof (cases rule: join_outcome [where now = now and u = u and cid = cid])
  case none
  then show ?thesis by auto
next
  case (refused c r)
  have "c' = c" if "c' \<in> set (campaigns s)" "campaign_id c' = cid" for c'
    using inj_on_pk [OF campaigns_distinct [OF assms] that(1) refused(3)] that(2) refused(4) by simp
  then have "\<not> (\<exists>c \<in> set (campaigns s). campaign_id c = cid \<and> joinable s c \<and> status c = PROMOTION \<and>
      (scope c = CLAN_SCOPE \<longrightarrow> accepted_member s (user_id u) c) \<and> \<not> is_participant s (Some u) cid)"
    using refused(5) by blast
  then show ?thesis using refused(1,2) by (cases r) (blast | simp)+
next
  case (enrolled c p s1)
  then have "\<exists>c \<in> set (campaigns s). campaign_id c = cid \<and> joinable s c \<and> status c = PROMOTION \<and>
      (scope c = CLAN_SCOPE \<longrightarrow> accepted_member s (user_id u) c) \<and> \<not> is_participant s (Some u) cid" by blast
  then show ?thesis using enrolled(1,9-11) by simp
qed

lemma demo_join: "case join_campaign_view demo_promotion 5 (demo_user 2 STUDENT) 5 of Inr (Enrolled p, _) \<Rightarrow> True | _ \<Rightarrow> False"
  by code_simp

theorem join_campaign_spec_witness:
  "\<exists>p s'. join_campaign_view demo_promotion 5 (demo_user 2 STUDENT) 5 = Inr (Enrolled p, s') \<and> participants s' = [p] \<and> participant_user p = 2"
proof -
  obtain p s' where j: "join_campaign_view demo_promotion 5 (demo_user 2 STUDENT) 5 = Inr (Enrolled p, s')"
    using demo_join by (auto split: sum.splits join_response.splits prod.splits)
  moreover have "participants demo_promotion = []" by (simp add: demo_promotion_def demo_missions_def empty_db_def)
  ultimately show ?thesis
    using join_campaign_spec [OF demo_promotion_ok, of 5 "demo_user 2 STUDENT" 5] by (auto simp: demo_user_def)
qed

text \<open>
  Grouping the progress of a caller by campaign loses nothing and mixes nothing up. A listed
  campaign gets exactly the progress rows of that caller in its missions, in the order of the
  query; a campaign without any has no entry.
\<close>

theorem progress_by_campaign_spec:
  "progress_by_campaign s (Some u) ids cid =
     (let ps = [p. p \<leftarrow> mission_progresses s, m \<leftarrow> missions s,
                  progress_user p = user_id u \<and> mission_id m = progress_mission p \<and> mission_campaign m = cid \<and> cid \<in> set ids]
      in if ps = [] then None else Some ps)"
proof -
  have fold: "fold (\<lambda>(k, p). append_at k p) kps m cid =
      (let ps = map snd (filter (\<lambda>(k, _). k = cid) kps)
       in if ps = [] then m cid else Some ((case m cid of None \<Rightarrow> [] | Some vs \<Rightarrow> vs) @ ps))" for kps :: "(uuid \<times> mission_progress) list" and m
    by (induction kps arbitrary: m) (auto simp: append_at_def Let_def split: option.splits)
  let ?ok = "\<lambda>p m. progress_user p = user_id u \<and> mission_id m = progress_mission p \<and> mission_campaign m \<in> set ids"
  have inner: "map snd (filter (\<lambda>(k, _). k = cid) [(mission_campaign m, p). m \<leftarrow> ms, ?ok p m]) =
      [p. m \<leftarrow> ms, progress_user p = user_id u \<and> mission_id m = progress_mission p \<and> mission_campaign m = cid \<and> cid \<in> set ids]"
    for p ms by (induction ms) auto
  have "map snd (filter (\<lambda>(k, _). k = cid) [(mission_campaign m, p). p \<leftarrow> ps, m \<leftarrow> missions s, ?ok p m]) =
      [p. p \<leftarrow> ps, m \<leftarrow> missions s, progress_user p = user_id u \<and> mission_id m = progress_mission p \<and> mission_campaign m = cid \<and> cid \<in> set ids]"
    for ps by (induction ps) (simp_all add: inner)
  from this [of "mission_progresses s"] show ?thesis
    unfolding progress_by_campaign_def option.case fold Let_def by (simp only: option.case append_Nil)
qed

end
