(* ===== verification/Metrics.thy ===== *)
theory Metrics
  imports Actions
begin

text \<open>
  The personal statistics of \<open>accounts/selectors.py\<close>: the ecological profile, the metrics with
  their filters and groupings, and the weekly trend. A \<open>Decimal\<close> of three places is an integer
  number of thousandths. \<open>trunc_month\<close> is PostgreSQL's \<open>date_trunc('month', ...)\<close>.
\<close>

section \<open>Impact\<close>

record impact_metrics =
  co2_kg :: int
  water_liters :: int
  plastic_kg :: int

definition approved_action_logs :: "db \<Rightarrow> uuid \<Rightarrow> profile option \<Rightarrow> action_log list" where
  "approved_action_logs s u p =
     (let logs = filter (\<lambda>l. log_user l = u \<and> log_status l = LOG_APPROVED) (action_logs s)
      in case p of
           None \<Rightarrow> logs
         | Some q \<Rightarrow> (case progress_reset_at q of
                       None \<Rightarrow> logs
                     | Some t \<Rightarrow> filter (\<lambda>l. log_created_at l \<ge> t) logs))"

definition sum_impact :: "action_log list \<Rightarrow> impact_metrics" where
  "sum_impact logs =
     \<lparr>co2_kg = sum_list (map co2_kg_factor_snapshot logs),
      water_liters = sum_list (map water_liters_factor_snapshot logs),
      plastic_kg = sum_list (map plastic_kg_factor_snapshot logs)\<rparr>"

text \<open>\<open>participants__user=user\<close> is a join with the participants.\<close>

definition finished_campaigns :: "db \<Rightarrow> uuid \<Rightarrow> campaign list" where
  "finished_campaigns s u =
     [c. c \<leftarrow> campaigns s, p \<leftarrow> participants s,
        participant_campaign p = campaign_id c \<and> participant_user p = u \<and> status c = FINISHED]"

record ecological_profile =
  eco_profile :: profile
  eco_private_clan :: "uuid option"
  eco_level :: "nat option"
  eco_badges :: "unit list"
  eco_impact :: impact_metrics
  eco_campaigns :: "(uuid \<times> string \<times> datetime) list"

definition get_ecological_profile :: "db \<Rightarrow> uuid \<Rightarrow> ecological_profile \<times> db" where
  "get_ecological_profile s u =
     (let (p, s1) = ensure_profile s u
      in (\<lparr>eco_profile = p, eco_private_clan = get_active_private_clan s1 u, eco_level = None, eco_badges = [],
           eco_impact = sum_impact (approved_action_logs s1 u (Some p)),
           eco_campaigns = map (\<lambda>c. (campaign_id c, title c, end_date c))
             (sort_key (\<lambda>c. - end_date c) (finished_campaigns s1 u))\<rparr>, s1))"

section \<open>Metrics\<close>

datatype granularity = WEEK | MONTH

record metrics_filters =
  date_from :: "date option"
  date_to :: "date option"
  filter_category :: "string option"
  filter_granularity :: granularity

text \<open>\<open>values(key).annotate(Count, Sum)\<close>: one row per key, with the rows of its group.\<close>

definition group_by :: "('r \<Rightarrow> 'k) \<Rightarrow> 'r list \<Rightarrow> ('k \<times> 'r list) list" where
  "group_by key rows = map (\<lambda>k. (k, filter (\<lambda>r. key r = k) rows)) (remdups (map key rows))"

text \<open>A day number is \<open>date.toordinal()\<close>, and day 1 is a Monday.\<close>

definition weekday :: "date \<Rightarrow> int" where
  "weekday d = (d + 6) mod 7"

definition week_start :: "date \<Rightarrow> date" where
  "week_start d = d - weekday d"

definition log_category :: "db \<Rightarrow> action_log \<Rightarrow> (string \<times> string) option" where
  "log_category s l =
     (case find (\<lambda>a. action_id a = log_action l) (actions s) of
        None \<Rightarrow> None
      | Some a \<Rightarrow> map_option (\<lambda>c. (category_code c, category_name c))
                    (find (\<lambda>c. category_id c = action_category_id a) (categories s)))"

definition within :: "metrics_filters \<Rightarrow> date \<Rightarrow> bool" where
  "within f d \<longleftrightarrow>
     (case date_from f of None \<Rightarrow> True | Some a \<Rightarrow> a \<le> d) \<and> (case date_to f of None \<Rightarrow> True | Some b \<Rightarrow> d \<le> b)"

definition metrics_logs :: "zone \<Rightarrow> db \<Rightarrow> uuid \<Rightarrow> profile \<Rightarrow> metrics_filters \<Rightarrow> action_log list" where
  "metrics_logs z s u p f =
     filter (\<lambda>l. within f (local_date z (log_created_at l)) \<and>
         (case filter_category f of None \<Rightarrow> True | Some code \<Rightarrow> map_option fst (log_category s l) = Some code))
       (approved_action_logs s u (Some p))"

definition points_of_logs :: "action_log list \<Rightarrow> int" where
  "points_of_logs logs = sum_list (map points_awarded logs)"

text \<open>A row of a group: its key, the number of logs and their points.\<close>

definition group_totals :: "('k \<times> action_log list) \<Rightarrow> 'k \<times> nat \<times> int" where
  "group_totals g = (fst g, length (snd g), points_of_logs (snd g))"

definition category_activity :: "db \<Rightarrow> action_log list \<Rightarrow> ((string \<times> string) \<times> nat \<times> int) list" where
  "category_activity s logs =
     sort_key (\<lambda>(_, n, _). - int n) (sort_key (\<lambda>((code, _), _). code)
       (map (\<lambda>g. group_totals (the (fst g), snd g)) (group_by (log_category s) (filter (\<lambda>l. log_category s l \<noteq> None) logs))))"

definition period_activity :: "(action_log \<Rightarrow> date) \<Rightarrow> action_log list \<Rightarrow> (date \<times> nat \<times> int) list" where
  "period_activity period logs = sort_key fst (map group_totals (group_by period logs))"

record profile_metrics =
  metrics_impact :: impact_metrics
  approved_actions :: nat
  points_earned :: int
  by_category :: "((string \<times> string) \<times> nat \<times> int) list"
  balance_total :: int
  balance_available :: int
  activity :: "(date \<times> nat \<times> int) list"
  badges_earned :: nat
  campaigns_finished :: nat

definition get_profile_metrics ::
  "(date \<Rightarrow> date) \<Rightarrow> zone \<Rightarrow> db \<Rightarrow> uuid \<Rightarrow> metrics_filters \<Rightarrow> profile_metrics \<times> db" where
  "get_profile_metrics trunc_month z s u f =
     (let (p, s1) = ensure_profile s u;
          logs = metrics_logs z s1 u p f;
          truncate = (case filter_granularity f of WEEK \<Rightarrow> week_start | MONTH \<Rightarrow> trunc_month);
          badge_rows = filter (\<lambda>b. badge_owner b = u \<and> within f (local_date z (earned_at b))) (user_badges s1);
          campaign_rows = filter (\<lambda>c. within f (local_date z (end_date c))) (finished_campaigns s1 u)
      in (\<lparr>metrics_impact = sum_impact logs, approved_actions = length logs, points_earned = points_of_logs logs,
           by_category = category_activity s1 logs, balance_total = total_points p, balance_available = available_points p,
           activity = period_activity (\<lambda>l. truncate (local_date z (log_created_at l))) logs,
           badges_earned = length badge_rows, campaigns_finished = length (remdups (map campaign_id campaign_rows))\<rparr>, s1))"

section \<open>The weekly trend\<close>

definition IMPACT_TREND_WEEKS :: nat where
  "IMPACT_TREND_WEEKS = 4"

text \<open>\<open>range(weeks - 1, -1, -1)\<close>; with no week the lookup of the first one fails.\<close>

definition get_impact_trend :: "zone \<Rightarrow> db \<Rightarrow> datetime \<Rightarrow> uuid \<Rightarrow> nat \<Rightarrow> (date \<times> impact_metrics) list res" where
  "get_impact_trend z s now u weeks =
     (let today = local_date z now;
          week_starts = map (\<lambda>offset. week_start today - 7 * int offset) (rev [0..<weeks])
      in case week_starts of
           [] \<Rightarrow> Inl (RuntimeError ''IndexError'')
         | first # _ \<Rightarrow>
             (let rows = group_by (\<lambda>l. week_start (local_date z (log_created_at l)))
                    (filter (\<lambda>l. local_date z (log_created_at l) \<ge> first)
                      (approved_action_logs s u (qs_first profile_user (filter (\<lambda>p. profile_user p = u) (profiles s)))));
                  totals_by_week = map_of (map (\<lambda>(w, logs). (w, sum_impact logs)) rows)
              in Inr (map (\<lambda>w. (w, case totals_by_week w of None \<Rightarrow> sum_impact [] | Some t \<Rightarrow> t)) week_starts)))"

section \<open>Groups add up\<close>

lemma sum_filter_disjoint:
  "(\<And>x. \<not> (P x \<and> Q x)) \<Longrightarrow>
   sum_list (map f (filter P xs)) + sum_list (map f (filter Q xs)) = (sum_list (map f (filter (\<lambda>x. P x \<or> Q x) xs)) :: 'b :: comm_monoid_add)"
  by (induction xs) (auto simp: ac_simps)

lemma sum_over_keys:
  "distinct ks \<Longrightarrow> sum_list (map (\<lambda>k. sum_list (map f (filter (\<lambda>r. key r = k) rows))) ks) =
   (sum_list (map f (filter (\<lambda>r. key r \<in> set ks) rows)) :: 'b :: comm_monoid_add)"
proof (induction ks)
  case (Cons k ks)
  then show ?case
    using sum_filter_disjoint [of "\<lambda>r. key r = k" "\<lambda>r. key r \<in> set ks" f rows] by simp
qed simp

lemma group_by_sum:
  "sum_list (map (\<lambda>g. sum_list (map f (snd g))) (group_by key rows)) = (sum_list (map f rows) :: 'b :: comm_monoid_add)"
proof -
  have "filter (\<lambda>r. key r \<in> set (remdups (map key rows))) rows = rows" by (simp add: filter_id_conv)
  then show ?thesis using sum_over_keys [of "remdups (map key rows)" f key rows] by (simp add: group_by_def comp_def)
qed

lemma group_by_length: "sum_list (map (\<lambda>g. length (snd g)) (group_by key rows)) = length rows"
  using group_by_sum [of "\<lambda>_. 1 :: nat" key rows] by (simp add: sum_list_triv)

lemma group_by_lookup: "map_of (group_by key rows) k = (if k \<in> key ` set rows then Some (filter (\<lambda>r. key r = k) rows) else None)"
proof -
  have "map_of (map (\<lambda>k. (k, filter (\<lambda>r. key r = k) rows)) ks) k =
      (if k \<in> set ks then Some (filter (\<lambda>r. key r = k) rows) else None)" for ks
    by (induction ks) auto
  then show ?thesis by (simp add: group_by_def)
qed

lemma sum_list_sort_key: "sum_list (map f (sort_key k xs)) = (sum_list (map f xs) :: 'b :: comm_monoid_add)"
  by (metis mset_map mset_sort sum_mset_sum_list)

lemma period_activity_sums:
  "(\<Sum>(_, n, _) \<leftarrow> period_activity period logs. n) = length logs"
  "(\<Sum>(_, _, p) \<leftarrow> period_activity period logs. p) = points_of_logs logs"
  using group_by_length [of period logs] group_by_sum [of points_awarded period logs]
  by (simp_all add: period_activity_def sum_list_sort_key comp_def group_totals_def points_of_logs_def case_prod_beta)

lemma category_activity_sums:
  assumes "\<forall>l \<in> set logs. log_category s l \<noteq> None"
  shows "(\<Sum>(_, n, _) \<leftarrow> category_activity s logs. n) = length logs"
    "(\<Sum>(_, _, p) \<leftarrow> category_activity s logs. p) = points_of_logs logs"
proof -
  have "filter (\<lambda>l. log_category s l \<noteq> None) logs = logs" using assms by (simp add: filter_id_conv)
  then show "(\<Sum>(_, n, _) \<leftarrow> category_activity s logs. n) = length logs"
    "(\<Sum>(_, _, p) \<leftarrow> category_activity s logs. p) = points_of_logs logs"
    using group_by_length [of "log_category s" logs] group_by_sum [of points_awarded "log_category s" logs]
    by (simp_all add: category_activity_def sum_list_sort_key comp_def group_totals_def points_of_logs_def case_prod_beta)
qed

lemma period_activity_increasing: "sorted_wrt (<) (map fst (period_activity period logs))"
proof -
  have "distinct (map fst (period_activity period logs))"
  proof -
    have "distinct (map fst (map group_totals (group_by period logs)))" by (simp add: group_by_def group_totals_def comp_def)
    then show ?thesis unfolding period_activity_def by (metis distinct_map distinct_sort set_sort)
  qed
  then show ?thesis by (simp add: strict_sorted_iff period_activity_def)
qed

lemma period_activity_nonempty: "(d, n, p) \<in> set (period_activity period logs) \<Longrightarrow> 0 < n"
  by (auto simp: period_activity_def group_totals_def group_by_def filter_empty_conv)

text \<open>
  C37: the metrics add up. Whatever the filters, the actions and the points of the categories sum
  to the totals shown beside them, and so do those of the weeks or months; the periods are in
  strictly increasing order and none is empty.
\<close>

theorem profile_metrics_add_up:
  assumes "\<forall>l \<in> set (action_logs s). log_category s l \<noteq> None" "m = fst (get_profile_metrics trunc_month z s u f)"
  shows "(\<Sum>(_, n, _) \<leftarrow> by_category m. n) = approved_actions m \<and> (\<Sum>(_, _, p) \<leftarrow> by_category m. p) = points_earned m \<and>
    (\<Sum>(_, n, _) \<leftarrow> activity m. n) = approved_actions m \<and> (\<Sum>(_, _, p) \<leftarrow> activity m. p) = points_earned m \<and>
    sorted_wrt (<) (map fst (activity m)) \<and> (\<forall>(_, n, _) \<in> set (activity m). 0 < n)"
proof -
  obtain p s1 where e: "ensure_profile s u = (p, s1)" by force
  have "s1 = s\<lparr>profiles := profiles s1\<rparr>" using e by (cases "profile_of s u") (auto simp: ensure_profile_def)
  then obtain ps where s1: "s1 = s\<lparr>profiles := ps\<rparr>" by metis
  have "log_category s1 = log_category s" unfolding log_category_def s1 by (rule ext) (simp split: option.split)
  moreover have "set (metrics_logs z s1 u p f) \<subseteq> set (action_logs s)"
    by (auto simp: metrics_logs_def approved_action_logs_def Let_def s1 split: option.splits)
  ultimately have cat: "\<forall>l \<in> set (metrics_logs z s1 u p f). log_category s1 l \<noteq> None" using assms(1) by auto
  have m: "by_category m = category_activity s1 (metrics_logs z s1 u p f)" "approved_actions m = length (metrics_logs z s1 u p f)"
    "points_earned m = points_of_logs (metrics_logs z s1 u p f)" "\<exists>period. activity m = period_activity period (metrics_logs z s1 u p f)"
    by (auto simp: assms(2) get_profile_metrics_def e Let_def)
  obtain period where a: "activity m = period_activity period (metrics_logs z s1 u p f)" using m(4) by blast
  show ?thesis unfolding m(1-3) a
    using category_activity_sums [OF cat] period_activity_sums [of period "metrics_logs z s1 u p f"]
      period_activity_increasing [of period "metrics_logs z s1 u p f"] period_activity_nonempty [of _ _ _ period "metrics_logs z s1 u p f"]
    by fastforce
qed

text \<open>Four approved logs of one category: three in one week, one in the next.\<close>

definition demo_history :: db where
  "demo_history = demo_streak\<lparr>actions := [\<lparr>action_id = log_action demo_log, action_code = ''bike'', action_category_id = 5,
       action_name = ''Bike'', action_description = [], points = 10, daily_limit = 3, validation_type = NO_VALIDATION,
       co2_kg_factor = 0, water_liters_factor = 0, plastic_kg_factor = 0, action_is_active = True\<rparr>],
     categories := [\<lparr>category_id = 5, category_code = ''move'', category_name = ''Mobility'',
       category_description = [], category_icon = []\<rparr>]\<rparr>"

definition demo_filters :: metrics_filters where
  "demo_filters = \<lparr>date_from = Some 96, date_to = None, filter_category = None, filter_granularity = WEEK\<rparr>"

lemma demo_history_categories: "list_all (\<lambda>l. log_category demo_history l \<noteq> None) (action_logs demo_history)"
  by code_simp

lemma demo_history_actions: "approved_actions (fst (get_profile_metrics id mexico_city demo_history 1 demo_filters)) = 3"
  by code_simp

theorem profile_metrics_add_up_witness:
  "(\<Sum>(_, n, _) \<leftarrow> activity (fst (get_profile_metrics id mexico_city demo_history 1 demo_filters)). n) = 3"
  using profile_metrics_add_up [of demo_history _ id mexico_city 1 demo_filters] demo_history_categories demo_history_actions
  by (simp add: list_all_iff)

section \<open>The trend\<close>

lemma week_start_iff:
  assumes "w mod 7 = 1"
  shows "week_start d = w \<longleftrightarrow> w \<le> d \<and> d < w + 7"
  using assms unfolding week_start_def weekday_def by presburger

lemma week_start_monday: "(week_start d - 7 * k) mod 7 = 1"
  unfolding week_start_def weekday_def by presburger

text \<open>
  C36: the trend is complete. It has one point per week, oldest first, for consecutive weeks that
  start on Mondays and end with the current one; each point is the impact of exactly the
  approved logs of the caller, since the last reset, on the seven local days of its week, and
  zero when there are none.
\<close>

theorem impact_trend_spec:
  "get_impact_trend z s now u (Suc n) =
     Inr (map (\<lambda>i. let w = week_start (local_date z now) - 7 * int (n - i)
                in (w, sum_impact (filter (\<lambda>l. w \<le> local_date z (log_created_at l) \<and> local_date z (log_created_at l) < w + 7)
                         (approved_action_logs s u (qs_first profile_user (filter (\<lambda>p. profile_user p = u) (profiles s)))))))
           [0..<Suc n])"
proof -
  let ?cur = "week_start (local_date z now)" and ?day = "\<lambda>l. local_date z (log_created_at l)"
  let ?logs = "approved_action_logs s u (qs_first profile_user (filter (\<lambda>p. profile_user p = u) (profiles s)))"
  let ?recent = "filter (\<lambda>l. ?cur - 7 * int n \<le> ?day l) ?logs"
  let ?week = "\<lambda>l. week_start (?day l)"
  have point: "(case map_of (map (\<lambda>(w, logs). (w, sum_impact logs)) (group_by ?week ?recent)) w of
      None \<Rightarrow> sum_impact [] | Some t \<Rightarrow> t) = sum_impact (filter (\<lambda>l. w \<le> ?day l \<and> ?day l < w + 7) ?logs)"
    if w: "w = ?cur - 7 * int i" "i \<le> n" for w i
  proof -
    have mon: "w mod 7 = 1" unfolding w(1) by (rule week_start_monday)
    have "?cur - 7 * int n \<le> w" using w by simp
    then have "filter (\<lambda>l. ?week l = w) ?recent = filter (\<lambda>l. w \<le> ?day l \<and> ?day l < w + 7) ?logs"
      unfolding filter_filter by (intro filter_cong [OF refl]) (auto simp: week_start_iff [OF mon])
    moreover have "(case map_of (map (\<lambda>(w, logs). (w, sum_impact logs)) (group_by ?week ?recent)) w of
        None \<Rightarrow> sum_impact [] | Some t \<Rightarrow> t) = sum_impact (filter (\<lambda>l. ?week l = w) ?recent)"
    proof (cases "w \<in> ?week ` set ?recent")
      case False
      then have "filter (\<lambda>l. ?week l = w) ?recent = []" by (simp only: filter_empty_conv) blast
      with False show ?thesis unfolding map_of_map o_def group_by_lookup by simp
    qed (unfold map_of_map o_def group_by_lookup, simp)
    ultimately show ?thesis by simp
  qed
  have weeks: "rev [0..<Suc n] = map (\<lambda>i. n - i) [0..<Suc n]"
    by (rule nth_equalityI) (auto simp: rev_nth simp del: upt_Suc)
  have starts: "map (\<lambda>offset. ?cur - 7 * int offset) (rev [0..<Suc n]) =
      (?cur - 7 * int n) # map (\<lambda>offset. ?cur - 7 * int offset) (rev [0..<n])" by simp
  show ?thesis
    unfolding get_impact_trend_def Let_def
    by (simp only: starts list.case) (simp only: starts [symmetric] weeks map_map, simp only: o_def point [OF refl diff_le_self])
qed

end
