(* ===== verification/Json.thy ===== *)
theory Json
  imports Image_Storage
begin

text \<open>
  JSON documents as \<open>json.loads\<close> gives them to Python, and the Python operations the code applies
  to them: \<open>dict.get\<close>, \<open>isinstance\<close>, \<open>==\<close>, \<open>str\<close> and \<open>repr\<close>. A float is its \<open>repr\<close>. The
  importer of the catalog, the identity providers and the release gates read their input this way.
\<close>

section \<open>Values\<close>

datatype json =
    JNull | JBool bool | JInt int | JFloat string | JStr string
  | JArr "json list" | JObj "(string \<times> json) list"

type_synonym dict = "(string \<times> json) list"

definition dict_get :: "dict \<Rightarrow> string \<Rightarrow> json \<Rightarrow> json" where
  "dict_get d k dflt = (case map_of d k of None \<Rightarrow> dflt | Some v \<Rightarrow> v)"

abbreviation dget :: "dict \<Rightarrow> string \<Rightarrow> json" where
  "dget d k \<equiv> dict_get d k JNull"

text \<open>\<open>isinstance(v, dict)\<close>, \<open>list\<close>, \<open>str\<close>, \<open>int\<close>: a \<open>bool\<close> is an \<open>int\<close> in Python.\<close>

fun as_dict :: "json \<Rightarrow> dict option" where
  "as_dict (JObj d) = Some d"
| "as_dict v = None"

fun as_list :: "json \<Rightarrow> json list option" where
  "as_list (JArr xs) = Some xs"
| "as_list v = None"

fun as_str :: "json \<Rightarrow> string option" where
  "as_str (JStr v) = Some v"
| "as_str v = None"

fun as_int :: "json \<Rightarrow> int option" where
  "as_int (JInt n) = Some n"
| "as_int (JBool b) = Some (if b then 1 else 0)"
| "as_int v = None"

lemma as_dict_iff [simp]: "as_dict v = Some d \<longleftrightarrow> v = JObj d"
  by (cases v) auto

lemma as_list_iff [simp]: "as_list v = Some xs \<longleftrightarrow> v = JArr xs"
  by (cases v) auto

lemma as_str_iff [simp]: "as_str v = Some t \<longleftrightarrow> v = JStr t"
  by (cases v) auto

text \<open>The condition \<open>isinstance(d.get(k), dict) and P(d[k])\<close> of the guards on nested documents.\<close>

definition with_dict :: "json \<Rightarrow> (dict \<Rightarrow> bool) \<Rightarrow> bool" where
  "with_dict v P = (case as_dict v of None \<Rightarrow> False | Some d \<Rightarrow> P d)"

lemma with_dict_iff: "with_dict v P \<longleftrightarrow> (\<exists>d. v = JObj d \<and> P d)"
  by (cases v) (auto simp: with_dict_def)

lemma with_dict_simps [simp]:
  "with_dict (JObj d) P = P d" "with_dict JNull P = False" "with_dict (JStr t) P = False"
  by (simp_all add: with_dict_def)

section \<open>Text of a value\<close>

definition int_str :: "int \<Rightarrow> string" where
  "int_str n = (if n < 0 then CHR ''-'' # nat_str (nat (- n)) else nat_str (nat n))"

text \<open>\<open>repr\<close> of a string: the quote it does not contain, and escapes, for code points below 256.\<close>

definition hex_digit :: "nat \<Rightarrow> char" where
  "hex_digit n = (''0123456789abcdef'' ! n)"

definition repr_char :: "char \<Rightarrow> char \<Rightarrow> string" where
  "repr_char quote c =
     (let n = of_char c :: nat
      in if c = quote \<or> c = CHR 0x5C then [CHR 0x5C, c]
         else if n = 9 then [CHR 0x5C, CHR ''t'']
         else if n = 10 then [CHR 0x5C, CHR ''n'']
         else if n = 13 then [CHR 0x5C, CHR ''r'']
         else if n < 32 \<or> (127 \<le> n \<and> n \<le> 160) \<or> n = 173
         then [CHR 0x5C, CHR ''x'', hex_digit (n div 16), hex_digit (n mod 16)]
         else [c])"

definition repr_str :: "string \<Rightarrow> string" where
  "repr_str v =
     (let quote = (if CHR 0x27 \<in> set v \<and> CHR 0x22 \<notin> set v then CHR 0x22 else CHR 0x27)
      in quote # concat (map (repr_char quote) v) @ [quote])"

fun py_repr :: "json \<Rightarrow> string" where
  "py_repr JNull = ''None''"
| "py_repr (JBool b) = (if b then ''True'' else ''False'')"
| "py_repr (JInt n) = int_str n"
| "py_repr (JFloat r) = r"
| "py_repr (JStr v) = repr_str v"
| "py_repr (JArr xs) = ''['' @ py_join '', '' (map py_repr xs) @ '']''"
| "py_repr (JObj d) = ''{'' @ py_join '', '' (map (\<lambda>(k, v). repr_str k @ '': '' @ py_repr v) d) @ ''}''"

definition py_str :: "json \<Rightarrow> string" where
  "py_str v = (case v of JStr t \<Rightarrow> t | _ \<Rightarrow> py_repr v)"

text \<open>
  \<open>a == b\<close> where \<open>b\<close> is an \<open>int\<close>: numbers compare by value. The \<open>repr\<close> of an integral float is
  its digits and \<open>.0\<close> below \<open>10\<^sup>1\<^sup>6\<close>, the range in which identifiers are compared here.
\<close>

definition eq_int :: "json \<Rightarrow> int \<Rightarrow> bool" where
  "eq_int v n =
     (case v of JFloat r \<Rightarrow> r = int_str n @ ''.0'' \<or> n = 0 \<and> r = ''-0.0'' | _ \<Rightarrow> as_int v = Some n)"

end
