(* ===== verification/Catalog.thy ===== *)
theory Catalog
  imports Json
begin

text \<open>
  The catalog of actions and institutional clans as operators import it:
  \<open>actions/management/commands/load_catalog.py\<close> and \<open>release_catalog.py\<close> with the connection
  checks of \<open>core/database.py\<close>. Parameters are the file system and \<open>json.loads\<close> (\<open>raw\<close> is
  the parsed file, or \<^const>\<open>None\<close> when it cannot be read or parsed), \<open>uuid5\<close> in the namespace of the
  references (\<open>ref kind code\<close>), SHA-256 and \<open>datetime.fromisoformat\<close> (\<open>aware t\<close> is \<^const>\<open>None\<close> on
  a \<open>ValueError\<close>, else whether the result has an offset). A \<open>CommandError\<close> carries the field or the
  first words of its message. A \<open>Decimal\<close> of three places is an integer number of thousandths.
\<close>

section \<open>Field validators\<close>

fun text_field :: "json \<Rightarrow> string \<Rightarrow> nat \<Rightarrow> string res" where
  "text_field (JStr v) field maximum =
     (if py_strip v = [] \<or> length v > maximum then Inl (CommandError field) else Inr (py_strip v))"
| "text_field v field maximum = Inl (CommandError field)"

fun optional_text :: "json \<Rightarrow> string \<Rightarrow> nat \<Rightarrow> string res" where
  "optional_text (JStr v) field maximum =
     (if length v > maximum then Inl (CommandError field) else Inr (py_strip v))"
| "optional_text v field maximum = Inl (CommandError field)"

definition is_digit :: "char \<Rightarrow> bool" where
  "is_digit c \<longleftrightarrow> c \<in> set ''0123456789''"

definition code_start :: "char \<Rightarrow> bool" where
  "code_start c \<longleftrightarrow> is_digit c \<or> c \<in> set ''abcdefghijklmnopqrstuvwxyz''"

text \<open>\<open>CODE_PATTERN.fullmatch\<close> of \<^verbatim>\<open>^[a-z0-9][a-z0-9._-]{1,49}$\<close>.\<close>

definition matches_code :: "string \<Rightarrow> bool" where
  "matches_code v =
     (case v of
        [] \<Rightarrow> False
      | c # cs \<Rightarrow> code_start c \<and> list_all (\<lambda>x. code_start x \<or> x \<in> set ''._-'') cs \<and> 1 \<le> length cs \<and> length cs \<le> 49)"

definition code_field :: "json \<Rightarrow> string \<Rightarrow> string res" where
  "code_field v field =
     res_bind (text_field v field 50) (\<lambda>c. if matches_code c then Inr c else Inl (CommandError field))"

fun positive_int :: "json \<Rightarrow> string \<Rightarrow> int res" where
  "positive_int (JInt n) field = (if n \<le> 0 then Inl (CommandError field) else Inr n)"
| "positive_int v field = Inl (CommandError field)"

text \<open>\<open>Decimal(str)\<close>: coefficient and exponent of a finite value, or an infinity or NaN.\<close>

datatype py_decimal = Finite int int | NotFinite

definition digits_int :: "string \<Rightarrow> int" where
  "digits_int ds = foldl (\<lambda>n c. 10 * n + (of_char c - 48)) 0 ds"

definition signed :: "string \<Rightarrow> int \<times> string" where
  "signed v =
     (case v of
        [] \<Rightarrow> (1, [])
      | c # cs \<Rightarrow> if c = CHR ''-'' then (- 1, cs) else if c = CHR ''+'' then (1, cs) else (1, v))"

definition decimal_exponent :: "string \<Rightarrow> int option" where
  "decimal_exponent e =
     (case e of
        [] \<Rightarrow> Some 0
      | _ # r \<Rightarrow> (let (sg, ds) = signed r
                  in if ds \<noteq> [] \<and> list_all is_digit ds then Some (sg * digits_int ds) else None))"

definition decimal_of_string :: "string \<Rightarrow> py_decimal option" where
  "decimal_of_string w =
     (let (sg, r) = signed (filter (\<lambda>c. c \<noteq> CHR ''_'') (py_strip w));
          low = py_lower r;
          mantissa = takeWhile (\<lambda>c. c \<notin> set ''eE'') r;
          whole = takeWhile (\<lambda>c. c \<noteq> CHR ''.'') mantissa;
          fraction = drop 1 (dropWhile (\<lambda>c. c \<noteq> CHR ''.'') mantissa)
      in if low = ''inf'' \<or> low = ''infinity'' \<or>
            (py_startswith low ''nan'' \<and> list_all is_digit (drop 3 low)) \<or>
            (py_startswith low ''snan'' \<and> list_all is_digit (drop 4 low))
         then Some NotFinite
         else if whole @ fraction = [] \<or> \<not> list_all is_digit (whole @ fraction) then None
         else map_option (\<lambda>e. Finite (sg * digits_int (whole @ fraction)) (e - int (length fraction)))
                (decimal_exponent (dropWhile (\<lambda>c. c \<notin> set ''eE'') r)))"

text \<open>\<open>str(value)\<close> of \<open>None\<close>, a boolean, a list or a dict is no number.\<close>

fun decimal_of_json :: "json \<Rightarrow> py_decimal option" where
  "decimal_of_json (JInt n) = Some (Finite n 0)"
| "decimal_of_json (JFloat r) = decimal_of_string r"
| "decimal_of_json (JStr v) = decimal_of_string v"
| "decimal_of_json v = None"

definition factor_field :: "json \<Rightarrow> string \<Rightarrow> int res" where
  "factor_field v field =
     (case decimal_of_json v of
        Some (Finite n e) \<Rightarrow>
          if n < 0 \<or> e < -3 \<or> n * 10 ^ nat (e + 3) \<ge> 1000000000 * 1000 then Inl (CommandError field)
          else Inr (n * 10 ^ nat (e + 3))
      | _ \<Rightarrow> Inl (CommandError field))"

section \<open>The payload\<close>

record category_item =
  cat_code :: string
  cat_name :: string
  cat_description :: string
  cat_icon :: string

record action_item =
  act_code :: string
  act_category_code :: string
  act_name :: string
  act_description :: string
  act_points :: int
  act_daily_limit :: int
  act_validation_type :: validation_type
  act_co2_kg_factor :: int
  act_water_liters_factor :: int
  act_plastic_kg_factor :: int
  act_is_active :: bool

record clan_item =
  clan_key :: string
  clan_item_name :: string
  clan_item_description :: string
  clan_item_career :: string

record catalog_data =
  catalog_version :: int
  catalog_categories :: "category_item list"
  catalog_actions :: "action_item list"
  catalog_clans :: "clan_item list"

definition replace_z :: "string \<Rightarrow> string" where
  "replace_z t = concat (map (\<lambda>c. if c = CHR ''Z'' then ''+00:00'' else [c]) t)"

definition check_approval :: "(string \<Rightarrow> bool option) \<Rightarrow> json \<Rightarrow> unit res" where
  "check_approval aware approval =
     (case approval of
        JObj d \<Rightarrow>
          res_bind (text_field (dict_get d ''approved_by'' JNull) ''approval.approved_by'' 150) (\<lambda>_.
          res_bind (text_field (dict_get d ''reference'' JNull) ''approval.reference'' 200) (\<lambda>_.
          res_bind (text_field (dict_get d ''approved_at'' JNull) ''approval.approved_at'' 40) (\<lambda>t.
            require (aware (replace_z t) = Some True) (CommandError ''approval.approved_at''))))
      | _ \<Rightarrow> Inl (CommandError ''APPROVED catalog data requires approval metadata.''))"

definition payload_parts ::
  "(string \<Rightarrow> bool option) \<Rightarrow> string \<Rightarrow> json \<Rightarrow> (int \<times> json list \<times> json list \<times> json list) res" where
  "payload_parts aware expected_status payload =
     (case payload of
        JObj d \<Rightarrow>
          if expected_status \<notin> {''DRAFT'', ''APPROVED''} then Inl (CommandError ''Catalog status must be DRAFT or APPROVED.'')
          else if dict_get d ''status'' JNull \<noteq> JStr expected_status then Inl (CommandError ''status'')
          else
          res_bind (if expected_status = ''APPROVED'' then check_approval aware (dict_get d ''approval'' JNull) else Inr ()) (\<lambda>_.
          case dict_get d ''schema_version'' JNull of
            JInt version \<Rightarrow>
              if version < 1 then Inl (CommandError ''schema_version'')
              else (case (dict_get d ''categories'' JNull, dict_get d ''actions'' JNull, dict_get d ''institutional_clans'' JNull) of
                      (JArr cs, JArr acts, JArr cls) \<Rightarrow> Inr (version, cs, acts, cls)
                    | _ \<Rightarrow> Inl (CommandError ''categories, actions, and institutional_clans must be arrays.''))
          | _ \<Rightarrow> Inl (CommandError ''schema_version''))
      | _ \<Rightarrow> Inl (CommandError ''Catalog payload must be a JSON object.''))"

text \<open>The loops over the raw rows; \<open>seen\<close> is the set of codes of the rows before.\<close>

definition validate_category :: "string list \<Rightarrow> json \<Rightarrow> category_item res" where
  "validate_category seen item =
     (case item of
        JObj d \<Rightarrow>
          res_bind (code_field (dict_get d ''code'' JNull) ''categories.code'') (\<lambda>code.
          if code \<in> set seen then Inl (CommandError ''Duplicate category code'')
          else
          res_bind (text_field (dict_get d ''name'' JNull) ''categories.name'' 100) (\<lambda>nm.
          res_bind (optional_text (dict_get d ''description'' (JStr [])) ''categories.description'' 10000) (\<lambda>desc.
          res_bind (optional_text (dict_get d ''icon'' (JStr [])) ''categories.icon'' 100) (\<lambda>icon.
            Inr \<lparr>cat_code = code, cat_name = nm, cat_description = desc, cat_icon = icon\<rparr>))))
      | _ \<Rightarrow> Inl (CommandError ''categories must be an object''))"

fun validation_type_of :: "json \<Rightarrow> validation_type option" where
  "validation_type_of (JStr v) =
     (if v = ''NONE'' then Some NO_VALIDATION else if v = ''PHOTO'' then Some PHOTO else None)"
| "validation_type_of v = None"

definition validate_action :: "string list \<Rightarrow> string list \<Rightarrow> json \<Rightarrow> action_item res" where
  "validate_action category_codes seen item =
     (case item of
        JObj d \<Rightarrow>
          res_bind (code_field (dict_get d ''code'' JNull) ''actions.code'') (\<lambda>code.
          if code \<in> set seen then Inl (CommandError ''Duplicate action code'')
          else
          res_bind (code_field (dict_get d ''category_code'' JNull) ''actions.category_code'') (\<lambda>category.
          if category \<notin> set category_codes then Inl (CommandError ''unknown category code'')
          else
          (case validation_type_of (dict_get d ''validation_type'' JNull) of
             None \<Rightarrow> Inl (CommandError ''actions.validation_type'')
           | Some vt \<Rightarrow>
          (case dict_get d ''is_active'' (JBool True) of
             JBool active \<Rightarrow>
               res_bind (text_field (dict_get d ''name'' JNull) ''actions.name'' 150) (\<lambda>nm.
               res_bind (text_field (dict_get d ''description'' JNull) ''actions.description'' 10000) (\<lambda>desc.
               res_bind (positive_int (dict_get d ''points'' JNull) ''actions.points'') (\<lambda>pts.
               res_bind (positive_int (dict_get d ''daily_limit'' JNull) ''actions.daily_limit'') (\<lambda>lim.
               res_bind (factor_field (dict_get d ''co2_kg_factor'' (JInt 0)) ''actions.co2_kg_factor'') (\<lambda>co2.
               res_bind (factor_field (dict_get d ''water_liters_factor'' (JInt 0)) ''actions.water_liters_factor'') (\<lambda>water.
               res_bind (factor_field (dict_get d ''plastic_kg_factor'' (JInt 0)) ''actions.plastic_kg_factor'') (\<lambda>plastic.
                 Inr \<lparr>act_code = code, act_category_code = category, act_name = nm, act_description = desc,
                      act_points = pts, act_daily_limit = lim, act_validation_type = vt, act_co2_kg_factor = co2,
                      act_water_liters_factor = water, act_plastic_kg_factor = plastic, act_is_active = active\<rparr>)))))))
           | _ \<Rightarrow> Inl (CommandError ''actions.is_active'')))))
      | _ \<Rightarrow> Inl (CommandError ''actions must be an object''))"

definition validate_clan_row :: "bool \<Rightarrow> string list \<Rightarrow> json \<Rightarrow> clan_item res" where
  "validate_clan_row require_details seen item =
     (case item of
        JObj d \<Rightarrow>
          res_bind (code_field (dict_get d ''key'' JNull) ''institutional_clans.key'') (\<lambda>key.
          if key \<in> set seen then Inl (CommandError ''Duplicate institutional clan key'')
          else if dict_get d ''type'' JNull \<noteq> JStr ''INSTITUTIONAL'' \<or> dict_get d ''privacy'' JNull \<noteq> JStr ''PUBLIC''
          then Inl (CommandError ''must be an institutional public clan'')
          else
          res_bind (text_field (dict_get d ''name'' JNull) ''institutional_clans.name'' 100) (\<lambda>nm.
          res_bind (if require_details
                    then text_field (dict_get d ''description'' JNull) ''institutional_clans.description'' 10000
                    else optional_text (dict_get d ''description'' (JStr [])) ''institutional_clans.description'' 10000) (\<lambda>desc.
          res_bind (text_field (dict_get d ''career'' (if require_details then JNull else JStr ''Draft career''))
                      ''institutional_clans.career'' 150) (\<lambda>car.
            Inr \<lparr>clan_key = key, clan_item_name = nm, clan_item_description = desc, clan_item_career = car\<rparr>))))
      | _ \<Rightarrow> Inl (CommandError ''institutional_clans must be an object''))"

fun validate_rows :: "(string list \<Rightarrow> json \<Rightarrow> 'i res) \<Rightarrow> ('i \<Rightarrow> string) \<Rightarrow> string list \<Rightarrow> json list \<Rightarrow> 'i list res" where
  "validate_rows row code seen [] = Inr []"
| "validate_rows row code seen (item # rest) =
     res_bind (row seen item) (\<lambda>x.
     res_bind (validate_rows row code (code x # seen) rest) (\<lambda>xs. Inr (x # xs)))"

definition validate_catalog :: "(string \<Rightarrow> bool option) \<Rightarrow> string \<Rightarrow> json \<Rightarrow> catalog_data res" where
  "validate_catalog aware expected_status payload =
     res_bind (payload_parts aware expected_status payload) (\<lambda>(version, raw_categories, raw_actions, raw_clans).
     res_bind (validate_rows validate_category cat_code [] raw_categories) (\<lambda>cs.
     res_bind (validate_rows (validate_action (map cat_code cs)) act_code [] raw_actions) (\<lambda>acts.
     res_bind (validate_rows (validate_clan_row (expected_status = ''APPROVED'')) clan_key [] raw_clans) (\<lambda>cls.
       Inr \<lparr>catalog_version = version, catalog_categories = cs, catalog_actions = acts, catalog_clans = cls\<rparr>))))"

definition load_catalog_content :: "(string \<Rightarrow> bool option) \<Rightarrow> string \<Rightarrow> json option \<Rightarrow> catalog_data res" where
  "load_catalog_content aware expected_status raw =
     (case raw of
        None \<Rightarrow> Inl (CommandError ''Could not parse catalog file'')
      | Some payload \<Rightarrow> validate_catalog aware expected_status payload)"

section \<open>The import\<close>

text \<open>A row inserted under a given key; the counter that stands for \<open>uuid4\<close> stays above it.\<close>

definition reserve :: "uuid \<Rightarrow> db \<Rightarrow> db" where
  "reserve k s = s\<lparr>next_id := max (next_id s) (Suc k)\<rparr>"

definition category_insert :: "db \<Rightarrow> uuid \<Rightarrow> category_item \<Rightarrow> (action_category \<times> db) res" where
  "category_insert s k item =
     (let c = \<lparr>category_id = k, category_code = cat_code item, category_name = cat_name item,
               category_description = cat_description item, category_icon = cat_icon item\<rparr>
      in if list_ex (\<lambda>x. category_id x = k \<or> category_code x = cat_code item) (categories s)
         then Inl (IntegrityError ''actions_action_category'')
         else Inr (c, reserve k (s\<lparr>categories := categories s @ [c]\<rparr>)))"

text \<open>\<open>PositiveIntegerField\<close> is a four byte integer.\<close>

definition action_insert :: "db \<Rightarrow> uuid \<Rightarrow> uuid \<Rightarrow> action_item \<Rightarrow> (action_master \<times> db) res" where
  "action_insert s k category item =
     (let a = \<lparr>action_id = k, action_code = act_code item, action_category_id = category, action_name = act_name item,
               action_description = act_description item, points = act_points item, daily_limit = nat (act_daily_limit item),
               validation_type = act_validation_type item, co2_kg_factor = act_co2_kg_factor item,
               water_liters_factor = act_water_liters_factor item, plastic_kg_factor = act_plastic_kg_factor item,
               action_is_active = act_is_active item\<rparr>
      in if act_points item > 2147483647 \<or> act_daily_limit item > 2147483647
         then Inl (DataError ''actions_action_master'')
         else if list_ex (\<lambda>x. action_id x = k \<or> action_code x = act_code item) (actions s)
         then Inl (IntegrityError ''actions_action_master'')
         else Inr (a, reserve k (s\<lparr>actions := actions s @ [a]\<rparr>)))"

definition clan_description_of :: "clan_item \<Rightarrow> string" where
  "clan_description_of item = clan_item_description item @ '' Career key: '' @ clan_item_career item"

definition clan_insert :: "db \<Rightarrow> datetime \<Rightarrow> uuid \<Rightarrow> clan_item \<Rightarrow> (clan \<times> db) res" where
  "clan_insert s now k item =
     (let c = \<lparr>clan_id = k, clan_name = clan_item_name item, clan_description = clan_description_of item,
               clan_avatar_object_key = [], clan_type = INSTITUTIONAL, privacy = PUBLIC_CLAN, clan_total_points = 0,
               clan_created_by = None, deleted_at = None, clan_created_at = now\<rparr>
      in if list_ex (\<lambda>x. clan_id x = k \<or> clan_alive x \<and> clan_name x = clan_item_name item) (clans s)
         then Inl (IntegrityError ''clan_name_unique_when_alive'')
         else Inr (c, reserve k (s\<lparr>clans := clans s @ [c]\<rparr>)))"

text \<open>
  The bodies of the three loops; each returns the row and whether it was created. \<open>get_or_create\<close>
  reads first and inserts when there is nothing; a lost race cannot happen in one process.
\<close>

definition load_category :: "(string \<Rightarrow> string \<Rightarrow> uuid) \<Rightarrow> category_item \<Rightarrow> db \<Rightarrow> ((action_category \<times> bool) \<times> db) res" where
  "load_category ref item s =
     (let k = ref ''category'' (cat_code item)
      in case qs_get (\<lambda>c. category_code c = cat_code item) (categories s) of
           Inr c \<Rightarrow> if category_id c \<noteq> k then Inl (CommandError ''Catalog category identity collision'')
                    else Inr ((c, False), s)
         | Inl DoesNotExist \<Rightarrow> map_sum id (\<lambda>(c, s1). ((c, True), s1)) (category_insert s k item)
         | Inl e \<Rightarrow> Inl e)"

definition load_action ::
  "(string \<Rightarrow> string \<Rightarrow> uuid) \<Rightarrow> (string \<rightharpoonup> action_category) \<Rightarrow> action_item \<Rightarrow> db \<Rightarrow> ((action_master \<times> bool) \<times> db) res" where
  "load_action ref table item s =
     (let k = ref ''action'' (act_code item)
      in case table (act_category_code item) of
           None \<Rightarrow> Inl (RuntimeError ''KeyError'')
         | Some category \<Rightarrow>
      (case qs_get (\<lambda>a. action_code a = act_code item) (actions s) of
           Inr a \<Rightarrow> if action_id a \<noteq> k then Inl (CommandError ''Catalog action identity collision'')
                    else Inr ((a, False), s)
         | Inl DoesNotExist \<Rightarrow> map_sum id (\<lambda>(a, s1). ((a, True), s1)) (action_insert s k (category_id category) item)
         | Inl e \<Rightarrow> Inl e))"

definition name_taken :: "db \<Rightarrow> string \<Rightarrow> uuid \<Rightarrow> bool" where
  "name_taken s nm k = list_ex (\<lambda>c. clan_name c = nm \<and> clan_id c \<noteq> k) (clans s)"

definition load_clan ::
  "(string \<Rightarrow> string \<Rightarrow> uuid) \<Rightarrow> datetime \<Rightarrow> clan_item \<Rightarrow> db \<Rightarrow> ((clan \<times> bool) \<times> db) res" where
  "load_clan ref now item s =
     (let k = ref ''institutional-clan'' (clan_key item)
      in if name_taken s (clan_item_name item) k then Inl (CommandError ''Catalog clan name collision'')
         else case qs_get (\<lambda>c. clan_id c = k) (clans s) of
           Inr c \<Rightarrow> if deleted_at c \<noteq> None \<or> clan_type c \<noteq> INSTITUTIONAL \<or> privacy c \<noteq> PUBLIC_CLAN
                    then Inl (CommandError ''Catalog clan identity collision'') else Inr ((c, False), s)
         | Inl DoesNotExist \<Rightarrow> map_sum id (\<lambda>(c, s1). ((c, True), s1)) (clan_insert s now k item)
         | Inl e \<Rightarrow> Inl e)"

definition created_rows :: "('r \<times> bool) list \<Rightarrow> nat" where
  "created_rows rs = length (filter snd rs)"

definition load_catalog_data ::
  "(string \<Rightarrow> string \<Rightarrow> uuid) \<Rightarrow> datetime \<Rightarrow> catalog_data \<Rightarrow> db \<Rightarrow> ((nat \<times> nat) \<times> db) res" where
  "load_catalog_data ref now cat s =
     res_bind (for_each (load_category ref) (catalog_categories cat) s) (\<lambda>(cs, s1).
     let table = map_of (rev (zip (map cat_code (catalog_categories cat)) (map fst cs)))
     in res_bind (for_each (load_action ref table) (catalog_actions cat) s1) (\<lambda>(acts, s2).
     res_bind (for_each (load_clan ref now) (catalog_clans cat) s2) (\<lambda>(cls, s3).
       let created = created_rows cs + created_rows acts + created_rows cls
       in Inr ((created, length cs + length acts + length cls - created), s3))))"

section \<open>The commands\<close>

text \<open>
  What the commands read of the process: \<open>tls\<close> is \<^const>\<open>None\<close> when the connection fails and
  otherwise what libpq says of the encryption.
\<close>

record command_env =
  env_deployed :: bool
  env_django :: string
  env_connection_role :: string
  env_host :: string
  env_user :: string
  env_sslmode :: string
  env_tls :: "bool option option"
  env_pin :: "string \<Rightarrow> string"

definition require_connection_tls :: "command_env \<Rightarrow> bool \<Rightarrow> unit res" where
  "require_connection_tls env encrypted =
     (case env_tls env of
        None \<Rightarrow> Inl (CommandError ''Cannot verify the connection'')
      | Some state \<Rightarrow> if state \<noteq> Some encrypted then Inl (CommandError ''The connection does not match the TLS policy'')
                      else Inr ())"

definition ensure_local_database :: "command_env \<Rightarrow> unit res" where
  "ensure_local_database env =
     (if py_lower (env_host env) \<notin> {''127.0.0.1'', ''localhost'', ''::1'', ''db''}
      then Inl (CommandError ''The DRAFT catalog requires a local PostgreSQL host'')
      else require_connection_tls env False)"

definition load_catalog_command ::
  "(string \<Rightarrow> bool option) \<Rightarrow> (string \<Rightarrow> string \<Rightarrow> uuid) \<Rightarrow> command_env \<Rightarrow> datetime \<Rightarrow> json option \<Rightarrow> db \<Rightarrow> ((nat \<times> nat) \<times> db) res" where
  "load_catalog_command aware ref env now raw s =
     res_bind (load_catalog_content aware ''DRAFT'' raw) (\<lambda>cat.
       if env_deployed env then Inl (CommandError ''A DRAFT catalog is local-only'')
       else res_bind (ensure_local_database env) (\<lambda>_. load_catalog_data ref now cat s))"

definition neon_host :: "string \<Rightarrow> string" where
  "neon_host environment =
     (if environment = ''dev'' then ''ep-lively-brook-ax4n0pys-pooler.c-4.us-east-2.aws.neon.tech''
      else if environment = ''staging'' then ''ep-withered-cake-axk8vlfi-pooler.c-4.us-east-2.aws.neon.tech''
      else ''ep-old-salad-axvsz82z-pooler.c-4.us-east-2.aws.neon.tech'')"

definition ensure_release_target :: "command_env \<Rightarrow> string \<Rightarrow> unit res" where
  "ensure_release_target env environment =
     (if env_django env \<noteq> environment \<or> \<not> env_deployed env then Inl (CommandError ''matching DJANGO_ENV'')
      else if env_connection_role env \<noteq> ''app'' then Inl (CommandError ''pooled app connection role'')
      else if py_lower (env_host env) \<noteq> neon_host environment then Inl (CommandError ''canonical Neon branch'')
      else if env_user env \<noteq> ''greeniteso_'' @ environment @ ''_app'' then Inl (CommandError ''database role'')
      else if env_sslmode env \<noteq> ''verify-full'' then Inl (CommandError ''sslmode=verify-full'')
      else Inr ())"

definition load_approved_catalog ::
  "(string \<Rightarrow> bool option) \<Rightarrow> (string \<Rightarrow> string) \<Rightarrow> (string \<Rightarrow> json option) \<Rightarrow> command_env \<Rightarrow> string \<Rightarrow> string option \<Rightarrow> catalog_data res" where
  "load_approved_catalog aware sha256 parse env environment file =
     (let expected = py_lower (py_strip (env_pin env environment))
      in if length expected \<noteq> 64 \<or> \<not> list_all (\<lambda>c. c \<in> set ''0123456789abcdef'') expected
         then Inl (CommandError ''must contain the approved fixture SHA-256'')
         else case file of
           None \<Rightarrow> Inl (CommandError ''Could not read canonical approved catalog'')
         | Some bytes \<Rightarrow>
             if sha256 bytes \<noteq> expected then Inl (CommandError ''does not match its approved SHA-256'')
             else load_catalog_content aware ''APPROVED'' (parse bytes))"

fun check_each :: "('a \<Rightarrow> unit res) \<Rightarrow> 'a list \<Rightarrow> unit res" where
  "check_each body [] = Inr ()"
| "check_each body (x # xs) = res_bind (body x) (\<lambda>_. check_each body xs)"

definition drift_category :: "(string \<Rightarrow> string \<Rightarrow> uuid) \<Rightarrow> db \<Rightarrow> category_item \<Rightarrow> unit res" where
  "drift_category ref s item =
     (let k = ref ''category'' (cat_code item)
      in case qs_first category_id (filter (\<lambda>c. category_code c = cat_code item) (categories s)) of
           Some row \<Rightarrow>
             require (category_id row = k \<and>
               (category_name row, category_description row, category_icon row) = (cat_name item, cat_description item, cat_icon item))
               (CommandError ''Approved catalog category differs from fixture'')
         | None \<Rightarrow> require (\<not> list_ex (\<lambda>c. category_id c = k) (categories s))
               (CommandError ''Approved catalog category identity collision''))"

definition action_matches :: "db \<Rightarrow> action_master \<Rightarrow> action_item \<Rightarrow> bool" where
  "action_matches s row item \<longleftrightarrow>
     action_name row = act_name item \<and> action_description row = act_description item \<and> points row = act_points item \<and>
     int (daily_limit row) = act_daily_limit item \<and> validation_type row = act_validation_type item \<and>
     co2_kg_factor row = act_co2_kg_factor item \<and> water_liters_factor row = act_water_liters_factor item \<and>
     plastic_kg_factor row = act_plastic_kg_factor item \<and> action_is_active row = act_is_active item \<and>
     map_option category_code (find (\<lambda>c. category_id c = action_category_id row) (categories s)) = Some (act_category_code item)"

definition drift_action :: "(string \<Rightarrow> string \<Rightarrow> uuid) \<Rightarrow> db \<Rightarrow> action_item \<Rightarrow> unit res" where
  "drift_action ref s item =
     (let k = ref ''action'' (act_code item)
      in case qs_first action_id (filter (\<lambda>a. action_code a = act_code item) (actions s)) of
           Some row \<Rightarrow>
             require (action_id row = k \<and> action_matches s row item)
               (CommandError ''Approved catalog action differs from fixture'')
         | None \<Rightarrow> require (\<not> list_ex (\<lambda>a. action_id a = k) (actions s))
               (CommandError ''Approved catalog action identity collision''))"

definition clan_matches :: "clan \<Rightarrow> clan_item \<Rightarrow> bool" where
  "clan_matches row item \<longleftrightarrow> deleted_at row = None \<and> clan_name row = clan_item_name item \<and>
     clan_description row = clan_description_of item \<and> clan_type row = INSTITUTIONAL \<and> privacy row = PUBLIC_CLAN"

definition drift_clan :: "(string \<Rightarrow> string \<Rightarrow> uuid) \<Rightarrow> db \<Rightarrow> clan_item \<Rightarrow> unit res" where
  "drift_clan ref s item =
     (let k = ref ''institutional-clan'' (clan_key item)
      in res_bind (case qs_first clan_id (filter (\<lambda>c. clan_id c = k) (clans s)) of
                     None \<Rightarrow> Inr ()
                   | Some row \<Rightarrow> require (clan_matches row item) (CommandError ''Approved catalog clan differs from fixture'')) (\<lambda>_.
         require (\<not> name_taken s (clan_item_name item) k) (CommandError ''Approved catalog clan identity collision'')))"

definition reject_existing_drift :: "(string \<Rightarrow> string \<Rightarrow> uuid) \<Rightarrow> catalog_data \<Rightarrow> db \<Rightarrow> unit res" where
  "reject_existing_drift ref cat s =
     res_bind (check_each (drift_category ref s) (catalog_categories cat)) (\<lambda>_.
     res_bind (check_each (drift_action ref s) (catalog_actions cat)) (\<lambda>_.
       check_each (drift_clan ref s) (catalog_clans cat)))"

definition release_rows ::
  "(string \<Rightarrow> string \<Rightarrow> uuid) \<Rightarrow> datetime \<Rightarrow> catalog_data \<Rightarrow> db \<Rightarrow> ((nat \<times> nat) \<times> db) res" where
  "release_rows ref now cat s =
     res_bind (reject_existing_drift ref cat s) (\<lambda>_.
     res_bind (load_catalog_data ref now cat s) (\<lambda>(counts, s1).
     res_bind (reject_existing_drift ref cat s1) (\<lambda>_. Inr (counts, s1))))"

definition release_catalog_command ::
  "(string \<Rightarrow> bool option) \<Rightarrow> (string \<Rightarrow> string) \<Rightarrow> (string \<Rightarrow> json option) \<Rightarrow> (string \<Rightarrow> string \<Rightarrow> uuid) \<Rightarrow> command_env \<Rightarrow>
   datetime \<Rightarrow> string \<Rightarrow> string option \<Rightarrow> db \<Rightarrow> ((nat \<times> nat) \<times> db) res" where
  "release_catalog_command aware sha256 parse ref env now environment file s =
     res_bind (ensure_release_target env environment) (\<lambda>_.
     res_bind (load_approved_catalog aware sha256 parse env environment file) (\<lambda>cat.
     res_bind (require_connection_tls env True) (\<lambda>_. release_rows ref now cat s)))"

end
