(* ===== verification/Catalog_Rules.thy ===== *)
theory Catalog_Rules
  imports Catalog
begin

text \<open>
  What an import of the catalog does to the database. The three loops of \<open>load_catalog_data\<close> share
  one contract, the locale \<open>reference_import\<close>: a step finds a row or appends one, and an item that
  was loaded once is found from then on. From it follow that an import appends only, that a second
  one changes nothing, and that the recheck of a release succeeds.
\<close>

section \<open>Loading rows that stay\<close>

locale reference_import =
  fixes body :: "'i \<Rightarrow> db \<Rightarrow> (('r \<times> bool) \<times> db) res" and rows :: "db \<Rightarrow> 'r list"
    and put :: "'r list \<Rightarrow> uuid \<Rightarrow> db \<Rightarrow> db" and made :: "'i \<Rightarrow> 'r \<Rightarrow> bool"
    and settled :: "'i \<Rightarrow> 'r list \<Rightarrow> bool" and compat :: "'i \<Rightarrow> 'i \<Rightarrow> bool"
  assumes put_laws: "rows (put xs n s) = xs" "put xs n (put ys m s) = put xs n s" "put (rows s) (next_id s) s = s"
    and found_or_made: "body i s = Inr ((r, b), s') \<Longrightarrow>
      \<not> b \<and> s' = s \<or> b \<and> made i r \<and> s' = put (rows s @ [r]) (next_id s') s"
    and settles: "body i s = Inr ((r, b), s') \<Longrightarrow> settled i (rows s')"
    and settled_body: "settled i (rows s) \<Longrightarrow> \<exists>r. body i s = Inr ((r, False), s)"
    and settled_stays: "settled i (rows s) \<Longrightarrow> compat i j \<Longrightarrow> body j s = Inr ((r, b), s') \<Longrightarrow> settled i (rows s')"
begin

lemma loop_appends:
  "for_each body is s = Inr (rs, s') \<Longrightarrow>
   \<exists>new. s' = put (rows s @ new) (next_id s') s \<and> length new = created_rows rs \<and> (\<forall>r \<in> set new. \<exists>i \<in> set is. made i r)"
proof (induction "is" arbitrary: s rs)
  case Nil
  then show ?case by (intro exI [of _ "[]"]) (simp add: put_laws created_rows_def)
next
  case (Cons i "is")
  then obtain r b s1 rs' where b: "body i s = Inr ((r, b), s1)" "for_each body is s1 = Inr (rs', s')" and rs: "rs = (r, b) # rs'"
    by (auto elim!: res_bind_InrE)
  obtain new where n: "s' = put (rows s1 @ new) (next_id s') s1" "length new = created_rows rs'"
    "\<forall>r \<in> set new. \<exists>i \<in> set is. made i r" using Cons.IH [OF b(2)] by blast
  consider "\<not> b" "s1 = s" | "b" "made i r" "s1 = put (rows s @ [r]) (next_id s1) s" using found_or_made [OF b(1)] by blast
  then show ?case
  proof cases
    case 1
    with n show ?thesis by (intro exI [of _ new]) (auto simp: rs created_rows_def)
  next
    case 2
    have "rows s1 = rows s @ [r]" using put_laws(1) 2(3) by metis
    then have "s' = put (rows s @ r # new) (next_id s') s" using n(1) 2(3) put_laws(2) by (metis append.assoc append_Cons append_Nil)
    with n(2,3) 2(1,2) show ?thesis by (intro exI [of _ "r # new"]) (auto simp: rs created_rows_def)
  qed
qed

lemma loop_keeps:
  "for_each body is s = Inr (rs, s') \<Longrightarrow> settled i (rows s) \<Longrightarrow> \<forall>j \<in> set is. compat i j \<Longrightarrow> settled i (rows s')"
  using for_each_inv [of body "is" s rs s' "\<lambda>t. settled i (rows t)"] settled_stays by (metis surj_pair)

lemma loop_settles:
  "for_each body is s = Inr (rs, s') \<Longrightarrow> \<forall>i \<in> set is. \<forall>j \<in> set is. compat i j \<Longrightarrow> \<forall>i \<in> set is. settled i (rows s')"
proof (induction "is" arbitrary: s rs)
  case (Cons i "is")
  then obtain r b s1 rs' where b: "body i s = Inr ((r, b), s1)" "for_each body is s1 = Inr (rs', s')"
    by (auto elim!: res_bind_InrE)
  have "settled i (rows s')" by (rule loop_keeps [OF b(2) settles [OF b(1)]]) (use Cons.prems(2) in auto)
  with Cons.IH [OF b(2)] Cons.prems(2) show ?case by auto
qed simp

lemma loop_again:
  "\<forall>i \<in> set is. settled i (rows s) \<Longrightarrow> \<exists>rs. for_each body is s = Inr (rs, s) \<and> created_rows rs = 0 \<and> length rs = length is"
proof (induction "is")
  case (Cons i "is")
  then obtain rs r where "for_each body is s = Inr (rs, s)" "created_rows rs = 0" "length rs = length is" "body i s = Inr ((r, False), s)"
    using settled_body [of i s] by auto
  then show ?case by (intro exI [of _ "(r, False) # rs"]) (simp add: created_rows_def)
qed (simp add: created_rows_def)

end

text \<open>The unique row a query finds.\<close>

definition holds_one :: "('r \<Rightarrow> bool) \<Rightarrow> ('r \<Rightarrow> bool) \<Rightarrow> 'r list \<Rightarrow> bool" where
  "holds_one P Q rows \<longleftrightarrow> (\<exists>r. filter P rows = [r] \<and> Q r)"

lemma qs_get_filter: "qs_get P rows = Inr r \<longleftrightarrow> filter P rows = [r]"
  by (auto simp: qs_get_def split: list.splits)

lemma qs_get_none: "qs_get P rows = Inl DoesNotExist \<longleftrightarrow> filter P rows = []"
  by (auto simp: qs_get_def split: list.splits)

lemma holds_one_snoc: "holds_one P Q rows \<Longrightarrow> \<not> P r \<Longrightarrow> holds_one P Q (rows @ [r])"
  by (auto simp: holds_one_def)

definition category_made :: "(string \<Rightarrow> string \<Rightarrow> uuid) \<Rightarrow> category_item \<Rightarrow> action_category \<Rightarrow> bool" where
  "category_made ref i c \<longleftrightarrow> c = \<lparr>category_id = ref ''category'' (cat_code i), category_code = cat_code i, category_name = cat_name i,
     category_description = cat_description i, category_icon = cat_icon i\<rparr>"

definition category_settled :: "(string \<Rightarrow> string \<Rightarrow> uuid) \<Rightarrow> category_item \<Rightarrow> action_category list \<Rightarrow> bool" where
  "category_settled ref i = holds_one (\<lambda>c. category_code c = cat_code i) (\<lambda>c. category_id c = ref ''category'' (cat_code i))"

lemma load_category_cases:
  assumes "load_category ref i s = Inr ((c, b), s')"
  obtains (found) "\<not> b" "s' = s" "filter (\<lambda>c. category_code c = cat_code i) (categories s) = [c]" "category_id c = ref ''category'' (cat_code i)"
  | (made) "b" "category_made ref i c" "filter (\<lambda>c. category_code c = cat_code i) (categories s) = []"
    "\<forall>x \<in> set (categories s). category_id x \<noteq> category_id c"
    "s' = s\<lparr>categories := categories s @ [c], next_id := next_id s'\<rparr>" "categories s' = categories s @ [c]"
proof (cases "qs_get (\<lambda>c. category_code c = cat_code i) (categories s)")
  case (Inr x)
  with assms found show ?thesis
    by (auto simp: load_category_def Let_def qs_get_filter split: if_splits)
next
  case (Inl e)
  then show ?thesis
  proof (cases "e = DoesNotExist")
    case True
    with assms Inl made show ?thesis
      by (auto simp: load_category_def Let_def qs_get_none category_insert_def reserve_def category_made_def list_ex_iff split: if_splits)
  next
    case False
    with assms Inl show ?thesis by (cases e) (simp_all add: load_category_def)
  qed
qed

interpretation category_import: reference_import "load_category ref" categories
    "\<lambda>xs n s. s\<lparr>categories := xs, next_id := n\<rparr>" "category_made ref" "category_settled ref" "\<lambda>_ _. True" for ref
proof unfold_locales
  fix i s r b s' assume l: "load_category ref i s = Inr ((r, b), s')"
  show "\<not> b \<and> s' = s \<or> b \<and> category_made ref i r \<and> s' = s\<lparr>categories := categories s @ [r], next_id := next_id s'\<rparr>"
    using l by (cases rule: load_category_cases) auto
  show "category_settled ref i (categories s')"
    using l by (cases rule: load_category_cases) (auto simp: category_settled_def holds_one_def category_made_def)
  show "category_settled ref j (categories s')" if "category_settled ref j (categories s)" for j
    using l
  proof (cases rule: load_category_cases)
    case made
    have "category_code r \<noteq> cat_code j"
      using that made(2,3) by (auto simp: category_settled_def holds_one_def category_made_def)
    then show ?thesis using that made(6) by (simp add: category_settled_def holds_one_snoc)
  qed (use that in simp)
next
  fix i and s :: db assume "category_settled ref i (categories s)"
  then show "\<exists>r. load_category ref i s = Inr ((r, False), s)"
    by (auto simp: category_settled_def holds_one_def load_category_def qs_get_filter [symmetric])
qed simp_all

definition action_made ::
  "(string \<Rightarrow> string \<Rightarrow> uuid) \<Rightarrow> (string \<rightharpoonup> action_category) \<Rightarrow> action_item \<Rightarrow> action_master \<Rightarrow> bool" where
  "action_made ref table i a \<longleftrightarrow> (\<exists>c. table (act_category_code i) = Some c \<and>
     a = \<lparr>action_id = ref ''action'' (act_code i), action_code = act_code i, action_category_id = category_id c, action_name = act_name i,
       action_description = act_description i, points = act_points i, daily_limit = nat (act_daily_limit i),
       validation_type = act_validation_type i, co2_kg_factor = act_co2_kg_factor i,
       water_liters_factor = act_water_liters_factor i, plastic_kg_factor = act_plastic_kg_factor i,
       action_is_active = act_is_active i\<rparr>)"

definition action_settled ::
  "(string \<Rightarrow> string \<Rightarrow> uuid) \<Rightarrow> (string \<rightharpoonup> action_category) \<Rightarrow> action_item \<Rightarrow> action_master list \<Rightarrow> bool" where
  "action_settled ref table i rows \<longleftrightarrow> act_category_code i \<in> dom table \<and>
     holds_one (\<lambda>a. action_code a = act_code i) (\<lambda>a. action_id a = ref ''action'' (act_code i)) rows"

lemma load_action_cases:
  assumes "load_action ref table i s = Inr ((a, b), s')"
  obtains (found) "\<not> b" "s' = s" "act_category_code i \<in> dom table" "filter (\<lambda>a. action_code a = act_code i) (actions s) = [a]"
    "action_id a = ref ''action'' (act_code i)"
  | (made) "b" "action_made ref table i a" "filter (\<lambda>a. action_code a = act_code i) (actions s) = []"
    "s' = s\<lparr>actions := actions s @ [a], next_id := next_id s'\<rparr>" "actions s' = actions s @ [a]"
proof -
  obtain c where c: "table (act_category_code i) = Some c" using assms by (auto simp: load_action_def Let_def split: option.splits)
  show ?thesis
  proof (cases "qs_get (\<lambda>a. action_code a = act_code i) (actions s)")
    case (Inr x)
    with assms found c show ?thesis by (auto simp: load_action_def Let_def qs_get_filter split: if_splits)
  next
    case (Inl e)
    then show ?thesis
    proof (cases "e = DoesNotExist")
      case True
      with assms Inl made c show ?thesis
        by (auto simp: load_action_def Let_def qs_get_none action_insert_def reserve_def action_made_def split: if_splits)
    next
      case False
      with assms Inl c show ?thesis by (cases e) (simp_all add: load_action_def)
    qed
  qed
qed

interpretation action_import: reference_import "load_action ref table" actions
    "\<lambda>xs n s. s\<lparr>actions := xs, next_id := n\<rparr>" "action_made ref table" "action_settled ref table" "\<lambda>_ _. True" for ref table
proof unfold_locales
  fix i s r b s' assume l: "load_action ref table i s = Inr ((r, b), s')"
  show "\<not> b \<and> s' = s \<or> b \<and> action_made ref table i r \<and> s' = s\<lparr>actions := actions s @ [r], next_id := next_id s'\<rparr>"
    using l by (cases rule: load_action_cases) auto
  show "action_settled ref table i (actions s')"
    using l by (cases rule: load_action_cases) (auto simp: action_settled_def holds_one_def action_made_def)
  show "action_settled ref table j (actions s')" if "action_settled ref table j (actions s)" for j
    using l
  proof (cases rule: load_action_cases)
    case made
    have "action_code r \<noteq> act_code j"
      using that made(2,3) by (auto simp: action_settled_def holds_one_def action_made_def)
    then show ?thesis using that made(5) by (simp add: action_settled_def holds_one_snoc)
  qed (use that in simp)
next
  fix i and s :: db assume "action_settled ref table i (actions s)"
  then show "\<exists>r. load_action ref table i s = Inr ((r, False), s)"
    by (auto simp: action_settled_def holds_one_def load_action_def qs_get_filter [symmetric])
qed simp_all

abbreviation clan_ref :: "(string \<Rightarrow> string \<Rightarrow> uuid) \<Rightarrow> clan_item \<Rightarrow> uuid" where
  "clan_ref ref i \<equiv> ref ''institutional-clan'' (clan_key i)"

definition clan_made :: "(string \<Rightarrow> string \<Rightarrow> uuid) \<Rightarrow> clan_item \<Rightarrow> clan \<Rightarrow> bool" where
  "clan_made ref i c \<longleftrightarrow> clan_id c = clan_ref ref i \<and> clan_matches c i"

definition clan_settled :: "(string \<Rightarrow> string \<Rightarrow> uuid) \<Rightarrow> clan_item \<Rightarrow> clan list \<Rightarrow> bool" where
  "clan_settled ref i rows \<longleftrightarrow>
     holds_one (\<lambda>c. clan_id c = clan_ref ref i) (\<lambda>c. deleted_at c = None \<and> clan_type c = INSTITUTIONAL \<and> privacy c = PUBLIC_CLAN) rows \<and>
     (\<forall>c \<in> set rows. clan_name c = clan_item_name i \<longrightarrow> clan_id c = clan_ref ref i)"

definition clan_compat :: "(string \<Rightarrow> string \<Rightarrow> uuid) \<Rightarrow> clan_item \<Rightarrow> clan_item \<Rightarrow> bool" where
  "clan_compat ref i j \<longleftrightarrow> (clan_item_name j = clan_item_name i \<longrightarrow> clan_ref ref j = clan_ref ref i)"

lemma load_clan_cases:
  assumes "load_clan ref now i s = Inr ((c, b), s')"
  obtains (found) "\<not> b" "s' = s" "clan_settled ref i (clans s)"
  | (made) "b" "clan_made ref i c" "filter (\<lambda>c. clan_id c = clan_ref ref i) (clans s) = []"
    "\<forall>x \<in> set (clans s). clan_name x = clan_item_name i \<longrightarrow> clan_id x = clan_ref ref i"
    "s' = s\<lparr>clans := clans s @ [c], next_id := next_id s'\<rparr>" "clans s' = clans s @ [c]"
proof -
  have n: "\<forall>x \<in> set (clans s). clan_name x = clan_item_name i \<longrightarrow> clan_id x = clan_ref ref i"
    using assms by (auto simp: load_clan_def Let_def name_taken_def list_ex_iff split: if_splits)
  then have nt: "\<not> name_taken s (clan_item_name i) (clan_ref ref i)" by (auto simp: name_taken_def list_ex_iff)
  show ?thesis
  proof (cases "qs_get (\<lambda>c. clan_id c = clan_ref ref i) (clans s)")
    case (Inr x)
    with assms found n nt show ?thesis
      by (auto simp: load_clan_def Let_def qs_get_filter clan_settled_def holds_one_def split: if_splits)
  next
    case (Inl e)
    then show ?thesis
    proof (cases "e = DoesNotExist")
      case True
      with assms Inl made n nt show ?thesis
        by (auto simp: load_clan_def Let_def qs_get_none clan_insert_def reserve_def clan_made_def clan_matches_def split: if_splits)
    next
      case False
      with assms Inl nt show ?thesis by (cases e) (simp_all add: load_clan_def)
    qed
  qed
qed

interpretation clan_import: reference_import "load_clan ref now" clans
    "\<lambda>xs n s. s\<lparr>clans := xs, next_id := n\<rparr>" "clan_made ref" "clan_settled ref" "clan_compat ref" for ref now
proof unfold_locales
  fix i s r b s' assume l: "load_clan ref now i s = Inr ((r, b), s')"
  show "\<not> b \<and> s' = s \<or> b \<and> clan_made ref i r \<and> s' = s\<lparr>clans := clans s @ [r], next_id := next_id s'\<rparr>"
    using l by (cases rule: load_clan_cases) auto
  show "clan_settled ref i (clans s')"
    using l by (cases rule: load_clan_cases) (auto simp: clan_settled_def holds_one_def clan_made_def clan_matches_def)
  show "clan_settled ref j (clans s')" if "clan_settled ref j (clans s)" "clan_compat ref j i" for j
    using l
  proof (cases rule: load_clan_cases)
    case made
    have "clan_id r \<noteq> clan_ref ref j"
      using that(1) made(2,3) by (auto simp: clan_settled_def holds_one_def clan_made_def)
    then show ?thesis
      using that made(2,6) by (auto simp: clan_settled_def clan_compat_def clan_made_def clan_matches_def intro: holds_one_snoc)
  qed (use that in simp)
next
  fix i and s :: db assume "clan_settled ref i (clans s)"
  then show "\<exists>r. load_clan ref now i s = Inr ((r, False), s)"
    by (auto simp: clan_settled_def holds_one_def load_clan_def Let_def name_taken_def list_ex_iff qs_get_filter [symmetric])
qed simp_all

section \<open>Importing twice\<close>

lemma dom_table: "length rs = length is \<Longrightarrow> dom (map_of (rev (zip (map f is) rs))) = f ` set is"
  by (simp add: dom_map_of_conv_image_fst image_set [symmetric] del: image_set) (metis length_map map_fst_zip set_map)

lemma load_catalog_data_InrE:
  assumes "load_catalog_data ref now cat s = Inr ((n, k), s')"
  obtains cs s1 acts s2 cls table where "for_each (load_category ref) (catalog_categories cat) s = Inr (cs, s1)"
    "table = map_of (rev (zip (map cat_code (catalog_categories cat)) (map fst cs)))"
    "for_each (load_action ref table) (catalog_actions cat) s1 = Inr (acts, s2)"
    "for_each (load_clan ref now) (catalog_clans cat) s2 = Inr (cls, s')"
    "n = created_rows cs + created_rows acts + created_rows cls" "k = length cs + length acts + length cls - n"
  using assms by (auto simp: load_catalog_data_def Let_def elim!: res_bind_InrE split: prod.splits)

definition catalog_settled :: "(string \<Rightarrow> string \<Rightarrow> uuid) \<Rightarrow> catalog_data \<Rightarrow> db \<Rightarrow> bool" where
  "catalog_settled ref cat s \<longleftrightarrow> (\<forall>i \<in> set (catalog_categories cat). category_settled ref i (categories s)) \<and>
     (\<forall>i \<in> set (catalog_actions cat). act_category_code i \<in> cat_code ` set (catalog_categories cat) \<and>
       holds_one (\<lambda>a. action_code a = act_code i) (\<lambda>a. action_id a = ref ''action'' (act_code i)) (actions s)) \<and>
     (\<forall>i \<in> set (catalog_clans cat). clan_settled ref i (clans s))"

definition catalog_size :: "catalog_data \<Rightarrow> nat" where
  "catalog_size cat = length (catalog_categories cat) + length (catalog_actions cat) + length (catalog_clans cat)"

lemma load_settled:
  assumes "catalog_settled ref cat s"
  shows "load_catalog_data ref now cat s = Inr ((0, catalog_size cat), s)"
proof -
  obtain cs where cs: "for_each (load_category ref) (catalog_categories cat) s = Inr (cs, s)" "created_rows cs = 0"
    "length cs = length (catalog_categories cat)"
    using category_import.loop_again [of "catalog_categories cat" ref s] assms by (auto simp: catalog_settled_def)
  let ?table = "map_of (rev (zip (map cat_code (catalog_categories cat)) (map fst cs)))"
  have "\<forall>i \<in> set (catalog_actions cat). action_settled ref ?table i (actions s)"
    using assms cs(3) unfolding catalog_settled_def action_settled_def by (simp add: dom_table)
  then obtain acts where acts: "for_each (load_action ref ?table) (catalog_actions cat) s = Inr (acts, s)" "created_rows acts = 0"
    "length acts = length (catalog_actions cat)" using action_import.loop_again by blast
  obtain cls where cls: "for_each (load_clan ref now) (catalog_clans cat) s = Inr (cls, s)" "created_rows cls = 0"
    "length cls = length (catalog_clans cat)"
    using clan_import.loop_again [of "catalog_clans cat" ref s now] assms by (auto simp: catalog_settled_def)
  show ?thesis by (simp add: load_catalog_data_def Let_def cs acts cls catalog_size_def)
qed

lemma load_settles:
  assumes "load_catalog_data ref now cat s = Inr ((n, k), s')" "\<forall>i \<in> set (catalog_clans cat). \<forall>j \<in> set (catalog_clans cat). clan_compat ref i j"
  shows "catalog_settled ref cat s'" "n + k = catalog_size cat"
    "\<exists>cs acts cls m. s' = s\<lparr>categories := categories s @ cs, actions := actions s @ acts, clans := clans s @ cls, next_id := m\<rparr> \<and>
       length cs + length acts + length cls = n"
proof -
  obtain cs s1 acts s2 cls table where 1: "for_each (load_category ref) (catalog_categories cat) s = Inr (cs, s1)"
    "table = map_of (rev (zip (map cat_code (catalog_categories cat)) (map fst cs)))"
    "for_each (load_action ref table) (catalog_actions cat) s1 = Inr (acts, s2)"
    "for_each (load_clan ref now) (catalog_clans cat) s2 = Inr (cls, s')"
    "n = created_rows cs + created_rows acts + created_rows cls" "k = length cs + length acts + length cls - n"
    using assms(1) by (rule load_catalog_data_InrE)
  have len: "length cs = length (catalog_categories cat)" "length acts = length (catalog_actions cat)" "length cls = length (catalog_clans cat)"
    using 1 by (auto dest: for_each_length)
  obtain nc where nc: "s1 = s\<lparr>categories := categories s @ nc, next_id := next_id s1\<rparr>" "length nc = created_rows cs"
    using category_import.loop_appends [OF 1(1)] by blast
  obtain na where na: "s2 = s1\<lparr>actions := actions s1 @ na, next_id := next_id s2\<rparr>" "length na = created_rows acts"
    using action_import.loop_appends [OF 1(3)] by blast
  obtain nl where nl: "s' = s2\<lparr>clans := clans s2 @ nl, next_id := next_id s'\<rparr>" "length nl = created_rows cls"
    using clan_import.loop_appends [OF 1(4)] by blast
  obtain m1 where m1: "s1 = s\<lparr>categories := categories s @ nc, next_id := m1\<rparr>" using nc(1) by metis
  obtain m2 where m2: "s2 = s1\<lparr>actions := actions s1 @ na, next_id := m2\<rparr>" using na(1) by metis
  obtain m3 where m3: "s' = s2\<lparr>clans := clans s2 @ nl, next_id := m3\<rparr>" using nl(1) by metis
  have rows: "categories s' = categories s1" "actions s' = actions s2" by (simp_all add: m3 m2)
  have dom: "dom table = cat_code ` set (catalog_categories cat)" using 1(2) len(1) by (simp add: dom_table)
  show "catalog_settled ref cat s'"
    using category_import.loop_settles [OF 1(1)] action_import.loop_settles [OF 1(3)] clan_import.loop_settles [OF 1(4)] assms(2)
    unfolding catalog_settled_def rows by (auto simp: action_settled_def dom)
  have le: "created_rows rs \<le> length rs" for rs :: "('r \<times> bool) list" by (simp add: created_rows_def)
  show "n + k = catalog_size cat"
    using 1(5,6) len le [of cs] le [of acts] le [of cls] by (simp add: catalog_size_def)
  have "s' = s\<lparr>categories := categories s @ nc, actions := actions s @ na, clans := clans s @ nl, next_id := m3\<rparr>"
    by (simp add: m1 m2 m3)
  moreover have "length nc + length na + length nl = n" using 1(5) nc(2) na(2) nl(2) by simp
  ultimately show "\<exists>cs acts cls m. s' = s\<lparr>categories := categories s @ cs, actions := actions s @ acts, clans := clans s @ cls, next_id := m\<rparr> \<and>
       length cs + length acts + length cls = n" by blast
qed

lemma compat_distinct: "distinct (map clan_item_name is) \<Longrightarrow> \<forall>i \<in> set is. \<forall>j \<in> set is. clan_compat ref i j"
  by (auto simp: clan_compat_def distinct_map inj_on_def)


section \<open>A validated catalog\<close>

lemma length_py_strip: "length (py_strip v) \<le> length v"
  using length_dropWhile_le [of is_space "rev (dropWhile is_space v)"] length_dropWhile_le [of is_space v]
  by (simp add: py_strip_def)

lemma text_field_InrD: "text_field v field maximum = Inr w \<Longrightarrow> w \<noteq> [] \<and> length w \<le> maximum"
  by (cases v) (auto simp: not_less split: if_splits intro: le_trans [OF length_py_strip])

lemma optional_text_InrD: "optional_text v field maximum = Inr w \<Longrightarrow> length w \<le> maximum"
  by (cases v) (auto simp: not_less split: if_splits intro: le_trans [OF length_py_strip])

lemma code_field_InrD: "code_field v field = Inr w \<Longrightarrow> matches_code w"
  by (auto simp: code_field_def split: if_splits elim!: res_bind_InrE)

lemma positive_int_InrD: "positive_int v field = Inr n \<Longrightarrow> 0 < n"
  by (cases v) (auto split: if_splits)

lemma factor_field_InrD: "factor_field v field = Inr n \<Longrightarrow> 0 \<le> n \<and> n < 1000000000 * 1000"
  by (auto simp: factor_field_def split: option.splits py_decimal.splits if_splits)

definition category_item_ok :: "category_item \<Rightarrow> bool" where
  "category_item_ok i \<longleftrightarrow> matches_code (cat_code i) \<and> cat_name i \<noteq> [] \<and> length (cat_name i) \<le> 100 \<and> length (cat_icon i) \<le> 100"

definition action_item_ok :: "string set \<Rightarrow> action_item \<Rightarrow> bool" where
  "action_item_ok codes i \<longleftrightarrow> matches_code (act_code i) \<and> act_category_code i \<in> codes \<and> act_name i \<noteq> [] \<and> length (act_name i) \<le> 150 \<and>
     act_description i \<noteq> [] \<and> 0 < act_points i \<and> 0 < act_daily_limit i \<and>
     (\<forall>f \<in> {act_co2_kg_factor i, act_water_liters_factor i, act_plastic_kg_factor i}. 0 \<le> f \<and> f < 1000000000 * 1000)"

definition clan_item_ok :: "clan_item \<Rightarrow> bool" where
  "clan_item_ok i \<longleftrightarrow> matches_code (clan_key i) \<and> clan_item_name i \<noteq> [] \<and> length (clan_item_name i) \<le> 100 \<and>
     clan_item_career i \<noteq> [] \<and> length (clan_item_career i) \<le> 150"

lemma validate_category_InrD: "validate_category seen item = Inr i \<Longrightarrow> cat_code i \<notin> set seen \<and> category_item_ok i"
  by (auto simp: validate_category_def category_item_ok_def split: json.splits if_splits elim!: res_bind_InrE
      dest!: text_field_InrD optional_text_InrD code_field_InrD)

lemma validate_action_InrD:
  "validate_action codes seen item = Inr i \<Longrightarrow> act_code i \<notin> set seen \<and> action_item_ok (set codes) i"
  by (auto simp: validate_action_def action_item_ok_def split: json.splits if_splits option.splits elim!: res_bind_InrE
      dest!: text_field_InrD code_field_InrD positive_int_InrD factor_field_InrD)

lemma validate_clan_row_InrD: "validate_clan_row details seen item = Inr i \<Longrightarrow> clan_key i \<notin> set seen \<and> clan_item_ok i"
  by (auto simp: validate_clan_row_def clan_item_ok_def split: json.splits if_splits elim!: res_bind_InrE
      dest!: text_field_InrD code_field_InrD)

lemma validate_rows_InrD:
  assumes "\<And>seen item x. row seen item = Inr x \<Longrightarrow> code x \<notin> set seen \<and> P x" "validate_rows row code seen raw = Inr xs"
  shows "distinct (map code xs)" "\<forall>x \<in> set xs. code x \<notin> set seen \<and> P x"
proof -
  have "distinct (map code xs) \<and> (\<forall>x \<in> set xs. code x \<notin> set seen \<and> P x)"
    using assms(2)
  proof (induction raw arbitrary: seen xs)
    case (Cons item rest)
    then obtain y ys where y: "row seen item = Inr y" "validate_rows row code (code y # seen) rest = Inr ys" "xs = y # ys"
      by (auto elim!: res_bind_InrE)
    with Cons.IH [OF y(2)] assms(1) [OF y(1)] show ?case by (force simp: image_iff)
  qed simp
  then show "distinct (map code xs)" "\<forall>x \<in> set xs. code x \<notin> set seen \<and> P x" by simp_all
qed

lemma validate_catalog_InrD:
  assumes "validate_catalog aware st payload = Inr cat"
  shows "distinct (map cat_code (catalog_categories cat))" "distinct (map act_code (catalog_actions cat))"
    "distinct (map clan_key (catalog_clans cat))" "\<forall>i \<in> set (catalog_categories cat). category_item_ok i"
    "\<forall>i \<in> set (catalog_actions cat). action_item_ok (cat_code ` set (catalog_categories cat)) i"
    "\<forall>i \<in> set (catalog_clans cat). clan_item_ok i"
proof -
  obtain rc ra rl where c: "validate_rows validate_category cat_code [] rc = Inr (catalog_categories cat)"
    and a: "validate_rows (validate_action (map cat_code (catalog_categories cat))) act_code [] ra = Inr (catalog_actions cat)"
    and l: "validate_rows (validate_clan_row (st = ''APPROVED'')) clan_key [] rl = Inr (catalog_clans cat)"
    using assms by (auto simp: validate_catalog_def elim!: res_bind_InrE)
  note c = validate_rows_InrD [where row = validate_category and code = cat_code and P = category_item_ok, OF _ c]
    and a = validate_rows_InrD [where row = "validate_action (map cat_code (catalog_categories cat))" and code = act_code
      and P = "action_item_ok (set (map cat_code (catalog_categories cat)))", OF _ a]
    and l = validate_rows_InrD [where row = "validate_clan_row (st = ''APPROVED'')" and code = clan_key and P = clan_item_ok, OF _ l]
  show "distinct (map cat_code (catalog_categories cat))" "distinct (map act_code (catalog_actions cat))"
    "distinct (map clan_key (catalog_clans cat))" "\<forall>i \<in> set (catalog_categories cat). category_item_ok i"
    "\<forall>i \<in> set (catalog_actions cat). action_item_ok (cat_code ` set (catalog_categories cat)) i"
    "\<forall>i \<in> set (catalog_clans cat). clan_item_ok i"
    using c [OF validate_category_InrD] a [OF validate_action_InrD] l [OF validate_clan_row_InrD] by simp_all
qed

lemma for_each_InlD: "for_each body xs s = Inl e \<Longrightarrow> \<exists>x \<in> set xs. \<exists>t. body x t = Inl e"
proof (induction xs arbitrary: s)
  case (Cons x xs)
  then show ?case by (cases "body x s") (fastforce simp: res_bind_def split: sum.splits)+
qed simp

definition expected_error :: "catalog_data \<Rightarrow> exc \<Rightarrow> bool" where
  "expected_error cat e \<longleftrightarrow> (\<exists>m. e = CommandError m \<or> e = IntegrityError m) \<or> e = MultipleObjectsReturned \<or>
     (e = DataError ''actions_action_master'' \<and>
      (\<exists>i \<in> set (catalog_actions cat). act_points i > 2147483647 \<or> act_daily_limit i > 2147483647))"

lemma load_category_error: "load_category ref i s = Inl e \<Longrightarrow> expected_error cat e"
  by (auto simp: load_category_def Let_def expected_error_def qs_get_def category_insert_def split: list.splits if_splits)

lemma load_clan_error: "load_clan ref now i s = Inl e \<Longrightarrow> expected_error cat e"
  by (auto simp: load_clan_def Let_def expected_error_def qs_get_def clan_insert_def split: list.splits if_splits)

lemma load_action_error:
  "load_action ref table i s = Inl e \<Longrightarrow> act_category_code i \<in> dom table \<Longrightarrow> i \<in> set (catalog_actions cat) \<Longrightarrow> expected_error cat e"
  by (auto simp: load_action_def Let_def expected_error_def qs_get_def action_insert_def split: list.splits if_splits)

lemma load_catalog_data_error:
  assumes "load_catalog_data ref now cat s = Inl e"
    "\<forall>i \<in> set (catalog_actions cat). action_item_ok (cat_code ` set (catalog_categories cat)) i"
  shows "expected_error cat e"
proof (cases "for_each (load_category ref) (catalog_categories cat) s")
  case (Inl e')
  with assms(1) show ?thesis by (auto simp: load_catalog_data_def dest!: for_each_InlD intro: load_category_error)
next
  case (Inr p)
  then obtain cs s1 where c: "for_each (load_category ref) (catalog_categories cat) s = Inr (cs, s1)" by (cases p) simp
  let ?table = "map_of (rev (zip (map cat_code (catalog_categories cat)) (map fst cs)))"
  have "dom ?table = cat_code ` set (catalog_categories cat)" using for_each_length [OF c] by (simp add: dom_table)
  then have dom: "act_category_code i \<in> dom ?table" if "i \<in> set (catalog_actions cat)" for i
    using assms(2) that by (auto simp: action_item_ok_def)
  show ?thesis
  proof (cases "for_each (load_action ref ?table) (catalog_actions cat) s1")
    case (Inl e')
    with assms(1) c have "for_each (load_action ref ?table) (catalog_actions cat) s1 = Inl e" by (simp add: load_catalog_data_def)
    then show ?thesis using dom load_action_error by (blast dest: for_each_InlD)
  next
    case (Inr q)
    with assms(1) c show ?thesis
      by (cases q) (auto simp: load_catalog_data_def Let_def res_bind_def split: sum.splits dest!: for_each_InlD intro: load_clan_error)
  qed
qed


section \<open>Releasing twice\<close>

lemma check_each_Inr: "check_each body xs = Inr u \<longleftrightarrow> (\<forall>x \<in> set xs. body x = Inr ())"
  by (induction xs) (auto simp: res_bind_def split: sum.splits)

lemma filter_append_single: "filter P (old @ new) = [r] \<Longrightarrow> filter P old = [r] \<or> filter P old = [] \<and> r \<in> set new \<and> P r"
  by (auto simp: append_eq_Cons_conv filter_eq_Cons_iff)

lemma same_key: "distinct (map f xs) \<Longrightarrow> x \<in> set xs \<Longrightarrow> y \<in> set xs \<Longrightarrow> f x = f y \<Longrightarrow> x = y"
  by (auto simp: distinct_map inj_on_def)

lemma category_loop_rows:
  "for_each (load_category ref) is s = Inr (cs, s1) \<Longrightarrow> \<forall>(i, c) \<in> set (zip is (map fst cs)). category_code c = cat_code i \<and> c \<in> set (categories s1)"
proof (induction "is" arbitrary: s cs)
  case (Cons i "is")
  then obtain c b t cs' where b: "load_category ref i s = Inr ((c, b), t)" "for_each (load_category ref) is t = Inr (cs', s1)" and cs: "cs = (c, b) # cs'"
    by (auto elim!: res_bind_InrE)
  have "category_code c = cat_code i \<and> c \<in> set (categories t)"
    using b(1)
  proof (cases rule: load_category_cases)
    case found
    then have "c \<in> set (filter (\<lambda>c. category_code c = cat_code i) (categories s))" by simp
    with found(2) show ?thesis by auto
  qed (simp add: category_made_def)
  moreover obtain nc where "s1 = t\<lparr>categories := categories t @ nc, next_id := next_id s1\<rparr>"
    using category_import.loop_appends [OF b(2)] by blast
  then have "categories s1 = categories t @ nc" by (metis category_import.put_laws(1))
  ultimately show ?case using Cons.IH [OF b(2)] by (auto simp: cs)
qed simp

lemma category_ids:
  assumes "for_each (load_category ref) is s = Inr (cs, s1)" "distinct (map category_id (categories s))"
  shows "distinct (map category_id (categories s1))"
  using assms
proof (rule for_each_inv)
  fix i t y t' assume d: "distinct (map category_id (categories t))" and l: "load_category ref i t = Inr (y, t')"
  from l have "load_category ref i t = Inr ((fst y, snd y), t')" by simp
  then show "distinct (map category_id (categories t'))"
  proof (cases rule: load_category_cases)
    case made
    then have "category_id (fst y) \<notin> set (map category_id (categories t))" by auto
    with d made(6) show ?thesis by simp
  qed (use d in simp)
qed

lemma drift_category_iff:
  "filter (\<lambda>c. category_code c = cat_code i) (categories s) = [c] \<Longrightarrow>
   drift_category ref s i = Inr () \<longleftrightarrow> category_id c = ref ''category'' (cat_code i) \<and> category_name c = cat_name i \<and>
     category_description c = cat_description i \<and> category_icon c = cat_icon i"
  by (simp add: drift_category_def)

lemma drift_action_iff:
  "filter (\<lambda>a. action_code a = act_code i) (actions s) = [a] \<Longrightarrow>
   drift_action ref s i = Inr () \<longleftrightarrow> action_id a = ref ''action'' (act_code i) \<and> action_matches s a i"
  by (simp add: drift_action_def)

lemma drift_clan_iff:
  "filter (\<lambda>c. clan_id c = clan_ref ref i) (clans s) = [c] \<Longrightarrow>
   drift_clan ref s i = Inr () \<longleftrightarrow> clan_matches c i \<and> \<not> name_taken s (clan_item_name i) (clan_ref ref i)"
  by (auto simp: drift_clan_def Let_def res_bind_def split: sum.splits)

lemma categories_without_drift:
  assumes load: "for_each (load_category ref) is s = Inr (cs, s1)" and d: "distinct (map cat_code is)"
    and before: "\<forall>i \<in> set is. drift_category ref s i = Inr ()" and i: "i \<in> set is"
  shows "drift_category ref s1 i = Inr ()"
proof -
  obtain new where n: "s1 = s\<lparr>categories := categories s @ new, next_id := next_id s1\<rparr>" "\<forall>r \<in> set new. \<exists>i \<in> set is. category_made ref i r"
    using category_import.loop_appends [OF load] by blast
  have rows: "categories s1 = categories s @ new" using n(1) by (metis category_import.put_laws(1))
  have "category_settled ref i (categories s1)" using category_import.loop_settles [OF load] i by simp
  then obtain c where c: "filter (\<lambda>c. category_code c = cat_code i) (categories s1) = [c]" "category_id c = ref ''category'' (cat_code i)"
    by (auto simp: category_settled_def holds_one_def)
  from filter_append_single [OF c(1) [unfolded rows]] show ?thesis
  proof
    assume "filter (\<lambda>c. category_code c = cat_code i) (categories s) = [c]"
    with before i show ?thesis using drift_category_iff [OF c(1)] drift_category_iff [of i s c ref] by simp
  next
    assume "filter (\<lambda>c. category_code c = cat_code i) (categories s) = [] \<and> c \<in> set new \<and> category_code c = cat_code i"
    then obtain j where j: "j \<in> set is" "category_made ref j c" "cat_code j = cat_code i" using n(2) by (force simp: category_made_def)
    then have "j = i" using same_key [OF d] i by blast
    with j(2) show ?thesis unfolding drift_category_iff [OF c(1)] by (simp add: category_made_def)
  qed
qed

lemma clans_without_drift:
  assumes load: "for_each (load_clan ref now) is s = Inr (cls, s1)" and d: "distinct (map clan_key is)" "distinct (map clan_item_name is)"
    and inj: "inj_on (ref ''institutional-clan'') (clan_key ` set is)" and before: "\<forall>i \<in> set is. drift_clan ref s i = Inr ()" and i: "i \<in> set is"
  shows "drift_clan ref s1 i = Inr ()"
proof -
  obtain new where n: "s1 = s\<lparr>clans := clans s @ new, next_id := next_id s1\<rparr>" "\<forall>r \<in> set new. \<exists>i \<in> set is. clan_made ref i r"
    using clan_import.loop_appends [OF load] by blast
  have rows: "clans s1 = clans s @ new" using n(1) by (metis clan_import.put_laws(1))
  have "clan_settled ref i (clans s1)" using clan_import.loop_settles [OF load compat_distinct [OF d(2)]] i by simp
  then obtain c where c: "filter (\<lambda>c. clan_id c = clan_ref ref i) (clans s1) = [c]"
    and free: "\<not> name_taken s1 (clan_item_name i) (clan_ref ref i)"
    by (auto simp: clan_settled_def holds_one_def name_taken_def list_ex_iff)
  from filter_append_single [OF c [unfolded rows]] show ?thesis
  proof
    assume "filter (\<lambda>c. clan_id c = clan_ref ref i) (clans s) = [c]"
    with before i show ?thesis using drift_clan_iff [of ref i s1 c, OF c] drift_clan_iff [of ref i s c] free by simp
  next
    assume "filter (\<lambda>c. clan_id c = clan_ref ref i) (clans s) = [] \<and> c \<in> set new \<and> clan_id c = clan_ref ref i"
    then obtain j where j: "j \<in> set is" "clan_made ref j c" "clan_ref ref j = clan_ref ref i" using n(2) by (force simp: clan_made_def)
    then have "j = i" using same_key [OF d(1)] i inj_onD [OF inj, of "clan_key j" "clan_key i"] by simp
    with j(2) show ?thesis unfolding drift_clan_iff [of ref i s1 c, OF c] using free by (simp add: clan_made_def)
  qed
qed

lemma find_in_prefix: "find P xs = Some x \<Longrightarrow> find P (xs @ ys) = Some x"
  by (induction xs) auto

lemma table_row:
  assumes load: "for_each (load_category ref) is s = Inr (cs, s1)" and ids: "distinct (map category_id (categories s))"
    and t: "map_of (rev (zip (map cat_code is) (map fst cs))) code = Some c"
  shows "find (\<lambda>x. category_id x = category_id c) (categories s1) = Some c" "category_code c = code"
proof -
  have "(code, c) \<in> set (zip (map cat_code is) (map fst cs))" using map_of_SomeD [OF t] by simp
  then obtain i where "(i, c) \<in> set (zip is (map fst cs))" "cat_code i = code" by (auto simp: zip_map1)
  with category_loop_rows [OF load] have c: "category_code c = code" "c \<in> set (categories s1)" by auto
  then show "category_code c = code" by simp
  have d: "distinct (map category_id (categories s1))" by (rule category_ids [OF load ids])
  obtain x where x: "find (\<lambda>x. category_id x = category_id c) (categories s1) = Some x"
    using c(2) by (cases "find (\<lambda>x. category_id x = category_id c) (categories s1)") (auto simp: find_None_iff)
  then have "x \<in> set (categories s1)" "category_id x = category_id c" by (auto simp: find_Some_iff)
  then have "x = c" using same_key [OF d] c(2) by blast
  with x show "find (\<lambda>x. category_id x = category_id c) (categories s1) = Some c" by simp
qed

lemma actions_without_drift:
  assumes cload: "for_each (load_category ref) cis s = Inr (cs, s1)" and ids: "distinct (map category_id (categories s))"
    and t: "table = map_of (rev (zip (map cat_code cis) (map fst cs)))"
    and load: "for_each (load_action ref table) is s1 = Inr (acts, s2)" and d: "distinct (map act_code is)"
    and pos: "\<forall>i \<in> set is. 0 < act_daily_limit i"
    and before: "\<forall>i \<in> set is. drift_action ref s i = Inr ()" and i: "i \<in> set is"
  shows "drift_action ref s2 i = Inr ()"
proof -
  obtain nc where nc: "s1 = s\<lparr>categories := categories s @ nc, next_id := next_id s1\<rparr>"
    using category_import.loop_appends [OF cload] by blast
  obtain new where n: "s2 = s1\<lparr>actions := actions s1 @ new, next_id := next_id s2\<rparr>" "\<forall>r \<in> set new. \<exists>i \<in> set is. action_made ref table i r"
    using action_import.loop_appends [OF load] by blast
  obtain m1 m2 where m: "s1 = s\<lparr>categories := categories s @ nc, next_id := m1\<rparr>" "s2 = s1\<lparr>actions := actions s1 @ new, next_id := m2\<rparr>"
    using nc n(1) by metis
  have rows: "categories s2 = categories s1" "categories s1 = categories s @ nc" "actions s2 = actions s @ new" by (simp_all add: m)
  have "action_settled ref table i (actions s2)" using action_import.loop_settles [OF load] i by simp
  then obtain a where a: "filter (\<lambda>a. action_code a = act_code i) (actions s2) = [a]" "action_id a = ref ''action'' (act_code i)"
    by (auto simp: action_settled_def holds_one_def)
  from filter_append_single [OF a(1) [unfolded rows]] have "action_matches s2 a i"
  proof
    assume "filter (\<lambda>a. action_code a = act_code i) (actions s) = [a]"
    then have old: "action_matches s a i" using before i drift_action_iff [of i s a ref] by simp
    then obtain c where "find (\<lambda>c. category_id c = action_category_id a) (categories s) = Some c" by (auto simp: action_matches_def)
    then have "find (\<lambda>c. category_id c = action_category_id a) (categories s @ nc) = Some c" by (rule find_in_prefix)
    with old show ?thesis
      using \<open>find (\<lambda>c. category_id c = action_category_id a) (categories s) = Some c\<close> by (simp add: action_matches_def rows(1,2))
  next
    assume "filter (\<lambda>a. action_code a = act_code i) (actions s) = [] \<and> a \<in> set new \<and> action_code a = act_code i"
    then obtain j where j: "j \<in> set is" "action_made ref table j a" "act_code j = act_code i" using n(2) by (force simp: action_made_def)
    then have ji: "j = i" using same_key [OF d] i by blast
    then obtain c where c: "table (act_category_code i) = Some c" "action_category_id a = category_id c"
      using j(2) by (auto simp: action_made_def)
    note tr = table_row [OF cload ids c(1) [unfolded t]]
    show ?thesis using j(2) ji pos i c(2) tr by (auto simp: action_matches_def action_made_def rows(1))
  qed
  with a show ?thesis using drift_action_iff [OF a(1)] by simp
qed

text \<open>
  C33: the recheck of a release only guards against other processes. When the preflight finds no
  drift and the rows of a validated catalog load, the second check succeeds, so the release commits
  the loaded state; and a release of the same catalog on the result passes both checks, creates
  nothing, counts every item as unchanged and leaves the state as it is. The keys of different
  clans are taken to be different (\<open>uuid5\<close>).
\<close>

theorem release_recheck_succeeds:
  assumes "validate_catalog aware ''APPROVED'' payload = Inr cat" "distinct (map clan_item_name (catalog_clans cat))"
    "inj_on (ref ''institutional-clan'') (clan_key ` set (catalog_clans cat))" "distinct (map category_id (categories s))"
    "reject_existing_drift ref cat s = Inr ()" "load_catalog_data ref now cat s = Inr (counts, s')"
  shows "release_rows ref now cat s = Inr (counts, s') \<and> release_rows ref later cat s' = Inr ((0, catalog_size cat), s')"
proof -
  note v = validate_catalog_InrD [OF assms(1)]
  obtain n k where counts: "counts = (n, k)" by force
  have before: "\<forall>i \<in> set (catalog_categories cat). drift_category ref s i = Inr ()" "\<forall>i \<in> set (catalog_actions cat). drift_action ref s i = Inr ()"
    "\<forall>i \<in> set (catalog_clans cat). drift_clan ref s i = Inr ()"
    using assms(5) by (auto simp: reject_existing_drift_def check_each_Inr elim!: res_bind_InrE)
  obtain cs s1 acts s2 cls table where 1: "for_each (load_category ref) (catalog_categories cat) s = Inr (cs, s1)"
    "table = map_of (rev (zip (map cat_code (catalog_categories cat)) (map fst cs)))"
    "for_each (load_action ref table) (catalog_actions cat) s1 = Inr (acts, s2)"
    "for_each (load_clan ref now) (catalog_clans cat) s2 = Inr (cls, s')"
    using assms(6) unfolding counts by (rule load_catalog_data_InrE)
  obtain m1 m2 m3 nc na nl where m: "s1 = s\<lparr>categories := categories s @ nc, next_id := m1\<rparr>"
    "s2 = s1\<lparr>actions := actions s1 @ na, next_id := m2\<rparr>" "s' = s2\<lparr>clans := clans s2 @ nl, next_id := m3\<rparr>"
    using category_import.loop_appends [OF 1(1)] action_import.loop_appends [OF 1(3)] clan_import.loop_appends [OF 1(4)] by metis
  have rows: "categories s' = categories s1" "categories s2 = categories s1" "actions s' = actions s2" "clans s2 = clans s" by (simp_all add: m)
  have c: "drift_category ref s' i = Inr ()" if "i \<in> set (catalog_categories cat)" for i
    using categories_without_drift [OF 1(1) v(1) before(1) that] by (simp add: drift_category_def rows cong: option.case_cong)
  have a: "drift_action ref s' i = Inr ()" if "i \<in> set (catalog_actions cat)" for i
    using actions_without_drift [OF 1(1) assms(4) 1(2,3) v(2) _ before(2) that] v(5)
    by (simp add: drift_action_def action_matches_def action_item_ok_def rows cong: option.case_cong)
  have "\<forall>i \<in> set (catalog_clans cat). drift_clan ref s2 i = Inr ()" using before(3) by (simp add: drift_clan_def name_taken_def rows)
  then have l: "drift_clan ref s' i = Inr ()" if "i \<in> set (catalog_clans cat)" for i
    using clans_without_drift [OF 1(4) v(3) assms(2,3) _ that] by simp
  have again: "reject_existing_drift ref cat s' = Inr ()"
    using c a l check_each_Inr [of "drift_category ref s'" "catalog_categories cat" "()"]
      check_each_Inr [of "drift_action ref s'" "catalog_actions cat" "()"] check_each_Inr [of "drift_clan ref s'" "catalog_clans cat" "()"]
    by (simp add: reject_existing_drift_def)
  have "load_catalog_data ref later cat s' = Inr ((0, catalog_size cat), s')"
    using load_settles [OF assms(6) [unfolded counts] compat_distinct [OF assms(2)]] load_settled by blast
  with again assms(5,6) show ?thesis by (simp add: release_rows_def)
qed

section \<open>A small catalog\<close>

definition demo_payload :: json where
  "demo_payload = JObj [(''status'', JStr ''APPROVED''), (''schema_version'', JInt 1),
     (''approval'', JObj [(''approved_by'', JStr ''Ana''), (''reference'', JStr ''A-1''), (''approved_at'', JStr ''2026-01-01T00:00:00Z'')]),
     (''categories'', JArr [JObj [(''code'', JStr ''move''), (''name'', JStr '' Mobility '')]]),
     (''actions'', JArr [JObj [(''code'', JStr ''bike''), (''category_code'', JStr ''move''), (''name'', JStr ''Bike''), (''description'', JStr ''Ride''),
        (''points'', JInt 5), (''daily_limit'', JInt 2), (''validation_type'', JStr ''NONE''), (''co2_kg_factor'', JFloat ''0.25'')]]),
     (''institutional_clans'', JArr [JObj [(''key'', JStr ''eng''), (''type'', JStr ''INSTITUTIONAL''), (''privacy'', JStr ''PUBLIC''),
        (''name'', JStr ''Engineering''), (''description'', JStr ''All''), (''career'', JStr ''Eng'')]])]"

definition demo_catalog :: catalog_data where
  "demo_catalog = \<lparr>catalog_version = 1,
     catalog_categories = [\<lparr>cat_code = ''move'', cat_name = ''Mobility'', cat_description = [], cat_icon = []\<rparr>],
     catalog_actions = [\<lparr>act_code = ''bike'', act_category_code = ''move'', act_name = ''Bike'', act_description = ''Ride'', act_points = 5,
       act_daily_limit = 2, act_validation_type = NO_VALIDATION, act_co2_kg_factor = 250, act_water_liters_factor = 0,
       act_plastic_kg_factor = 0, act_is_active = True\<rparr>],
     catalog_clans = [\<lparr>clan_key = ''eng'', clan_item_name = ''Engineering'', clan_item_description = ''All'', clan_item_career = ''Eng''\<rparr>]\<rparr>"

definition demo_ref :: "string \<Rightarrow> string \<Rightarrow> uuid" where
  "demo_ref kind code = length code"

lemma demo_payload_valid: "validate_catalog (\<lambda>_. Some True) ''APPROVED'' demo_payload = Inr demo_catalog"
  by code_simp

lemma demo_catalog_loads: "map_sum id fst (load_catalog_data demo_ref 0 demo_catalog empty_db) = Inr (3, 0)"
  by code_simp

lemma demo_catalog_clean: "reject_existing_drift demo_ref demo_catalog empty_db = Inr ()"
  by code_simp

lemma demo_catalog_state: "\<exists>s'. load_catalog_data demo_ref 0 demo_catalog empty_db = Inr ((3, 0), s')"
  using demo_catalog_loads by (cases "load_catalog_data demo_ref 0 demo_catalog empty_db") auto

lemma demo_catalog_shape: "distinct (map clan_item_name (catalog_clans demo_catalog))" "catalog_size demo_catalog = 3"
  "inj_on (demo_ref ''institutional-clan'') (clan_key ` set (catalog_clans demo_catalog))"
  by (simp_all add: demo_catalog_def catalog_size_def)



theorem release_recheck_succeeds_witness:
  "\<exists>s'. release_rows demo_ref 0 demo_catalog empty_db = Inr ((3, 0), s') \<and>
     release_rows demo_ref 9 demo_catalog s' = Inr ((0, 3), s')"
proof -
  obtain s' where s': "load_catalog_data demo_ref 0 demo_catalog empty_db = Inr ((3, 0), s')" using demo_catalog_state by blast
  have "distinct (map category_id (categories empty_db))" by (simp add: empty_db_def)
  from release_recheck_succeeds [OF demo_payload_valid demo_catalog_shape(1,3) this demo_catalog_clean s', of 9] demo_catalog_shape(2)
  show ?thesis by auto
qed

end
