(* ===== verification/Release_Gate.thy ===== *)
theory Release_Gate
  imports Json
begin

text \<open>
  The two gates of the release pipeline: \<open>scripts/should-run-neon-migration.py\<close>, which decides
  whether a push may migrate the database, and \<open>scripts/verify-dev-migration-evidence.py\<close>, which
  demands proof of a tested and migrated \<open>dev\<close> commit before a promotion. The GitHub CLI is the
  parameter \<open>gh\<close>: what \<open>gh api\<close> answers for a path. One path gets one answer during a run.
  The paging loops end only when the counts GitHub reports do, so a run has the type
  \<open>'a run\<close>, where \<^const>\<open>None\<close> is a loop that goes on for ever.
\<close>

section \<open>Runs\<close>

datatype gate_error = EvidenceError string | GateRuntimeError string | GateTypeError string

type_synonym 'a run = "(gate_error + 'a) option"

definition run_bind :: "'a run \<Rightarrow> ('a \<Rightarrow> 'b run) \<Rightarrow> 'b run" where
  "run_bind m f =
     (case m of None \<Rightarrow> None | Some (Inl e) \<Rightarrow> Some (Inl e) | Some (Inr x) \<Rightarrow> f x)"

abbreviation ret :: "'a \<Rightarrow> 'a run" where
  "ret x \<equiv> Some (Inr x)"

abbreviation fail :: "gate_error \<Rightarrow> 'a run" where
  "fail e \<equiv> Some (Inl e)"

datatype ('a, 'b) turn = Again 'a | Return 'b

text \<open>\<open>page = 1; while True: ...; page += 1\<close> with the variables the body keeps in \<open>acc\<close>.\<close>

partial_function (option) while_true ::
  "(nat \<Rightarrow> 'a \<Rightarrow> ('a, 'b) turn run) \<Rightarrow> nat \<Rightarrow> 'a \<Rightarrow> 'b run" where
  "while_true body page acc =
     (case body page acc of
        None \<Rightarrow> None
      | Some r \<Rightarrow>
          (case r of
             Inl e \<Rightarrow> Some (Inl e)
           | Inr t \<Rightarrow> (case t of Return x \<Rightarrow> Some (Inr x) | Again a \<Rightarrow> while_true body (Suc page) a)))"

declare while_true.simps [code]

text \<open>A \<open>for\<close> loop that may return early: \<open>None\<close> when no iteration did.\<close>

fun first_of :: "('x \<Rightarrow> 'b option run) \<Rightarrow> 'x list \<Rightarrow> 'b option run" where
  "first_of body [] = ret None"
| "first_of body (x # xs) =
     run_bind (body x) (\<lambda>r. case r of None \<Rightarrow> first_of body xs | Some y \<Rightarrow> ret (Some y))"

section \<open>Git objects\<close>

text \<open>\<open>SHA_PATTERN.fullmatch\<close> of \<^verbatim>\<open>^[0-9a-f]{40}$\<close>.\<close>

definition is_sha :: "string \<Rightarrow> bool" where
  "is_sha v \<longleftrightarrow> length v = 40 \<and> list_all (\<lambda>c. c \<in> set ''0123456789abcdef'') v"

text \<open>\<open>isinstance(d, dict) and d.get("full_name") == repository\<close>.\<close>

definition is_repo :: "string \<Rightarrow> json \<Rightarrow> bool" where
  "is_repo repository v = with_dict v (\<lambda>d. dget d ''full_name'' = JStr repository)"

definition dicts_of :: "json list \<Rightarrow> dict list" where
  "dicts_of xs = List.map_filter as_dict xs"

section \<open>The migration gate\<close>

datatype gh_reply = GhOSError | GhExit | GhBadJson | GhJson json

definition merged_pr :: "string \<Rightarrow> string \<Rightarrow> string \<Rightarrow> dict \<Rightarrow> bool" where
  "merged_pr repository branch sha pr \<longleftrightarrow>
     dget pr ''merged_at'' \<noteq> JNull \<and> dget pr ''merge_commit_sha'' = JStr sha \<and>
     with_dict (dget pr ''base'') (\<lambda>b. dget b ''ref'' = JStr branch) \<and>
     with_dict (dget pr ''head'') (\<lambda>h. is_repo repository (dget h ''repo''))"

fun hashable :: "json \<Rightarrow> bool" where
  "hashable (JArr xs) = False"
| "hashable (JObj d) = False"
| "hashable v = True"

text \<open>The guards before the call; a branch that is a list or an object cannot be looked up in a set.\<close>

definition push_of :: "string \<Rightarrow> string \<Rightarrow> dict \<Rightarrow> (gate_error + (string \<times> string) option)" where
  "push_of repository cloud_deployment_enabled event =
     (case as_dict (dget event ''workflow_run'') of
        None \<Rightarrow> Inr None
      | Some w \<Rightarrow>
          if \<not> (dget w ''conclusion'' = JStr ''success'' \<and> dget w ''event'' = JStr ''push'') then Inr None
          else if \<not> hashable (dget w ''head_branch'') then Inl (GateTypeError ''unhashable type'')
          else (case (as_str (dget w ''head_branch''), as_str (dget w ''head_sha'')) of
                  (Some branch, Some sha) \<Rightarrow>
                    if branch \<in> {''dev'', ''preprod''} \<and> sha \<noteq> [] \<and> is_repo repository (dget w ''head_repository'') \<and>
                       py_lower (py_strip cloud_deployment_enabled) \<noteq> ''true''
                    then Inr (Some (branch, sha)) else Inr None
                | _ \<Rightarrow> Inr None))"

definition should_run_migration ::
  "(string \<Rightarrow> gh_reply) \<Rightarrow> dict \<Rightarrow> string \<Rightarrow> string \<Rightarrow> gate_error + bool" where
  "should_run_migration gh event repository cloud_deployment_enabled =
     (case push_of repository cloud_deployment_enabled event of
        Inl e \<Rightarrow> Inl e
      | Inr None \<Rightarrow> Inr False
      | Inr (Some (branch, sha)) \<Rightarrow>
          (case gh (''repos/'' @ repository @ ''/commits/'' @ sha @ ''/pulls'') of
             GhOSError \<Rightarrow> Inl (GateRuntimeError ''Could not run the GitHub CLI'')
           | GhExit \<Rightarrow> Inl (GateRuntimeError ''GitHub could not verify the associated pull request'')
           | GhBadJson \<Rightarrow> Inl (GateRuntimeError ''GitHub returned an invalid pull-request response'')
           | GhJson v \<Rightarrow>
               (case as_list v of
                  None \<Rightarrow> Inl (GateTypeError ''GitHub returned an unexpected pull-request response'')
                | Some prs \<Rightarrow> Inr (list_ex (merged_pr repository branch sha) (dicts_of prs)))))"

section \<open>The evidence gate\<close>

definition WORKFLOW_PATH :: string where
  "WORKFLOW_PATH = ''.github/workflows/database-migrations.yml''"

definition TEST_WORKFLOW_PATH :: string where
  "TEST_WORKFLOW_PATH = ''.github/workflows/tests.yaml''"

definition DEV_RELEASE_WORKFLOW_PATH :: string where
  "DEV_RELEASE_WORKFLOW_PATH = ''.github/workflows/deploy-dev.yml''"

definition MIGRATION_STEP :: string where
  "MIGRATION_STEP = ''Apply committed migrations with the direct migrator role''"

definition SMOKE_STEP :: string where
  "SMOKE_STEP = ''Verify access through the pooled application role''"

definition DEV_EVIDENCE_PREFIX :: string where
  "DEV_EVIDENCE_PREFIX = ''dev-db-evidence-''"

definition CLOUD_EVIDENCE_PREFIX :: string where
  "CLOUD_EVIDENCE_PREFIX = ''dev-cloud-db-evidence-''"

record github =
  repository :: string
  gh :: "string \<Rightarrow> gh_reply"

text \<open>\<open>GitHub.get\<close>: an object or a list, or the error that stops the gate.\<close>

definition api_get :: "github \<Rightarrow> string \<Rightarrow> gate_error + json" where
  "api_get api endpoint =
     (case gh api (''repos/'' @ repository api @ ''/'' @ endpoint) of
        GhJson v \<Rightarrow>
          if as_dict v = None \<and> as_list v = None
          then Inl (EvidenceError (''GitHub returned invalid data at '' @ endpoint)) else Inr v
      | _ \<Rightarrow> Inl (EvidenceError (''GitHub could not verify required evidence at '' @ endpoint)))"

text \<open>A page of a listing: the list under \<open>field\<close>, checked before anything else of the page.\<close>

definition listing :: "github \<Rightarrow> string \<Rightarrow> string \<Rightarrow> string \<Rightarrow> (dict \<times> json list) run" where
  "listing api endpoint field invalid =
     (case api_get api endpoint of
        Inl e \<Rightarrow> fail e
      | Inr v \<Rightarrow>
          (case as_dict v of
             None \<Rightarrow> fail (EvidenceError invalid)
           | Some d \<Rightarrow> (case as_list (dget d field) of
                          None \<Rightarrow> fail (EvidenceError invalid)
                        | Some xs \<Rightarrow> ret (d, xs))))"

text \<open>The end of a page: stop when \<open>page * 100 >= total_count\<close>.\<close>

definition next_page :: "nat \<Rightarrow> dict \<Rightarrow> string \<Rightarrow> 'a \<Rightarrow> 'b \<Rightarrow> ('a, 'b) turn run" where
  "next_page page d omitted acc result =
     (case as_int (dget d ''total_count'') of
        None \<Rightarrow> fail (EvidenceError omitted)
      | Some total_count \<Rightarrow> if int page * 100 \<ge> total_count then ret (Return result) else ret (Again acc))"

definition pulls_url :: "string \<Rightarrow> string" where
  "pulls_url sha = ''commits/'' @ sha @ ''/pulls''"

definition run_url :: "string \<Rightarrow> string" where
  "run_url run_id = ''actions/runs/'' @ run_id"

definition jobs_url :: "string \<Rightarrow> string" where
  "jobs_url run_id = ''actions/runs/'' @ run_id @ ''/jobs?per_page=100''"

definition artifacts_url :: "string \<Rightarrow> nat \<Rightarrow> string" where
  "artifacts_url name page = ''actions/artifacts?name='' @ name @ ''&per_page=100&page='' @ nat_str page"

definition live_artifact :: "string \<Rightarrow> dict \<Rightarrow> bool" where
  "live_artifact name a \<longleftrightarrow> dget a ''name'' = JStr name \<and> dget a ''expired'' = JBool False"

definition artifacts_page :: "github \<Rightarrow> string \<Rightarrow> nat \<Rightarrow> dict list \<Rightarrow> (dict list, dict list) turn run" where
  "artifacts_page api name page matches =
     run_bind (listing api (artifacts_url name page) ''artifacts'' ''GitHub returned an invalid artifacts response.'')
       (\<lambda>(d, xs). let m = matches @ filter (live_artifact name) (dicts_of xs)
                  in next_page page d ''GitHub omitted the artifact count.'' m m)"

definition artifacts :: "github \<Rightarrow> string \<Rightarrow> dict list run" where
  "artifacts api name = while_true (artifacts_page api name) 1 []"

definition merged_dev_pr :: "string \<Rightarrow> string \<Rightarrow> dict \<Rightarrow> bool" where
  "merged_dev_pr repo sha pr \<longleftrightarrow>
     dget pr ''merged_at'' \<noteq> JNull \<and> dget pr ''merge_commit_sha'' = JStr sha \<and>
     with_dict (dget pr ''base'') (\<lambda>b. dget b ''ref'' = JStr ''dev'' \<and> is_repo repo (dget b ''repo'')) \<and>
     with_dict (dget pr ''head'') (\<lambda>h. is_repo repo (dget h ''repo''))"

definition require_merged_dev_pr :: "github \<Rightarrow> string \<Rightarrow> unit run" where
  "require_merged_dev_pr api sha =
     (case api_get api (pulls_url sha) of
        Inl e \<Rightarrow> fail e
      | Inr v \<Rightarrow>
          (case as_list v of
             None \<Rightarrow> fail (EvidenceError ''GitHub returned invalid source PR provenance.'')
           | Some prs \<Rightarrow>
               if list_ex (merged_dev_pr (repository api) sha) (dicts_of prs) then ret ()
               else fail (EvidenceError (''Source '' @ sha @ '' is not the exact merge commit''))))"

text \<open>A completed, successful push of the commit to \<open>dev\<close> by the workflow at \<open>path\<close>.\<close>

definition dev_push_run :: "string \<Rightarrow> string \<Rightarrow> string \<Rightarrow> dict \<Rightarrow> bool" where
  "dev_push_run repo sha path r \<longleftrightarrow>
     dget r ''status'' = JStr ''completed'' \<and> dget r ''conclusion'' = JStr ''success'' \<and>
     dget r ''event'' = JStr ''push'' \<and> dget r ''head_branch'' = JStr ''dev'' \<and>
     dget r ''head_sha'' = JStr sha \<and> is_repo repo (dget r ''head_repository'') \<and>
     dget r ''path'' = JStr path"

definition require_parent_test_run :: "github \<Rightarrow> string \<Rightarrow> string \<Rightarrow> unit run" where
  "require_parent_test_run api run_id sha =
     (case api_get api (run_url run_id) of
        Inl e \<Rightarrow> fail e
      | Inr v \<Rightarrow>
          if with_dict v (dev_push_run (repository api) sha TEST_WORKFLOW_PATH) then ret ()
          else fail (EvidenceError (''Django tests run '' @ run_id @ '' does not prove a successful push'')))"

definition workflow_runs_url :: "string \<Rightarrow> string \<Rightarrow> nat \<Rightarrow> string" where
  "workflow_runs_url workflow sha page =
     ''actions/workflows/'' @ workflow @ ''/runs?event=push&branch=dev&head_sha='' @ sha @
     ''&per_page=100&page='' @ nat_str page"

definition test_runs_page :: "github \<Rightarrow> string \<Rightarrow> nat \<Rightarrow> string list \<Rightarrow> (string list, string list) turn run" where
  "test_runs_page api sha page run_ids =
     run_bind (listing api (workflow_runs_url ''tests.yaml'' sha page) ''workflow_runs''
                 ''GitHub returned invalid Django test run evidence.'')
       (\<lambda>(d, xs). let found = run_ids @ map (\<lambda>r. py_str (dget r ''id''))
                        (filter (\<lambda>r. as_int (dget r ''id'') \<noteq> None \<and>
                                     dev_push_run (repository api) sha TEST_WORKFLOW_PATH r) (dicts_of xs))
                  in next_page page d ''GitHub omitted the Django test run count.'' found found)"

definition successful_dev_test_runs :: "github \<Rightarrow> string \<Rightarrow> string list run" where
  "successful_dev_test_runs api sha = while_true (test_runs_page api sha) 1 []"

text \<open>The names of the successful steps of the successful jobs, in order.\<close>

definition successful_steps :: "json list \<Rightarrow> json list" where
  "successful_steps jobs =
     concat (map (\<lambda>j. if dget j ''status'' = JStr ''completed'' \<and> dget j ''conclusion'' = JStr ''success''
                      then (case as_list (dget j ''steps'') of
                              None \<Rightarrow> []
                            | Some steps \<Rightarrow>
                                map (\<lambda>st. dget st ''name'')
                                  (filter (\<lambda>st. dget st ''conclusion'' = JStr ''success'') (dicts_of steps)))
                      else []) (dicts_of jobs))"

definition has_successful_required_steps :: "github \<Rightarrow> string \<Rightarrow> bool run" where
  "has_successful_required_steps api run_id =
     run_bind (listing api (jobs_url run_id) ''jobs''
                 ''GitHub returned invalid migration job evidence.'')
       (\<lambda>(_, jobs). ret (count_list (successful_steps jobs) (JStr MIGRATION_STEP) = 1 \<and>
                         count_list (successful_steps jobs) (JStr SMOKE_STEP) = 1))"

definition check_cloud_run :: "github \<Rightarrow> string \<Rightarrow> dict \<Rightarrow> unit option run" where
  "check_cloud_run api sha r =
     (case as_int (dget r ''id'') of
        None \<Rightarrow> ret None
      | Some n \<Rightarrow>
          if dev_push_run (repository api) sha DEV_RELEASE_WORKFLOW_PATH r
          then run_bind (artifacts api (CLOUD_EVIDENCE_PREFIX @ sha @ ''-'' @ py_str (dget r ''id'')))
                 (\<lambda>found. ret (if list_ex (\<lambda>a. with_dict (dget a ''workflow_run'')
                                                  (\<lambda>w. eq_int (dget w ''id'') n)) found
                               then Some () else None))
          else ret None)"

definition cloud_runs_page :: "github \<Rightarrow> string \<Rightarrow> nat \<Rightarrow> unit \<Rightarrow> (unit, bool) turn run" where
  "cloud_runs_page api sha page _ =
     run_bind (listing api (workflow_runs_url ''deploy-dev.yml'' sha page) ''workflow_runs''
                 ''GitHub returned invalid cloud dev release evidence.'')
       (\<lambda>(d, xs).
          run_bind (first_of (check_cloud_run api sha) (dicts_of xs))
            (\<lambda>hit. case hit of
               Some _ \<Rightarrow> ret (Return True)
             | None \<Rightarrow> next_page page d ''GitHub omitted the cloud dev release count.'' () False))"

definition has_cloud_dev_release_evidence :: "github \<Rightarrow> string \<Rightarrow> bool run" where
  "has_cloud_dev_release_evidence api sha = while_true (cloud_runs_page api sha) 1 ()"

definition migration_run_ok :: "string \<Rightarrow> dict \<Rightarrow> bool" where
  "migration_run_ok repo r \<longleftrightarrow>
     dget r ''status'' = JStr ''completed'' \<and> dget r ''conclusion'' = JStr ''success'' \<and>
     dget r ''event'' = JStr ''workflow_run'' \<and> dget r ''path'' = JStr WORKFLOW_PATH \<and>
     is_repo repo (dget r ''repository'')"

definition check_artifact :: "github \<Rightarrow> dict \<Rightarrow> unit option run" where
  "check_artifact api a =
     (case as_dict (dget a ''workflow_run'') of
        None \<Rightarrow> ret None
      | Some w \<Rightarrow>
          if as_int (dget w ''id'') = None then ret None
          else
            (let run_id = py_str (dget w ''id'')
             in case api_get api (run_url run_id) of
                  Inl e \<Rightarrow> fail e
                | Inr v \<Rightarrow>
                    if with_dict v (migration_run_ok (repository api))
                    then run_bind (has_successful_required_steps api run_id) (\<lambda>ok. ret (if ok then Some () else None))
                    else ret None))"

definition check_parent :: "github \<Rightarrow> string \<Rightarrow> string \<Rightarrow> unit option run" where
  "check_parent api sha parent_id =
     run_bind (require_parent_test_run api parent_id sha) (\<lambda>_.
       run_bind (artifacts api (DEV_EVIDENCE_PREFIX @ sha @ ''-'' @ parent_id))
         (first_of (check_artifact api)))"

definition require_dev_evidence :: "github \<Rightarrow> string \<Rightarrow> unit run" where
  "require_dev_evidence api sha =
     (if \<not> is_sha sha then fail (EvidenceError ''The source SHA is not a full lowercase Git SHA.'')
      else
        run_bind (require_merged_dev_pr api sha) (\<lambda>_.
          run_bind (has_cloud_dev_release_evidence api sha) (\<lambda>cloud.
            if cloud then ret ()
            else
              run_bind (successful_dev_test_runs api sha) (\<lambda>parents.
                run_bind (first_of (check_parent api sha) parents) (\<lambda>hit.
                  case hit of
                    Some _ \<Rightarrow> ret ()
                  | None \<Rightarrow> fail (EvidenceError ''No completed Neon or cloud dev release''))))))"

text \<open>The sixth and seventh guards of a promotion: a same-repository pull request from \<open>dev\<close>.\<close>

definition promotion_pr :: "string \<Rightarrow> dict \<Rightarrow> string option" where
  "promotion_pr repo pr =
     (if with_dict (dget pr ''base'') (\<lambda>b. dget b ''ref'' = JStr ''preprod'' \<and> is_repo repo (dget b ''repo'')) \<and>
         with_dict (dget pr ''head'') (\<lambda>h. dget h ''ref'' = JStr ''dev'' \<and> is_repo repo (dget h ''repo''))
      then (case as_dict (dget pr ''head'') of None \<Rightarrow> None | Some h \<Rightarrow> as_str (dget h ''sha''))
      else None)"

definition tree_sha :: "json \<Rightarrow> string option" where
  "tree_sha v =
     (case as_dict v of
        None \<Rightarrow> None
      | Some c \<Rightarrow>
          (case as_dict (dget c ''tree'') of
             None \<Rightarrow> None
           | Some t \<Rightarrow> (case as_str (dget t ''sha'') of
                          None \<Rightarrow> None
                        | Some t_sha \<Rightarrow> if is_sha t_sha then Some t_sha else None)))"

definition merged_promotion :: "string \<Rightarrow> string \<Rightarrow> dict \<Rightarrow> string option" where
  "merged_promotion repo merge_sha pr =
     (if dget pr ''merged_at'' \<noteq> JNull \<and> dget pr ''merge_commit_sha'' = JStr merge_sha
      then promotion_pr repo pr else None)"

definition same_trees :: "github \<Rightarrow> string \<Rightarrow> string \<Rightarrow> string option run" where
  "same_trees api merge_sha source_sha =
     (if \<not> is_sha source_sha then fail (EvidenceError ''The promotion source SHA is invalid.'')
      else if \<not> is_sha merge_sha then fail (EvidenceError ''The staging merge SHA is invalid.'')
      else
        (case api_get api (''git/commits/'' @ source_sha) of
           Inl e \<Rightarrow> fail e
         | Inr source_commit \<Rightarrow>
             (case api_get api (''git/commits/'' @ merge_sha) of
                Inl e \<Rightarrow> fail e
              | Inr staging_commit \<Rightarrow>
                  (case (tree_sha source_commit, tree_sha staging_commit) of
                     (Some t, Some t') \<Rightarrow>
                       if t = t' then ret (Some source_sha)
                       else fail (EvidenceError ''Staging merge tree differs from the dev source tree'')
                   | _ \<Rightarrow> fail (EvidenceError ''GitHub returned invalid promotion tree metadata.'')))))"

definition source_sha_for_staging_merge :: "github \<Rightarrow> string \<Rightarrow> string run" where
  "source_sha_for_staging_merge api merge_sha =
     (case api_get api (pulls_url merge_sha) of
        Inl e \<Rightarrow> fail e
      | Inr v \<Rightarrow>
          (case as_list v of
             None \<Rightarrow> fail (EvidenceError ''GitHub returned invalid staging merge provenance.'')
           | Some prs \<Rightarrow>
               run_bind (first_of (\<lambda>pr. case merged_promotion (repository api) merge_sha pr of
                                          None \<Rightarrow> ret None
                                        | Some sha \<Rightarrow> same_trees api merge_sha sha) (dicts_of prs))
                 (\<lambda>hit. case hit of
                    Some sha \<Rightarrow> ret sha
                  | None \<Rightarrow> fail (EvidenceError (''Staging SHA '' @ merge_sha @ '' is not the exact merge commit'')))))"

definition source_sha_of :: "github \<Rightarrow> dict \<Rightarrow> string \<Rightarrow> string run" where
  "source_sha_of api event mode =
     (if mode = ''source_sha''
      then (case as_str (dget event ''source_sha'') of
              None \<Rightarrow> fail (EvidenceError ''The requested source SHA is missing.'')
            | Some sha \<Rightarrow> ret sha)
      else if mode = ''pull_request''
      then (case as_dict (dget event ''pull_request'') of
              None \<Rightarrow> fail (EvidenceError ''Pull request event data is missing.'')
            | Some pr \<Rightarrow>
                (case (if dget pr ''state'' = JStr ''open'' then promotion_pr (repository api) pr else None) of
                   None \<Rightarrow> fail (EvidenceError ''Dev evidence applies only to an open same-repository dev-to-preprod promotion PR.'')
                 | Some sha \<Rightarrow> ret sha))
      else if mode = ''staging_merge''
      then (case as_dict (dget event ''workflow_run'') of
              None \<Rightarrow> fail (EvidenceError ''Staging evidence requires a preprod workflow_run.'')
            | Some w \<Rightarrow>
                if dget w ''head_branch'' \<noteq> JStr ''preprod''
                then fail (EvidenceError ''Staging evidence requires a preprod workflow_run.'')
                else (case as_str (dget w ''head_sha'') of
                        None \<Rightarrow> fail (EvidenceError ''The staging merge SHA is missing.'')
                      | Some merge_sha \<Rightarrow> source_sha_for_staging_merge api merge_sha))
      else fail (EvidenceError (''Unsupported evidence gate mode: '' @ mode)))"

definition verify_evidence :: "(string \<Rightarrow> gh_reply) \<Rightarrow> dict \<Rightarrow> string \<Rightarrow> string \<Rightarrow> string run" where
  "verify_evidence cli event mode repo =
     (let api = \<lparr>repository = repo, gh = cli\<rparr>
      in run_bind (source_sha_of api event mode) (\<lambda>sha.
           run_bind (require_dev_evidence api sha) (\<lambda>_. ret sha)))"

text \<open>
  \<open>main\<close>: the environment as a map and the event file as parsed JSON (\<^const>\<open>None\<close> when it cannot be
  opened or parsed); the value is the exit status.
\<close>

definition gate_main ::
  "(string \<Rightarrow> gh_reply) \<Rightarrow> (string \<Rightarrow> string option) \<Rightarrow> (string \<Rightarrow> json option) \<Rightarrow> int option" where
  "gate_main cli env read_json =
     (case (env ''DEV_EVIDENCE_MODE'', env ''GITHUB_REPOSITORY'') of
        (Some mode, Some repo) \<Rightarrow>
          (case (if mode = ''source_sha''
                 then map_option (\<lambda>sha. JObj [(''source_sha'', JStr sha)]) (env ''DEV_SOURCE_SHA'')
                 else (case env ''GITHUB_EVENT_PATH'' of None \<Rightarrow> None | Some p \<Rightarrow> read_json p)) of
             Some (JObj event) \<Rightarrow>
               map_option (\<lambda>r. case r of Inl _ \<Rightarrow> 1 | Inr _ \<Rightarrow> 0) (verify_evidence cli event mode repo)
           | _ \<Rightarrow> Some 1)
      | _ \<Rightarrow> Some 1)"

end
