(* ===== verification/Release_Rules.thy ===== *)
theory Release_Rules
  imports Release_Gate
begin

text \<open>
  What the evidence gate guarantees. A loop over pages is an instance of the locale
  \<open>counted_pages\<close>: it asks for another page only while the count GitHub reported on this one is
  not reached, so it returns whenever those counts are bounded. \<open>dev_evidence\<close> says, in terms of
  the answers of GitHub alone, what has to exist for a commit; the gate accepts nothing else.
\<close>

section \<open>Runs\<close>

lemma run_bind_simps [simp]:
  "run_bind None f = None" "run_bind (fail e) f = fail e" "run_bind (ret x) f = f x"
  by (simp_all add: run_bind_def)

lemma run_bind_retE:
  assumes "run_bind m f = ret y"
  obtains x where "m = ret x" "f x = ret y"
  using assms by (auto simp: run_bind_def split: option.splits sum.splits)

lemma run_bind_None [simp]: "run_bind m f = None \<longleftrightarrow> m = None \<or> (\<exists>x. m = ret x \<and> f x = None)"
  by (auto simp: run_bind_def split: option.splits sum.splits)

lemma first_of_SomeE:
  assumes "first_of body xs = ret (Some y)"
  obtains x where "x \<in> set xs" "body x = ret (Some y)"
proof -
  have "\<exists>x \<in> set xs. body x = ret (Some y)"
    using assms by (induction xs) (auto elim!: run_bind_retE split: option.splits)
  then show thesis using that by blast
qed

lemma first_of_returns: "(\<And>x. x \<in> set xs \<Longrightarrow> body x \<noteq> None) \<Longrightarrow> first_of body xs \<noteq> None"
  by (induction xs) (auto split: option.splits)

lemma while_true_inv:
  assumes ret: "while_true body page acc = Some r" and "keep page acc"
    and again: "\<And>p a a'. keep p a \<Longrightarrow> body p a = Some (Inr (Again a')) \<Longrightarrow> keep (Suc p) a'"
    and return: "\<And>p a x. keep p a \<Longrightarrow> body p a = Some (Inr (Return x)) \<Longrightarrow> goal x"
  shows "case r of Inl e \<Rightarrow> True | Inr x \<Rightarrow> goal x"
proof -
  have "keep page acc \<longrightarrow> (case r of Inl e \<Rightarrow> True | Inr x \<Rightarrow> goal x)"
  proof (rule while_true.raw_induct [where P = "\<lambda>b p a r. b = body \<longrightarrow> keep p a \<longrightarrow>
      (case r of Inl e \<Rightarrow> True | Inr x \<Rightarrow> goal x)", OF _ ret, THEN mp, OF _ refl])
    fix f b p a r
    assume IH: "\<And>b p a r. f b p a = Some r \<Longrightarrow>
        b = body \<longrightarrow> keep p a \<longrightarrow> (case r of Inl e \<Rightarrow> True | Inr x \<Rightarrow> goal x)"
      and eq: "(case b p a of None \<Rightarrow> None | Some r \<Rightarrow> (case r of Inl e \<Rightarrow> Some (Inl e)
         | Inr t \<Rightarrow> (case t of Return x \<Rightarrow> Some (Inr x) | Again a' \<Rightarrow> f b (Suc p) a'))) = Some r"
    show "b = body \<longrightarrow> keep p a \<longrightarrow> (case r of Inl e \<Rightarrow> True | Inr x \<Rightarrow> goal x)"
      using eq again return
      by (auto split: option.splits sum.splits turn.splits dest: IH)
  qed
  with \<open>keep page acc\<close> show ?thesis by blast
qed

lemmas while_true_invD = while_true_inv [where r = "Inr x" for x, simplified]

locale counted_pages =
  fixes body :: "nat \<Rightarrow> 'a \<Rightarrow> ('a, 'b) turn run" and reported :: "nat \<Rightarrow> int"
  assumes again_counted: "body p a = Some (Inr (Again a')) \<Longrightarrow> int p * 100 < reported p"
begin

lemma loop_returns:
  assumes body: "\<And>p a. body p a \<noteq> None" and bound: "\<And>p. reported p \<le> N"
  shows "while_true body p a \<noteq> None"
proof (induction "nat (N - int p * 100)" arbitrary: p a rule: less_induct)
  case less
  show ?case
  proof (cases "\<exists>a'. body p a = Some (Inr (Again a'))")
    case True
    then obtain a' where step: "body p a = Some (Inr (Again a'))" ..
    have "int p * 100 < N"
      using again_counted [OF step] bound [of p] by linarith
    then have "while_true body (Suc p) a' \<noteq> None"
      by (intro less) simp
    with step show ?thesis by (simp add: while_true.simps [of body p])
  next
    case False
    with body [of p a] show ?thesis
      by (auto simp: while_true.simps [of body p] split: option.splits sum.splits turn.splits)
  qed
qed

end

section \<open>Answers of GitHub\<close>

definition gh_answers :: "github \<Rightarrow> string \<Rightarrow> json \<Rightarrow> bool" where
  "gh_answers api endpoint v \<longleftrightarrow> gh api (''repos/'' @ repository api @ ''/'' @ endpoint) = GhJson v"

text \<open>\<open>x\<close> is an object in the list \<open>field\<close> of some page.\<close>

definition listed :: "github \<Rightarrow> (nat \<Rightarrow> string) \<Rightarrow> string \<Rightarrow> dict \<Rightarrow> bool" where
  "listed api url field x \<longleftrightarrow>
     (\<exists>page d xs. gh_answers api (url page) (JObj d) \<and> dget d field = JArr xs \<and> JObj x \<in> set xs)"

definition reported_count :: "github \<Rightarrow> string \<Rightarrow> int" where
  "reported_count api endpoint =
     (case gh api (''repos/'' @ repository api @ ''/'' @ endpoint) of
        GhJson (JObj d) \<Rightarrow> (case as_int (dget d ''total_count'') of None \<Rightarrow> 0 | Some n \<Rightarrow> n)
      | _ \<Rightarrow> 0)"

lemma set_dicts_of [simp]: "d \<in> set (dicts_of xs) \<longleftrightarrow> JObj d \<in> set xs"
  by (force simp: dicts_of_def List.map_filter_def)

lemma api_get_InrD: "api_get api endpoint = Inr v \<Longrightarrow> gh_answers api endpoint v"
  by (auto simp: api_get_def gh_answers_def split: gh_reply.splits if_splits)

lemma listing_retE:
  assumes "listing api endpoint field invalid = ret (d, xs)"
  obtains "gh_answers api endpoint (JObj d)" "dget d field = JArr xs"
  using assms by (auto simp: listing_def dest!: api_get_InrD split: sum.splits option.splits)

lemma listing_returns [simp]: "listing api endpoint field invalid \<noteq> None"
  by (auto simp: listing_def split: sum.splits option.splits)

lemma next_page_returns [simp]: "next_page page d omitted acc result \<noteq> None"
  by (auto simp: next_page_def split: option.splits)

lemma next_page_Again:
  assumes "next_page page d omitted acc result = Some (Inr (Again a))" "gh_answers api endpoint (JObj d)"
  shows "int page * 100 < reported_count api endpoint \<and> a = acc"
  using assms by (auto simp: next_page_def reported_count_def gh_answers_def split: option.splits if_splits)

lemma next_page_Return: "next_page page d omitted acc result = Some (Inr (Return r)) \<Longrightarrow> r = result"
  by (auto simp: next_page_def split: option.splits if_splits)

section \<open>The loops\<close>

interpretation artifact_pages:
  counted_pages "artifacts_page api name" "\<lambda>p. reported_count api (artifacts_url name p)" for api name
  by unfold_locales
     (auto simp: artifacts_page_def Let_def elim!: run_bind_retE listing_retE dest: next_page_Again)

interpretation test_run_pages:
  counted_pages "test_runs_page api sha" "\<lambda>p. reported_count api (workflow_runs_url ''tests.yaml'' sha p)" for api sha
  by unfold_locales
     (auto simp: test_runs_page_def Let_def elim!: run_bind_retE listing_retE dest: next_page_Again)

interpretation cloud_run_pages:
  counted_pages "cloud_runs_page api sha" "\<lambda>p. reported_count api (workflow_runs_url ''deploy-dev.yml'' sha p)" for api sha
  by unfold_locales
     (auto simp: cloud_runs_page_def elim!: run_bind_retE listing_retE dest: next_page_Again split: option.splits)

text \<open>The loops that collect what they pick from each page.\<close>

lemma collected_from_pages:
  assumes "while_true (\<lambda>p acc. run_bind (listing api (url p) field invalid)
      (\<lambda>(d, xs). next_page p d omitted (acc @ pick xs) (acc @ pick xs))) 1 [] = ret ys"
    and "y \<in> set ys"
  shows "\<exists>p d xs. gh_answers api (url p) (JObj d) \<and> dget d field = JArr xs \<and> y \<in> set (pick xs)"
proof -
  let ?ok = "\<lambda>ys. \<forall>y \<in> set ys. \<exists>p d xs. gh_answers api (url p) (JObj d) \<and> dget d field = JArr xs \<and> y \<in> set (pick xs)"
  let ?body = "\<lambda>p acc. run_bind (listing api (url p) field invalid)
      (\<lambda>(d, xs). next_page p d omitted (acc @ pick xs) (acc @ pick xs))"
  have page: "?ok acc'" if acc: "?ok acc" and step: "?body p acc = Some (Inr t)" and t: "t = Again acc' \<or> t = Return acc'" for p acc acc' t
  proof -
    obtain d xs where "listing api (url p) field invalid = ret (d, xs)"
      and "next_page p d omitted (acc @ pick xs) (acc @ pick xs) = Some (Inr t)"
      using step by (auto elim!: run_bind_retE)
    then have "gh_answers api (url p) (JObj d)" "dget d field = JArr xs" "acc' = acc @ pick xs"
      using t by (auto elim!: listing_retE simp: next_page_def split: option.splits if_splits)
    with acc show ?thesis by auto
  qed
  have "?ok ys"
  proof (rule while_true_invD [where keep = "\<lambda>_. ?ok", OF assms(1)])
    show "?ok acc'" if "?ok acc" "?body p acc = Some (Inr (Again acc'))" for p acc acc'
      by (rule page [OF that disjI1 [OF refl]])
    show "?ok acc'" if "?ok acc" "?body p acc = Some (Inr (Return acc'))" for p acc acc'
      by (rule page [OF that disjI2 [OF refl]])
  qed simp
  with assms(2) show ?thesis by blast
qed

lemma artifacts_listed:
  assumes "artifacts api name = ret xs" "a \<in> set xs"
  shows "listed api (artifacts_url name) ''artifacts'' a \<and> live_artifact name a"
  using collected_from_pages [OF assms(1) [unfolded artifacts_def artifacts_page_def [abs_def] Let_def] assms(2)]
  by (auto simp: listed_def)

lemma test_runs_listed:
  assumes "successful_dev_test_runs api sha = ret ids" "i \<in> set ids"
  shows "\<exists>r. listed api (workflow_runs_url ''tests.yaml'' sha) ''workflow_runs'' r \<and>
    dev_push_run (repository api) sha TEST_WORKFLOW_PATH r \<and> i = py_str (dget r ''id'')"
  using collected_from_pages [OF assms(1) [unfolded successful_dev_test_runs_def test_runs_page_def [abs_def] Let_def] assms(2)]
  by (auto simp: listed_def)

section \<open>Evidence\<close>

definition merged_into_dev :: "github \<Rightarrow> string \<Rightarrow> bool" where
  "merged_into_dev api sha \<longleftrightarrow>
     (\<exists>prs pr b h. gh_answers api (pulls_url sha) (JArr prs) \<and> JObj pr \<in> set prs \<and>
        dget pr ''merged_at'' \<noteq> JNull \<and> dget pr ''merge_commit_sha'' = JStr sha \<and>
        dget pr ''base'' = JObj b \<and> dget b ''ref'' = JStr ''dev'' \<and> is_repo (repository api) (dget b ''repo'') \<and>
        dget pr ''head'' = JObj h \<and> is_repo (repository api) (dget h ''repo''))"

text \<open>A successful cloud release of the commit left an artifact that names its own run.\<close>

definition cloud_evidence :: "github \<Rightarrow> string \<Rightarrow> bool" where
  "cloud_evidence api sha \<longleftrightarrow>
     (\<exists>r a n name w.
        listed api (workflow_runs_url ''deploy-dev.yml'' sha) ''workflow_runs'' r \<and>
        dev_push_run (repository api) sha DEV_RELEASE_WORKFLOW_PATH r \<and> as_int (dget r ''id'') = Some n \<and>
        name = CLOUD_EVIDENCE_PREFIX @ sha @ ''-'' @ py_str (dget r ''id'') \<and>
        listed api (artifacts_url name) ''artifacts'' a \<and> live_artifact name a \<and>
        dget a ''workflow_run'' = JObj w \<and> eq_int (dget w ''id'') n)"

text \<open>
  A successful test run of the commit has an artifact left by a migration run that succeeded and
  ran the migration step and the smoke step once each.
\<close>

definition migrated_by :: "github \<Rightarrow> string \<Rightarrow> bool" where
  "migrated_by api run_id \<longleftrightarrow>
     (\<exists>m d jobs. gh_answers api (run_url run_id) (JObj m) \<and> migration_run_ok (repository api) m \<and>
        gh_answers api (jobs_url run_id) (JObj d) \<and> dget d ''jobs'' = JArr jobs \<and>
        count_list (successful_steps jobs) (JStr MIGRATION_STEP) = 1 \<and>
        count_list (successful_steps jobs) (JStr SMOKE_STEP) = 1)"

definition neon_evidence :: "github \<Rightarrow> string \<Rightarrow> bool" where
  "neon_evidence api sha \<longleftrightarrow>
     (\<exists>r parent m a name w.
        listed api (workflow_runs_url ''tests.yaml'' sha) ''workflow_runs'' r \<and> parent = py_str (dget r ''id'') \<and>
        gh_answers api (run_url parent) (JObj m) \<and>
        dev_push_run (repository api) sha TEST_WORKFLOW_PATH m \<and>
        name = DEV_EVIDENCE_PREFIX @ sha @ ''-'' @ parent \<and>
        listed api (artifacts_url name) ''artifacts'' a \<and> live_artifact name a \<and>
        dget a ''workflow_run'' = JObj w \<and> migrated_by api (py_str (dget w ''id'')))"

definition dev_evidence :: "github \<Rightarrow> string \<Rightarrow> bool" where
  "dev_evidence api sha \<longleftrightarrow>
     is_sha sha \<and> merged_into_dev api sha \<and> (cloud_evidence api sha \<or> neon_evidence api sha)"

lemma require_merged_dev_pr_sound: "require_merged_dev_pr api sha = ret u \<Longrightarrow> merged_into_dev api sha"
  by (auto simp: require_merged_dev_pr_def merged_into_dev_def merged_dev_pr_def with_dict_iff list_ex_iff
      dest!: api_get_InrD split: sum.splits option.splits if_splits) blast

lemma check_artifact_sound:
  assumes "check_artifact api a = ret (Some u)"
  shows "\<exists>w. dget a ''workflow_run'' = JObj w \<and> migrated_by api (py_str (dget w ''id''))"
  using assms
  by (auto simp: check_artifact_def migrated_by_def has_successful_required_steps_def Let_def with_dict_iff
      dest!: api_get_InrD elim!: run_bind_retE listing_retE split: option.splits sum.splits if_splits) blast

lemma check_parent_sound:
  assumes "check_parent api sha parent = ret (Some u)"
  obtains m a w where "gh_answers api (run_url parent) (JObj m)"
    "dev_push_run (repository api) sha TEST_WORKFLOW_PATH m"
    "listed api (artifacts_url (DEV_EVIDENCE_PREFIX @ sha @ ''-'' @ parent)) ''artifacts'' a"
    "live_artifact (DEV_EVIDENCE_PREFIX @ sha @ ''-'' @ parent) a"
    "dget a ''workflow_run'' = JObj w" "migrated_by api (py_str (dget w ''id''))"
proof -
  obtain xs where parent: "require_parent_test_run api parent sha = ret ()"
    and xs: "artifacts api (DEV_EVIDENCE_PREFIX @ sha @ ''-'' @ parent) = ret xs"
    and hit: "first_of (check_artifact api) xs = ret (Some u)"
    using assms by (auto simp: check_parent_def elim!: run_bind_retE)
  obtain m where m: "gh_answers api (run_url parent) (JObj m)"
    "dev_push_run (repository api) sha TEST_WORKFLOW_PATH m"
    using parent by (auto simp: require_parent_test_run_def with_dict_iff dest!: api_get_InrD
        split: sum.splits if_splits)
  obtain a where a: "a \<in> set xs" "check_artifact api a = ret (Some u)"
    using hit by (rule first_of_SomeE)
  with artifacts_listed [OF xs a(1)] check_artifact_sound [OF a(2)] m show thesis
    by (blast intro: that)
qed

lemma check_cloud_run_sound:
  assumes "check_cloud_run api sha r = ret (Some u)"
    and "listed api (workflow_runs_url ''deploy-dev.yml'' sha) ''workflow_runs'' r"
  shows "cloud_evidence api sha"
proof -
  obtain n found a where "as_int (dget r ''id'') = Some n"
    "dev_push_run (repository api) sha DEV_RELEASE_WORKFLOW_PATH r"
    "artifacts api (CLOUD_EVIDENCE_PREFIX @ sha @ ''-'' @ py_str (dget r ''id'')) = ret found"
    "a \<in> set found" "with_dict (dget a ''workflow_run'') (\<lambda>w. eq_int (dget w ''id'') n)"
    using assms(1) by (auto simp: check_cloud_run_def list_ex_iff elim!: run_bind_retE split: option.splits if_splits)
  then show ?thesis
    unfolding cloud_evidence_def with_dict_iff using assms(2) artifacts_listed by blast
qed

lemma cloud_page_sound:
  assumes "cloud_runs_page api sha page v = Some (Inr (Return True))"
  shows "cloud_evidence api sha"
proof -
  obtain d xs where "listing api (workflow_runs_url ''deploy-dev.yml'' sha page) ''workflow_runs''
      ''GitHub returned invalid cloud dev release evidence.'' = ret (d, xs)"
    and "first_of (check_cloud_run api sha) (dicts_of xs) = ret (Some ())"
    using assms by (auto simp: cloud_runs_page_def elim!: run_bind_retE dest: next_page_Return split: option.splits)
  then show ?thesis
    by (elim listing_retE first_of_SomeE check_cloud_run_sound) (auto simp: listed_def)
qed

lemma cloud_evidence_sound:
  assumes "has_cloud_dev_release_evidence api sha = ret True"
  shows "cloud_evidence api sha"
  by (rule while_true_invD [where keep = "\<lambda>_ _. True" and goal = "\<lambda>x. x \<longrightarrow> cloud_evidence api sha",
        OF assms [unfolded has_cloud_dev_release_evidence_def], THEN mp])
     (auto intro: cloud_page_sound)

lemma require_dev_evidence_sound:
  assumes "require_dev_evidence api sha = ret u"
  shows "dev_evidence api sha"
proof -
  have sha: "is_sha sha" using assms by (auto simp: require_dev_evidence_def split: if_splits)
  then obtain v cloud where "require_merged_dev_pr api sha = ret v"
    and cloud: "has_cloud_dev_release_evidence api sha = ret cloud"
    and rest: "\<not> cloud \<Longrightarrow> \<exists>ids hit. successful_dev_test_runs api sha = ret ids \<and>
      first_of (check_parent api sha) ids = ret (Some hit)"
    using assms by (fastforce simp: require_dev_evidence_def elim!: run_bind_retE split: if_splits option.splits)
  moreover have "neon_evidence api sha" if no_cloud: "\<not> cloud"
  proof -
    obtain ids hit where ids: "successful_dev_test_runs api sha = ret ids"
      and "first_of (check_parent api sha) ids = ret (Some hit)" using rest [OF no_cloud] by blast
    then obtain parent where "parent \<in> set ids" "check_parent api sha parent = ret (Some hit)"
      by (auto elim: first_of_SomeE)
    then show ?thesis
      using test_runs_listed [OF ids] unfolding neon_evidence_def by (elim check_parent_sound) blast
  qed
  ultimately show ?thesis
    using sha require_merged_dev_pr_sound cloud_evidence_sound by (cases cloud) (auto simp: dev_evidence_def)
qed

section \<open>What the gate accepts\<close>

text \<open>A promotion from \<open>dev\<close> to \<open>preprod\<close> inside the repository, with the commit it promotes.\<close>

definition promotes :: "string \<Rightarrow> dict \<Rightarrow> string \<Rightarrow> bool" where
  "promotes repo pr sha \<longleftrightarrow>
     (\<exists>b h. dget pr ''base'' = JObj b \<and> dget b ''ref'' = JStr ''preprod'' \<and> is_repo repo (dget b ''repo'') \<and>
            dget pr ''head'' = JObj h \<and> dget h ''ref'' = JStr ''dev'' \<and> is_repo repo (dget h ''repo'') \<and>
            dget h ''sha'' = JStr sha)"

definition same_tree :: "github \<Rightarrow> string \<Rightarrow> string \<Rightarrow> bool" where
  "same_tree api sha merge_sha \<longleftrightarrow>
     (\<exists>c c' t. gh_answers api (''git/commits/'' @ sha) c \<and> gh_answers api (''git/commits/'' @ merge_sha) c' \<and>
              tree_sha c = Some t \<and> tree_sha c' = Some t)"

lemma promotion_pr_iff: "promotion_pr repo pr = Some sha \<longleftrightarrow> promotes repo pr sha"
  by (auto simp: promotion_pr_def promotes_def with_dict_iff split: option.splits)

lemma same_trees_sound:
  assumes "same_trees api merge_sha source = ret (Some sha)"
  shows "source = sha \<and> same_tree api sha merge_sha"
  using assms unfolding same_trees_def same_tree_def
  by (auto dest!: api_get_InrD split: if_splits sum.splits option.splits)

lemma staging_sound:
  assumes "source_sha_for_staging_merge api merge_sha = ret sha"
  shows "same_tree api sha merge_sha \<and> (\<exists>prs pr. gh_answers api (pulls_url merge_sha) (JArr prs) \<and> JObj pr \<in> set prs \<and>
    dget pr ''merged_at'' \<noteq> JNull \<and> dget pr ''merge_commit_sha'' = JStr merge_sha \<and> promotes (repository api) pr sha)"
proof -
  obtain prs where prs: "gh_answers api (pulls_url merge_sha) (JArr prs)"
    and hit: "first_of (\<lambda>pr. case merged_promotion (repository api) merge_sha pr of None \<Rightarrow> ret None
       | Some source \<Rightarrow> same_trees api merge_sha source) (dicts_of prs) = ret (Some sha)"
    using assms by (auto simp: source_sha_for_staging_merge_def dest!: api_get_InrD elim!: run_bind_retE
        split: sum.splits option.splits)
  from hit obtain pr source where "JObj pr \<in> set prs" "merged_promotion (repository api) merge_sha pr = Some source"
    "same_trees api merge_sha source = ret (Some sha)"
    by (auto elim!: first_of_SomeE split: option.splits)
  with prs same_trees_sound [of api merge_sha source sha] show ?thesis
    by (auto simp: merged_promotion_def promotion_pr_iff split: if_splits)
qed

text \<open>The event asks for \<open>sha\<close> in one of the three modes.\<close>

definition event_names :: "github \<Rightarrow> dict \<Rightarrow> string \<Rightarrow> string \<Rightarrow> bool" where
  "event_names api event mode sha \<longleftrightarrow>
     mode = ''source_sha'' \<and> dget event ''source_sha'' = JStr sha \<or>
     mode = ''pull_request'' \<and> (\<exists>pr. dget event ''pull_request'' = JObj pr \<and> dget pr ''state'' = JStr ''open'' \<and>
        promotes (repository api) pr sha) \<or>
     mode = ''staging_merge'' \<and> (\<exists>w m prs pr. dget event ''workflow_run'' = JObj w \<and>
        dget w ''head_branch'' = JStr ''preprod'' \<and> dget w ''head_sha'' = JStr m \<and> same_tree api sha m \<and>
        gh_answers api (pulls_url m) (JArr prs) \<and> JObj pr \<in> set prs \<and> dget pr ''merged_at'' \<noteq> JNull \<and>
        dget pr ''merge_commit_sha'' = JStr m \<and> promotes (repository api) pr sha)"

lemma source_sha_of_sound: "source_sha_of api event mode = ret sha \<Longrightarrow> event_names api event mode sha"
  unfolding source_sha_of_def event_names_def
  by (auto simp: promotion_pr_iff dest!: staging_sound split: if_splits option.splits)

lemma verify_evidence_retE:
  assumes "verify_evidence cli event mode repo = ret sha"
  obtains "event_names \<lparr>repository = repo, gh = cli\<rparr> event mode sha"
    "dev_evidence \<lparr>repository = repo, gh = cli\<rparr> sha"
  using assms
  by (auto simp: verify_evidence_def Let_def elim!: run_bind_retE dest: source_sha_of_sound require_dev_evidence_sound)

section \<open>The gate always answers\<close>

definition returns :: "'a run \<Rightarrow> bool" where
  "returns m \<longleftrightarrow> m \<noteq> None"

named_theorems returning \<open>which runs return\<close>

lemma returns_Some [returning]: "returns (Some r)"
  by (simp add: returns_def)

lemma returns_bind [returning]: "returns m \<Longrightarrow> (\<And>x. returns (f x)) \<Longrightarrow> returns (run_bind m f)"
  by (auto simp: returns_def run_bind_def split: option.splits sum.splits)

lemma returns_split [returning]:
  "(\<And>x y. returns (f x y)) \<Longrightarrow> returns (case p of (x, y) \<Rightarrow> f x y)"
  "returns a \<Longrightarrow> (\<And>x. returns (g x)) \<Longrightarrow> returns (case q of None \<Rightarrow> a | Some x \<Rightarrow> g x)"
  "(\<And>e. returns (h e)) \<Longrightarrow> (\<And>v. returns (k v)) \<Longrightarrow> returns (case r of Inl e \<Rightarrow> h e | Inr v \<Rightarrow> k v)"
  "returns a \<Longrightarrow> returns b \<Longrightarrow> returns (if c then a else b)"
  by (cases p; cases q; cases r; simp)+

lemma returns_first_of [returning]: "(\<And>x. returns (body x)) \<Longrightarrow> returns (first_of body xs)"
  using first_of_returns [of xs body] by (simp add: returns_def)

lemma returns_page [returning]:
  "returns (listing api endpoint field invalid)" "returns (next_page page d omitted acc result)"
  by (simp_all add: returns_def del: not_None_eq)

lemma check_artifact_returns [returning]: "returns (check_artifact api a)"
  unfolding check_artifact_def has_successful_required_steps_def Let_def by (intro returning)

lemma requests_return [returning]:
  "returns (require_merged_dev_pr api sha)" "returns (require_parent_test_run api i sha)"
  "returns (same_trees api m sha)"
  unfolding require_merged_dev_pr_def require_parent_test_run_def same_trees_def by (intro returning)+

lemma source_sha_of_returns [returning]: "returns (source_sha_of api event mode)"
  unfolding source_sha_of_def source_sha_for_staging_merge_def by (intro returning)

text \<open>With bounded counts every loop returns, and so does the gate.\<close>

definition counts_bounded :: "github \<Rightarrow> int \<Rightarrow> bool" where
  "counts_bounded api N \<longleftrightarrow> (\<forall>endpoint. reported_count api endpoint \<le> N)"

lemma counted_loop_returns:
  assumes "counted_pages body (\<lambda>p. reported_count api (url p))" "counts_bounded api N"
    and "\<And>p a. returns (body p a)"
  shows "returns (while_true body p a)"
  using counted_pages.loop_returns [OF assms(1), of N p a] assms(2,3)
  unfolding returns_def counts_bounded_def by blast

lemma artifacts_return: "counts_bounded api N \<Longrightarrow> returns (artifacts api name)"
  unfolding artifacts_def
  by (rule counted_loop_returns [OF artifact_pages.counted_pages_axioms])
     (auto simp: artifacts_page_def Let_def intro!: returning)

lemma test_runs_return: "counts_bounded api N \<Longrightarrow> returns (successful_dev_test_runs api sha)"
  unfolding successful_dev_test_runs_def
  by (rule counted_loop_returns [OF test_run_pages.counted_pages_axioms])
     (auto simp: test_runs_page_def Let_def intro!: returning)

lemma cloud_returns: "counts_bounded api N \<Longrightarrow> returns (has_cloud_dev_release_evidence api sha)"
  unfolding has_cloud_dev_release_evidence_def
  by (rule counted_loop_returns [OF cloud_run_pages.counted_pages_axioms])
     (auto simp: cloud_runs_page_def check_cloud_run_def intro!: returning artifacts_return)

lemma require_dev_evidence_returns: "counts_bounded api N \<Longrightarrow> returns (require_dev_evidence api sha)"
  unfolding require_dev_evidence_def check_parent_def [abs_def]
  by (intro returning cloud_returns test_runs_return artifacts_return)

section \<open>An accepted commit\<close>

definition demo_sha :: string where
  "demo_sha = replicate 40 (CHR ''a'')"

definition demo_repo :: json where
  "demo_repo = JObj [(''full_name'', JStr ''o/r'')]"

definition demo_test_run :: "int \<Rightarrow> dict" where
  "demo_test_run i =
     [(''id'', JInt i), (''status'', JStr ''completed''), (''conclusion'', JStr ''success''), (''event'', JStr ''push''),
      (''head_branch'', JStr ''dev''), (''head_sha'', JStr demo_sha), (''head_repository'', demo_repo),
      (''path'', JStr TEST_WORKFLOW_PATH)]"

definition demo_step :: "string \<Rightarrow> json" where
  "demo_step name = JObj [(''name'', JStr name), (''conclusion'', JStr ''success'')]"

text \<open>What GitHub answers about a commit that was merged, tested and migrated by run 8.\<close>

definition demo_answers :: "(string \<times> json) list" where
  "demo_answers =
     [(pulls_url demo_sha,
       JArr [JObj [(''merged_at'', JStr ''2026-01-01''), (''merge_commit_sha'', JStr demo_sha),
                   (''base'', JObj [(''ref'', JStr ''dev''), (''repo'', demo_repo)]),
                   (''head'', JObj [(''ref'', JStr ''feature''), (''repo'', demo_repo)])]]),
      (workflow_runs_url ''deploy-dev.yml'' demo_sha 1, JObj [(''workflow_runs'', JArr []), (''total_count'', JInt 0)]),
      (workflow_runs_url ''tests.yaml'' demo_sha 1,
       JObj [(''workflow_runs'', JArr [JObj (demo_test_run 7)]), (''total_count'', JInt 1)]),
      (run_url ''7'', JObj (demo_test_run 7)),
      (artifacts_url (DEV_EVIDENCE_PREFIX @ demo_sha @ ''-7'') 1,
       JObj [(''artifacts'', JArr [JObj [(''name'', JStr (DEV_EVIDENCE_PREFIX @ demo_sha @ ''-7'')),
                (''expired'', JBool False), (''workflow_run'', JObj [(''id'', JInt 8)])]]),
             (''total_count'', JInt 1)]),
      (run_url ''8'',
       JObj [(''status'', JStr ''completed''), (''conclusion'', JStr ''success''), (''event'', JStr ''workflow_run''),
             (''path'', JStr WORKFLOW_PATH), (''repository'', demo_repo)]),
      (jobs_url ''8'',
       JObj [(''jobs'', JArr [JObj [(''status'', JStr ''completed''), (''conclusion'', JStr ''success''),
                (''steps'', JArr [demo_step MIGRATION_STEP, demo_step SMOKE_STEP])]])])]"

definition demo_cli :: "string \<Rightarrow> gh_reply" where
  "demo_cli path =
     (case find (\<lambda>(url, v). path = ''repos/o/r/'' @ url) demo_answers of
        None \<Rightarrow> GhExit
      | Some (url, v) \<Rightarrow> GhJson v)"

lemma demo_accepted:
  "verify_evidence demo_cli [(''source_sha'', JStr demo_sha)] ''source_sha'' ''o/r'' = Some (Inr demo_sha)"
  by code_simp

lemma demo_bounded: "counts_bounded \<lparr>repository = repo, gh = demo_cli\<rparr> 1"
proof -
  have "as_int (dget d ''total_count'') = Some n \<Longrightarrow> n \<le> 1" if "(url, JObj d) \<in> set demo_answers" for url d n
    using that by (auto simp: demo_answers_def demo_test_run_def dict_get_def)
  then have "n \<le> 1" if "demo_cli path = GhJson (JObj d)" "as_int (dget d ''total_count'') = Some n" for path d n
    using that by (auto simp: demo_cli_def find_Some_iff split: option.splits) (metis nth_mem)
  then show ?thesis
    by (auto simp: counts_bounded_def reported_count_def split: gh_reply.splits json.splits option.splits)
qed

section \<open>Properties\<close>

text \<open>
  C8: The evidence gate fails closed. If it accepts a commit, then the event names that commit in
  its mode (an open promotion inside the repository, or a merged one whose tree equals that of the
  source), the commit is the merge commit of a pull request merged into \<open>dev\<close>, and GitHub
  shows either a successful cloud release with its own live artifact or a successful test run with a live artifact
  of a migration run that migrated and smoke-tested exactly once. The migration gate then also
  finds every successful push of that commit to \<open>dev\<close> eligible.
\<close>

theorem evidence_gate_fails_closed:
  assumes "verify_evidence cli event mode repo = Some (Inr sha)"
  shows "event_names \<lparr>repository = repo, gh = cli\<rparr> event mode sha \<and>
    dev_evidence \<lparr>repository = repo, gh = cli\<rparr> sha \<and>
    (\<forall>push cloud. push_of repo cloud push = Inr (Some (''dev'', sha)) \<longrightarrow>
       should_run_migration cli push repo cloud = Inr True)"
proof -
  let ?api = "\<lparr>repository = repo, gh = cli\<rparr>"
  have ok: "event_names ?api event mode sha" "dev_evidence ?api sha"
    using assms by (auto elim: verify_evidence_retE)
  from ok(2) obtain prs pr where "gh_answers ?api (pulls_url sha) (JArr prs)" "JObj pr \<in> set prs"
    "merged_pr repo ''dev'' sha pr"
    by (auto simp: dev_evidence_def merged_into_dev_def merged_pr_def)
  then have "\<forall>push cloud. push_of repo cloud push = Inr (Some (''dev'', sha)) \<longrightarrow>
      should_run_migration cli push repo cloud = Inr True"
    by (auto simp: should_run_migration_def gh_answers_def pulls_url_def list_ex_iff)
  with ok show ?thesis by blast
qed

theorem evidence_gate_fails_closed_witness:
  "dev_evidence \<lparr>repository = ''o/r'', gh = demo_cli\<rparr> demo_sha"
  using evidence_gate_fails_closed [OF demo_accepted] by blast

text \<open>
  C16: The evidence gate always comes to an answer when the totals GitHub reports are bounded,
  whatever they are on each page and however the event looks: the three paging loops stop
  after at most one page for each hundred of the bound.
\<close>

theorem evidence_gate_terminates:
  assumes "counts_bounded \<lparr>repository = repo, gh = cli\<rparr> N"
  shows "\<exists>r. verify_evidence cli event mode repo = Some r"
proof -
  have "returns (verify_evidence cli event mode repo)"
    unfolding verify_evidence_def Let_def
    by (intro returning require_dev_evidence_returns [OF assms])
  then show ?thesis by (simp add: returns_def)
qed

theorem evidence_gate_terminates_witness:
  "\<exists>r. verify_evidence demo_cli [(''source_sha'', JStr demo_sha)] ''source_sha'' ''o/r'' = Some r"
  by (rule evidence_gate_terminates [OF demo_bounded])

end
