(* ===== verification/Identity.thy ===== *)
theory Identity
  imports Json Accounts
begin

text \<open>
  The identity providers of \<open>accounts/identity/\<close>: \<open>EntraProvider\<close>, which verifies the Microsoft
  ID token and reads the directory through Graph, \<open>MockProvider\<close>, and the choice between them.
  Parameters are PyJWT (\<open>signing_key\<close>, \<open>jwt_decode\<close>), the HTTP client (\<open>http_get\<close>), \<open>json.loads\<close>
  and the SHA-1 based \<open>uuid5\<close>. Next to its result a provider gives the list of the URLs it sent
  the bearer token to. An object id is the 128-bit number of the UUID. A name in a claim or a
  profile that is not text fails later in the code, in \<open>_clip\<close>; here it fails where it is read.
\<close>

section \<open>UUIDs\<close>

text \<open>\<open>s.replace(p, "")\<close> for a pattern that is not empty.\<close>

function py_remove :: "string \<Rightarrow> string \<Rightarrow> string" where
  "py_remove p [] = []"
| "py_remove p (c # s) =
     (if py_startswith (c # s) p then py_remove p (drop (max 1 (length p)) (c # s)) else c # py_remove p s)"
  by pat_completeness auto
termination
  by (relation "measure (\<lambda>(p, s). length s)") auto

declare py_remove.simps [simp del]

definition strip_braces :: "string \<Rightarrow> string" where
  "strip_braces s = rev (dropWhile (\<lambda>c. c \<in> set ''{}'') (rev (dropWhile (\<lambda>c. c \<in> set ''{}'') s)))"

definition hex_value :: "char \<Rightarrow> nat option" where
  "hex_value c =
     (let n = (of_char c :: nat)
      in if 48 \<le> n \<and> n \<le> 57 then Some (n - 48)
         else if 97 \<le> n \<and> n \<le> 102 then Some (n - 87)
         else if 65 \<le> n \<and> n \<le> 70 then Some (n - 55)
         else None)"

text \<open>
  \<open>int(s, 16)\<close>: surrounding white space, a sign, a prefix \<open>0x\<close> (after which an underscore may
  follow) and single underscores between digits.
\<close>

definition hex_number :: "string \<Rightarrow> nat option" where
  "hex_number w =
     (if \<exists>part \<in> set (py_split_on (CHR ''_'') w). part = [] \<or> list_ex (\<lambda>c. hex_value c = None) part then None
      else Some (foldl (\<lambda>a c. 16 * a + the (hex_value c)) 0 (filter (\<lambda>c. c \<noteq> CHR ''_'') w)))"

definition hex_unsigned :: "string \<Rightarrow> nat option" where
  "hex_unsigned w =
     (if py_startswith w ''0x'' \<or> py_startswith w ''0X''
      then (let rest = drop 2 w in hex_number (if py_startswith rest ''_'' then drop 1 rest else rest))
      else hex_number w)"

definition int_base16 :: "string \<Rightarrow> int option" where
  "int_base16 s =
     (let w = py_strip s
      in if py_startswith w ''-'' then map_option (\<lambda>n. - int n) (hex_unsigned (drop 1 w))
         else map_option int (hex_unsigned (if py_startswith w ''+'' then drop 1 w else w)))"

text \<open>\<open>uuid.UUID(text)\<close>, \<^const>\<open>None\<close> for a \<open>ValueError\<close>.\<close>

definition parse_uuid :: "string \<Rightarrow> nat option" where
  "parse_uuid text =
     (let hex = py_remove ''-'' (strip_braces (py_remove ''uuid:'' (py_remove ''urn:'' text)))
      in if length hex \<noteq> 32 then None
         else (case int_base16 hex of
                 None \<Rightarrow> None
               | Some n \<Rightarrow> if 0 \<le> n \<and> n < 2 ^ 128 then Some (nat n) else None))"

fun hex_digits :: "nat \<Rightarrow> nat \<Rightarrow> string" where
  "hex_digits 0 n = []"
| "hex_digits (Suc k) n = hex_digits k (n div 16) @ [hex_digit (n mod 16)]"

text \<open>\<open>str(uuid)\<close>: 32 lowercase digits in groups of 8, 4, 4, 4 and 12.\<close>

definition uuid_str :: "nat \<Rightarrow> string" where
  "uuid_str n =
     (let h = hex_digits 32 n
      in take 8 h @ ''-'' @ take 4 (drop 8 h) @ ''-'' @ take 4 (drop 12 h) @ ''-'' @ take 4 (drop 16 h) @ ''-'' @ drop 20 h)"

section \<open>Documents\<close>

fun truthy :: "json \<Rightarrow> bool" where
  "truthy JNull = False"
| "truthy (JBool b) = b"
| "truthy (JInt n) = (n \<noteq> 0)"
| "truthy (JFloat r) = (r \<noteq> ''0.0'' \<and> r \<noteq> ''-0.0'')"
| "truthy (JStr v) = (v \<noteq> [])"
| "truthy (JArr xs) = (xs \<noteq> [])"
| "truthy (JObj d) = (d \<noteq> [])"

abbreviation AttributeError :: exc where
  "AttributeError \<equiv> RuntimeError ''AttributeError''"

fun first_text :: "json list \<Rightarrow> string" where
  "first_text [] = []"
| "first_text (v # vs) =
     (case as_str v of
        Some t \<Rightarrow> if py_strip t \<noteq> [] then py_strip t else first_text vs
      | None \<Rightarrow> first_text vs)"

text \<open>\<open>claims.get(k)\<close> and \<open>profile.get(k) or ""\<close> where a name is expected.\<close>

fun optional_name :: "json \<Rightarrow> string option res" where
  "optional_name JNull = Inr None"
| "optional_name (JStr t) = Inr (Some t)"
| "optional_name v = Inl AttributeError"

definition name_or_blank :: "json \<Rightarrow> string option res" where
  "name_or_blank v = (if truthy v then optional_name v else Inr (Some []))"

section \<open>Graph\<close>

definition GRAPH_BASE :: string where
  "GRAPH_BASE = ''https://graph.microsoft.com/v1.0''"

definition PROFILE_FIELDS :: string where
  "PROFILE_FIELDS = ''id,givenName,surname,mail,userPrincipalName,jobTitle,department,employeeId''"

definition MAX_GROUP_PAGES :: nat where
  "MAX_GROUP_PAGES = 3"

text \<open>A reply is its status and its body, \<^const>\<open>None\<close> when the body is not JSON.\<close>

datatype http_reply = HttpError | HttpReply int "json option"

type_synonym query = "(string \<times> string) list option"

type_synonym http = "string \<Rightarrow> query \<Rightarrow> string \<Rightarrow> http_reply"

definition graph_get :: "http \<Rightarrow> string \<Rightarrow> string \<Rightarrow> query \<Rightarrow> dict option" where
  "graph_get http_get url access_token params =
     (case http_get url params access_token of
        HttpError \<Rightarrow> None
      | HttpReply code body \<Rightarrow>
          if code \<noteq> 200 then None else (case body of None \<Rightarrow> None | Some v \<Rightarrow> as_dict v))"

definition me_url :: string where
  "me_url = GRAPH_BASE @ ''/me''"

definition groups_url :: string where
  "groups_url = GRAPH_BASE @ ''/me/transitiveMemberOf/microsoft.graph.group''"

definition fetch_profile :: "http \<Rightarrow> string \<Rightarrow> nat \<Rightarrow> dict option res" where
  "fetch_profile http_get access_token oid =
     (case graph_get http_get me_url access_token (Some [(''$select'', PROFILE_FIELDS)]) of
        None \<Rightarrow> Inr None
      | Some p \<Rightarrow>
          if py_lower (py_str (dict_get p ''id'' (JStr []))) \<noteq> uuid_str oid then Inl InvalidIdentityTokenError
          else Inr (Some p))"

text \<open>Iterating over \<open>page.get("value", [])\<close>, and \<open>"id" in g\<close> with \<open>g["id"]\<close> for each element.\<close>

fun py_iter :: "json \<Rightarrow> json list res" where
  "py_iter (JArr xs) = Inr xs"
| "py_iter (JObj d) = Inr (map (\<lambda>(k, _). JStr k) d)"
| "py_iter (JStr v) = Inr (map (\<lambda>c. JStr [c]) v)"
| "py_iter v = Inl PyTypeError"

fun group_id :: "json \<Rightarrow> string list res" where
  "group_id (JObj d) = Inr (case map_of d ''id'' of None \<Rightarrow> [] | Some v \<Rightarrow> [py_str v])"
| "group_id (JStr v) = (if py_contains v ''id'' then Inl PyTypeError else Inr [])"
| "group_id (JArr xs) = (if JStr ''id'' \<in> set xs then Inl PyTypeError else Inr [])"
| "group_id v = Inl PyTypeError"

fun group_ids :: "json list \<Rightarrow> string list res" where
  "group_ids [] = Inr []"
| "group_ids (g # gs) = res_bind (group_id g) (\<lambda>i. res_bind (group_ids gs) (\<lambda>is. Inr (i @ is)))"

text \<open>
  The body of the loop \<open>for _ in range(_MAX_GROUP_PAGES)\<close> with the pages that are left; the
  second component lists the URLs that received the token.
\<close>

fun group_pages ::
  "http \<Rightarrow> string \<Rightarrow> nat \<Rightarrow> string \<Rightarrow> query \<Rightarrow> string list \<Rightarrow> string list option res \<times> string list" where
  "group_pages http_get access_token 0 url params ids = (Inr (Some ids), [])"
| "group_pages http_get access_token (Suc n) url params ids =
     (case graph_get http_get url access_token params of
        None \<Rightarrow> (Inr None, [url])
      | Some page \<Rightarrow>
          (case res_bind (py_iter (dict_get page ''value'' (JArr []))) group_ids of
             Inl e \<Rightarrow> (Inl e, [url])
           | Inr found \<Rightarrow>
               (let link = dget page ''@odata.nextLink''
                in if \<not> truthy link then (Inr (Some (ids @ found)), [url])
                   else (case as_str link of
                           None \<Rightarrow> (Inl AttributeError, [url])
                         | Some next_url \<Rightarrow>
                             if \<not> py_startswith next_url (GRAPH_BASE @ ''/'') then (Inr (Some (ids @ found)), [url])
                             else (let (r, sent) = group_pages http_get access_token n next_url None (ids @ found)
                                   in (r, url # sent))))))"

definition fetch_group_ids :: "http \<Rightarrow> string \<Rightarrow> string list option res \<times> string list" where
  "fetch_group_ids http_get access_token =
     group_pages http_get access_token MAX_GROUP_PAGES groups_url (Some [(''$select'', ''id''), (''$top'', ''999'')]) []"

section \<open>The Entra provider\<close>

datatype key_reply = KeyConnectionError | KeyJWTError | SigningKey string

record entra =
  tenant_id :: string
  client_id :: string
  signing_key :: "string \<Rightarrow> key_reply"
  jwt_decode :: "string \<Rightarrow> string \<Rightarrow> string \<Rightarrow> string \<Rightarrow> dict option"
  http_get :: http

definition entra_provider ::
  "string \<Rightarrow> string \<Rightarrow> (string \<Rightarrow> key_reply) \<Rightarrow> (string \<Rightarrow> string \<Rightarrow> string \<Rightarrow> string \<Rightarrow> dict option) \<Rightarrow> http \<Rightarrow> entra" where
  "entra_provider tenant client keys decode http =
     \<lparr>tenant_id = py_lower tenant, client_id = client, signing_key = keys, jwt_decode = decode, http_get = http\<rparr>"

definition issuer :: "entra \<Rightarrow> string" where
  "issuer e = ''https://login.microsoftonline.com/'' @ tenant_id e @ ''/v2.0''"

text \<open>The verified claims with the object id they carry.\<close>

definition verify_id_token :: "entra \<Rightarrow> string \<Rightarrow> (dict \<times> nat) res" where
  "verify_id_token e id_token =
     (case signing_key e id_token of
        KeyConnectionError \<Rightarrow> Inl IdentityProviderUnavailableError
      | KeyJWTError \<Rightarrow> Inl InvalidIdentityTokenError
      | SigningKey k \<Rightarrow>
          (case jwt_decode e id_token k (client_id e) (issuer e) of
             None \<Rightarrow> Inl InvalidIdentityTokenError
           | Some claims \<Rightarrow>
               if py_lower (py_str (dict_get claims ''tid'' (JStr []))) \<noteq> tenant_id e then Inl InvalidIdentityTokenError
               else (case parse_uuid (py_str (dict_get claims ''oid'' (JStr []))) of
                       None \<Rightarrow> Inl InvalidIdentityTokenError
                     | Some oid \<Rightarrow> Inr (claims, oid))))"

definition token_identity :: "dict \<Rightarrow> nat \<Rightarrow> string \<Rightarrow> identity res" where
  "token_identity claims oid e =
     res_bind (optional_name (dget claims ''given_name'')) (\<lambda>given.
       res_bind (optional_name (dget claims ''family_name'')) (\<lambda>family.
         Inr \<lparr>identity_oid = oid, identity_email = e, given_name = given, surname = family,
              identity_job_title = None, identity_department = None, identity_employee_id = None,
              identity_group_ids = None, directory_profile_available = False\<rparr>))"

definition directory_identity :: "dict \<Rightarrow> nat \<Rightarrow> string \<Rightarrow> string list option \<Rightarrow> identity res" where
  "directory_identity p oid e groups =
     res_bind (name_or_blank (dget p ''givenName'')) (\<lambda>given.
       res_bind (name_or_blank (dget p ''surname'')) (\<lambda>family.
         res_bind (name_or_blank (dget p ''jobTitle'')) (\<lambda>job.
           res_bind (name_or_blank (dget p ''department'')) (\<lambda>dep.
             res_bind (name_or_blank (dget p ''employeeId'')) (\<lambda>emp.
               Inr \<lparr>identity_oid = oid, identity_email = e, given_name = given, surname = family,
                    identity_job_title = job, identity_department = dep, identity_employee_id = emp,
                    identity_group_ids = groups, directory_profile_available = True\<rparr>)))))"

definition entra_identity :: "dict \<Rightarrow> nat \<Rightarrow> dict option \<Rightarrow> string list option \<Rightarrow> identity res" where
  "entra_identity claims oid profile groups =
     (let from_profile = (\<lambda>k. case profile of None \<Rightarrow> JNull | Some p \<Rightarrow> dget p k);
          e = first_text [from_profile ''mail'', from_profile ''userPrincipalName'',
                          dget claims ''email'', dget claims ''preferred_username'']
      in if e = [] then Inl InvalidIdentityTokenError
         else (case profile of
                 None \<Rightarrow> token_identity claims oid e
               | Some p \<Rightarrow> directory_identity p oid e groups))"

definition entra_authenticate :: "entra \<Rightarrow> string \<Rightarrow> string \<Rightarrow> identity res \<times> string list" where
  "entra_authenticate e id_token access_token =
     (case verify_id_token e id_token of
        Inl x \<Rightarrow> (Inl x, [])
      | Inr (claims, oid) \<Rightarrow>
          (case fetch_profile (http_get e) access_token oid of
             Inl x \<Rightarrow> (Inl x, [me_url])
           | Inr None \<Rightarrow> (entra_identity claims oid None None, [me_url])
           | Inr (Some p) \<Rightarrow>
               (let (r, sent) = fetch_group_ids (http_get e) access_token
                in (res_bind r (entra_identity claims oid (Some p)), me_url # sent))))"

section \<open>The mock provider\<close>

definition MOCK_PREFIX :: string where
  "MOCK_PREFIX = ''mock:''"

definition text_or_none :: "dict \<Rightarrow> string \<Rightarrow> string option" where
  "text_or_none claims k = map_option py_str (map_of claims k)"

definition group_ids_or_none :: "dict \<Rightarrow> string list option" where
  "group_ids_or_none claims =
     (case map_of claims ''group_ids'' of
        None \<Rightarrow> None
      | Some v \<Rightarrow> Some (case as_list v of None \<Rightarrow> [] | Some gs \<Rightarrow> map py_str gs))"

definition mock_claims :: "(string \<Rightarrow> json option) \<Rightarrow> string \<Rightarrow> dict res" where
  "mock_claims loads payload =
     (if py_startswith payload ''{''
      then (case loads payload of
              None \<Rightarrow> Inl InvalidIdentityTokenError
            | Some v \<Rightarrow> (case as_dict v of None \<Rightarrow> Inl InvalidIdentityTokenError | Some d \<Rightarrow> Inr d))
      else Inr [(''email'', JStr payload)])"

definition mock_authenticate ::
  "(string \<Rightarrow> json option) \<Rightarrow> (string \<Rightarrow> nat) \<Rightarrow> string \<Rightarrow> string \<Rightarrow> identity res" where
  "mock_authenticate loads uuid5 id_token access_token =
     (if \<not> py_startswith id_token MOCK_PREFIX then Inl InvalidIdentityTokenError
      else
        res_bind (mock_claims loads (py_strip (drop (length MOCK_PREFIX) id_token))) (\<lambda>claims.
          let e = py_strip (py_str (dict_get claims ''email'' (JStr [])))
          in if e = [] then Inl InvalidIdentityTokenError
             else Inr \<lparr>identity_oid = uuid5 (py_lower e), identity_email = e,
                       given_name = text_or_none claims ''given_name'', surname = text_or_none claims ''surname'',
                       identity_job_title = text_or_none claims ''job_title'',
                       identity_department = text_or_none claims ''department'',
                       identity_employee_id = text_or_none claims ''employee_id'',
                       identity_group_ids = group_ids_or_none claims, directory_profile_available = True\<rparr>))"

section \<open>The configured provider\<close>

record auth_settings =
  auth_mode :: string
  auth_tenant :: string
  auth_client :: string

definition get_identity_provider ::
  "auth_settings \<Rightarrow> (string \<Rightarrow> json option) \<Rightarrow> (string \<Rightarrow> nat) \<Rightarrow> (string \<Rightarrow> key_reply) \<Rightarrow>
   (string \<Rightarrow> string \<Rightarrow> string \<Rightarrow> string \<Rightarrow> dict option) \<Rightarrow> http \<Rightarrow> (string \<Rightarrow> string \<Rightarrow> identity res) res" where
  "get_identity_provider cfg loads uuid5 keys decode http =
     (if auth_mode cfg = ''mock'' then Inr (mock_authenticate loads uuid5)
      else if auth_tenant cfg = [] \<or> auth_client cfg = [] then Inl (RuntimeError ''ImproperlyConfigured'')
      else Inr (\<lambda>i a. fst (entra_authenticate (entra_provider (auth_tenant cfg) (auth_client cfg) keys decode http) i a)))"

end
