(* ===== verification/Identity_Rules.thy ===== *)
theory Identity_Rules
  imports Identity
begin

text \<open>
  What a Microsoft sign-in rests on: the text of an object id determines it, an identity comes only from
  a verified token of the configured tenant, directory data only from the profile with the
  object id of that token, and the bearer token goes to Graph only.
\<close>

section \<open>Object ids\<close>

lemma length_hex_digits [simp]: "length (hex_digits k n) = k"
  by (induction k arbitrary: n) auto

lemma hex_digit_value [simp]: "n < 16 \<Longrightarrow> hex_value (hex_digit n) = Some n"
proof -
  have "\<forall>n \<in> set [0..<16]. hex_value (hex_digit n) = Some n" by code_simp
  then show "n < 16 \<Longrightarrow> hex_value (hex_digit n) = Some n" by auto
qed

definition hex_chars :: string where
  "hex_chars = ''0123456789abcdef''"

lemma hex_digit_chars: "n < 16 \<Longrightarrow> hex_digit n \<in> set hex_chars"
  unfolding hex_digit_def hex_chars_def by (rule nth_mem) simp

lemma set_hex_digits: "set (hex_digits k n) \<subseteq> set hex_chars"
  by (induction k arbitrary: n) (auto intro: hex_digit_chars)

lemma hex_chars_value: "c \<in> set hex_chars \<Longrightarrow> hex_value c \<noteq> None"
proof -
  have "\<forall>c \<in> set hex_chars. hex_value c \<noteq> None" by code_simp
  then show "c \<in> set hex_chars \<Longrightarrow> hex_value c \<noteq> None" by blast
qed

lemma hex_digits_value:
  "foldl (\<lambda>a c. 16 * a + the (hex_value c)) 0 (hex_digits k n) = n mod 16 ^ k"
proof (induction k arbitrary: n)
  case (Suc k)
  have "16 * (n div 16 mod 16 ^ k) + n mod 16 = n mod 16 ^ Suc k"
    by (simp add: mod_mult2_eq)
  with Suc show ?case by simp
qed simp

lemma startswith_set: "py_startswith s p \<Longrightarrow> set p \<subseteq> set s"
  by (auto simp: py_startswith_iff)

lemma py_remove_absent: "c \<in> set p \<Longrightarrow> c \<notin> set s \<Longrightarrow> py_remove p s = s"
proof (induction s)
  case (Cons d s)
  have "\<not> py_startswith (d # s) p"
    using Cons.prems startswith_set by fastforce
  with Cons show ?case by (simp add: py_remove.simps)
qed (simp add: py_remove.simps)

lemma py_remove_char: "py_remove [c] s = filter (\<lambda>d. d \<noteq> c) s"
  by (induction s) (auto simp: py_remove.simps py_startswith_def)

lemma dropWhile_none: "\<forall>c \<in> set s. \<not> P c \<Longrightarrow> dropWhile P s = s"
  by (cases s) auto

lemma int_base16_hex:
  assumes "set w \<subseteq> set hex_chars" "w \<noteq> []"
  shows "int_base16 w = Some (int (foldl (\<lambda>a c. 16 * a + the (hex_value c)) 0 w))"
proof -
  have chars: "CHR ''-'' \<notin> set w" "CHR ''+'' \<notin> set w" "CHR ''x'' \<notin> set w" "CHR ''X'' \<notin> set w" "CHR ''_'' \<notin> set w"
    using assms(1) by (auto simp: hex_chars_def)
  have keep: "filter (\<lambda>c. c \<noteq> CHR ''_'') w = w"
    using chars(5) by (induction w) auto
  have digits: "list_ex (\<lambda>c. hex_value c = None) w = False"
    using assms(1) hex_chars_value by (auto simp: list_ex_iff simp del: not_None_eq)
  have "\<forall>c \<in> set w. \<not> is_space c"
    using assms(1) by (auto simp: hex_chars_def is_space_def)
  then have strip: "py_strip w = w"
    unfolding py_strip_def by (simp add: dropWhile_none)
  have "\<not> py_startswith w ''0x''" "\<not> py_startswith w ''0X''" "\<not> py_startswith w ''-''" "\<not> py_startswith w ''+''"
    using chars by (auto dest!: startswith_set)
  moreover have "py_split_on (CHR ''_'') w = [w]"
    using chars(5) by (rule py_split_on_word)
  then have "hex_number w = Some (foldl (\<lambda>a c. 16 * a + the (hex_value c)) 0 w)"
    using assms(2) digits keep by (auto simp: hex_number_def)
  ultimately show ?thesis
    by (simp add: int_base16_def strip hex_unsigned_def)
qed

lemma chunks: "take 8 h @ take 4 (drop 8 h) @ take 4 (drop 12 h) @ take 4 (drop 16 h) @ drop 20 h = h"
  using take_add [of 8 4 h] take_add [of 12 4 h] take_add [of 16 4 h] append_take_drop_id [of 20 h] by simp

lemma parse_uuid_str: "n < 2 ^ 128 \<Longrightarrow> parse_uuid (uuid_str n) = Some n"
proof -
  assume n: "n < 2 ^ 128"
  let ?h = "hex_digits 32 n"
  have sub: "set ?h \<subseteq> set hex_chars" by (rule set_hex_digits)
  have chars: "set (uuid_str n) \<subseteq> insert (CHR ''-'') (set hex_chars)"
    using sub by (auto simp: uuid_str_def Let_def dest: in_set_takeD in_set_dropD)
  then have colon: "CHR '':'' \<notin> set (uuid_str n)" and brace: "\<forall>c \<in> set (uuid_str n). c \<notin> set ''{}''"
    by (auto simp: hex_chars_def)
  have dash: "filter (\<lambda>d. d \<noteq> CHR ''-'') xs = xs" if "set xs \<subseteq> set ?h" for xs
    using sub that by (auto simp: filter_id_conv hex_chars_def)
  have "filter (\<lambda>d. d \<noteq> CHR ''-'') (uuid_str n) =
      take 8 ?h @ take 4 (drop 8 ?h) @ take 4 (drop 12 ?h) @ take 4 (drop 16 ?h) @ drop 20 ?h"
    by (simp add: uuid_str_def Let_def dash set_take_subset set_drop_subset
        subset_trans [OF set_take_subset set_drop_subset])
  also have "\<dots> = ?h"
    by (rule chunks)
  finally have "py_remove ''-'' (strip_braces (py_remove ''uuid:'' (py_remove ''urn:'' (uuid_str n)))) = ?h"
    using colon brace
    by (simp add: py_remove_absent [of "CHR '':''"] strip_braces_def dropWhile_none py_remove_char)
  moreover have "int_base16 ?h = Some (int n)"
  proof -
    have "length ?h \<noteq> 0" by (simp del: hex_digits.simps)
    then have "?h \<noteq> []" by (metis list.size(3))
    with int_base16_hex [OF sub] hex_digits_value [of 32 n] n show ?thesis by simp
  qed
  ultimately show ?thesis
    using n by (simp add: parse_uuid_def Let_def)
qed

lemma parse_uuid_bound: "parse_uuid t = Some n \<Longrightarrow> n < 2 ^ 128"
  by (auto simp: parse_uuid_def Let_def nat_less_iff split: if_splits option.splits)

section \<open>Identities\<close>

lemma res_bind_cases: "res_bind r f = Inr y \<Longrightarrow> \<exists>x. r = Inr x \<and> f x = Inr y"
  by (cases r) auto

lemma entra_identity_oid:
  assumes "entra_identity claims oid profile groups = Inr idn"
  shows "identity_oid idn = oid \<and> directory_profile_available idn = (profile \<noteq> None)"
  using assms
  by (auto simp: entra_identity_def token_identity_def directory_identity_def Let_def
      elim!: res_bind_InrE split: if_splits option.splits)

lemma fetch_profile_SomeD:
  assumes "fetch_profile h a oid = Inr (Some p)"
  shows "graph_get h me_url a (Some [(''$select'', PROFILE_FIELDS)]) = Some p"
    and "py_lower (py_str (dict_get p ''id'' (JStr []))) = uuid_str oid"
  using assms by (auto simp: fetch_profile_def split: option.splits if_splits)

lemma verify_id_token_InrE:
  assumes "verify_id_token e i = Inr (claims, oid)"
  obtains k where "signing_key e i = SigningKey k" "jwt_decode e i k (client_id e) (issuer e) = Some claims"
    "py_lower (py_str (dict_get claims ''tid'' (JStr []))) = tenant_id e"
    "parse_uuid (py_str (dict_get claims ''oid'' (JStr []))) = Some oid"
  using assms by (auto simp: verify_id_token_def split: key_reply.splits option.splits if_splits)

lemma entra_authenticate_InrE:
  assumes "fst (entra_authenticate e i a) = Inr idn"
  obtains claims profile where "verify_id_token e i = Inr (claims, identity_oid idn)"
    "fetch_profile (http_get e) a (identity_oid idn) = Inr profile"
    "directory_profile_available idn = (profile \<noteq> None)"
proof -
  obtain claims oid where v: "verify_id_token e i = Inr (claims, oid)"
    using assms by (auto simp: entra_authenticate_def split: sum.splits)
  obtain profile groups where p: "fetch_profile (http_get e) a oid = Inr profile"
    and "entra_identity claims oid profile groups = Inr idn"
    using assms v by (auto simp: entra_authenticate_def split: sum.splits option.splits prod.splits
        dest!: res_bind_cases)
  then have "identity_oid idn = oid" "directory_profile_available idn = (profile \<noteq> None)"
    using entra_identity_oid by blast+
  with v p show thesis by (auto intro: that)
qed

section \<open>Requests\<close>

abbreviation on_graph :: "string \<Rightarrow> bool" where
  "on_graph url \<equiv> py_startswith url (GRAPH_BASE @ ''/'')"

lemma own_urls [simp]: "on_graph me_url" "on_graph groups_url"
  by (auto simp: me_url_def groups_url_def py_startswith_iff)

lemma group_pages_sent:
  "on_graph url \<Longrightarrow> list_all on_graph (snd (group_pages h a n url ps ids)) \<and>
     length (snd (group_pages h a n url ps ids)) \<le> n"
  by (induction n arbitrary: url ps ids) (auto simp: Let_def case_prod_beta split: option.splits sum.splits)

lemma group_pages_cong:
  assumes "\<And>url ps. on_graph url \<Longrightarrow> h url ps a = h' url ps a"
  shows "on_graph url \<Longrightarrow> group_pages h a n url ps ids = group_pages h' a n url ps ids"
proof (induction n arbitrary: url ps ids)
  case (Suc n)
  have "graph_get h url a ps = graph_get h' url a ps"
    using assms [OF Suc.prems] by (simp add: graph_get_def)
  with Suc.IH show ?case
    by (auto simp: Let_def split: option.splits sum.splits)
qed simp

lemma fetch_cong:
  assumes "\<And>url ps. on_graph url \<Longrightarrow> h url ps a = h' url ps a"
  shows "fetch_profile h a oid = fetch_profile h' a oid" "fetch_group_ids h a = fetch_group_ids h' a"
  using assms [of me_url] group_pages_cong [where h = h and h' = h' and a = a, OF assms, of groups_url]
  by (simp_all add: fetch_profile_def graph_get_def fetch_group_ids_def)

section \<open>Properties\<close>

text \<open>
  C10: A sign-in through Entra rests on a verified token. When the login service accepts, the ID
  token decoded under the signing key, the configured client and the issuer of the configured
  tenant; its tenant claim is that tenant; the signed-in account is active, is the only one linked
  to the object id in the token, and nobody else's account row changed. An account is created only
  when Graph, asked with the access token, returned a profile whose id is that same object id.
\<close>

theorem entra_sign_in_is_verified:
  assumes "accounts_ok s" and "e = entra_provider tenant client keys decode http"
    and "login_with_microsoft cfg (\<lambda>i a. fst (entra_authenticate e i a)) i a s = Inr (res, s')"
  shows "\<exists>k claims oid. keys i = SigningKey k \<and>
    decode i k client (''https://login.microsoftonline.com/'' @ py_lower tenant @ ''/v2.0'') = Some claims \<and>
    py_lower (py_str (dict_get claims ''tid'' (JStr []))) = py_lower tenant \<and>
    parse_uuid (py_str (dict_get claims ''oid'' (JStr []))) = Some oid \<and>
    is_active (login_user res) \<and> microsoft_oid (login_user res) = Some oid \<and>
    filter (\<lambda>x. user_id x \<noteq> user_id (login_user res)) (users s') =
      filter (\<lambda>x. user_id x \<noteq> user_id (login_user res)) (users s) \<and>
    (login_created res \<longrightarrow>
      (\<exists>p. graph_get http me_url a (Some [(''$select'', PROFILE_FIELDS)]) = Some p \<and>
           parse_uuid (py_lower (py_str (dict_get p ''id'' (JStr [])))) = Some oid))"
  using assms(1,3)
proof (cases rule: login_InrD)
  case (1 idn u created reactivated s1)
  note d = get_or_create_user_InrD [OF assms(1) 1(3)]
  obtain claims profile where v: "verify_id_token e i = Inr (claims, identity_oid idn)"
    and p: "fetch_profile (http_get e) a (identity_oid idn) = Inr profile"
    and avail: "directory_profile_available idn = (profile \<noteq> None)"
    using 1(1) by (rule entra_authenticate_InrE)
  obtain k where k: "signing_key e i = SigningKey k" "jwt_decode e i k (client_id e) (issuer e) = Some claims"
    "py_lower (py_str (dict_get claims ''tid'' (JStr []))) = tenant_id e"
    "parse_uuid (py_str (dict_get claims ''oid'' (JStr []))) = Some (identity_oid idn)"
    using v by (rule verify_id_token_InrE)
  have "\<exists>p. graph_get http me_url a (Some [(''$select'', PROFILE_FIELDS)]) = Some p \<and>
      parse_uuid (py_lower (py_str (dict_get p ''id'' (JStr [])))) = Some (identity_oid idn)" if new: created
  proof -
    obtain q where "profile = Some q" using d(7) [OF new] avail by blast
    with p have "fetch_profile (http_get e) a (identity_oid idn) = Inr (Some q)" by simp
    from fetch_profile_SomeD [OF this] show ?thesis
      using parse_uuid_str [OF parse_uuid_bound [OF k(4)]] assms(2) by (auto simp: entra_provider_def)
  qed
  moreover have "users s' = users s1" using 1(5) by simp
  ultimately show ?thesis
    using k d(3,4,5) 1(4) assms(2) by (auto simp: entra_provider_def issuer_def)
qed

definition demo_guid :: string where
  "demo_guid = ''00000000-0000-0000-0000-00000000004D''"

definition demo_http :: http where
  "demo_http url ps tok =
     (if url = me_url
      then HttpReply 200 (Some (JObj [(''id'', JStr (py_lower demo_guid)), (''mail'', JStr ''eva@iteso.mx''), (''jobTitle'', JStr ''Docente'')]))
      else if url = groups_url
      then HttpReply 200 (Some (JObj [(''value'', JArr [JObj [(''id'', JStr ''g1'')]]),
             (''@odata.nextLink'', JStr ''https://elsewhere.example/next'')]))
      else HttpReply 200 (Some (JObj [(''value'', JArr [JObj [(''id'', JStr ''evil'')]])])))"

definition demo_decode :: "string \<Rightarrow> string \<Rightarrow> string \<Rightarrow> string \<Rightarrow> dict option" where
  "demo_decode t k aud iss =
     (if iss = ''https://login.microsoftonline.com/abc/v2.0'' \<and> aud = ''spa''
      then Some [(''tid'', JStr ''ABC''), (''oid'', JStr demo_guid)] else None)"

definition demo_entra :: entra where
  "demo_entra = entra_provider ''Abc'' ''spa'' (\<lambda>_. SigningKey ''k'') demo_decode demo_http"

definition demo_teacher :: identity where
  "demo_teacher = \<lparr>identity_oid = 77, identity_email = ''eva@iteso.mx'', given_name = Some [], surname = Some [],
     identity_job_title = Some ''Docente'', identity_department = Some [], identity_employee_id = Some [],
     identity_group_ids = Some [''g1''], directory_profile_available = True\<rparr>"

lemma demo_verified: "verify_id_token demo_entra ''t'' = Inr ([(''tid'', JStr ''ABC''), (''oid'', JStr demo_guid)], 77)"
  by code_simp

lemma demo_profile: "fetch_profile demo_http ''a'' 77 =
    Inr (Some [(''id'', JStr (py_lower demo_guid)), (''mail'', JStr ''eva@iteso.mx''), (''jobTitle'', JStr ''Docente'')])"
  by code_simp

lemma demo_groups: "fst (fetch_group_ids demo_http ''a'') = Inr (Some [''g1''])"
  by code_simp

lemma demo_authenticated: "fst (entra_authenticate demo_entra ''t'' ''a'') = Inr demo_teacher"
proof -
  have "http_get demo_entra = demo_http" by (simp add: demo_entra_def entra_provider_def)
  moreover have "entra_identity [(''tid'', JStr ''ABC''), (''oid'', JStr demo_guid)] 77
      (Some [(''id'', JStr (py_lower demo_guid)), (''mail'', JStr ''eva@iteso.mx''), (''jobTitle'', JStr ''Docente'')])
      (Some [''g1'']) = Inr demo_teacher" by code_simp
  ultimately show ?thesis
    using demo_verified demo_profile demo_groups by (simp add: entra_authenticate_def case_prod_beta)
qed

theorem entra_sign_in_is_verified_witness:
  "\<exists>res s'. login_with_microsoft demo_settings (\<lambda>i a. fst (entra_authenticate demo_entra i a)) ''t'' ''a'' demo_accounts = Inr (res, s') \<and>
     login_created res \<and> microsoft_oid (login_user res) = Some 77"
proof -
  have "case get_or_create_user demo_settings demo_teacher ''eva@iteso.mx'' demo_accounts of
      Inl _ \<Rightarrow> False | Inr (_, c, _) \<Rightarrow> c"
    by code_simp
  then obtain v where "get_or_create_user demo_settings demo_teacher ''eva@iteso.mx'' demo_accounts = Inr (fst v, True, snd v)"
    by (auto split: sum.splits)
  moreover have "py_lower (py_strip (identity_email demo_teacher)) = ''eva@iteso.mx''" by code_simp
  moreover have "allowed_domain demo_settings = ''iteso.mx''" by (simp add: demo_settings_def)
  ultimately obtain res s' where
    run: "login_with_microsoft demo_settings (\<lambda>i a. fst (entra_authenticate demo_entra i a)) ''t'' ''a'' demo_accounts = Inr (res, s')"
      and created: "login_created res"
    by (cases v) (auto simp: login_with_microsoft_def demo_authenticated demo_domain upsert_user_eq demo_accounts_ok Let_def)
  have "parse_uuid demo_guid = Some 77" by code_simp
  with entra_sign_in_is_verified [OF demo_accounts_ok(1) demo_entra_def run]
  have "microsoft_oid (login_user res) = Some 77"
    by (auto simp: demo_decode_def dict_get_def py_str_def split: if_splits)
  with run created show ?thesis by blast
qed

text \<open>
  C14: The bearer token stays on Graph. A sign-in through Entra sends it to at most four URLs, each
  of them under the base URL of Graph whatever links the answers carry, and to none before the ID
  token is verified; and no server outside Graph can influence its result.
\<close>

theorem bearer_token_stays_on_graph:
  assumes "\<And>url ps. py_startswith url (GRAPH_BASE @ ''/'') \<Longrightarrow> h url ps a = h' url ps a"
  shows "list_all (\<lambda>url. py_startswith url (GRAPH_BASE @ ''/'')) (snd (entra_authenticate e i a)) \<and>
    length (snd (entra_authenticate e i a)) \<le> 4 \<and>
    (\<forall>x. verify_id_token e i = Inl x \<longrightarrow> snd (entra_authenticate e i a) = []) \<and>
    entra_authenticate (e\<lparr>http_get := h\<rparr>) i a = entra_authenticate (e\<lparr>http_get := h'\<rparr>) i a"
proof -
  have "list_all on_graph (snd (entra_authenticate e i a)) \<and> length (snd (entra_authenticate e i a)) \<le> 4"
    using group_pages_sent [of groups_url "http_get e" a MAX_GROUP_PAGES "Some [(''$select'', ''id''), (''$top'', ''999'')]" "[]"]
    by (auto simp: entra_authenticate_def fetch_group_ids_def MAX_GROUP_PAGES_def case_prod_beta
        split: sum.splits option.splits)
  moreover have "verify_id_token (e\<lparr>http_get := h\<rparr>) i = verify_id_token (e\<lparr>http_get := h'\<rparr>) i"
    by (simp add: verify_id_token_def issuer_def cong: key_reply.case_cong option.case_cong)
  then have "entra_authenticate (e\<lparr>http_get := h\<rparr>) i a = entra_authenticate (e\<lparr>http_get := h'\<rparr>) i a"
    using fetch_cong [of h a h'] assms by (simp add: entra_authenticate_def cong: sum.case_cong option.case_cong)
  ultimately show ?thesis by (simp add: entra_authenticate_def)
qed

text \<open>A server that answers differently everywhere outside Graph changes nothing.\<close>

theorem bearer_token_stays_on_graph_witness:
  "fst (entra_authenticate (demo_entra\<lparr>http_get := \<lambda>url ps tok.
       if py_startswith url (GRAPH_BASE @ ''/'') then demo_http url ps tok else HttpError\<rparr>) ''t'' ''a'') =
     fst (entra_authenticate (demo_entra\<lparr>http_get := demo_http\<rparr>) ''t'' ''a'')"
proof -
  have "py_startswith url (GRAPH_BASE @ ''/'') \<Longrightarrow> (if py_startswith url (GRAPH_BASE @ ''/'') then demo_http url ps tok else HttpError) = demo_http url ps tok"
    for url ps tok by simp
  from bearer_token_stays_on_graph [where h = "\<lambda>url ps tok. if py_startswith url (GRAPH_BASE @ ''/'') then demo_http url ps tok else HttpError"
      and h' = demo_http and a = "''a''" and i = "''t''" and e = demo_entra, OF this]
  show ?thesis by simp
qed

end
