(* ===== verification/Throttling.thy ===== *)
theory Throttling
  imports Identity
begin

text \<open>
  The throttles of the sign-in, refresh and logout endpoints, \<open>core/throttling.py\<close>. The counters
  belong to Django REST framework: \<open>allow scope key cache\<close> is \<open>SimpleRateThrottle.allow_request\<close>
  for a cache key (its answer and the cache afterwards), \<open>cache_format\<close> builds the key, and the \<open>ident\<close>
  of a request is what \<open>get_ident\<close> returned for it. \<open>RefreshToken\<close> and the unverified
  \<open>jwt.decode\<close> are partial maps from tokens to claims, and SHA-256 is a parameter.
\<close>

section \<open>Requests\<close>

record auth_request =
  ident :: string
  request_data :: json

record 'c throttle_env =
  allow :: "string \<Rightarrow> string \<Rightarrow> 'c \<Rightarrow> bool \<times> 'c"
  cache_format :: "string \<Rightarrow> string \<Rightarrow> string"
  refresh_claims :: "string \<Rightarrow> dict option"
  unverified_claims :: "string \<Rightarrow> dict option"
  sha256 :: "string \<Rightarrow> string"
  user_id_claim :: string

definition body_token :: "auth_request \<Rightarrow> string \<Rightarrow> string" where
  "body_token r field =
     (case as_dict (request_data r) of
        None \<Rightarrow> []
      | Some d \<Rightarrow> (case as_str (dget d field) of None \<Rightarrow> [] | Some t \<Rightarrow> t))"

section \<open>Keys\<close>

definition login_key :: "'c throttle_env \<Rightarrow> string \<Rightarrow> auth_request \<Rightarrow> string" where
  "login_key env sc r =
     (let token = body_token r ''id_token'';
          oid = (case unverified_claims env token of
                   None \<Rightarrow> []
                 | Some payload \<Rightarrow> if truthy (dget payload ''oid'') then py_str (dget payload ''oid'') else []);
          subject = (if token = [] then [] else sha256 env (if oid \<noteq> [] then oid else token))
      in cache_format env sc (ident r @ ''|'' @ subject))"

text \<open>The user a refresh token with a valid signature belongs to.\<close>

definition verified_user :: "'c throttle_env \<Rightarrow> auth_request \<Rightarrow> string option" where
  "verified_user env r =
     (let token = body_token r ''refresh''
      in if token = [] then None
         else (case refresh_claims env token of
                 None \<Rightarrow> None
               | Some claims \<Rightarrow>
                   (let v = dget claims (user_id_claim env) in if truthy v then Some (py_str v) else None)))"

definition user_ident :: "string \<Rightarrow> string" where
  "user_ident u = ''user:'' @ u"

definition refresh_key :: "'c throttle_env \<Rightarrow> string \<Rightarrow> auth_request \<Rightarrow> string" where
  "refresh_key env sc r =
     cache_format env sc (case verified_user env r of None \<Rightarrow> ident r | Some u \<Rightarrow> user_ident u)"

definition AUTH_IP_SCOPE :: string where
  "AUTH_IP_SCOPE = ''auth_ip''"

definition ceiling_key :: "'c throttle_env \<Rightarrow> auth_request \<Rightarrow> string" where
  "ceiling_key env r = cache_format env AUTH_IP_SCOPE (ident r)"

section \<open>Throttles\<close>

text \<open>
  A throttle reads and may set the mark \<open>VERIFIED_REFRESH_ATTR\<close> of the request: its answer, the
  mark and the cache.
\<close>

type_synonym 'c throttle = "auth_request \<Rightarrow> bool \<Rightarrow> 'c \<Rightarrow> bool \<times> bool \<times> 'c"

definition login_throttle :: "'c throttle_env \<Rightarrow> string \<Rightarrow> 'c throttle" where
  "login_throttle env sc r verified c =
     (let (ok, c') = allow env sc (login_key env sc r) c in (ok, verified, c'))"

definition refresh_throttle :: "'c throttle_env \<Rightarrow> string \<Rightarrow> 'c throttle" where
  "refresh_throttle env sc r verified c =
     (let (ok, c') = allow env sc (refresh_key env sc r) c
      in (ok, verified \<or> verified_user env r \<noteq> None, c'))"

definition ceiling_throttle :: "'c throttle_env \<Rightarrow> 'c throttle" where
  "ceiling_throttle env r verified c =
     (if verified then (True, verified, c)
      else (let (ok, c') = allow env AUTH_IP_SCOPE (ceiling_key env r) c in (ok, verified, c')))"

text \<open>\<open>FirstRejectionThrottleMixin.check_throttles\<close>: \<open>throttled\<close> raises, so nothing runs after it.\<close>

fun check_throttles :: "'c throttle list \<Rightarrow> auth_request \<Rightarrow> bool \<Rightarrow> 'c \<Rightarrow> bool \<times> 'c" where
  "check_throttles [] r verified c = (True, c)"
| "check_throttles (t # ts) r verified c =
     (let (ok, verified', c') = t r verified c
      in if ok then check_throttles ts r verified' c' else (False, c'))"

datatype auth_endpoint = LoginView | TokenRefreshView | LogoutView

fun throttle_scope :: "auth_endpoint \<Rightarrow> string" where
  "throttle_scope LoginView = ''auth_login''"
| "throttle_scope TokenRefreshView = ''auth_refresh''"
| "throttle_scope LogoutView = ''auth_logout''"

fun throttle_classes :: "'c throttle_env \<Rightarrow> auth_endpoint \<Rightarrow> 'c throttle list" where
  "throttle_classes env LoginView = [login_throttle env (throttle_scope LoginView), ceiling_throttle env]"
| "throttle_classes env v = [refresh_throttle env (throttle_scope v), ceiling_throttle env]"

definition admitted :: "'c throttle_env \<Rightarrow> auth_endpoint \<Rightarrow> auth_request \<Rightarrow> 'c \<Rightarrow> bool \<times> 'c" where
  "admitted env v r c = check_throttles (throttle_classes env v) r False c"

fun flood :: "'c throttle_env \<Rightarrow> (auth_endpoint \<times> auth_request) list \<Rightarrow> 'c \<Rightarrow> 'c" where
  "flood env [] c = c"
| "flood env ((v, r) # rs) c = flood env rs (snd (admitted env v r c))"

section \<open>What the framework promises\<close>

text \<open>
  A counter is kept under its key alone: counting one key leaves the others, and the answer
  depends on the counter of the key. Within the scopes of these endpoints a key determines its
  scope and its identity.
\<close>

definition counts_apart :: "'c throttle_env \<Rightarrow> (string \<Rightarrow> 'c \<Rightarrow> 'b) \<Rightarrow> bool" where
  "counts_apart env bucket \<longleftrightarrow>
     (\<forall>sc key c k. k \<noteq> key \<longrightarrow> bucket k (snd (allow env sc key c)) = bucket k c) \<and>
     (\<forall>sc key c c'. bucket key c = bucket key c' \<longrightarrow> fst (allow env sc key c) = fst (allow env sc key c'))"

definition auth_scopes :: "string list" where
  "auth_scopes = [''auth_login'', ''auth_refresh'', ''auth_logout'', AUTH_IP_SCOPE]"

definition keys_apart :: "'c throttle_env \<Rightarrow> bool" where
  "keys_apart env \<longleftrightarrow>
     (\<forall>s \<in> set auth_scopes. \<forall>s' \<in> set auth_scopes. \<forall>i i'.
        cache_format env s i = cache_format env s' i' \<longrightarrow> s = s' \<and> i = i')"

lemma scope_in [simp]: "throttle_scope v \<in> set auth_scopes" "AUTH_IP_SCOPE \<in> set auth_scopes"
  by (cases v; simp add: auth_scopes_def)+

lemma scope_not_ip [simp]: "throttle_scope v \<noteq> AUTH_IP_SCOPE"
  by (cases v) (simp_all add: AUTH_IP_SCOPE_def)

section \<open>Who spends whose quota\<close>

text \<open>The keys a request counts on: its own, and the ceiling if it is admitted unverified.\<close>

definition own_key :: "'c throttle_env \<Rightarrow> auth_endpoint \<Rightarrow> auth_request \<Rightarrow> string" where
  "own_key env v r =
     (if v = LoginView then login_key env (throttle_scope v) r else refresh_key env (throttle_scope v) r)"

definition is_verified :: "'c throttle_env \<Rightarrow> auth_endpoint \<Rightarrow> auth_request \<Rightarrow> bool" where
  "is_verified env v r \<longleftrightarrow> v \<noteq> LoginView \<and> verified_user env r \<noteq> None"

lemma admitted_eq:
  "admitted env v r c =
     (let (ok, c1) = allow env (throttle_scope v) (own_key env v r) c
      in if \<not> ok then (False, c1)
         else if is_verified env v r then (True, c1)
         else allow env AUTH_IP_SCOPE (ceiling_key env r) c1)"
  by (cases v)
     (auto simp: admitted_def login_throttle_def refresh_throttle_def ceiling_throttle_def own_key_def
       is_verified_def case_prod_beta Let_def prod_eq_iff)

lemma counts_apartD:
  assumes "counts_apart env bucket"
  shows "k \<noteq> key \<Longrightarrow> bucket k (snd (allow env sc key c)) = bucket k c"
    and "bucket key c = bucket key c' \<Longrightarrow> fst (allow env sc key c) = fst (allow env sc key c')"
  using assms unfolding counts_apart_def by blast+

lemma untouched:
  assumes "counts_apart env bucket" "k \<noteq> own_key env v r" "is_verified env v r \<or> k \<noteq> ceiling_key env r"
  shows "bucket k (snd (admitted env v r c)) = bucket k c"
  using assms(2,3) counts_apartD(1) [OF assms(1)] by (simp add: admitted_eq case_prod_beta Let_def) metis

lemma flood_untouched:
  assumes "counts_apart env bucket"
    and "\<And>v r. (v, r) \<in> set rs \<Longrightarrow> k \<noteq> own_key env v r \<and> (is_verified env v r \<or> k \<noteq> ceiling_key env r)"
  shows "bucket k (flood env rs c) = bucket k c"
  using assms(2)
proof (induction rs arbitrary: c)
  case (Cons x rs)
  obtain v r where x: "x = (v, r)" by (cases x)
  have "bucket k (flood env rs (snd (admitted env v r c))) = bucket k (snd (admitted env v r c))"
    by (rule Cons.IH) (simp add: Cons.prems)
  also have "\<dots> = bucket k c"
    using Cons.prems [of v r] x by (intro untouched [OF assms(1)]) auto
  finally show ?case by (simp add: x)
qed simp

lemma own_key_shape: "\<exists>i. own_key env v q = cache_format env (throttle_scope v) i"
  by (auto simp: own_key_def login_key_def refresh_key_def Let_def)

lemma user_key_apart:
  assumes "keys_apart env" "w \<noteq> LoginView" "verified_user env q \<noteq> Some u" "ident q \<noteq> user_ident u"
  shows "cache_format env (throttle_scope w) (user_ident u) \<noteq> own_key env v q \<and>
    cache_format env (throttle_scope w) (user_ident u) \<noteq> ceiling_key env q"
proof -
  note apart = assms(1) [unfolded keys_apart_def, rule_format, OF scope_in(1) [of w]]
  have ip: "cache_format env (throttle_scope w) i \<noteq> cache_format env AUTH_IP_SCOPE j" for i j
    using apart [OF scope_in(2)] scope_not_ip by blast
  have "cache_format env (throttle_scope w) (user_ident u) \<noteq> own_key env v q"
  proof (cases "v = LoginView")
    case True
    then have "throttle_scope w \<noteq> throttle_scope v" using assms(2) by (cases w) auto
    then show ?thesis
      using apart [OF scope_in(1) [of v]] own_key_shape [of env v q] by metis
  next
    case False
    have "(case verified_user env q of None \<Rightarrow> ident q | Some x \<Rightarrow> user_ident x) \<noteq> user_ident u"
      using assms(3,4) by (auto simp: user_ident_def split: option.splits)
    with False show ?thesis
      using apart [OF scope_in(1) [of v], of "user_ident u"] unfolding own_key_def refresh_key_def by metis
  qed
  with ip show ?thesis by (simp add: ceiling_key_def)
qed

text \<open>
  A client that controls its own identity shares the counter of a user: \<open>get_ident\<close> returns the whole
  \<open>X-Forwarded-For\<close> header when the number of proxies is not configured.
\<close>

lemma spoofed_ident_shares_quota:
  assumes "w \<noteq> LoginView" "verified_user env r = Some u" "verified_user env q = None" "ident q = user_ident u"
  shows "own_key env w q = own_key env w r"
  using assms by (simp add: own_key_def refresh_key_def)

section \<open>Properties\<close>


text \<open>Two requests per key, and three clients: two strangers and the user of token \<open>r\<close>.\<close>

definition demo_limits :: "(string \<Rightarrow> nat) throttle_env" where
  "demo_limits =
     \<lparr>allow = (\<lambda>sc key c. if c key < 2 then (True, c(key := Suc (c key))) else (False, c)),
      cache_format = (\<lambda>sc i. ''throttle_'' @ sc @ ''_'' @ i),
      refresh_claims = (\<lambda>t. if t = ''r'' then Some [(''user_id'', JStr ''7'')] else None),
      unverified_claims = (\<lambda>t. None), sha256 = id, user_id_claim = ''user_id''\<rparr>"

definition demo_request :: "string \<Rightarrow> string \<Rightarrow> auth_request" where
  "demo_request i t = \<lparr>ident = i, request_data = JObj [(''refresh'', JStr t)]\<rparr>"

lemma ident_demo: "ident (demo_request i t) = i"
  by (simp add: demo_request_def)

lemma demo_limits_ok: "counts_apart demo_limits (\<lambda>k c. c k)" "keys_apart demo_limits"
  by (auto simp: counts_apart_def keys_apart_def demo_limits_def auth_scopes_def AUTH_IP_SCOPE_def)


text \<open>The same flood with a spoofed identity does lock the user out.\<close>

lemma spoofed_ident_locks_out:
  "\<not> fst (admitted demo_limits TokenRefreshView (demo_request ''ip'' ''r'')
     (flood demo_limits (replicate 3 (TokenRefreshView, demo_request (user_ident ''7'') ''forged'')) (\<lambda>_. 0)))"
  by code_simp

end
