(* ===== verification/Account_Views.thy ===== *)
theory Account_Views
  imports Identity Clan_Views Metrics
begin

text \<open>
  The account endpoints of \<open>accounts/views.py\<close> with the validation of their bodies and the shape of
  their answers in \<open>accounts/serializers.py\<close>, the permission \<open>IsAdmin\<close> and \<open>image_response\<close>. A
  request is made by an active account. \<open>absolute\<close> is \<open>request.build_absolute_uri\<close>, \<open>url_ok\<close>
  Django's \<open>URLValidator\<close>, \<open>host_ok\<close> the check of brackets and of normalisation \<open>urlsplit\<close> makes
  on the host, \<open>parse_date\<close> the parser of \<open>DateField\<close>. Of several invalid fields the first is
  reported. A stored preference is its JSON text. Pagination is left out.
\<close>

section \<open>Text of JSON\<close>

text \<open>\<open>json.dumps\<close> with its default separators and escapes, for code points below 256.\<close>

definition json_char :: "char \<Rightarrow> string" where
  "json_char c =
     (let n = of_char c :: nat
      in if c = CHR 0x22 \<or> c = CHR 0x5C then [CHR 0x5C, c]
         else if n = 8 then [CHR 0x5C, CHR ''b'']
         else if n = 9 then [CHR 0x5C, CHR ''t'']
         else if n = 10 then [CHR 0x5C, CHR ''n'']
         else if n = 12 then [CHR 0x5C, CHR ''f'']
         else if n = 13 then [CHR 0x5C, CHR ''r'']
         else if n < 32 \<or> 126 < n
         then [CHR 0x5C, CHR ''u'', CHR ''0'', CHR ''0'', hex_digit (n div 16), hex_digit (n mod 16)]
         else [c])"

definition json_string :: "string \<Rightarrow> string" where
  "json_string v = CHR 0x22 # concat (map json_char v) @ [CHR 0x22]"

fun json_dumps :: "json \<Rightarrow> string" where
  "json_dumps JNull = ''null''"
| "json_dumps (JBool b) = (if b then ''true'' else ''false'')"
| "json_dumps (JInt n) = int_str n"
| "json_dumps (JFloat r) = r"
| "json_dumps (JStr v) = json_string v"
| "json_dumps (JArr xs) = ''['' @ py_join '', '' (map json_dumps xs) @ '']''"
| "json_dumps (JObj d) = ''{'' @ py_join '', '' (map (\<lambda>(k, v). json_string k @ '': '' @ json_dumps v) d) @ ''}''"

section \<open>Links\<close>

text \<open>
  \<open>urlsplit\<close>: leading control characters and spaces and every tab and line break go; a scheme is
  an ASCII letter and scheme characters before the first colon. The result is the scheme, the
  host and the path.
\<close>

definition scheme_char :: "char \<Rightarrow> bool" where
  "scheme_char c \<longleftrightarrow> c \<in> set ''abcdefghijklmnopqrstuvwxyzABCDEFGHIJKLMNOPQRSTUVWXYZ0123456789+-.''"

definition ascii_letter :: "char \<Rightarrow> bool" where
  "ascii_letter c \<longleftrightarrow> c \<in> set ''abcdefghijklmnopqrstuvwxyzABCDEFGHIJKLMNOPQRSTUVWXYZ''"

definition split_scheme :: "string \<Rightarrow> string \<times> string" where
  "split_scheme url =
     (let before = takeWhile (\<lambda>c. c \<noteq> CHR '':'') url
      in if length before < length url \<and> before \<noteq> [] \<and> ascii_letter (hd before) \<and> list_all scheme_char before
         then (py_lower before, drop (Suc (length before)) url)
         else ([], url))"

definition urlsplit :: "(string \<Rightarrow> bool) \<Rightarrow> string \<Rightarrow> (string \<times> string \<times> string) option" where
  "urlsplit host_ok raw =
     (let url = filter (\<lambda>c. c \<notin> {CHR 0x09, CHR 0x0A, CHR 0x0D}) (dropWhile (\<lambda>c. (of_char c :: nat) \<le> 32) raw);
          (scheme, rest) = split_scheme url;
          host = (if py_startswith rest ''//'' then takeWhile (\<lambda>c. c \<notin> set ''/?#'') (drop 2 rest) else []);
          tail = (if py_startswith rest ''//'' then drop (2 + length host) rest else rest)
      in if (CHR ''['' \<in> set host) \<noteq> (CHR '']'' \<in> set host) \<or> \<not> host_ok host then None
         else Some (scheme, host, takeWhile (\<lambda>c. c \<notin> set ''?#'') tail))"

definition ALLOWED_AVATAR_EXTENSIONS :: "string list" where
  "ALLOWED_AVATAR_EXTENSIONS = [''.jpg'', ''.jpeg'', ''.png'', ''.webp'']"

definition py_endswith :: "string \<Rightarrow> string \<Rightarrow> bool" where
  "py_endswith s p \<longleftrightarrow> py_startswith (rev s) (rev p)"

definition check_avatar_url :: "(string \<Rightarrow> bool) \<Rightarrow> string \<Rightarrow> unit res" where
  "check_avatar_url host_ok v =
     (case urlsplit host_ok v of
        None \<Rightarrow> Inl (PyValueError ''Invalid URL'')
      | Some (scheme, host, path) \<Rightarrow>
          if scheme \<noteq> ''https'' then Inl (ValidationError ''avatar_url'' ''avatar_url must use https.'')
          else if \<not> list_ex (py_endswith (py_lower path)) ALLOWED_AVATAR_EXTENSIONS
          then Inl (ValidationError ''avatar_url'' ''avatar_url must point to a .jpg, .jpeg, .png, or .webp file.'')
          else Inr ())"

section \<open>Bodies\<close>

definition MAX_PREFERENCES_BYTES :: nat where
  "MAX_PREFERENCES_BYTES = 10000"

definition validate_preferences :: "json \<Rightarrow> (string \<times> string) list res" where
  "validate_preferences v =
     (if v = JNull then Inl (ValidationError ''preferences'' ''This field may not be null.'')
      else (case as_dict v of
              None \<Rightarrow> Inl (ValidationError ''preferences'' ''preferences must be a JSON object.'')
            | Some d \<Rightarrow>
                if length (json_dumps v) > MAX_PREFERENCES_BYTES
                then Inl (ValidationError ''preferences'' ''preferences payload is too large.'')
                else Inr (map (\<lambda>(k, x). (k, json_dumps x)) d)))"

text \<open>
  A \<open>URLField\<close> that may be blank: a blank value skips the validators. The validator of this field
  runs before the ones the field adds.
\<close>

definition validate_avatar_link :: "(string \<Rightarrow> bool) \<Rightarrow> (string \<Rightarrow> bool) \<Rightarrow> string \<Rightarrow> string res" where
  "validate_avatar_link url_ok host_ok raw =
     (let v = py_strip raw
      in if v = [] then Inr []
         else res_bind (check_avatar_url host_ok v) (\<lambda>_.
                if length v > 500 then Inl (ValidationError ''avatar_url'' ''Ensure this field has no more characters.'')
                else if \<not> url_ok v then Inl (ValidationError ''avatar_url'' ''Enter a valid URL.'')
                else Inr v))"

record profile_body =
  body_bio :: "string option"
  body_preferences :: "json option"
  body_visibility :: "string option"
  body_avatar_url :: "string option"

type_synonym profile_edit =
  "string option \<times> (string \<times> string) list option \<times> visibility option \<times> string option"

definition validate_profile_update ::
  "(string \<Rightarrow> bool) \<Rightarrow> (string \<Rightarrow> bool) \<Rightarrow> profile_body \<Rightarrow> profile_edit res" where
  "validate_profile_update url_ok host_ok b =
     res_bind (validate_optional (validate_text ''bio'' 500 True) (body_bio b)) (\<lambda>bi.
     res_bind (validate_optional validate_preferences (body_preferences b)) (\<lambda>pr.
     res_bind (validate_optional validate_visibility (body_visibility b)) (\<lambda>vi.
     res_bind (validate_optional (validate_avatar_link url_ok host_ok) (body_avatar_url b)) (\<lambda>av.
       Inr (bi, pr, vi, av)))))"

definition validate_role :: "string \<Rightarrow> string res" where
  "validate_role v =
     (if role_of_string v = None then Inl (ValidationError ''role'' ''Not a valid choice.'') else Inr v)"

definition validate_confirm :: "bool \<Rightarrow> bool res" where
  "validate_confirm v =
     (if v then Inr v
      else Inl (ValidationError ''confirm'' ''Confirm that you want to deactivate your account.''))"

record metrics_query =
  query_category :: "string option"
  query_granularity :: "string option"
  query_from :: "string option"
  query_to :: "string option"

definition validate_date :: "(string \<Rightarrow> date option) \<Rightarrow> string \<Rightarrow> string \<Rightarrow> date res" where
  "validate_date parse_date field v =
     (case parse_date v of
        None \<Rightarrow> Inl (ValidationError field ''Date has wrong format.'') | Some d \<Rightarrow> Inr d)"

definition validate_category_code :: "db \<Rightarrow> string \<Rightarrow> string res" where
  "validate_category_code s v =
     (if list_ex (\<lambda>c. category_code c = v) (categories s) then Inr v
      else Inl (ValidationError ''category'' ''Object does not exist.''))"

definition validate_granularity :: "string \<Rightarrow> granularity res" where
  "validate_granularity v =
     (if v = ''week'' then Inr WEEK else if v = ''month'' then Inr MONTH
      else Inl (ValidationError ''granularity'' ''Not a valid choice.''))"

definition validate_metrics_query :: "(string \<Rightarrow> date option) \<Rightarrow> db \<Rightarrow> metrics_query \<Rightarrow> metrics_filters res" where
  "validate_metrics_query parse_date s q =
     res_bind (validate_optional (validate_category_code s) (query_category q)) (\<lambda>c.
     res_bind (validate_optional validate_granularity (query_granularity q)) (\<lambda>g.
     res_bind (validate_optional (validate_date parse_date ''from'') (query_from q)) (\<lambda>a.
     res_bind (validate_optional (validate_date parse_date ''to'') (query_to q)) (\<lambda>b.
       if (case (a, b) of (Some x, Some y) \<Rightarrow> x > y | _ \<Rightarrow> False)
       then Inl (ValidationError ''from'' ''from must not be after to.'')
       else Inr \<lparr>date_from = a, date_to = b, filter_category = c,
                 filter_granularity = (case g of None \<Rightarrow> WEEK | Some x \<Rightarrow> x)\<rparr>))))"

section \<open>Answers\<close>

record user_data =
  data_id :: uuid
  data_email :: string
  data_role :: user_role
  data_avatar_url :: string

definition user_data_of :: "(string \<Rightarrow> string) \<Rightarrow> db \<Rightarrow> user \<Rightarrow> user_data" where
  "user_data_of absolute s u =
     \<lparr>data_id = user_id u, data_email = email u, data_role = role u,
      data_avatar_url = user_avatar_url absolute s (user_id u)\<rparr>"

text \<open>\<open>ClanSummarySerializer\<close>: a reference keeps pointing at a clan that was dissolved.\<close>

definition clan_summary :: "db \<Rightarrow> uuid option \<Rightarrow> (uuid \<times> string) option" where
  "clan_summary s k =
     (case k of
        None \<Rightarrow> None
      | Some cid \<Rightarrow> map_option (\<lambda>c. (clan_id c, clan_name c)) (find (\<lambda>c. clan_id c = cid) (clans s)))"

record profile_data =
  shown_user :: user
  shown_visibility :: visibility
  shown_bio :: string
  shown_preferences :: "(string \<times> string) list"
  shown_cosmetics :: "string list"
  shown_avatar :: string
  shown_change_cost :: int
  shown_total :: int
  shown_available :: int
  shown_streak :: nat
  shown_level :: "nat option"
  shown_impact :: impact_metrics
  shown_campaigns :: "(uuid \<times> string \<times> datetime) list"
  shown_institutional :: "(uuid \<times> string) option"
  shown_private :: "(uuid \<times> string) option"

definition profile_data_of :: "(string \<Rightarrow> string) \<Rightarrow> db \<Rightarrow> user \<Rightarrow> ecological_profile \<Rightarrow> profile_data" where
  "profile_data_of absolute s u e =
     (let p = eco_profile e
      in \<lparr>shown_user = u, shown_visibility = profile_visibility p, shown_bio = bio p,
          shown_preferences = preferences p, shown_cosmetics = unlocked_cosmetics p,
          shown_avatar = public_avatar_url absolute (Some p), shown_change_cost = nickname_change_cost p,
          shown_total = total_points p, shown_available = available_points p, shown_streak = current_streak p,
          shown_level = eco_level e, shown_impact = eco_impact e, shown_campaigns = eco_campaigns e,
          shown_institutional = clan_summary s (institutional_clan p),
          shown_private = clan_summary s (eco_private_clan e)\<rparr>)"

section \<open>Accounts\<close>

definition require_admin :: "user \<Rightarrow> unit res" where
  "require_admin u =
     require (role u = ADMIN) (PermissionDenied ''You do not have permission to perform this action.'')"

definition me_view :: "(string \<Rightarrow> string) \<Rightarrow> db \<Rightarrow> user \<Rightarrow> user_data res" where
  "me_view absolute s u = map_sum id (user_data_of absolute s) (get_user s (user_id u))"

text \<open>\<open>ORDER BY email\<close> with the collation as the key \<open>collate\<close>.\<close>

definition list_users_view :: "(string \<Rightarrow> string) \<Rightarrow> (string \<Rightarrow> nat) \<Rightarrow> db \<Rightarrow> user \<Rightarrow> user_data list res" where
  "list_users_view absolute collate s u =
     res_bind (require_admin u) (\<lambda>_.
       Inr (map (user_data_of absolute s) (sort_key (\<lambda>x. collate (email x)) (users s))))"

definition target_user :: "db \<Rightarrow> uuid option \<Rightarrow> user res" where
  "target_user s pk =
     (case pk of None \<Rightarrow> Inl Http404 | Some k \<Rightarrow> get_or_404 (\<lambda>x. user_id x = k) (users s))"

definition role_view ::
  "(string \<Rightarrow> string) \<Rightarrow> db \<Rightarrow> datetime \<Rightarrow> user \<Rightarrow> uuid option \<Rightarrow> string option \<Rightarrow> (user_data \<times> db) res" where
  "role_view absolute s now u pk new_role_name =
     res_bind (require_admin u) (\<lambda>_.
     res_bind (target_user s pk) (\<lambda>t.
     res_bind (validate_required ''role'' validate_role new_role_name) (\<lambda>r.
       map_sum id (\<lambda>(x, s1). (user_data_of absolute s1 x, s1))
         (update_user_role s now (Some (user_id u)) (user_id t) r))))"

definition role_history_view :: "db \<Rightarrow> user \<Rightarrow> uuid option \<Rightarrow> role_audit list res" where
  "role_history_view s u pk =
     res_bind (require_admin u) (\<lambda>_.
     res_bind (target_user s pk) (\<lambda>t.
       Inr (sort_key (\<lambda>a. - audit_created_at a) (filter (\<lambda>a. audit_user a = user_id t) (role_audits s)))))"

section \<open>Sign-in\<close>

text \<open>\<open>_flatten_validation_detail\<close> of a nested error.\<close>

datatype detail = DetailDict "(string \<times> detail) list" | DetailList "string list" | DetailText string

fun flatten_validation_detail :: "detail \<Rightarrow> string" where
  "flatten_validation_detail (DetailDict d) =
     py_join '' | '' (map (\<lambda>(f, e). f @ '': '' @ flatten_validation_detail e) d)"
| "flatten_validation_detail (DetailList xs) = py_join ''; '' xs"
| "flatten_validation_detail (DetailText t) = t"

definition is_validation_error :: "exc \<Rightarrow> bool" where
  "is_validation_error e = (case e of ValidationError f m \<Rightarrow> True | _ \<Rightarrow> False)"

definition login_view ::
  "login_settings \<Rightarrow> (string \<Rightarrow> string \<Rightarrow> identity res) \<Rightarrow> db \<Rightarrow> string option \<Rightarrow> string option \<Rightarrow> (login_result \<times> db) res" where
  "login_view cfg authenticate s id_token access_token =
     on_error is_validation_error (\<lambda>_. RequestValidationError)
       (res_bind (validate_required ''id_token'' (validate_text ''id_token'' 8192 False) id_token) (\<lambda>i.
        res_bind (validate_text ''access_token'' 8192 True (case access_token of None \<Rightarrow> [] | Some a \<Rightarrow> a)) (\<lambda>a.
          login_with_microsoft cfg authenticate i a s)))"

section \<open>The own profile\<close>

definition profile_view :: "(string \<Rightarrow> string) \<Rightarrow> db \<Rightarrow> user \<Rightarrow> profile_data \<times> db" where
  "profile_view absolute s u =
     (let (e, s1) = get_ecological_profile s (user_id u) in (profile_data_of absolute s1 u e, s1))"

definition patch_profile_view ::
  "(string \<Rightarrow> string) \<Rightarrow> (string \<Rightarrow> bool) \<Rightarrow> (string \<Rightarrow> bool) \<Rightarrow> db \<Rightarrow> user \<Rightarrow> profile_body \<Rightarrow> (profile_data \<times> db) res" where
  "patch_profile_view absolute url_ok host_ok s u b =
     res_bind (validate_profile_update url_ok host_ok b) (\<lambda>(bi, pr, vi, av).
     res_bind (update_profile s (user_id u) bi pr vi av) (\<lambda>(_, s1). Inr (profile_view absolute s1 u)))"

definition set_avatar_view :: "(string \<Rightarrow> string) \<Rightarrow> db \<Rightarrow> user \<Rightarrow> upload option \<Rightarrow> (profile_data \<times> db) res" where
  "set_avatar_view absolute s u up =
     res_bind (on_error is_image_error (\<lambda>e. ValidationError ''avatar'' (exc_text e)) (set_profile_avatar s (user_id u) up))
       (\<lambda>(_, s1). Inr (profile_view absolute s1 u))"

definition post_avatar_view :: "(string \<Rightarrow> string) \<Rightarrow> db \<Rightarrow> user \<Rightarrow> upload option \<Rightarrow> (profile_data \<times> db) res" where
  "post_avatar_view absolute s u up =
     res_bind (validate_file ''avatar'' up) (\<lambda>f. set_avatar_view absolute s u (Some f))"

definition delete_avatar_view :: "(string \<Rightarrow> string) \<Rightarrow> db \<Rightarrow> user \<Rightarrow> (profile_data \<times> db) res" where
  "delete_avatar_view absolute s u = set_avatar_view absolute s u None"

fun is_nickname_error :: "exc \<Rightarrow> bool" where
  "is_nickname_error NicknameUnchangedError = True"
| "is_nickname_error InsufficientPointsForNicknameError = True"
| "is_nickname_error e = False"

definition nickname_view :: "db \<Rightarrow> user \<Rightarrow> string option \<Rightarrow> (nickname_change \<times> db) res" where
  "nickname_view s u nick =
     res_bind (validate_required ''nickname'' (validate_text ''nickname'' 50 False) nick) (\<lambda>n.
       on_error is_nickname_error (\<lambda>e. ValidationError ''nickname'' (exc_text e)) (change_nickname s (user_id u) n))"

fun blocked_text :: "exc \<Rightarrow> string option" where
  "blocked_text (AccountDeactivationBlockedError m) = Some m"
| "blocked_text e = None"

definition deactivate_view :: "db \<Rightarrow> datetime \<Rightarrow> user \<Rightarrow> bool option \<Rightarrow> db res" where
  "deactivate_view s now u confirm =
     res_bind (validate_required ''confirm'' validate_confirm confirm) (\<lambda>_.
       on_error (\<lambda>e. blocked_text e \<noteq> None) (\<lambda>e. ValidationError ''account'' (the (blocked_text e)))
         (state_of (deactivate_account s now (user_id u))))"

definition metrics_view ::
  "(string \<Rightarrow> date option) \<Rightarrow> (date \<Rightarrow> date) \<Rightarrow> zone \<Rightarrow> db \<Rightarrow> user \<Rightarrow> metrics_query \<Rightarrow> (profile_metrics \<times> db) res" where
  "metrics_view parse_date trunc_month z s u q =
     res_bind (validate_metrics_query parse_date s q) (\<lambda>f.
       Inr (get_profile_metrics trunc_month z s (user_id u) f))"

definition impact_trend_view :: "zone \<Rightarrow> db \<Rightarrow> datetime \<Rightarrow> user \<Rightarrow> (date \<times> impact_metrics) list res" where
  "impact_trend_view z s now u = get_impact_trend z s now (user_id u) IMPACT_TREND_WEEKS"

section \<open>Photos\<close>

datatype image_reply = ImageRedirect string | ImageStream string string

definition content_type_of :: "string \<Rightarrow> string" where
  "content_type_of suffix =
     (if suffix = ''.jpg'' then JPEG else if suffix = ''.png'' then PNG else if suffix = ''.webp'' then WEBP
      else ''application/octet-stream'')"

text \<open>\<open>path.suffix\<close>: from the last dot of the name, when text surrounds it.\<close>

definition path_suffix :: "string \<Rightarrow> string" where
  "path_suffix key =
     (let name = last (py_split_on (CHR ''/'') key) in drop (length (path_stem key)) name)"

text \<open>\<open>cloud\<close> is \<open>signed_read_url\<close> where the bucket is configured, the stored files otherwise.\<close>

definition image_response :: "(string \<Rightarrow> string) option \<Rightarrow> db \<Rightarrow> string \<Rightarrow> uuid \<Rightarrow> string \<Rightarrow> image_reply option" where
  "image_response cloud s prefix owner key =
     (if \<not> is_owned_key prefix owner key then None
      else (case cloud of
              Some signed_read_url \<Rightarrow>
                if signed_read_url key \<noteq> [] then Some (ImageRedirect (signed_read_url key)) else None
            | None \<Rightarrow>
                if key \<in> set (media s) then Some (ImageStream key (content_type_of (py_lower (path_suffix key)))) else None))"

definition avatar_image_view :: "(string \<Rightarrow> string) option \<Rightarrow> db \<Rightarrow> uuid \<Rightarrow> image_reply res" where
  "avatar_image_view cloud s uid =
     (let active = list_ex (\<lambda>x. user_id x = uid \<and> is_active x) (users s);
          key = (if active then (case profile_of s uid of None \<Rightarrow> [] | Some p \<Rightarrow> avatar_object_key p) else [])
      in case image_response cloud s PROFILE_AVATAR_PREFIX uid key of
           None \<Rightarrow> Inl Http404
         | Some r \<Rightarrow> Inr r)"

section \<open>One request\<close>

record view_env =
  absolute_uri :: "string \<Rightarrow> string"
  url_valid :: "string \<Rightarrow> bool"
  host_valid :: "string \<Rightarrow> bool"
  date_parser :: "string \<Rightarrow> date option"
  month_start :: "date \<Rightarrow> date"
  local_zone :: zone

datatype account_request =
    GetProfile
  | PatchProfile profile_body
  | PostAvatar "upload option"
  | DeleteAvatar
  | PostNickname "string option"
  | PostDeactivate "bool option"
  | GetMetrics metrics_query
  | PatchRole "uuid option" "string option"

fun account_endpoint :: "view_env \<Rightarrow> datetime \<Rightarrow> user \<Rightarrow> account_request \<Rightarrow> db \<Rightarrow> db res" where
  "account_endpoint env now u GetProfile s = Inr (snd (profile_view (absolute_uri env) s u))"
| "account_endpoint env now u (PatchProfile b) s =
     state_of (patch_profile_view (absolute_uri env) (url_valid env) (host_valid env) s u b)"
| "account_endpoint env now u (PostAvatar up) s = state_of (post_avatar_view (absolute_uri env) s u up)"
| "account_endpoint env now u DeleteAvatar s = state_of (delete_avatar_view (absolute_uri env) s u)"
| "account_endpoint env now u (PostNickname n) s = state_of (nickname_view s u n)"
| "account_endpoint env now u (PostDeactivate c) s = deactivate_view s now u c"
| "account_endpoint env now u (GetMetrics q) s =
     state_of (metrics_view (date_parser env) (month_start env) (local_zone env) s u q)"
| "account_endpoint env now u (PatchRole pk r) s = state_of (role_view (absolute_uri env) s now u pk r)"

definition account_served :: "view_env \<Rightarrow> uuid \<Rightarrow> datetime \<times> account_request \<Rightarrow> db \<Rightarrow> db res" where
  "account_served env uid r s =
     (case get_user s uid of
        Inl e \<Rightarrow> Inl (PermissionDenied ''User not found'')
      | Inr u \<Rightarrow> if is_active u then account_endpoint env (fst r) u (snd r) s
                 else Inl (PermissionDenied ''User is inactive''))"

end
