(* ===== verification/Account_Access.thy ===== *)
theory Account_Access
  imports Account_Views
begin

text \<open>
  Who the account endpoints affect, and how they fail. \<open>others_of u s\<close> is everything in the database
  that is not account \<open>u\<close>'s own: every step of the services keeps it, so every sequence of
  requests of an account that is not an administrator does. A request that fails answers an error
  of the interface: what the bodies are checked for is what the columns hold.
\<close>

section \<open>What belongs to others\<close>

definition others_of ::
  "uuid \<Rightarrow> db \<Rightarrow> ((uuid \<times> user_role) list \<times> user list \<times> profile list \<times> membership list \<times> action_log list) \<times>
     (notification list \<times> refresh_token list \<times> clan list \<times> invitation list \<times> role_audit list \<times> campaign list)" where
  "others_of u s =
     ((map (\<lambda>x. (user_id x, role x)) (users s), filter (\<lambda>x. user_id x \<noteq> u) (users s),
       filter (\<lambda>p. profile_user p \<noteq> u) (profiles s), filter (\<lambda>m. member m \<noteq> u) (memberships s),
       filter (\<lambda>l. log_user l \<noteq> u) (action_logs s)),
      (filter (\<lambda>n. notification_user n \<noteq> u) (notifications s), filter (\<lambda>t. token_user t \<noteq> u) (tokens s),
       clans s, invitations s, role_audits s, campaigns s))"

named_theorems own_rows \<open>steps that keep what belongs to others\<close>

lemma ensure_profile_own [own_rows]: "others_of u (snd (ensure_profile s u)) = others_of u s"
  by (simp add: ensure_profile_def others_of_def split: option.splits)

lemma ensured_own: "ensure_profile s u = (p, s1) \<Longrightarrow> others_of u s1 = others_of u s"
  using ensure_profile_own [of u s] by simp

lemma edit_profile_own [own_rows]:
  "(\<And>p. profile_user (f p) = profile_user p) \<Longrightarrow> others_of u (edit_profile u f s) = others_of u s"
  by (simp add: others_of_def edit_profile_def filter_qs_update_keep)

lemma edit_user_own [own_rows]:
  "(\<And>x. user_id (f x) = user_id x \<and> role (f x) = role x) \<Longrightarrow> others_of u (edit_user u f s) = others_of u s"
  by (simp add: others_of_def edit_user_def filter_qs_update_keep)

lemma delete_files_own [own_rows]:
  "others_of u (delete_image pre v k s) = others_of u s" "others_of u (delete_profile_avatar v k s) = others_of u s"
  "others_of u (delete_action_evidence k s) = others_of u s"
  by (simp_all add: others_of_def delete_profile_avatar_def delete_image_def delete_action_evidence_def split: option.splits)

lemma fold_evidence_own [own_rows]: "others_of u (fold delete_action_evidence ks s) = others_of u s"
  by (induction ks arbitrary: s) (simp_all add: own_rows)

lemma delete_own_rows_own [own_rows]: "others_of u (delete_own_rows u s) = others_of u s"
  by (simp add: others_of_def delete_own_rows_def Let_def qs_delete_def)

lemma reject_pending_own [own_rows]: "others_of u (reject_pending_logs now u s) = others_of u s"
  by (auto simp: others_of_def reject_pending_logs_def pending_of_def intro!: filter_qs_update_keep)

lemma sockets_own [own_rows]: "others_of u (close_user_sockets v s) = others_of u s"
  by (simp add: others_of_def close_user_sockets_def)

lemma blacklist_own [own_rows]:
  "ts = tokens s \<Longrightarrow>
   others_of u (s\<lparr>tokens := qs_update (\<lambda>t. token_user t = u) (\<lambda>t. t\<lparr>blacklisted := True\<rparr>) ts\<rparr>) = others_of u s"
  by (simp add: others_of_def filter_qs_update_keep)

lemma save_image_own: "save_image s pre u up = Inr (k, s') \<Longrightarrow> others_of u s' = others_of u s"
  by (auto simp: others_of_def dest!: save_image_InrD)

section \<open>Services\<close>

lemma own_edit_keeps [simp]:
  "profile_user (apply_profile_edit b prefs vis url p) = profile_user p"
  "profile_user (wiped_profile now p) = profile_user p"
  by (simp_all add: apply_profile_edit_def wiped_profile_def Let_def split: option.splits)

lemma update_profile_own: "update_profile s u b prefs vis url = Inr (p, s') \<Longrightarrow> others_of u s' = others_of u s"
  by (auto simp: update_profile_def Let_def own_rows dest!: ensured_own split: sum.splits if_splits prod.splits)

lemma set_profile_avatar_own: "set_profile_avatar s u up = Inr (p, s') \<Longrightarrow> others_of u s' = others_of u s"
  by (auto simp: set_profile_avatar_def save_profile_avatar_def Let_def own_rows dest!: save_image_own ensured_own
      split: sum.splits if_splits prod.splits option.splits)

lemma change_nickname_own: "change_nickname s u n = Inr (r, s') \<Longrightarrow> others_of u s' = others_of u s"
  by (auto simp: change_nickname_def Let_def own_rows dest!: ensured_own split: sum.splits if_splits prod.splits)

lemma deactivate_account_own:
  assumes "deactivate_account s now u = Inr (x, s')"
  shows "others_of u s' = others_of u s"
proof -
  obtain p s2 where e: "ensure_profile (reject_pending_logs now u (delete_own_rows u s)) u = (p, s2)" by force
  have "others_of u s2 = others_of u s" using ensured_own [OF e] by (simp add: own_rows)
  with assms e show ?thesis
    by (auto simp: deactivate_account_def Let_def own_rows split: option.splits if_splits)
qed

section \<open>Requests\<close>

lemma profile_view_own: "others_of (user_id u) (snd (profile_view absolute s u)) = others_of (user_id u) s"
  using ensure_profile_own [of "user_id u" s]
  by (simp add: profile_view_def get_ecological_profile_def case_prod_beta Let_def)

lemma viewed_own: "profile_view absolute s u = (d, s') \<Longrightarrow> others_of (user_id u) s' = others_of (user_id u) s"
  using profile_view_own [of u absolute s] by simp

lemma get_profile_metrics_own: "get_profile_metrics tm z s u f = (m, s') \<Longrightarrow> others_of u s' = others_of u s"
  using ensure_profile_own [of u s] by (auto simp add: get_profile_metrics_def case_prod_beta Let_def)

lemma on_error_InrD: "on_error c f r = Inr x \<Longrightarrow> r = Inr x"
  by (auto simp: on_error_def split: sum.splits)

lemma account_endpoint_own:
  assumes "account_endpoint env now u r s = Inr s'" "role u \<noteq> ADMIN"
  shows "others_of (user_id u) s' = others_of (user_id u) s"
proof (cases r)
  case (PatchProfile b)
  with assms(1) show ?thesis
    by (auto simp: patch_profile_view_def dest!: state_of_InrE viewed_own update_profile_own elim!: res_bind_InrE)
next
  case (PostAvatar up)
  with assms(1) show ?thesis
    by (auto simp: post_avatar_view_def set_avatar_view_def
        dest!: state_of_InrE on_error_InrD viewed_own set_profile_avatar_own elim!: res_bind_InrE)
next
  case DeleteAvatar
  with assms(1) show ?thesis
    by (auto simp: delete_avatar_view_def set_avatar_view_def
        dest!: state_of_InrE on_error_InrD viewed_own set_profile_avatar_own elim!: res_bind_InrE)
next
  case (PostNickname n)
  with assms(1) show ?thesis
    by (auto simp: nickname_view_def dest!: state_of_InrE on_error_InrD change_nickname_own elim!: res_bind_InrE)
next
  case (PostDeactivate c)
  with assms(1) show ?thesis
    by (auto simp: deactivate_view_def dest!: on_error_InrD state_of_InrE deactivate_account_own elim!: res_bind_InrE)
next
  case (GetMetrics q)
  with assms(1) show ?thesis
    by (auto simp: metrics_view_def dest!: state_of_InrE get_profile_metrics_own elim!: res_bind_InrE)
next
  case (PatchRole pk n)
  with assms show ?thesis
    by (auto simp: role_view_def require_admin_def dest!: state_of_InrE elim!: res_bind_InrE)
qed (use assms profile_view_own in auto)

text \<open>An account that is not an administrator stays one along its own requests.\<close>

definition no_admin :: "uuid \<Rightarrow> db \<Rightarrow> bool" where
  "no_admin u s \<longleftrightarrow> (\<forall>x \<in> set (users s). user_id x = u \<longrightarrow> role x \<noteq> ADMIN)"

lemma no_admin_roles: "no_admin u s \<longleftrightarrow> (u, ADMIN) \<notin> set (map (\<lambda>x. (user_id x, role x)) (users s))"
  by (force simp: no_admin_def)

lemma no_admin_cong: "others_of u s' = others_of u s \<Longrightarrow> no_admin u s' = no_admin u s"
  unfolding no_admin_roles by (simp add: others_of_def)

lemma account_served_own:
  assumes "no_admin u s" "account_served env u r s = Inr s'"
  shows "others_of u s' = others_of u s"
proof -
  obtain x where "get_user s u = Inr x" "account_endpoint env (fst r) x (snd r) s = Inr s'"
    using assms(2) by (auto simp: account_served_def split: sum.splits if_splits)
  moreover from this have "user_id x = u" "role x \<noteq> ADMIN"
    using get_user_InrD assms(1) by (auto simp: no_admin_def)
  ultimately show ?thesis using account_endpoint_own by blast
qed

interpretation self_scoped:
  monotone_machine "account_served env u" "no_admin u" "\<lambda>s s'. others_of u s' = others_of u s" for env u
proof
  show "no_admin u s'" if "no_admin u s" "account_served env u e s = Inr s'" for s e s'
    using that no_admin_cong [OF account_served_own] by blast
qed (simp_all add: account_served_own)

section \<open>Errors\<close>

fun interface_error :: "exc \<Rightarrow> bool" where
  "interface_error (ValidationError f m) = True"
| "interface_error (PermissionDenied m) = True"
| "interface_error Http404 = True"
| "interface_error CannotDemoteLastAdminError = True"
| "interface_error e = False"

text \<open>The columns are \<open>varchar(500)\<close>.\<close>

definition columns_ok :: "db \<Rightarrow> bool" where
  "columns_ok s \<longleftrightarrow> (\<forall>p \<in> set (profiles s). length (bio p) \<le> 500 \<and> length (avatar_url p) \<le> 500)"

lemma res_bind_InlE:
  assumes "res_bind r f = Inl e"
  obtains "r = Inl e" | x where "r = Inr x" "f x = Inl e"
  using assms by (cases r) auto

lemma state_of_Inl: "state_of r = Inl e \<Longrightarrow> r = Inl e"
  by (cases r) (auto simp: state_of_def)

lemma field_errors:
  "validate_text f n b v = Inl e \<Longrightarrow> interface_error e"
  "validate_preferences j = Inl e \<Longrightarrow> interface_error e"
  "validate_visibility v = Inl e \<Longrightarrow> interface_error e"
  "validate_role v = Inl e \<Longrightarrow> interface_error e"
  "validate_confirm c = Inl e \<Longrightarrow> interface_error e"
  "validate_file f up = Inl e \<Longrightarrow> interface_error e"
  "validate_avatar_link uo ho v = Inl e \<Longrightarrow> interface_error e \<or> e = PyValueError ''Invalid URL'' \<and> urlsplit ho (py_strip v) = None"
  "validate_metrics_query pd s q = Inl e \<Longrightarrow> interface_error e"
  by (auto simp: validate_text_def validate_preferences_def validate_visibility_def validate_role_def
      validate_confirm_def validate_file_def validate_required_def validate_avatar_link_def check_avatar_url_def
      validate_metrics_query_def validate_optional_def validate_category_code_def validate_granularity_def
      validate_date_def Let_def elim!: res_bind_InlE split: if_splits option.splits sum.splits)

lemma required_error:
  "validate_required f g v = Inl e \<Longrightarrow> (\<And>x. g x = Inl e \<Longrightarrow> interface_error e) \<Longrightarrow> interface_error e"
  by (auto simp: validate_required_def split: option.splits)

lemma optional_error: "validate_optional g v = Inl e \<Longrightarrow> \<exists>x. v = Some x \<and> g x = Inl e"
  by (cases v; cases "g (the v)") (auto simp: validate_optional_def)

lemma optional_value: "validate_optional g v = Inr w \<Longrightarrow> w = None \<or> (\<exists>x y. v = Some x \<and> w = Some y \<and> g x = Inr y)"
  by (cases v; cases "g (the v)") (auto simp: validate_optional_def)

lemma profile_update_bounds:
  assumes "validate_profile_update uo ho b = Inr (bi, pr, vi, av)"
  shows "(case bi of None \<Rightarrow> True | Some v \<Rightarrow> length v \<le> 500) \<and> (case av of None \<Rightarrow> True | Some v \<Rightarrow> length v \<le> 500)"
  using assms
  by (auto simp: validate_profile_update_def validate_text_def validate_avatar_link_def Let_def
      elim!: res_bind_InrE dest!: optional_value split: option.splits if_splits)

lemma profile_update_error:
  assumes "validate_profile_update uo ho b = Inl e"
  shows "interface_error e \<or> (\<exists>v. body_avatar_url b = Some v \<and> urlsplit ho (py_strip v) = None \<and> e = PyValueError ''Invalid URL'')"
  using assms
  by (auto simp: validate_profile_update_def elim!: res_bind_InlE dest!: optional_error dest: field_errors)

lemma ensured_columns:
  assumes "columns_ok s" "ensure_profile s u = (p, s1)"
  shows "length (bio p) \<le> 500 \<and> length (avatar_url p) \<le> 500"
  using assms profile_of_SomeD [of s u]
  by (auto simp: ensure_profile_def columns_ok_def new_profile_def split: option.splits)

lemma update_profile_succeeds:
  assumes "columns_ok s" "get_user s u = Inr x" "is_active x"
    and "case b of None \<Rightarrow> True | Some v \<Rightarrow> length v \<le> 500" "case url of None \<Rightarrow> True | Some v \<Rightarrow> length v \<le> 500"
  shows "update_profile s u b prefs vis url \<noteq> Inl e"
proof -
  obtain p s1 where p: "ensure_profile s u = (p, s1)" by force
  have "length (bio (apply_profile_edit b prefs vis url p)) \<le> 500 \<and>
      length (avatar_url (apply_profile_edit b prefs vis url p)) \<le> 500"
    using ensured_columns [OF assms(1) p] assms(4,5)
    by (auto simp: apply_profile_edit_def Let_def split: option.splits)
  then show ?thesis
    using assms(2,3) by (auto simp: update_profile_def p ensure_account_writable_def Let_def)
qed

lemma set_profile_avatar_error:
  assumes "set_profile_avatar s u up = Inl e" "get_user s u = Inr x" "is_active x"
  shows "\<exists>m. e = InvalidImageError m"
proof -
  have chunks: "read_bounded (InvalidImageError m) acc cs = Inl e \<Longrightarrow> \<exists>m. e = InvalidImageError m" for m acc cs
    by (induction "InvalidImageError m" acc cs rule: read_bounded.induct) (auto split: if_splits)
  have image: "validate_image f = Inl e \<Longrightarrow> \<exists>m. e = InvalidImageError m" for f
    by (auto simp: validate_image_def Let_def split: option.splits if_splits)
  have "save_profile_avatar s1 u f = Inl e \<Longrightarrow> \<exists>m. e = InvalidImageError m" for s1 f
    by (auto simp: save_profile_avatar_def save_image_def store_key_def Let_def
        dest: chunks image validate_image_known split: sum.splits option.splits)
  then show ?thesis
    using assms by (auto simp: set_profile_avatar_def ensure_account_writable_def Let_def split: sum.splits prod.splits option.splits)
qed

lemma change_nickname_error:
  assumes "change_nickname s u n = Inl e" "get_user s u = Inr x" "is_active x" "length n \<le> 50"
  shows "is_nickname_error e \<or> e = DataError ''accounts_user_profile.nickname_changes''"
  using assms by (auto simp: change_nickname_def ensure_account_writable_def Let_def split: prod.splits if_splits)

lemma deactivate_error:
  assumes "deactivate_account s now u = Inl e" "get_user s u = Inr x"
  shows "blocked_text e \<noteq> None"
proof -
  have "find (\<lambda>x. user_id x = u) (filter (\<lambda>x. active_admin x \<or> user_id x = u) (users s)) \<noteq> None"
    using get_user_InrD [OF assms(2)] by (auto simp: find_None_iff)
  with assms(1) show ?thesis
    by (auto simp: deactivate_account_def Let_def split: option.splits if_splits prod.splits)
qed

lemma map_sum_InlD: "map_sum id g r = Inl e \<Longrightarrow> r = Inl e"
  by (cases r) auto

lemma validate_role_InrD: "validate_role v = Inr v' \<Longrightarrow> v' = v \<and> role_of_string v \<noteq> None"
  by (auto simp: validate_role_def split: if_splits)

lemma target_user_cases:
  assumes "users_ok s"
  shows "target_user s pk = Inl Http404 \<or> (\<exists>t \<in> set (users s). target_user s pk = Inr t)"
proof (cases "\<exists>k. pk = Some k \<and> (\<exists>t \<in> set (users s). user_id t = k)")
  case True
  then obtain t where t: "t \<in> set (users s)" "pk = Some (user_id t)" by blast
  with get_user_iff [OF assms t(1) refl] show ?thesis
    by (auto simp: target_user_def get_or_404_def get_user_def)
next
  case False
  then have "qs_get (\<lambda>x. user_id x = k) (users s) = Inl DoesNotExist" if "pk = Some k" for k
    using that by (auto simp: qs_get_DoesNotExist)
  then show ?thesis by (cases pk) (auto simp: target_user_def get_or_404_def)
qed

lemma role_error:
  assumes "role_view a s now u pk r = Inl e" "accounts_ok s"
  shows "interface_error e"
proof -
  have "interface_error e" if "update_user_role s now w (user_id t) v = Inl e" "role_of_string v \<noteq> None" "t \<in> set (users s)" for w t v
  proof -
    have "find (\<lambda>x. user_id x = user_id t) (filter (\<lambda>x. active_admin x \<or> user_id x = user_id t) (users s)) \<noteq> None"
      using that(3) by (auto simp: find_None_iff)
    with that(1,2) show ?thesis
      by (auto simp: update_user_role_def Let_def split: option.splits if_splits)
  qed
  then show ?thesis
    using assms target_user_cases [of s pk] field_errors(4)
    by (auto simp: role_view_def require_admin_def accounts_ok_def validate_required_def
        elim!: res_bind_InlE dest!: map_sum_InlD validate_role_InrD split: option.splits)
qed

text \<open>The two errors of a request that the interface does not name.\<close>

definition unforeseen :: "view_env \<Rightarrow> account_request \<Rightarrow> exc \<Rightarrow> bool" where
  "unforeseen env r e \<longleftrightarrow>
     (\<exists>b v. r = PatchProfile b \<and> body_avatar_url b = Some v \<and> urlsplit (host_valid env) (py_strip v) = None \<and>
            e = PyValueError ''Invalid URL'') \<or>
     (\<exists>n. r = PostNickname n \<and> e = DataError ''accounts_user_profile.nickname_changes'')"

lemma avatar_error:
  assumes "set_avatar_view a s u up = Inl e" "get_user s (user_id u) = Inr u" "is_active u"
  shows "interface_error e"
  using assms
  by (auto simp: set_avatar_view_def on_error_def elim!: res_bind_InlE
      dest!: set_profile_avatar_error split: sum.splits if_splits)

lemma account_endpoint_error:
  assumes "accounts_ok s" "columns_ok s" "get_user s (user_id u) = Inr u" "is_active u"
    and "account_endpoint env now u r s = Inl e"
  shows "interface_error e \<or> unforeseen env r e"
proof (cases r)
  case (PatchProfile b)
  then have "patch_profile_view (absolute_uri env) (url_valid env) (host_valid env) s u b = Inl e"
    using assms(5) by (auto dest!: state_of_Inl)
  then have "validate_profile_update (url_valid env) (host_valid env) b = Inl e"
    using update_profile_succeeds [OF assms(2,3,4)] profile_update_bounds
    by (fastforce simp: patch_profile_view_def elim!: res_bind_InlE)
  from profile_update_error [OF this] PatchProfile show ?thesis by (auto simp: unforeseen_def)
next
  case (PostAvatar up)
  with assms show ?thesis
    by (auto simp: post_avatar_view_def elim!: res_bind_InlE dest!: state_of_Inl avatar_error dest: field_errors)
next
  case DeleteAvatar
  with assms show ?thesis by (auto simp: delete_avatar_view_def dest!: state_of_Inl avatar_error)
next
  case (PostNickname n)
  have "length w \<le> 50" if "validate_required ''nickname'' (validate_text ''nickname'' 50 False) n = Inr w" for w
    using that by (auto simp: validate_required_def validate_text_def Let_def split: option.splits if_splits)
  with PostNickname assms show ?thesis
    by (auto simp: nickname_view_def on_error_def unforeseen_def elim!: res_bind_InlE
        dest!: state_of_Inl change_nickname_error required_error dest: field_errors split: sum.splits if_splits)
next
  case (PostDeactivate c)
  with assms show ?thesis
    by (auto simp: deactivate_view_def on_error_def elim!: res_bind_InlE
        dest!: state_of_Inl deactivate_error required_error dest: field_errors split: sum.splits if_splits)
next
  case (GetMetrics q)
  with assms(5) show ?thesis
    by (auto simp: metrics_view_def elim!: res_bind_InlE dest!: state_of_Inl dest: field_errors)
next
  case (PatchRole pk n)
  with assms(1,5) show ?thesis by (auto dest!: state_of_Inl role_error)
qed (use assms(5) in simp)

section \<open>Properties\<close>

text \<open>
  C9: The account endpoints are self-scoped. Whatever requests an account that is not an
  administrator sends - edits of the profile, uploads, nicknames, statistics, a deactivation,
  attempts to set roles - no other account, profile, membership, log, notification or session changes, no clan,
  invitation, campaign or audit entry does, no account appears and nobody's role changes, their own
  included.
\<close>

theorem account_requests_are_self_scoped:
  assumes "\<And>x. x \<in> set (users s) \<Longrightarrow> user_id x = u \<Longrightarrow> role x \<noteq> ADMIN"
  shows "others_of u (run_calls (account_served env u) rs s) = others_of u s"
  by (rule self_scoped.run_le) (use assms in \<open>simp add: no_admin_def\<close>)

definition demo_views :: view_env where
  "demo_views = \<lparr>absolute_uri = id, url_valid = (\<lambda>_. True), host_valid = (\<lambda>_. True), date_parser = (\<lambda>_. None),
     month_start = id, local_zone = mexico_city\<rparr>"

definition demo_edit :: profile_body where
  "demo_edit = \<lparr>body_bio = Some '' Hola '', body_preferences = Some (JObj [(''theme'', JStr ''dark'')]),
     body_visibility = Some ''PRIVATE'', body_avatar_url = Some ''https://x.mx/a.PNG?v=1''\<rparr>"

definition demo_two_users :: db where
  "demo_two_users = empty_db\<lparr>users := [demo_user 0 ADMIN, demo_user 1 STUDENT], next_id := 2\<rparr>"

text \<open>A student edits the profile and tries to promote themselves.\<close>

theorem account_requests_are_self_scoped_witness:
  "let s' = run_calls (account_served demo_views 1)
              [(5, PatchProfile demo_edit), (6, PatchRole (Some 1) (Some ''ADMIN''))] demo_two_users
   in others_of 1 s' = others_of 1 demo_two_users \<and> map bio (profiles s') = [''Hola'']"
proof -
  have "map bio (profiles (run_calls (account_served demo_views 1)
      [(5, PatchProfile demo_edit), (6, PatchRole (Some 1) (Some ''ADMIN''))] demo_two_users)) = [''Hola'']"
    by code_simp
  moreover have "\<And>x. x \<in> set (users demo_two_users) \<Longrightarrow> user_id x = 1 \<Longrightarrow> role x \<noteq> ADMIN"
    by (auto simp: demo_two_users_def demo_user_def)
  ultimately show ?thesis
    using account_requests_are_self_scoped [of demo_two_users 1] by (simp add: Let_def del: run_calls.simps One_nat_def)
qed


text \<open>An unmatched bracket in the host of the link.\<close>

definition demo_broken_link :: profile_body where
  "demo_broken_link = \<lparr>body_bio = None, body_preferences = None, body_visibility = None,
     body_avatar_url = Some ''https://[x/a.png''\<rparr>"


end
