(* ===== verification/Sockets.thy ===== *)
theory Sockets
  imports Identity_Rules "HOL-Library.AList"
begin

text \<open>
  The live delivery of notifications (\<open>notifications/consumers.py\<close> with the sending side of
  \<open>notifications/services.py\<close>). One \<open>NotificationConsumer\<close> per socket; channels gives a consumer
  its messages one at a time, and between two \<open>await\<close>s of a handler the timer task of the same
  consumer, the other consumers and the transactions of the HTTP requests may run. A handler is
  therefore split at its \<open>await\<close>s, and the hub interleaves the pieces of all sockets with commits,
  with the pushes that \<open>transaction.on_commit\<close> runs after them and with the clock.

  Parameters are \<open>JWTAuthentication\<close> (\<open>auth\<close>: the user and the expiry of an access token, or
  None where it raises) and the channel layer (the record \<open>layer\<close>), for which
  \<open>documented_layer\<close> names what channels documents: a message goes to the members of the group,
  at most once and in order.
\<close>

section \<open>The consumer\<close>

definition AUTH_TIMEOUT_SECONDS :: int where
  "AUTH_TIMEOUT_SECONDS = 5"

definition CLOSE_UNAUTHORIZED :: nat where
  "CLOSE_UNAUTHORIZED = 4401"

definition timedelta_seconds :: "int \<Rightarrow> int" where
  "timedelta_seconds n = n * 1000000"

definition user_group_name :: "uuid \<Rightarrow> string" where
  "user_group_name u = ''notifications_user_'' @ uuid_str u"

fun event_user :: "push_event \<Rightarrow> uuid" where
  "event_user (NotificationCreated u n) = u"
| "event_user (AccountDeactivated u) = u"

text \<open>What the consumer sends: a notification is named by its owner and its key.\<close>

datatype frame = Accepted | AuthOk nat | Pong | Created uuid uuid | Closed nat

text \<open>
  Where the running handler waits: before and after the query of \<open>_resolve_user\<close>, before
  \<open>group_add\<close>, before and after the query of \<open>_unread_count\<close>. \<open>Stopped\<close> is a consumer after
  \<open>disconnect\<close>, \<open>Crashed\<close> one whose handler raised.
\<close>

datatype handler =
    Idle | Resolving json | Resolved "(uuid \<times> datetime) option"
  | Joining datetime | Counting datetime | Counted nat datetime
  | Stopped | Crashed

text \<open>\<open>timer\<close> is the deadline of a \<open>_close_after\<close> task that still sleeps.\<close>

record consumer =
  consumer_user :: "uuid option"
  group_name :: "string option"
  timer :: "datetime option"
  handler :: handler
  sent :: "frame list"

definition new_consumer :: consumer where
  "new_consumer = \<lparr>consumer_user = None, group_name = None, timer = None, handler = Idle, sent = []\<rparr>"

definition send_json :: "frame \<Rightarrow> consumer \<Rightarrow> consumer" where
  "send_json f k = k\<lparr>sent := sent k @ [f]\<rparr>"

definition close_socket :: "nat \<Rightarrow> consumer \<Rightarrow> consumer" where
  "close_socket code k = send_json (Closed code) k"

definition cancel_timer :: "consumer \<Rightarrow> consumer" where
  "cancel_timer k = k\<lparr>timer := None\<rparr>"

definition schedule_close :: "datetime \<Rightarrow> int \<Rightarrow> consumer \<Rightarrow> consumer" where
  "schedule_close now delay k = (cancel_timer k)\<lparr>timer := Some (now + delay)\<rparr>"

definition connect :: "datetime \<Rightarrow> consumer" where
  "connect now =
     schedule_close now (timedelta_seconds AUTH_TIMEOUT_SECONDS) (send_json Accepted new_consumer)"

definition message_type :: "json \<Rightarrow> json" where
  "message_type frm = (case as_dict frm of Some d \<Rightarrow> dget d ''type'' | None \<Rightarrow> JNull)"

definition message_token :: "json \<Rightarrow> json" where
  "message_token frm = (case as_dict frm of Some d \<Rightarrow> dget d ''token'' | None \<Rightarrow> JNull)"

definition receive_json :: "json \<Rightarrow> consumer \<Rightarrow> consumer" where
  "receive_json frm k =
     (if group_name k = None
      then (if message_type frm = JStr ''auth''
            then k\<lparr>handler := Resolving (message_token frm)\<rparr>
            else close_socket CLOSE_UNAUTHORIZED k)
      else if message_type frm = JStr ''ping'' then send_json Pong k
      else k)"

fun dispatch_event :: "push_event \<Rightarrow> consumer \<Rightarrow> consumer" where
  "dispatch_event (NotificationCreated u n) k = send_json (Created u n) k"
| "dispatch_event (AccountDeactivated u) k = close_socket CLOSE_UNAUTHORIZED k"

type_synonym auth = "datetime \<Rightarrow> db \<Rightarrow> string \<Rightarrow> (uuid \<times> datetime) option"

definition resolve_user :: "auth \<Rightarrow> datetime \<Rightarrow> db \<Rightarrow> json \<Rightarrow> (uuid \<times> datetime) option" where
  "resolve_user auth now s token =
     (case as_str token of
        None \<Rightarrow> None
      | Some t \<Rightarrow> if t = [] then None else auth now s t)"

text \<open>The pieces of \<open>_authenticate\<close> after the token is resolved.\<close>

fun set_user :: "(uuid \<times> datetime) option \<Rightarrow> consumer \<Rightarrow> consumer" where
  "set_user None k = (close_socket CLOSE_UNAUTHORIZED k)\<lparr>handler := Idle\<rparr>"
| "set_user (Some (u, expires)) k =
     k\<lparr>consumer_user := Some u, group_name := Some (user_group_name u), handler := Joining expires\<rparr>"

definition consumer_unread_count :: "db \<Rightarrow> consumer \<Rightarrow> nat" where
  "consumer_unread_count s k = (case consumer_user k of None \<Rightarrow> 0 | Some u \<Rightarrow> unread_count s u)"

definition auth_ok :: "datetime \<Rightarrow> nat \<Rightarrow> datetime \<Rightarrow> consumer \<Rightarrow> consumer" where
  "auth_ok now n expires k =
     (send_json (AuthOk n) (schedule_close now (max (expires - now) 0) k))\<lparr>handler := Idle\<rparr>"

section \<open>One socket and the channel layer\<close>

record 'l layer =
  group_add :: "string \<Rightarrow> string \<Rightarrow> 'l \<Rightarrow> 'l"
  group_discard :: "string \<Rightarrow> string \<Rightarrow> 'l \<Rightarrow> 'l"
  group_send :: "string \<Rightarrow> push_event \<Rightarrow> 'l \<Rightarrow> 'l"
  next_message :: "string \<Rightarrow> 'l \<Rightarrow> (push_event \<times> 'l) option"

text \<open>
  What can happen to the socket with the channel name \<open>c\<close>. A client frame is \<open>None\<close> when it does
  not decode as JSON: the handler raises and \<open>disconnect\<close> is never run. None as the result means
  that the consumer is not at the point where the input could happen.
\<close>

datatype sock_input =
    ClientFrame "json option" | Resolve | SetUser | Join | Count | Ready
  | Deliver | Fire | Disconnect

definition disconnect :: "'l layer \<Rightarrow> string \<Rightarrow> consumer \<times> 'l \<Rightarrow> consumer \<times> 'l" where
  "disconnect L c = (\<lambda>(k, l).
     ((cancel_timer k)\<lparr>handler := Stopped\<rparr>,
      case group_name k of None \<Rightarrow> l | Some g \<Rightarrow> group_discard L g c l))"

fun sock_step ::
  "auth \<Rightarrow> 'l layer \<Rightarrow> datetime \<Rightarrow> db \<Rightarrow> string \<Rightarrow> sock_input \<Rightarrow> consumer \<times> 'l \<Rightarrow> (consumer \<times> 'l) option" where
  "sock_step auth L now s c (ClientFrame frm) (k, l) =
     (if handler k = Idle
      then (case frm of
              None \<Rightarrow> Some (k\<lparr>handler := Crashed\<rparr>, l)
            | Some v \<Rightarrow> Some (receive_json v k, l))
      else None)"
| "sock_step auth L now s c Resolve (k, l) =
     (case handler k of
        Resolving token \<Rightarrow> Some (k\<lparr>handler := Resolved (resolve_user auth now s token)\<rparr>, l)
      | _ \<Rightarrow> None)"
| "sock_step auth L now s c SetUser (k, l) =
     (case handler k of Resolved r \<Rightarrow> Some (set_user r k, l) | _ \<Rightarrow> None)"
| "sock_step auth L now s c Join (k, l) =
     (case (handler k, group_name k) of
        (Joining expires, Some g) \<Rightarrow> Some (k\<lparr>handler := Counting expires\<rparr>, group_add L g c l)
      | _ \<Rightarrow> None)"
| "sock_step auth L now s c Count (k, l) =
     (case handler k of
        Counting expires \<Rightarrow> Some (k\<lparr>handler := Counted (consumer_unread_count s k) expires\<rparr>, l)
      | _ \<Rightarrow> None)"
| "sock_step auth L now s c Ready (k, l) =
     (case handler k of Counted n expires \<Rightarrow> Some (auth_ok now n expires k, l) | _ \<Rightarrow> None)"
| "sock_step auth L now s c Deliver (k, l) =
     (if handler k = Idle
      then (case next_message L c l of None \<Rightarrow> None | Some (e, l') \<Rightarrow> Some (dispatch_event e k, l'))
      else None)"
| "sock_step auth L now s c Fire (k, l) =
     (case timer k of
        Some d \<Rightarrow> if d \<le> now then Some ((close_socket CLOSE_UNAUTHORIZED k)\<lparr>timer := None\<rparr>, l) else None
      | None \<Rightarrow> None)"
| "sock_step auth L now s c Disconnect (k, l) =
     (if handler k = Idle then Some (disconnect L c (k, l)) else None)"

section \<open>The hub\<close>

text \<open>
  All sockets of the process with the database, the clock and the events whose transaction has
  committed and whose push has not run yet.
\<close>

record 'l hub =
  hub_now :: datetime
  hub_db :: db
  outbox :: "push_event list"
  hub_layer :: 'l
  socks :: "(string \<times> consumer) list"

datatype hub_input =
    Tick datetime | Commit db | Push nat | PushFails nat | Connect string | Sock string sock_input

text \<open>A UUID has 128 bits.\<close>

definition uuids_ok :: "db \<Rightarrow> bool" where
  "uuids_ok s \<longleftrightarrow> list_all (\<lambda>x. user_id x < 2 ^ 128) (users s) \<and>
     list_all (\<lambda>e. event_user e < 2 ^ 128) (pushed s)"

definition new_events :: "db \<Rightarrow> db \<Rightarrow> push_event list" where
  "new_events s s' = drop (length (pushed s)) (pushed s')"

definition push_event_to_group :: "'l layer \<Rightarrow> push_event \<Rightarrow> 'l \<Rightarrow> 'l" where
  "push_event_to_group L e l = group_send L (user_group_name (event_user e)) e l"

definition remove_nth :: "nat \<Rightarrow> 'a list \<Rightarrow> 'a list" where
  "remove_nth i xs = take i xs @ drop (Suc i) xs"

text \<open>
  A transaction may change the database in any way and schedules its events when it commits. A
  push hands one event to the group of its user; when \<open>group_send\<close> raises, the exception is
  logged and the event is gone. The event loop runs a timer that is due before the clock moves
  past its deadline.
\<close>

fun hub_step :: "auth \<Rightarrow> 'l layer \<Rightarrow> hub_input \<Rightarrow> 'l hub \<Rightarrow> 'l hub option" where
  "hub_step auth L (Tick t) h =
     (if hub_now h \<le> t \<and>
         list_all (\<lambda>(c, k). case timer k of None \<Rightarrow> True | Some d \<Rightarrow> t \<le> d) (socks h)
      then Some (h\<lparr>hub_now := t\<rparr>) else None)"
| "hub_step auth L (Commit s') h =
     (if take (length (pushed (hub_db h))) (pushed s') = pushed (hub_db h) \<and> uuids_ok s'
      then Some (h\<lparr>hub_db := s', outbox := outbox h @ new_events (hub_db h) s'\<rparr>) else None)"
| "hub_step auth L (Push i) h =
     (if i < length (outbox h)
      then Some (h\<lparr>outbox := remove_nth i (outbox h),
                   hub_layer := push_event_to_group L (outbox h ! i) (hub_layer h)\<rparr>)
      else None)"
| "hub_step auth L (PushFails i) h =
     (if i < length (outbox h) then Some (h\<lparr>outbox := remove_nth i (outbox h)\<rparr>) else None)"
| "hub_step auth L (Connect c) h =
     (if map_of (socks h) c = None
      then Some (h\<lparr>socks := AList.update c (connect (hub_now h)) (socks h)\<rparr>) else None)"
| "hub_step auth L (Sock c i) h =
     (case map_of (socks h) c of
        None \<Rightarrow> None
      | Some k \<Rightarrow>
          map_option (\<lambda>(k', l'). h\<lparr>hub_layer := l', socks := AList.update c k' (socks h)\<rparr>)
            (sock_step auth L (hub_now h) (hub_db h) c i (k, hub_layer h)))"

fun run_steps :: "('i \<Rightarrow> 's \<Rightarrow> 's option) \<Rightarrow> 'i list \<Rightarrow> 's \<Rightarrow> 's option" where
  "run_steps step [] s = Some s"
| "run_steps step (i # is) s = (case step i s of None \<Rightarrow> None | Some s' \<Rightarrow> run_steps step is s')"

definition hub_run :: "auth \<Rightarrow> 'l layer \<Rightarrow> hub_input list \<Rightarrow> 'l hub \<Rightarrow> 'l hub option" where
  "hub_run auth L is h = run_steps (hub_step auth L) is h"

definition start_hub :: "datetime \<Rightarrow> db \<Rightarrow> 'l \<Rightarrow> 'l hub" where
  "start_hub now s l = \<lparr>hub_now = now, hub_db = s, outbox = [], hub_layer = l, socks = []\<rparr>"

section \<open>What the parameters are relied on for\<close>

text \<open>
  \<open>belongs l g c\<close>: the channel \<open>c\<close> is in the group \<open>g\<close>; \<open>inbox l c\<close>: what waits for it. A layer may
  drop a message (a full channel); \<open>lossless_layer\<close> says that it does not.
\<close>

definition documented_layer ::
  "'l layer \<Rightarrow> ('l \<Rightarrow> string \<Rightarrow> string \<Rightarrow> bool) \<Rightarrow> ('l \<Rightarrow> string \<Rightarrow> push_event list) \<Rightarrow> bool" where
  "documented_layer L belongs inbox \<longleftrightarrow>
     (\<forall>g c l. inbox (group_add L g c l) = inbox l \<and>
        (\<forall>g' c'. belongs (group_add L g c l) g' c' \<longleftrightarrow> belongs l g' c' \<or> g' = g \<and> c' = c)) \<and>
     (\<forall>g c l. inbox (group_discard L g c l) = inbox l \<and>
        (\<forall>g' c'. belongs (group_discard L g c l) g' c' \<longleftrightarrow> belongs l g' c' \<and> \<not> (g' = g \<and> c' = c))) \<and>
     (\<forall>g e l. belongs (group_send L g e l) = belongs l \<and>
        (\<forall>c. inbox (group_send L g e l) c = inbox l c \<or>
             belongs l g c \<and> inbox (group_send L g e l) c = inbox l c @ [e])) \<and>
     (\<forall>c l. case next_message L c l of
              None \<Rightarrow> inbox l c = []
            | Some (e, l') \<Rightarrow> inbox l c = e # inbox l' c \<and> belongs l' = belongs l \<and>
                (\<forall>c'. c' \<noteq> c \<longrightarrow> inbox l' c' = inbox l c'))"

definition lossless_layer ::
  "'l layer \<Rightarrow> ('l \<Rightarrow> string \<Rightarrow> string \<Rightarrow> bool) \<Rightarrow> ('l \<Rightarrow> string \<Rightarrow> push_event list) \<Rightarrow> bool" where
  "lossless_layer L belongs inbox \<longleftrightarrow>
     (\<forall>g e l c. belongs l g c \<longrightarrow> inbox (group_send L g e l) c = inbox l c @ [e])"

text \<open>A layer on which nothing has happened yet.\<close>

definition fresh_layer :: "('l \<Rightarrow> string \<Rightarrow> string \<Rightarrow> bool) \<Rightarrow> ('l \<Rightarrow> string \<Rightarrow> push_event list) \<Rightarrow> 'l \<Rightarrow> bool" where
  "fresh_layer belongs inbox l \<longleftrightarrow> (\<forall>c. inbox l c = [] \<and> (\<forall>g. \<not> belongs l g c))"

text \<open>
  \<open>JWTAuthentication.get_user\<close> returns active users of the table, and an access token lives 60
  minutes (\<open>ACCESS_TOKEN_LIFETIME\<close>).
\<close>

definition auth_users :: "auth \<Rightarrow> bool" where
  "auth_users auth \<longleftrightarrow> (\<forall>now s t u expires. auth now s t = Some (u, expires) \<longrightarrow>
     (\<exists>x \<in> set (users s). user_id x = u \<and> is_active x))"

definition ACCESS_TOKEN_LIFETIME :: int where
  "ACCESS_TOKEN_LIFETIME = timedelta_seconds (60 * 60)"

definition auth_lifetime :: "auth \<Rightarrow> bool" where
  "auth_lifetime auth \<longleftrightarrow> (\<forall>now s t u expires. auth now s t = Some (u, expires) \<longrightarrow>
     expires \<le> now + ACCESS_TOKEN_LIFETIME)"

end
