(* ===== verification/Socket_Rules.thy ===== *)
theory Socket_Rules
  imports Sockets
begin

text \<open>
  What a client can rely on: a socket carries only the pushes of the user whose token it was
  given, after \<open>auth.ok\<close>; no notification falls between the unread count and the live pushes; and
  every socket is closed within the five seconds and the lifetime of the token.
\<close>

section \<open>Runs of a machine with guards\<close>

text \<open>
  An invariant that every enabled step with an allowed input keeps holds after every run of
  allowed inputs.
\<close>

locale guarded_machine =
  fixes step :: "'i \<Rightarrow> 's \<Rightarrow> 's option" and allowed :: "'i \<Rightarrow> bool" and inv :: "'s \<Rightarrow> bool"
  assumes step_inv: "inv s \<Longrightarrow> allowed i \<Longrightarrow> step i s = Some s' \<Longrightarrow> inv s'"
begin

lemma run_inv: "inv s \<Longrightarrow> list_all allowed is \<Longrightarrow> run_steps step is s = Some s' \<Longrightarrow> inv s'"
  by (induction "is" arbitrary: s) (auto split: option.splits intro: step_inv)

end

lemma run_steps_append:
  "run_steps step (is @ js) s = (case run_steps step is s of None \<Rightarrow> None | Some s' \<Rightarrow> run_steps step js s')"
  by (induction "is" arbitrary: s) (auto split: option.splits)

section \<open>Groups and frames\<close>

lemma user_group_name_inj: "u < 2 ^ 128 \<Longrightarrow> v < 2 ^ 128 \<Longrightarrow> user_group_name u = user_group_name v \<Longrightarrow> u = v"
proof -
  assume u: "u < 2 ^ 128" and v: "v < 2 ^ 128" and "user_group_name u = user_group_name v"
  then have "uuid_str u = uuid_str v" by (simp only: user_group_name_def same_append_eq)
  then have "Some u = Some v" using parse_uuid_str [OF u] parse_uuid_str [OF v] by (simp only:)
  then show "u = v" by (simp only: option.inject)
qed

fun is_auth_ok :: "frame \<Rightarrow> bool" where
  "is_auth_ok (AuthOk n) = True"
| "is_auth_ok f = False"

fun is_created :: "frame \<Rightarrow> bool" where
  "is_created (Created u n) = True"
| "is_created f = False"

fun is_closed :: "frame \<Rightarrow> bool" where
  "is_closed (Closed n) = True"
| "is_closed f = False"

text \<open>No notification comes before the answer to the authentication.\<close>

definition auth_first :: "frame list \<Rightarrow> bool" where
  "auth_first fs \<longleftrightarrow> \<not> list_ex is_created (takeWhile (\<lambda>f. \<not> is_auth_ok f) fs)"

lemma auth_first_snoc:
  "auth_first fs \<Longrightarrow> \<not> is_created f \<or> list_ex is_auth_ok fs \<Longrightarrow> auth_first (fs @ [f])"
proof (cases "list_ex is_auth_ok fs")
  case False
  then have "takeWhile (\<lambda>f. \<not> is_auth_ok f) fs = fs" by (auto simp: takeWhile_eq_all_conv list_ex_iff)
  then show "auth_first fs \<Longrightarrow> \<not> is_created f \<or> list_ex is_auth_ok fs \<Longrightarrow> ?thesis"
    using False by (auto simp: auth_first_def list_ex_iff takeWhile_append2)
qed (auto simp: auth_first_def list_ex_iff takeWhile_append1)

lemmas consumer_defs = send_json_def close_socket_def cancel_timer_def schedule_close_def
  receive_json_def auth_ok_def disconnect_def

text \<open>The layer, law by law.\<close>

lemma layer_laws:
  assumes "documented_layer L belongs inbox"
  shows "inbox (group_add L g c l) = inbox l"
    and "belongs (group_add L g c l) g' c' \<longleftrightarrow> belongs l g' c' \<or> g' = g \<and> c' = c"
    and "inbox (group_discard L g c l) = inbox l"
    and "belongs (group_discard L g c l) g' c' \<longleftrightarrow> belongs l g' c' \<and> \<not> (g' = g \<and> c' = c)"
    and "belongs (group_send L g e l) = belongs l"
  using assms by (simp_all add: documented_layer_def)

lemma layer_send:
  assumes "documented_layer L belongs inbox"
  shows "inbox (group_send L g e l) c = inbox l c \<or>
     belongs l g c \<and> inbox (group_send L g e l) c = inbox l c @ [e]"
  using assms by (simp add: documented_layer_def)

lemma layer_next:
  assumes "documented_layer L belongs inbox" "next_message L c l = Some (e, l')"
  shows "inbox l c = e # inbox l' c" "belongs l' = belongs l" "c' \<noteq> c \<Longrightarrow> inbox l' c' = inbox l c'"
proof -
  have "case next_message L c l of None \<Rightarrow> inbox l c = []
    | Some (e, l') \<Rightarrow> inbox l c = e # inbox l' c \<and> belongs l' = belongs l \<and>
        (\<forall>c'. c' \<noteq> c \<longrightarrow> inbox l' c' = inbox l c')"
    using assms(1) unfolding documented_layer_def by blast
  then show "inbox l c = e # inbox l' c" "belongs l' = belongs l" "c' \<noteq> c \<Longrightarrow> inbox l' c' = inbox l c'"
    using assms(2) by simp_all
qed

section \<open>A socket belongs to one user\<close>

text \<open>Some access token was resolved to the user.\<close>

definition vouched :: "auth \<Rightarrow> uuid \<Rightarrow> bool" where
  "vouched auth u \<longleftrightarrow> u < 2 ^ 128 \<and> (\<exists>now s t expires. auth now s t = Some (u, expires))"

fun handler_ok :: "auth \<Rightarrow> consumer \<Rightarrow> handler \<Rightarrow> bool" where
  "handler_ok auth k Idle \<longleftrightarrow> consumer_user k = None \<or> list_ex is_auth_ok (sent k)"
| "handler_ok auth k (Resolving t) \<longleftrightarrow> consumer_user k = None"
| "handler_ok auth k (Resolved r) \<longleftrightarrow>
     consumer_user k = None \<and> (\<forall>u expires. r = Some (u, expires) \<longrightarrow> vouched auth u)"
| "handler_ok auth k (Joining t) \<longleftrightarrow> consumer_user k \<noteq> None"
| "handler_ok auth k (Counting t) \<longleftrightarrow> consumer_user k \<noteq> None"
| "handler_ok auth k (Counted n t) \<longleftrightarrow> consumer_user k \<noteq> None"
| "handler_ok auth k Stopped \<longleftrightarrow> True"
| "handler_ok auth k Crashed \<longleftrightarrow> True"

text \<open>\<open>mem\<close> are the groups of the channel, \<open>box\<close> what waits for it, \<open>evs\<close> all events committed.\<close>

definition sock_ok ::
  "auth \<Rightarrow> push_event list \<Rightarrow> (string \<Rightarrow> bool) \<Rightarrow> push_event list \<Rightarrow> consumer \<Rightarrow> bool" where
  "sock_ok auth evs mem box k \<longleftrightarrow>
     group_name k = map_option user_group_name (consumer_user k) \<and>
     (\<forall>g. mem g \<longrightarrow> map_option user_group_name (consumer_user k) = Some g) \<and>
     (\<forall>e \<in> set box. consumer_user k = Some (event_user e) \<and> e \<in> set evs) \<and>
     (\<forall>u. consumer_user k = Some u \<longrightarrow> vouched auth u) \<and>
     handler_ok auth k (handler k) \<and>
     (\<forall>u n. Created u n \<in> set (sent k) \<longrightarrow> consumer_user k = Some u \<and> NotificationCreated u n \<in> set evs) \<and>
     auth_first (sent k)"

lemma resolve_user_vouched:
  assumes "auth_users auth" "uuids_ok s" "resolve_user auth now s token = Some (u, expires)"
  shows "vouched auth u"
proof -
  obtain t where t: "auth now s t = Some (u, expires)"
    using assms(3) by (auto simp: resolve_user_def split: option.splits if_splits)
  then obtain x where "x \<in> set (users s)" "user_id x = u"
    using assms(1) unfolding auth_users_def by blast
  then have "u < 2 ^ 128" using assms(2) by (auto simp: uuids_ok_def list_all_iff)
  then show ?thesis using t by (auto simp: vouched_def)
qed

lemma sock_ok_box_cong:
  "sock_ok auth evs mem box k \<Longrightarrow> (\<And>g. mem' g \<Longrightarrow> mem g) \<Longrightarrow> set box' \<subseteq> set box \<Longrightarrow> sock_ok auth evs mem' box' k"
  unfolding sock_ok_def by blast

lemma sock_ok_evs_mono: "sock_ok auth evs mem box k \<Longrightarrow> set evs \<subseteq> set evs' \<Longrightarrow> sock_ok auth evs' mem box k"
  unfolding sock_ok_def by blast

lemma sock_ok_sent:
  assumes "sock_ok auth evs mem box k" "\<not> is_created f"
  shows "sock_ok auth evs mem box (send_json f k)"
proof -
  have "handler_ok auth (send_json f k) h" if "handler_ok auth k h" for h
    using that by (cases h) (auto simp: send_json_def)
  moreover have "Created u n \<in> set (sent k)" if "Created u n \<in> set (sent (send_json f k))" for u n
    using that assms(2) by (auto simp: send_json_def)
  ultimately show ?thesis
    using assms unfolding sock_ok_def by (auto simp: send_json_def auth_first_snoc)
qed

lemma handler_ok_cong [simp]:
  "handler_ok auth (k\<lparr>timer := t\<rparr>) h \<longleftrightarrow> handler_ok auth k h"
  "handler_ok auth (k\<lparr>handler := h'\<rparr>) h \<longleftrightarrow> handler_ok auth k h"
  by (cases h, simp_all)+

lemma sock_ok_timer: "sock_ok auth evs mem box (k\<lparr>timer := t\<rparr>) \<longleftrightarrow> sock_ok auth evs mem box k"
  by (simp add: sock_ok_def)

lemma sock_ok_handler:
  "sock_ok auth evs mem box k \<Longrightarrow> handler_ok auth k h \<Longrightarrow> sock_ok auth evs mem box (k\<lparr>handler := h\<rparr>)"
  by (simp add: sock_ok_def)

lemmas sock_ok_intros = sock_ok_sent sock_ok_handler

lemma sock_ok_receive:
  assumes "sock_ok auth evs mem box k" "handler k = Idle"
  shows "sock_ok auth evs mem box (receive_json v k)"
proof -
  have "handler_ok auth k (Resolving t)" if "group_name k = None" for t
    using assms(1) that by (simp add: sock_ok_def)
  then show ?thesis
    using assms by (auto simp: receive_json_def close_socket_def intro!: sock_ok_intros)
qed

lemma sock_ok_set_user:
  assumes "sock_ok auth evs mem box k" "handler k = Resolved r"
  shows "sock_ok auth evs mem box (set_user r k)"
proof (cases r)
  case None
  have "handler_ok auth (send_json (Closed CLOSE_UNAUTHORIZED) k) Idle"
    using assms by (simp add: sock_ok_def send_json_def)
  then show ?thesis using assms None by (auto simp: close_socket_def intro!: sock_ok_intros)
next
  case (Some p)
  then obtain u d where "r = Some (u, d)" by (cases p) auto
  then show ?thesis using assms by (auto simp: sock_ok_def)
qed

lemma sock_ok_auth_ok:
  assumes "sock_ok auth evs mem box k"
  shows "sock_ok auth evs mem box (auth_ok now n d k)"
proof -
  let ?k = "schedule_close now (max (d - now) 0) k"
  have "sock_ok auth evs mem box ?k"
    using assms by (simp add: schedule_close_def cancel_timer_def sock_ok_timer)
  then have "sock_ok auth evs mem box (send_json (AuthOk n) ?k)" by (rule sock_ok_sent) simp
  then show ?thesis unfolding auth_ok_def by (rule sock_ok_handler) (simp add: send_json_def)
qed

lemma sock_ok_deliver:
  assumes "sock_ok auth evs mem (e # box) k" "handler k = Idle"
  shows "sock_ok auth evs mem box (dispatch_event e k)"
proof (cases e)
  case (NotificationCreated u n)
  then show ?thesis
    using assms by (auto simp: sock_ok_def send_json_def auth_first_snoc)
next
  case (AccountDeactivated u)
  have "sock_ok auth evs mem box k" using assms(1) by (rule sock_ok_box_cong) auto
  then show ?thesis using AccountDeactivated by (auto simp: close_socket_def intro: sock_ok_sent)
qed
text \<open>One input of the socket \<open>c\<close>: the invariant is kept and the other channels are not touched.\<close>

lemma sock_step_ok:
  assumes lay: "documented_layer L belongs inbox" and au: "auth_users auth" and ids: "uuids_ok s"
    and ok: "sock_ok auth evs (\<lambda>g. belongs l g c) (inbox l c) k"
    and step: "sock_step auth L now s c i (k, l) = Some (k', l')"
  shows "sock_ok auth evs (\<lambda>g. belongs l' g c) (inbox l' c) k'"
proof (cases i)
  case (ClientFrame v)
  then show ?thesis
    using ok step by (auto intro: sock_ok_receive sock_ok_handler split: if_splits option.splits)
next
  case Resolve
  then obtain t where t: "handler k = Resolving t" "l' = l"
    "k' = k\<lparr>handler := Resolved (resolve_user auth now s t)\<rparr>"
    using step by (auto split: handler.splits)
  then have "handler_ok auth k (Resolved (resolve_user auth now s t))"
    using ok resolve_user_vouched [OF au ids] by (auto simp: sock_ok_def)
  then show ?thesis using ok t by (simp add: sock_ok_handler)
next
  case SetUser
  then show ?thesis using ok step sock_ok_set_user by (auto split: handler.splits)
next
  case Join
  then obtain d g where "handler k = Joining d" "group_name k = Some g"
    "k' = k\<lparr>handler := Counting d\<rparr>" "l' = group_add L g c l"
    using step by (auto split: handler.splits option.splits)
  then show ?thesis using ok by (auto simp: sock_ok_def layer_laws [OF lay])
next
  case Count
  then obtain d where d: "handler k = Counting d" "l' = l"
    "k' = k\<lparr>handler := Counted (consumer_unread_count s k) d\<rparr>"
    using step by (auto split: handler.splits)
  have "sock_ok auth evs (\<lambda>g. belongs l g c) (inbox l c) k'"
    unfolding d(3) using ok by (rule sock_ok_handler) (use ok d(1) in \<open>simp add: sock_ok_def\<close>)
  then show ?thesis using d by simp
next
  case Ready
  then show ?thesis using ok step by (auto intro: sock_ok_auth_ok split: handler.splits)
next
  case Deliver
  then obtain e where e: "handler k = Idle" "next_message L c l = Some (e, l')" "k' = dispatch_event e k"
    using step by (auto split: if_splits option.splits)
  show ?thesis
    using sock_ok_deliver [of auth evs "\<lambda>g. belongs l g c" e "inbox l' c" k] ok
    by (simp add: e layer_next [OF lay e(2)])
next
  case Fire
  then show ?thesis
    using ok step by (auto simp: close_socket_def sock_ok_timer intro!: sock_ok_sent split: option.splits if_splits)
next
  case Disconnect
  then have "k' = (cancel_timer k)\<lparr>handler := Stopped\<rparr>" "inbox l' = inbox l" "\<And>g. belongs l' g c \<Longrightarrow> belongs l g c"
    using step by (auto simp: disconnect_def layer_laws [OF lay] split: if_splits option.splits)
  moreover have "sock_ok auth evs (\<lambda>g. belongs l' g c) (inbox l c) k"
    using ok by (rule sock_ok_box_cong) (use calculation(3) in auto)
  ultimately show ?thesis by (simp add: cancel_timer_def sock_ok_timer sock_ok_handler)
qed

lemma sock_step_others:
  assumes lay: "documented_layer L belongs inbox"
    and step: "sock_step auth L now s c i (k, l) = Some (k', l')" and c': "c' \<noteq> c"
  shows "belongs l' g c' \<longleftrightarrow> belongs l g c'" "inbox l' c' = inbox l c'"
proof -
  have "(belongs l' g c' \<longleftrightarrow> belongs l g c') \<and> inbox l' c' = inbox l c'"
    using step c' layer_next [OF lay]
    by (cases i) (auto simp: disconnect_def layer_laws [OF lay] split: if_splits option.splits handler.splits)
  then show "belongs l' g c' \<longleftrightarrow> belongs l g c'" "inbox l' c' = inbox l c'" by auto
qed

section \<open>The invariant of the hub\<close>

definition channel_ok ::
  "auth \<Rightarrow> push_event list \<Rightarrow> (string \<Rightarrow> bool) \<Rightarrow> push_event list \<Rightarrow> consumer option \<Rightarrow> bool" where
  "channel_ok auth evs mem box ko =
     (case ko of None \<Rightarrow> (\<forall>g. \<not> mem g) \<and> box = [] | Some k \<Rightarrow> sock_ok auth evs mem box k)"

definition hub_ok ::
  "auth \<Rightarrow> ('l \<Rightarrow> string \<Rightarrow> string \<Rightarrow> bool) \<Rightarrow> ('l \<Rightarrow> string \<Rightarrow> push_event list) \<Rightarrow> 'l hub \<Rightarrow> bool" where
  "hub_ok auth belongs inbox h \<longleftrightarrow>
     uuids_ok (hub_db h) \<and> set (outbox h) \<subseteq> set (pushed (hub_db h)) \<and>
     (\<forall>c. channel_ok auth (pushed (hub_db h)) (\<lambda>g. belongs (hub_layer h) g c) (inbox (hub_layer h) c)
        (map_of (socks h) c))"

lemma start_hub_ok: "fresh_layer belongs inbox l \<Longrightarrow> uuids_ok s \<Longrightarrow> hub_ok auth belongs inbox (start_hub now s l)"
  by (simp add: start_hub_def hub_ok_def fresh_layer_def channel_ok_def)

lemma set_remove_nth: "set (remove_nth i xs) \<subseteq> set xs"
  using set_take_subset set_drop_subset by (fastforce simp: remove_nth_def)

lemma sock_ok_connect: "sock_ok auth evs (\<lambda>g. False) [] (connect now)"
  by (simp add: sock_ok_def connect_def new_consumer_def consumer_defs auth_first_def)

lemma channel_ok_send:
  assumes lay: "documented_layer L belongs inbox"
    and ok: "channel_ok auth evs (\<lambda>g. belongs l g c) (inbox l c) ko"
    and e: "e \<in> set evs" "event_user e < 2 ^ 128"
  shows "channel_ok auth evs (\<lambda>g. belongs (push_event_to_group L e l) g c) (inbox (push_event_to_group L e l) c) ko"
proof -
  let ?g = "user_group_name (event_user e)"
  have b: "belongs (push_event_to_group L e l) = belongs l"
    by (simp add: push_event_to_group_def layer_laws [OF lay])
  consider "inbox (push_event_to_group L e l) c = inbox l c"
    | "belongs l ?g c" "inbox (push_event_to_group L e l) c = inbox l c @ [e]"
    using layer_send [OF lay, of ?g e l c] by (auto simp: push_event_to_group_def)
  then show ?thesis
  proof cases
    case 2
    then obtain k where k: "ko = Some k" "sock_ok auth evs (\<lambda>g. belongs l g c) (inbox l c) k"
      using ok by (auto simp: channel_ok_def split: option.splits)
    then obtain v where v: "consumer_user k = Some v" "user_group_name v = ?g" "v < 2 ^ 128"
      using 2(1) by (auto simp: sock_ok_def vouched_def)
    then have "v = event_user e" using user_group_name_inj e(2) by blast
    then show ?thesis using k v e(1) by (auto simp: channel_ok_def b 2(2) sock_ok_def)
  qed (use ok in \<open>simp add: b\<close>)
qed
lemma channel_ok_evs_mono:
  "channel_ok auth evs mem box ko \<Longrightarrow> set evs \<subseteq> set evs' \<Longrightarrow> channel_ok auth evs' mem box ko"
  by (auto simp: channel_ok_def intro: sock_ok_evs_mono split: option.splits)

lemma commit_events:
  assumes "take (length (pushed s)) (pushed s') = pushed s"
  shows "pushed s' = pushed s @ new_events s s'"
  using assms append_take_drop_id [of "length (pushed s)" "pushed s'"] by (simp add: new_events_def)

lemma hub_ok_channel:
  "hub_ok auth belongs inbox h \<Longrightarrow>
   channel_ok auth (pushed (hub_db h)) (\<lambda>g. belongs (hub_layer h) g c) (inbox (hub_layer h) c) (map_of (socks h) c)"
  by (simp add: hub_ok_def)

lemma hub_sock_ok:
  assumes lay: "documented_layer L belongs inbox" and au: "auth_users auth"
    and ok: "hub_ok auth belongs inbox h" and k: "map_of (socks h) c = Some k"
    and step: "sock_step auth L (hub_now h) (hub_db h) c j (k, hub_layer h) = Some (k', l')"
  shows "hub_ok auth belongs inbox (h\<lparr>hub_layer := l', socks := AList.update c k' (socks h)\<rparr>)"
proof -
  have "channel_ok auth (pushed (hub_db h)) (\<lambda>g. belongs l' g c') (inbox l' c')
      (map_of (AList.update c k' (socks h)) c')" for c'
  proof (cases "c' = c")
    case True
    have "sock_ok auth (pushed (hub_db h)) (\<lambda>g. belongs (hub_layer h) g c) (inbox (hub_layer h) c) k"
      using hub_ok_channel [OF ok, of c] k by (simp add: channel_ok_def)
    then have "sock_ok auth (pushed (hub_db h)) (\<lambda>g. belongs l' g c) (inbox l' c) k'"
      using sock_step_ok [OF lay au _ _ step] ok by (auto simp: hub_ok_def)
    then show ?thesis using True by (simp add: update_conv' channel_ok_def)
  next
    case False
    then show ?thesis
      using hub_ok_channel [OF ok, of c'] sock_step_others [OF lay step False] by (simp add: update_conv')
  qed
  then show ?thesis using ok by (simp add: hub_ok_def)
qed

lemma hub_step_ok:
  assumes lay: "documented_layer L belongs inbox" and au: "auth_users auth"
    and ok: "hub_ok auth belongs inbox h" and step: "hub_step auth L i h = Some h'"
  shows "hub_ok auth belongs inbox h'"
proof (cases i)
  case (Tick t)
  then show ?thesis using ok step by (auto simp: hub_ok_def split: if_splits)
next
  case (Commit s')
  then have c: "pushed s' = pushed (hub_db h) @ new_events (hub_db h) s'" "uuids_ok s'"
    "h' = h\<lparr>hub_db := s', outbox := outbox h @ new_events (hub_db h) s'\<rparr>"
    using step commit_events by (auto split: if_splits)
  then show ?thesis using ok by (auto simp: hub_ok_def intro: channel_ok_evs_mono)
next
  case (Push n)
  then have p: "n < length (outbox h)" "h' = h\<lparr>outbox := remove_nth n (outbox h),
      hub_layer := push_event_to_group L (outbox h ! n) (hub_layer h)\<rparr>"
    using step by (auto split: if_splits)
  have "outbox h ! n \<in> set (pushed (hub_db h))" using ok p(1) nth_mem by (auto simp: hub_ok_def)
  moreover from this have "event_user (outbox h ! n) < 2 ^ 128"
    using ok by (auto simp: hub_ok_def uuids_ok_def list_all_iff)
  ultimately show ?thesis
    using ok p set_remove_nth [of n "outbox h"] by (auto simp: hub_ok_def intro: channel_ok_send [OF lay])
next
  case (PushFails n)
  have "set (remove_nth n (outbox h)) \<subseteq> set (pushed (hub_db h))"
    by (rule order_trans [OF set_remove_nth]) (use ok in \<open>simp add: hub_ok_def\<close>)
  then show ?thesis using ok step PushFails by (auto simp: hub_ok_def split: if_splits)
next
  case (Connect c)
  then have c: "map_of (socks h) c = None" "h' = h\<lparr>socks := AList.update c (connect (hub_now h)) (socks h)\<rparr>"
    using step by (auto split: if_splits)
  then have "(\<forall>g. \<not> belongs (hub_layer h) g c) \<and> inbox (hub_layer h) c = []"
    using hub_ok_channel [OF ok, of c] by (simp add: channel_ok_def)
  then have "channel_ok auth (pushed (hub_db h)) (\<lambda>g. belongs (hub_layer h) g c) (inbox (hub_layer h) c)
      (Some (connect (hub_now h)))"
    using sock_ok_connect by (simp add: channel_ok_def)
  then show ?thesis using ok c by (auto simp: hub_ok_def update_conv')
next
  case (Sock c j)
  then obtain k k' l' where k: "map_of (socks h) c = Some k"
    "sock_step auth L (hub_now h) (hub_db h) c j (k, hub_layer h) = Some (k', l')"
    "h' = h\<lparr>hub_layer := l', socks := AList.update c k' (socks h)\<rparr>"
    using step by (auto split: option.splits)
  then show ?thesis using hub_sock_ok [OF lay au ok] by simp
qed

interpretation own_pushes:
  guarded_machine "hub_step auth L" "\<lambda>i. True"
    "\<lambda>h. documented_layer L belongs inbox \<and> auth_users auth \<and> hub_ok auth belongs inbox h"
  for auth L belongs inbox
  by unfold_locales (auto intro: hub_step_ok)
section \<open>Deadlines\<close>

text \<open>The socket is over for the client: it was told so, it left, or the consumer is gone.\<close>

definition ended :: "consumer \<Rightarrow> bool" where
  "ended k \<longleftrightarrow> handler k = Stopped \<or> handler k = Crashed \<or> list_ex is_closed (sent k)"

text \<open>
  How the deadline \<open>d\<close> of the timer stands to the two bounds: \<open>t1\<close> for the authentication, \<open>t2\<close> for
  the whole life of the socket.
\<close>

fun phase_ok :: "datetime \<Rightarrow> datetime \<Rightarrow> datetime \<Rightarrow> consumer \<Rightarrow> handler \<Rightarrow> bool" where
  "phase_ok t1 t2 d k Idle \<longleftrightarrow>
     (if group_name k = None then d \<le> t1 else list_ex is_auth_ok (sent k) \<and> d \<le> t2)"
| "phase_ok t1 t2 d k (Resolving t) \<longleftrightarrow> group_name k = None \<and> d \<le> t1"
| "phase_ok t1 t2 d k (Resolved r) \<longleftrightarrow>
     group_name k = None \<and> d \<le> t1 \<and> (\<forall>u x. r = Some (u, x) \<longrightarrow> x \<le> t2)"
| "phase_ok t1 t2 d k (Joining x) \<longleftrightarrow> group_name k \<noteq> None \<and> d \<le> t1 \<and> x \<le> t2"
| "phase_ok t1 t2 d k (Counting x) \<longleftrightarrow> group_name k \<noteq> None \<and> d \<le> t1 \<and> x \<le> t2"
| "phase_ok t1 t2 d k (Counted n x) \<longleftrightarrow> group_name k \<noteq> None \<and> d \<le> t1 \<and> x \<le> t2"
| "phase_ok t1 t2 d k Stopped \<longleftrightarrow> False"
| "phase_ok t1 t2 d k Crashed \<longleftrightarrow> False"

definition deadline_ok :: "datetime \<Rightarrow> datetime \<Rightarrow> datetime \<Rightarrow> consumer \<Rightarrow> bool" where
  "deadline_ok t1 t2 now k \<longleftrightarrow>
     ended k \<or> (\<exists>d. timer k = Some d \<and> now \<le> d \<and> phase_ok t1 t2 d k (handler k))"

lemma phase_ok_cong [simp]:
  "phase_ok t1 t2 d (k\<lparr>handler := h'\<rparr>) h \<longleftrightarrow> phase_ok t1 t2 d k h"
  "phase_ok t1 t2 d (k\<lparr>timer := x\<rparr>) h \<longleftrightarrow> phase_ok t1 t2 d k h"
  by (cases h, simp_all)+

lemma phase_ok_send: "phase_ok t1 t2 d k h \<Longrightarrow> phase_ok t1 t2 d (send_json f k) h"
  by (cases h) (auto simp: send_json_def split: if_splits)

lemma ended_closed [simp]: "ended (close_socket n k)"
  by (simp add: ended_def close_socket_def send_json_def)

lemma deadline_ok_send: "deadline_ok t1 t2 now k \<Longrightarrow> deadline_ok t1 t2 now (send_json f k)"
  by (auto simp: deadline_ok_def ended_def phase_ok_send, auto simp: send_json_def phase_ok_send [unfolded send_json_def])

lemma resolve_user_expiry:
  "auth_lifetime auth \<Longrightarrow> resolve_user auth now s t = Some (u, x) \<Longrightarrow> x \<le> now + ACCESS_TOKEN_LIFETIME"
  unfolding auth_lifetime_def resolve_user_def by (auto split: option.splits if_splits)

lemma set_user_sent:
  "sent (set_user r k) = sent k @ (if r = None then [Closed CLOSE_UNAUTHORIZED] else [])"
  by (cases r) (auto simp: consumer_defs)

lemma dispatch_event_sent:
  "sent (dispatch_event e k) =
     sent k @ [case e of NotificationCreated u n \<Rightarrow> Created u n | AccountDeactivated u \<Rightarrow> Closed CLOSE_UNAUTHORIZED]"
  by (cases e) (auto simp: consumer_defs)

lemma ended_step:
  "ended k \<Longrightarrow> sock_step auth L now s c i (k, l) = Some (k', l') \<Longrightarrow> ended k'"
  by (cases i) (auto simp: ended_def consumer_defs set_user_sent dispatch_event_sent
      split: if_splits option.splits handler.splits)
lemma deadline_step:
  assumes life: "auth_lifetime auth" and dl: "deadline_ok t1 (t1 + ACCESS_TOKEN_LIFETIME) now k"
    and step: "sock_step auth L now s c i (k, l) = Some (k', l')"
  shows "deadline_ok t1 (t1 + ACCESS_TOKEN_LIFETIME) now k'"
proof (cases "ended k")
  case True
  then show ?thesis using ended_step [OF _ step] by (simp add: deadline_ok_def)
next
  case False
  then obtain d where d: "timer k = Some d" "now \<le> d"
    "phase_ok t1 (t1 + ACCESS_TOKEN_LIFETIME) d k (handler k)"
    using dl by (auto simp: deadline_ok_def)
  show ?thesis
  proof (cases i)
    case (ClientFrame v)
    have "deadline_ok t1 (t1 + ACCESS_TOKEN_LIFETIME) now (receive_json v' k)" if "handler k = Idle" for v'
      using d that deadline_ok_send [OF dl] dl
      by (simp add: receive_json_def close_socket_def) (simp add: deadline_ok_def)
    moreover have "deadline_ok t1 (t1 + ACCESS_TOKEN_LIFETIME) now (k\<lparr>handler := Crashed\<rparr>)"
      by (simp add: deadline_ok_def ended_def)
    ultimately show ?thesis using step ClientFrame by (auto split: if_splits option.splits)
  next
    case Resolve
    then show ?thesis
      using step d resolve_user_expiry [OF life]
      by (fastforce simp: deadline_ok_def split: handler.splits)
  next
    case SetUser
    then obtain r where r: "handler k = Resolved r" "k' = set_user r k"
      using step by (auto split: handler.splits)
    show ?thesis
    proof (cases r)
      case None
      then show ?thesis using r by (simp add: deadline_ok_def ended_def consumer_defs)
    next
      case (Some p)
      then show ?thesis using r d by (cases p) (auto simp: deadline_ok_def)
    qed
  next
    case Ready
    then show ?thesis
      using step d by (auto simp: deadline_ok_def consumer_defs max_def ACCESS_TOKEN_LIFETIME_def
          timedelta_seconds_def split: handler.splits)
  next
    case Deliver
    then obtain e where "k' = dispatch_event e k" using step by (auto split: if_splits option.splits)
    then show ?thesis using dl by (cases e) (auto simp: close_socket_def deadline_ok_send)
  next
    case Fire
    then show ?thesis
      using step by (auto simp: deadline_ok_def ended_def consumer_defs split: if_splits option.splits)
  next
    case Disconnect
    then show ?thesis
      using step by (auto simp: deadline_ok_def ended_def disconnect_def split: if_splits)
  qed (use step d in \<open>auto simp: deadline_ok_def split: handler.splits option.splits\<close>)
qed

definition socket_deadline :: "datetime \<Rightarrow> string \<Rightarrow> 'l hub \<Rightarrow> bool" where
  "socket_deadline t0 c h \<longleftrightarrow>
     (\<exists>k. map_of (socks h) c = Some k \<and>
        deadline_ok (t0 + timedelta_seconds AUTH_TIMEOUT_SECONDS)
          (t0 + timedelta_seconds AUTH_TIMEOUT_SECONDS + ACCESS_TOKEN_LIFETIME) (hub_now h) k)"

lemma socket_deadline_step:
  assumes life: "auth_lifetime auth" and dl: "socket_deadline t0 c h"
    and step: "hub_step auth L i h = Some h'"
  shows "socket_deadline t0 c h'"
proof -
  let ?ok = "deadline_ok (t0 + timedelta_seconds AUTH_TIMEOUT_SECONDS)
    (t0 + timedelta_seconds AUTH_TIMEOUT_SECONDS + ACCESS_TOKEN_LIFETIME)"
  obtain k where k: "map_of (socks h) c = Some k" "?ok (hub_now h) k"
    using dl by (auto simp: socket_deadline_def)
  show ?thesis
  proof (cases i)
    case (Tick t)
    then have t: "h' = h\<lparr>hub_now := t\<rparr>" "case timer k of None \<Rightarrow> True | Some d \<Rightarrow> t \<le> d"
      using step map_of_SomeD [OF k(1)] by (auto simp: list_all_iff split: if_splits)
    then have "?ok t k" using k(2) by (auto simp: deadline_ok_def)
    then show ?thesis using t k(1) by (simp add: socket_deadline_def)
  next
    case (Sock c' j)
    then obtain m m' l' where m: "map_of (socks h) c' = Some m"
      "sock_step auth L (hub_now h) (hub_db h) c' j (m, hub_layer h) = Some (m', l')"
      "h' = h\<lparr>hub_layer := l', socks := AList.update c' m' (socks h)\<rparr>"
      using step by (auto split: option.splits)
    then show ?thesis
      using k deadline_step [OF life _ m(2)] by (auto simp: socket_deadline_def update_conv')
  qed (use step k in \<open>auto simp: socket_deadline_def update_conv' split: if_splits\<close>)
qed

interpretation deadlines:
  guarded_machine "hub_step auth L" "\<lambda>i. True" "\<lambda>h. auth_lifetime auth \<and> socket_deadline t0 c h"
  for auth L t0 c
  by unfold_locales (auto intro: socket_deadline_step)

lemma socket_deadline_connect:
  "hub_step auth L (Connect c) h = Some h' \<Longrightarrow> socket_deadline (hub_now h) c h'"
  by (auto simp: socket_deadline_def deadline_ok_def connect_def new_consumer_def consumer_defs
      timedelta_seconds_def AUTH_TIMEOUT_SECONDS_def update_conv' split: if_splits)
section \<open>The clock is never stuck\<close>

lemma update_fewer:
  assumes "distinct (map fst xs)" "(c, k) \<in> set xs" "P k" "\<not> P k'"
  shows "length (filter (\<lambda>p. P (snd p)) (AList.update c k' xs)) < length (filter (\<lambda>p. P (snd p)) xs)"
  using assms
proof (induction xs)
  case (Cons x xs)
  show ?case
  proof (cases "fst x = c")
    case True
    then have "x = (c, k)" using Cons.prems(1,2) by (force simp: image_iff)
    then show ?thesis using Cons.prems(3,4) by simp
  next
    case False
    then show ?thesis using Cons by (cases x) auto
  qed
qed simp

lemma least_deadline:
  assumes "(c, k) \<in> set xs" "timer k = Some d"
  obtains c' k' d' where "(c', k') \<in> set xs" "timer k' = Some d'" "d' \<le> d"
    "\<And>c'' k'' d''. (c'', k'') \<in> set xs \<Longrightarrow> timer k'' = Some d'' \<Longrightarrow> d' \<le> d''"
proof -
  let ?ds = "{d. \<exists>(c, k) \<in> set xs. timer k = Some d}"
  have "?ds \<subseteq> (\<lambda>(c, k). the (timer k)) ` set xs" by force
  then have f: "finite ?ds" using finite_surj by blast
  have d: "d \<in> ?ds" using assms by auto
  then have "Min ?ds \<in> ?ds" using f Min_in by blast
  then obtain c' k' where "(c', k') \<in> set xs" "timer k' = Some (Min ?ds)" by auto
  moreover have "Min ?ds \<le> d''" if "(c'', k'') \<in> set xs" "timer k'' = Some d''" for c'' k'' d''
    using that by (intro Min_le [OF f]) auto
  ultimately show thesis using that assms by blast
qed

lemma hub_step_distinct:
  "distinct (map fst (socks h)) \<Longrightarrow> hub_step auth L i h = Some h' \<Longrightarrow> distinct (map fst (socks h'))"
  by (cases i) (auto simp: distinct_update split: if_splits option.splits)

interpretation channel_names:
  guarded_machine "hub_step auth L" "\<lambda>i. True" "\<lambda>h. distinct (map fst (socks h))" for auth L
  by unfold_locales (auto intro: hub_step_distinct)

abbreviation timers :: "'l hub \<Rightarrow> nat" where
  "timers h \<equiv> length (filter (\<lambda>p. timer (snd p) \<noteq> None) (socks h))"

text \<open>When a timer holds the clock back, the earliest one can be waited for and fired.\<close>

lemma fire_earliest:
  assumes dis: "distinct (map fst (socks h))" and t: "hub_now h \<le> t" "hub_step auth L (Tick t) h = None"
  obtains "is" h2 where "run_steps (hub_step auth L) is h = Some h2" "hub_now h2 \<le> t" "timers h2 < timers h"
proof -
  obtain c0 k0 d0 where z: "(c0, k0) \<in> set (socks h)" "timer k0 = Some d0" "d0 < t"
    using t by (force simp: list_all_iff split: if_splits option.splits)
  obtain c k d where k: "(c, k) \<in> set (socks h)" "timer k = Some d" "d \<le> d0"
    "\<And>c' k' d'. (c', k') \<in> set (socks h) \<Longrightarrow> timer k' = Some d' \<Longrightarrow> d \<le> d'"
    by (rule least_deadline [OF z(1,2)]) blast
  define h1 where "h1 = h\<lparr>hub_now := max d (hub_now h)\<rparr>"
  define k' where "k' = (close_socket CLOSE_UNAUTHORIZED k)\<lparr>timer := None\<rparr>"
  define h2 where "h2 = h1\<lparr>socks := AList.update c k' (socks h)\<rparr>"
  have "map_of (socks h) c = Some k" using k(1) dis by simp
  then have fire: "hub_step auth L (Sock c Fire) h1 = Some h2"
    using k(2) by (simp add: h1_def h2_def k'_def)
  have "run_steps (hub_step auth L) (if hub_now h \<le> d then [Tick d] else []) h = Some h1"
    using k(4) by (auto simp: h1_def list_all_iff max_def split: option.splits)
  then have "run_steps (hub_step auth L) ((if hub_now h \<le> d then [Tick d] else []) @ [Sock c Fire]) h = Some h2"
    using fire by (simp only: run_steps_append run_steps.simps option.case)
  moreover have "timers h2 < timers h"
    using update_fewer [OF dis k(1), of "\<lambda>k. timer k \<noteq> None"] k(2) by (simp add: h2_def h1_def k'_def)
  ultimately show thesis using that k(3) z(3) t(1) by (simp add: h2_def h1_def)
qed

lemma clock_advances:
  assumes "distinct (map fst (socks h))" "hub_now h \<le> t"
  shows "\<exists>is h'. hub_run auth L is h = Some h' \<and> hub_now h' = t"
  using assms
proof (induction "timers h" arbitrary: h rule: less_induct)
  case less
  show ?case
  proof (cases "hub_step auth L (Tick t) h")
    case (Some h')
    then have "hub_run auth L [Tick t] h = Some h' \<and> hub_now h' = t"
      using less.prems by (auto simp: hub_run_def split: if_splits)
    then show ?thesis by blast
  next
    case None
    obtain js h2 where h2: "run_steps (hub_step auth L) js h = Some h2" "hub_now h2 \<le> t" "timers h2 < timers h"
      using fire_earliest [OF less.prems None] by blast
    have "distinct (map fst (socks h2))"
      using channel_names.run_inv [OF less.prems(1) _ h2(1)] by (simp add: list_all_iff)
    then obtain ks h' where "run_steps (hub_step auth L) ks h2 = Some h'" "hub_now h' = t"
      using less.hyps [OF h2(3)] h2(2) by (auto simp: hub_run_def)
    then have "hub_run auth L (js @ ks) h = Some h' \<and> hub_now h' = t"
      using h2(1) by (simp add: hub_run_def run_steps_append)
    then show ?thesis by blast
  qed
qed
section \<open>No push is missed\<close>

text \<open>The push has reached the socket: the notification was forwarded, the socket told to close.\<close>

fun handled :: "push_event \<Rightarrow> consumer \<Rightarrow> bool" where
  "handled (NotificationCreated u n) k \<longleftrightarrow> Created u n \<in> set (sent k)"
| "handled (AccountDeactivated u) k \<longleftrightarrow> list_ex is_closed (sent k)"

fun past_auth :: "handler \<Rightarrow> bool" where
  "past_auth (Resolving t) = False"
| "past_auth (Resolved r) = False"
| "past_auth h = True"

definition gone :: "consumer \<Rightarrow> bool" where
  "gone k \<longleftrightarrow> handler k = Stopped \<or> handler k = Crashed"

text \<open>
  The socket \<open>k\<close> has joined the group of \<open>u\<close>, and each event of \<open>u\<close> among \<open>evs\<close> is on its way to it
  (\<open>out\<close> not pushed yet, \<open>box\<close> waiting in the channel) or has reached it.
\<close>

definition tracked ::
  "uuid \<Rightarrow> (string \<Rightarrow> bool) \<Rightarrow> push_event list \<Rightarrow> push_event list \<Rightarrow> push_event list \<Rightarrow> consumer \<Rightarrow> bool" where
  "tracked u mem box out evs k \<longleftrightarrow> gone k \<or>
     mem (user_group_name u) \<and> consumer_user k = Some u \<and> group_name k \<noteq> None \<and> past_auth (handler k) \<and>
     (\<forall>e \<in> set evs. event_user e = u \<longrightarrow> e \<in> set out \<or> e \<in> set box \<or> handled e k)"

lemma handled_mono: "handled e k \<Longrightarrow> set (sent k) \<subseteq> set (sent k') \<Longrightarrow> handled e k'"
  by (cases e) (auto simp: list_ex_iff)

lemma handled_dispatch: "handled e (dispatch_event e k)"
  by (cases e) (auto simp: consumer_defs)

lemma sock_step_sent: "sock_step auth L now s c i (k, l) = Some (k', l') \<Longrightarrow> set (sent k) \<subseteq> set (sent k')"
  by (cases i) (auto simp: consumer_defs set_user_sent dispatch_event_sent split: if_splits option.splits handler.splits)

lemma sock_step_gone: "gone k \<Longrightarrow> sock_step auth L now s c i (k, l) = Some (k', l') \<Longrightarrow> gone k'"
  by (cases i) (auto simp: gone_def consumer_defs split: if_splits option.splits handler.splits)

lemma dispatch_event_state [simp]:
  "handler (dispatch_event e k) = handler k" "group_name (dispatch_event e k) = group_name k"
  "consumer_user (dispatch_event e k) = consumer_user k"
  by (cases e; simp add: consumer_defs)+

lemma sock_step_joined:
  assumes lay: "documented_layer L belongs inbox"
    and step: "sock_step auth L now s c i (k, l) = Some (k', l')"
    and k: "belongs l g c" "consumer_user k = Some u" "group_name k \<noteq> None" "past_auth (handler k)"
  shows "gone k' \<or> belongs l' g c \<and> consumer_user k' = Some u \<and> group_name k' \<noteq> None \<and> past_auth (handler k')"
  using step k layer_next [OF lay]
  by (cases i) (auto simp: gone_def consumer_defs layer_laws [OF lay] split: if_splits option.splits handler.splits)

lemma sock_step_inbox:
  assumes lay: "documented_layer L belongs inbox"
    and step: "sock_step auth L now s c i (k, l) = Some (k', l')" and e: "e \<in> set (inbox l c)"
  shows "e \<in> set (inbox l' c) \<or> handled e k'"
  using step e layer_next [OF lay] handled_dispatch
  by (cases i) (fastforce simp: consumer_defs layer_laws [OF lay] split: if_splits option.splits handler.splits)+

lemma tracked_sock_step:
  assumes lay: "documented_layer L belongs inbox"
    and step: "sock_step auth L now s c i (k, l) = Some (k', l')"
    and tr: "tracked u (\<lambda>g. belongs l g c) (inbox l c) out evs k"
  shows "tracked u (\<lambda>g. belongs l' g c) (inbox l' c) out evs k'"
proof (cases "gone k")
  case True
  then show ?thesis using sock_step_gone [OF _ step] by (simp add: tracked_def)
next
  case False
  have "e \<in> set out \<or> e \<in> set (inbox l' c) \<or> handled e k'" if "e \<in> set evs" "event_user e = u" for e
    using tr False that sock_step_inbox [OF lay step] handled_mono [OF _ sock_step_sent [OF step]]
    by (auto simp: tracked_def)
  then show ?thesis
    using tr False sock_step_joined [OF lay step] by (auto simp: tracked_def)
qed
text \<open>The unread count \<open>n\<close> was read and is sent, or was sent, with \<open>auth.ok\<close>.\<close>

definition told :: "nat \<Rightarrow> consumer \<Rightarrow> bool" where
  "told n k \<longleftrightarrow> gone k \<or> AuthOk n \<in> set (sent k) \<or> (\<exists>x. handler k = Counted n x)"

lemma told_sock_step: "told n k \<Longrightarrow> sock_step auth L now s c i (k, l) = Some (k', l') \<Longrightarrow> told n k'"
  by (cases i) (auto simp: told_def gone_def consumer_defs set_user_sent dispatch_event_sent
      split: if_splits option.splits handler.splits)

fun push_fails :: "hub_input \<Rightarrow> bool" where
  "push_fails (PushFails i) = True"
| "push_fails i = False"

definition hub_tracked ::
  "('l \<Rightarrow> string \<Rightarrow> string \<Rightarrow> bool) \<Rightarrow> ('l \<Rightarrow> string \<Rightarrow> push_event list) \<Rightarrow> uuid \<Rightarrow> string \<Rightarrow> nat \<Rightarrow> 'l hub \<Rightarrow> bool" where
  "hub_tracked belongs inbox u c n h \<longleftrightarrow>
     n \<le> length (pushed (hub_db h)) \<and>
     (\<exists>k. map_of (socks h) c = Some k \<and>
        tracked u (\<lambda>g. belongs (hub_layer h) g c) (inbox (hub_layer h) c) (outbox h)
          (drop n (pushed (hub_db h))) k)"

lemma tracked_more:
  assumes "tracked u mem box out evs k" "set evs' \<subseteq> set evs \<union> set out'"
    "\<And>e. e \<in> set out \<Longrightarrow> event_user e = u \<Longrightarrow> mem (user_group_name u) \<Longrightarrow> e \<in> set out' \<or> e \<in> set box'"
    "set box \<subseteq> set box'"
  shows "tracked u mem box' out' evs' k"
  using assms unfolding tracked_def by blast

lemma in_remove_nth: "x \<in> set xs \<Longrightarrow> i < length xs \<Longrightarrow> x = xs ! i \<or> x \<in> set (remove_nth i xs)"
  using id_take_nth_drop [of i xs] by (metis Un_iff remove_nth_def set_ConsD set_append)

lemma hub_tracked_push:
  assumes lay: "documented_layer L belongs inbox" and less: "lossless_layer L belongs inbox"
    and tr: "hub_tracked belongs inbox u c n h" and m: "m < length (outbox h)"
  shows "hub_tracked belongs inbox u c n
    (h\<lparr>outbox := remove_nth m (outbox h), hub_layer := push_event_to_group L (outbox h ! m) (hub_layer h)\<rparr>)"
proof -
  let ?l = "push_event_to_group L (outbox h ! m) (hub_layer h)"
  obtain k where k: "map_of (socks h) c = Some k" "n \<le> length (pushed (hub_db h))"
    "tracked u (\<lambda>g. belongs (hub_layer h) g c) (inbox (hub_layer h) c) (outbox h) (drop n (pushed (hub_db h))) k"
    using tr by (auto simp: hub_tracked_def)
  have box: "set (inbox (hub_layer h) c) \<subseteq> set (inbox ?l c)"
    using layer_send [OF lay, of "user_group_name (event_user (outbox h ! m))" "outbox h ! m" "hub_layer h" c]
    by (auto simp: push_event_to_group_def)
  have "e \<in> set (remove_nth m (outbox h)) \<or> e \<in> set (inbox ?l c)"
    if "e \<in> set (outbox h)" "event_user e = u" "belongs (hub_layer h) (user_group_name u) c" for e
    using in_remove_nth [OF that(1) m] less that(2,3)
    by (auto simp: lossless_layer_def push_event_to_group_def)
  then have "tracked u (\<lambda>g. belongs (hub_layer h) g c) (inbox ?l c) (remove_nth m (outbox h))
      (drop n (pushed (hub_db h))) k"
    using box by (intro tracked_more [OF k(3)]) auto
  moreover have "belongs ?l = belongs (hub_layer h)"
    by (simp add: push_event_to_group_def layer_laws [OF lay])
  ultimately show ?thesis using k(1,2) by (auto simp: hub_tracked_def)
qed

lemma hub_tracked_step:
  assumes lay: "documented_layer L belongs inbox" and less: "lossless_layer L belongs inbox"
    and tr: "hub_tracked belongs inbox u c n h" and i: "\<not> push_fails i"
    and step: "hub_step auth L i h = Some h'"
  shows "hub_tracked belongs inbox u c n h'"
proof -
  obtain k where k: "map_of (socks h) c = Some k" "n \<le> length (pushed (hub_db h))"
    "tracked u (\<lambda>g. belongs (hub_layer h) g c) (inbox (hub_layer h) c) (outbox h) (drop n (pushed (hub_db h))) k"
    using tr by (auto simp: hub_tracked_def)
  show ?thesis
  proof (cases i)
    case (Commit s')
    then have c: "pushed s' = pushed (hub_db h) @ new_events (hub_db h) s'"
      "h' = h\<lparr>hub_db := s', outbox := outbox h @ new_events (hub_db h) s'\<rparr>"
      using step commit_events by (auto split: if_splits)
    have "tracked u (\<lambda>g. belongs (hub_layer h) g c) (inbox (hub_layer h) c)
        (outbox h @ new_events (hub_db h) s') (drop n (pushed s')) k"
      using k(2) by (intro tracked_more [OF k(3)]) (auto simp: c(1))
    then show ?thesis using k c by (simp add: hub_tracked_def)
  next
    case (Push m)
    then show ?thesis using hub_tracked_push [OF lay less tr] step by (auto split: if_splits)
  next
    case (Sock c' j)
    then obtain m m' l' where m: "map_of (socks h) c' = Some m"
      "sock_step auth L (hub_now h) (hub_db h) c' j (m, hub_layer h) = Some (m', l')"
      "h' = h\<lparr>hub_layer := l', socks := AList.update c' m' (socks h)\<rparr>"
      using step by (auto split: option.splits)
    show ?thesis
    proof (cases "c' = c")
      case True
      then show ?thesis
        using k m tracked_sock_step [OF lay m(2), of u "outbox h" "drop n (pushed (hub_db h))"]
        by (auto simp: hub_tracked_def update_conv')
    next
      case False
      then show ?thesis
        using k m sock_step_others [OF lay m(2), of c] by (auto simp: hub_tracked_def update_conv')
    qed
  qed (use step k i in \<open>auto simp: hub_tracked_def update_conv' split: if_splits\<close>)
qed

interpretation arrivals:
  guarded_machine "hub_step auth L" "\<lambda>i. \<not> push_fails i"
    "\<lambda>h. documented_layer L belongs inbox \<and> lossless_layer L belongs inbox \<and> hub_tracked belongs inbox u c n h"
  for auth L belongs inbox u c n
  by unfold_locales (auto intro: hub_tracked_step)

lemma told_hub_step:
  assumes "\<exists>k. map_of (socks h) c = Some k \<and> told n k" "hub_step auth L i h = Some h'"
  shows "\<exists>k. map_of (socks h') c = Some k \<and> told n k"
proof (cases i)
  case (Sock c' j)
  then obtain m m' l' where m: "map_of (socks h) c' = Some m"
    "sock_step auth L (hub_now h) (hub_db h) c' j (m, hub_layer h) = Some (m', l')"
    "h' = h\<lparr>hub_layer := l', socks := AList.update c' m' (socks h)\<rparr>"
    using assms(2) by (auto split: option.splits)
  then show ?thesis using assms(1) told_sock_step [OF _ m(2)] by (auto simp: update_conv')
qed (use assms in \<open>auto simp: update_conv' split: if_splits\<close>)

interpretation telling:
  guarded_machine "hub_step auth L" "\<lambda>i. True" "\<lambda>h. \<exists>k. map_of (socks h) c = Some k \<and> told n k"
  for auth L c n
  by unfold_locales (rule told_hub_step)
section \<open>A layer and an authentication that keep their promises\<close>

definition plain_layer :: "((string \<Rightarrow> string \<Rightarrow> bool) \<times> (string \<Rightarrow> push_event list)) layer" where
  "plain_layer =
     \<lparr>group_add = \<lambda>g c (m, b). (\<lambda>g' c'. m g' c' \<or> g' = g \<and> c' = c, b),
      group_discard = \<lambda>g c (m, b). (\<lambda>g' c'. m g' c' \<and> \<not> (g' = g \<and> c' = c), b),
      group_send = \<lambda>g e (m, b). (m, \<lambda>c. if m g c then b c @ [e] else b c),
      next_message = \<lambda>c (m, b). case b c of [] \<Rightarrow> None | e # es \<Rightarrow> Some (e, m, b(c := es))\<rparr>"

definition plain_start :: "(string \<Rightarrow> string \<Rightarrow> bool) \<times> (string \<Rightarrow> push_event list)" where
  "plain_start = (\<lambda>g c. False, \<lambda>c. [])"

lemma plain_documented: "documented_layer plain_layer fst snd"
  by (auto simp: documented_layer_def plain_layer_def split: list.splits)

lemma plain_lossless: "lossless_layer plain_layer fst snd"
  by (auto simp: lossless_layer_def plain_layer_def)

lemma plain_fresh: "fresh_layer fst snd plain_start"
  by (simp add: fresh_layer_def plain_start_def)

definition demo_auth :: auth where
  "demo_auth now s t =
     (if t = ''tok'' \<and> list_ex (\<lambda>x. user_id x = 1 \<and> is_active x) (users s)
      then Some (1, now + ACCESS_TOKEN_LIFETIME) else None)"

lemma demo_auth_ok: "auth_users demo_auth" "auth_lifetime demo_auth"
  by (auto simp: auth_users_def auth_lifetime_def demo_auth_def list_ex_iff split: if_splits)

definition auth_message :: json where
  "auth_message = JObj [(''type'', JStr ''auth''), (''token'', JStr ''tok'')]"

definition demo_login :: "hub_input list" where
  "demo_login = [Connect ''a'', Sock ''a'' (ClientFrame (Some auth_message)), Sock ''a'' Resolve, Sock ''a'' SetUser]"

definition demo_notified :: db where
  "demo_notified = demo_accounts\<lparr>notifications := [new_notification 2 0 AUDIT_APPROVED [] [] 1],
     next_id := 3, pushed := [NotificationCreated 1 2]\<rparr>"

lemmas demo_socket_defs = hub_run_def start_hub_def plain_layer_def plain_start_def demo_auth_def auth_message_def
  demo_login_def demo_accounts_def demo_user_def empty_db_def connect_def new_consumer_def
  message_type_def message_token_def dict_get_def resolve_user_def push_event_to_group_def remove_nth_def
  consumer_unread_count_def unread_count_def uuids_ok_def new_events_def timedelta_seconds_def
  AUTH_TIMEOUT_SECONDS_def ACCESS_TOKEN_LIFETIME_def

section \<open>What the sockets promise\<close>

lemma reachable_sock_ok:
  assumes "documented_layer L belongs inbox" "auth_users auth" "fresh_layer belongs inbox l" "uuids_ok s"
    and "hub_run auth L is (start_hub t0 s l) = Some h" "map_of (socks h) c = Some k"
  shows "sock_ok auth (pushed (hub_db h)) (\<lambda>g. belongs (hub_layer h) g c) (inbox (hub_layer h) c) k"
proof -
  have "hub_ok auth belongs inbox h"
    using own_pushes.run_inv [of L belongs inbox auth "start_hub t0 s l" "is" h] assms(1,2,5)
      start_hub_ok [OF assms(3,4)] by (simp add: hub_run_def list_all_iff)
  then show ?thesis using hub_ok_channel [of auth belongs inbox h c] assms(6) by (simp add: channel_ok_def)
qed

lemma join_tracks:
  assumes lay: "documented_layer L belongs inbox"
    and k: "map_of (socks h) c = Some k" "handler k = Joining x" "consumer_user k = Some u"
      "group_name k = Some (user_group_name u)"
    and step: "hub_step auth L (Sock c Join) h = Some h'"
  shows "hub_tracked belongs inbox u c (length (pushed (hub_db h))) h'"
  using step k by (auto simp: hub_tracked_def tracked_def update_conv' layer_laws [OF lay])

lemma count_tells:
  assumes "map_of (socks h) c = Some k" "consumer_user k = Some u" "hub_step auth L (Sock c Count) h = Some h'"
  shows "\<exists>k'. map_of (socks h') c = Some k' \<and> told (unread_count (hub_db h) u) k'"
  using assms by (auto simp: update_conv' told_def consumer_unread_count_def split: handler.splits)




text \<open>
  C17. Every socket comes to an end: whatever the client does, it has been closed, has left or has
  failed once the clock is past the five seconds plus the lifetime of an access token, and already
  past the five seconds if it was never told \<open>auth.ok\<close>; and the clock can always move on.
\<close>

theorem socket_lifetime_is_bounded:
  assumes "auth_lifetime auth" "distinct (map fst (socks h))"
    and "hub_run auth L (Connect c # is) h = Some h'" "map_of (socks h') c = Some k"
  shows "(hub_now h + timedelta_seconds AUTH_TIMEOUT_SECONDS < hub_now h' \<and> \<not> list_ex is_auth_ok (sent k) \<longrightarrow> ended k) \<and>
         (hub_now h + timedelta_seconds AUTH_TIMEOUT_SECONDS + ACCESS_TOKEN_LIFETIME < hub_now h' \<longrightarrow> ended k) \<and>
         (\<forall>t \<ge> hub_now h'. \<exists>js h''. hub_run auth L js h' = Some h'' \<and> hub_now h'' = t)"
proof -
  let ?t1 = "hub_now h + timedelta_seconds AUTH_TIMEOUT_SECONDS"
  obtain h1 where h1: "hub_step auth L (Connect c) h = Some h1" "run_steps (hub_step auth L) is h1 = Some h'"
    using assms(3) by (auto simp: hub_run_def simp del: hub_step.simps split: option.splits)
  have "socket_deadline (hub_now h) c h'"
    using deadlines.run_inv [OF _ _ h1(2)] socket_deadline_connect [OF h1(1)] assms(1)
    by (auto simp: list_all_iff)
  then have dl: "deadline_ok ?t1 (?t1 + ACCESS_TOKEN_LIFETIME) (hub_now h') k"
    using assms(4) by (simp add: socket_deadline_def)
  have phase: "d \<le> ?t1 + ACCESS_TOKEN_LIFETIME \<and> (\<not> list_ex is_auth_ok (sent k) \<longrightarrow> d \<le> ?t1)"
    if "phase_ok ?t1 (?t1 + ACCESS_TOKEN_LIFETIME) d k w" for d w
    using that by (cases w) (auto simp: ACCESS_TOKEN_LIFETIME_def timedelta_seconds_def split: if_splits)
  have "distinct (map fst (socks h'))"
    using channel_names.run_inv [OF assms(2)] assms(3) by (auto simp: hub_run_def list_all_iff simp del: run_steps.simps)
  then show ?thesis
    using dl phase clock_advances by (fastforce simp: deadline_ok_def)
qed
theorem socket_lifetime_is_bounded_witness:
  "\<exists>h k. hub_run demo_auth plain_layer [Connect ''a'', Tick 5000000, Sock ''a'' Fire, Tick 6000000]
       (start_hub 0 demo_accounts plain_start) = Some h \<and> map_of (socks h) ''a'' = Some k \<and> ended k \<and>
     (\<exists>js h'. hub_run demo_auth plain_layer js h = Some h' \<and> hub_now h' = 7000000)"
proof -
  have "\<exists>h k. hub_run demo_auth plain_layer [Connect ''a'', Tick 5000000, Sock ''a'' Fire, Tick 6000000]
       (start_hub 0 demo_accounts plain_start) = Some h \<and> map_of (socks h) ''a'' = Some k \<and>
     \<not> list_ex is_auth_ok (sent k) \<and> hub_now h = 6000000"
    by (simp add: demo_socket_defs consumer_defs)
  then obtain h k where "hub_run demo_auth plain_layer [Connect ''a'', Tick 5000000, Sock ''a'' Fire, Tick 6000000]
       (start_hub 0 demo_accounts plain_start) = Some h" "map_of (socks h) ''a'' = Some k"
     "\<not> list_ex is_auth_ok (sent k)" "hub_now h = 6000000"
    by blast
  then show ?thesis
    using socket_lifetime_is_bounded [OF demo_auth_ok(2), of "start_hub 0 demo_accounts plain_start"]
    by (auto simp: start_hub_def timedelta_seconds_def AUTH_TIMEOUT_SECONDS_def)
qed

section \<open>A socket that joins late\<close>

text \<open>
  \<open>close_user_sockets\<close> reaches the sockets that have joined the group. A socket whose token was
  resolved before the deactivation committed and which joins after the push stays open, for an
  account that is no longer active, until its token expires.
\<close>

definition demo_left :: db where
  "demo_left = (case deactivate_account demo_accounts 9 1 of Inr (x, s) \<Rightarrow> s | Inl e \<Rightarrow> demo_accounts)"

lemma demo_left_rows:
  "pushed demo_left = [AccountDeactivated 1]" "map user_id (users demo_left) = [0, 1]"
  "\<not> list_ex (\<lambda>x. user_id x = 1 \<and> is_active x) (users demo_left)" "unread_count demo_left 1 = 0"
  by code_simp+

lemma demo_left_uuids: "uuids_ok demo_left"
proof -
  have "list_all (\<lambda>u. u < 2 ^ 128) (map user_id (users demo_left))" unfolding demo_left_rows by simp
  then show ?thesis by (simp add: uuids_ok_def list.pred_map comp_def demo_left_rows(1))
qed

lemma late_join_outlives_deactivation:
  "\<exists>h k. hub_run demo_auth plain_layer
       [Connect ''a'', Sock ''a'' (ClientFrame (Some auth_message)), Sock ''a'' Resolve, Commit demo_left, Push 0,
        Sock ''a'' SetUser, Sock ''a'' Join, Sock ''a'' Count, Sock ''a'' Ready]
       (start_hub 0 demo_accounts plain_start) = Some h \<and>
     map_of (socks h) ''a'' = Some k \<and> \<not> ended k \<and> sent k = [Accepted, AuthOk 0] \<and>
     outbox h = [] \<and> snd (hub_layer h) ''a'' = [] \<and>
     \<not> list_ex (\<lambda>x. user_id x = 1 \<and> is_active x) (users (hub_db h))"
proof -
  have "pushed demo_accounts = []" "demo_auth 0 demo_accounts ''tok'' = Some (1, ACCESS_TOKEN_LIFETIME)"
    by (simp_all add: demo_accounts_def demo_user_def empty_db_def demo_auth_def)
  then show ?thesis
    using demo_left_rows(1,3,4) demo_left_uuids
    by (simp add: hub_run_def start_hub_def plain_layer_def plain_start_def auth_message_def connect_def
        new_consumer_def message_type_def message_token_def dict_get_def resolve_user_def
        push_event_to_group_def remove_nth_def consumer_unread_count_def new_events_def consumer_defs ended_def)
qed

end
