(* ===== verification/Settings.thy ===== *)
theory Settings
  imports Account_Views Catalog
begin

text \<open>
  The configuration the process starts with: \<open>settings/__init__.py\<close>, \<open>base.py\<close>,
  \<open>dev.py\<close>, \<open>staging.py\<close>, \<open>production.py\<close>, \<open>neon_endpoints.py\<close>, the redaction of
  \<open>security.py\<close>, the system check of \<open>notifications/checks.py\<close> and the middleware for local
  browsers. \<open>env\<close> is \<open>os.environ\<close> after \<open>load_dotenv\<close>, \<open>ca_bundle\<close> whether the certificate
  bundle of the image exists, \<open>host_ok\<close> the checks of \<open>urlsplit\<close> on a host. The parts of the
  URL standard library are written for ASCII; a percent escape stands for one character.
\<close>

section \<open>Parts of a URL\<close>

definition before_first :: "char \<Rightarrow> string \<Rightarrow> string" where
  "before_first c s = takeWhile (\<lambda>x. x \<noteq> c) s"

definition after_first :: "char \<Rightarrow> string \<Rightarrow> string" where
  "after_first c s = drop 1 (dropWhile (\<lambda>x. x \<noteq> c) s)"

definition after_last :: "char \<Rightarrow> string \<Rightarrow> string" where
  "after_last c s = rev (takeWhile (\<lambda>x. x \<noteq> c) (rev s))"

definition before_last :: "char \<Rightarrow> string \<Rightarrow> string" where
  "before_last c s = rev (drop 1 (dropWhile (\<lambda>x. x \<noteq> c) (rev s)))"

text \<open>The query of a URL: what follows the first question mark before a fragment.\<close>

definition url_query :: "string \<Rightarrow> string" where
  "url_query raw =
     (let url = filter (\<lambda>c. c \<notin> {CHR 0x09, CHR 0x0A, CHR 0x0D}) (dropWhile (\<lambda>c. (of_char c :: nat) \<le> 32) raw);
          rest = snd (split_scheme url);
          tail = (if py_startswith rest ''//'' then dropWhile (\<lambda>c. c \<notin> set ''/?#'') (drop 2 rest) else rest)
      in after_first (CHR ''?'') (before_first (CHR ''#'') tail))"

text \<open>\<open>SplitResult.hostname\<close>, empty for \<open>None\<close>, and the text after its colon.\<close>

definition url_hostname :: "string \<Rightarrow> string" where
  "url_hostname netloc =
     (let hostinfo = after_last (CHR ''@'') netloc;
          host = (if CHR ''['' \<in> set hostinfo then before_first (CHR '']'') (after_first (CHR ''['') hostinfo)
                  else before_first (CHR '':'') hostinfo);
          name = before_first (CHR ''%'') host
      in py_lower name @ drop (length name) host)"

definition url_port :: "string \<Rightarrow> int option res" where
  "url_port netloc =
     (let hostinfo = after_last (CHR ''@'') netloc;
          text = (if CHR ''['' \<in> set hostinfo
                  then after_first (CHR '':'') (after_first (CHR '']'') (after_first (CHR ''['') hostinfo))
                  else after_first (CHR '':'') hostinfo)
      in if text = [] then Inr None
         else if list_all is_digit text \<and> digits_int text \<le> 65535 then Inr (Some (digits_int text))
         else Inl (PyValueError ''port''))"

definition url_username :: "string \<Rightarrow> string option" where
  "url_username netloc =
     (if CHR ''@'' \<in> set netloc then Some (before_first (CHR '':'') (before_last (CHR ''@'') netloc)) else None)"

definition url_password :: "string \<Rightarrow> string option" where
  "url_password netloc =
     (let userinfo = before_last (CHR ''@'') netloc
      in if CHR ''@'' \<in> set netloc \<and> CHR '':'' \<in> set userinfo then Some (after_first (CHR '':'') userinfo) else None)"

fun unquote :: "string \<Rightarrow> string" where
  "unquote (p # a # b # s) =
     (if p = CHR ''%'' \<and> hex_value a \<noteq> None \<and> hex_value b \<noteq> None
      then char_of (16 * the (hex_value a) + the (hex_value b)) # unquote s
      else p # unquote (a # b # s))"
| "unquote s = s"

definition plus_to_space :: "string \<Rightarrow> string" where
  "plus_to_space s = map (\<lambda>c. if c = CHR ''+'' then CHR '' '' else c) s"

text \<open>\<open>parse_qsl\<close>: pairs in order; a pair with no value or a blank one only when \<open>keep_blank\<close>.\<close>

definition parse_qsl :: "bool \<Rightarrow> string \<Rightarrow> (string \<times> string) list" where
  "parse_qsl keep_blank q =
     concat (map (\<lambda>nv.
        if nv = [] then []
        else if CHR ''='' \<notin> set nv then (if keep_blank then [(unquote (plus_to_space nv), [])] else [])
        else (let v = after_first (CHR ''='') nv
              in if v = [] \<and> \<not> keep_blank then []
                 else [(unquote (plus_to_space (before_first (CHR ''='') nv)), unquote (plus_to_space v))]))
       (py_split_on (CHR ''&'') q))"

text \<open>\<open>parse_qs(query).get(name, [default])[0]\<close>.\<close>

definition query_first :: "string \<Rightarrow> string \<Rightarrow> string \<Rightarrow> string" where
  "query_first q name dflt = (case map_of (parse_qsl False q) name of None \<Rightarrow> dflt | Some v \<Rightarrow> v)"

section \<open>Redaction\<close>

definition quote_char :: "char \<Rightarrow> string" where
  "quote_char c =
     (if ascii_letter c \<or> is_digit c \<or> c \<in> set ''_.-~'' then [c]
      else if c = CHR '' '' then ''+''
      else ''%'' @ py_upper [hex_digit (of_char c div 16), hex_digit (of_char c mod 16)])"

definition quote_plus :: "string \<Rightarrow> string" where
  "quote_plus s = concat (map quote_char s)"

definition urlencode :: "(string \<times> string) list \<Rightarrow> string" where
  "urlencode ps = py_join ''&'' (map (\<lambda>(k, v). quote_plus k @ ''='' @ quote_plus v) ps)"

definition REDACTED :: string where
  "REDACTED = ''<redacted database URL>''"

definition sensitive_keys :: "string list" where
  "sensitive_keys = [''password'', ''pass'', ''secret'', ''token'', ''api_key'', ''apikey'']"

definition POSTGRES_SCHEMES :: "string list" where
  "POSTGRES_SCHEMES = [''postgres'', ''postgresql'']"

definition redact_database_url :: "(string \<Rightarrow> bool) \<Rightarrow> string \<Rightarrow> string" where
  "redact_database_url host_ok raw =
     (case urlsplit host_ok raw of
        None \<Rightarrow> REDACTED
      | Some (scheme, netloc, path) \<Rightarrow>
          (case url_port netloc of
             Inl _ \<Rightarrow> REDACTED
           | Inr port \<Rightarrow>
               if scheme \<notin> set POSTGRES_SCHEMES \<or> url_hostname netloc = [] \<or> path = [] then REDACTED
               else
                 (let user = (case url_username netloc of None \<Rightarrow> [] | Some u \<Rightarrow> u);
                      port_suffix = (case port of None \<Rightarrow> [] | Some p \<Rightarrow> if p = 0 then [] else '':'' @ int_str p);
                      shown = (if url_password netloc \<noteq> None then user @ '':***@'' @ url_hostname netloc @ port_suffix
                               else user @ ''@'' @ url_hostname netloc @ port_suffix);
                      query = urlencode (map (\<lambda>(k, v). (k, if py_lower k \<in> set sensitive_keys then ''***'' else v))
                                (parse_qsl True (url_query raw)))
                  in scheme @ ''://'' @ shown @ path @ (if query = [] then [] else ''?'' @ query))))"

section \<open>Environment\<close>

type_synonym environ = "string \<Rightarrow> string option"

definition env_get :: "environ \<Rightarrow> string \<Rightarrow> string \<Rightarrow> string" where
  "env_get env name dflt = (case env name of None \<Rightarrow> dflt | Some v \<Rightarrow> v)"

definition required :: "environ \<Rightarrow> string \<Rightarrow> string res" where
  "required env name =
     (let v = py_strip (env_get env name [])
      in if v = [] then Inl (RuntimeError (name @ '' is missing or empty'')) else Inr v)"

definition csv_entries :: "string \<Rightarrow> string list" where
  "csv_entries v = filter (\<lambda>e. e \<noteq> []) (map py_strip (py_split_on (CHR '','') v))"

definition csv_setting :: "environ \<Rightarrow> string \<Rightarrow> string list res" where
  "csv_setting env name = res_bind (required env name) (\<lambda>v. Inr (csv_entries v))"

definition required_bool :: "environ \<Rightarrow> string \<Rightarrow> bool res" where
  "required_bool env name =
     res_bind (required env name) (\<lambda>v.
       let w = py_lower v
       in if w \<noteq> ''true'' \<and> w \<noteq> ''false'' then Inl (RuntimeError (name @ '' must be exactly true or false''))
          else Inr (w = ''true''))"

section \<open>The database\<close>

definition CANONICAL_NEON_ENDPOINTS :: "(string \<times> string \<times> string) list" where
  "CANONICAL_NEON_ENDPOINTS =
     [(''dev'', ''ep-lively-brook-ax4n0pys.c-4.us-east-2.aws.neon.tech'',
               ''ep-lively-brook-ax4n0pys-pooler.c-4.us-east-2.aws.neon.tech''),
      (''staging'', ''ep-withered-cake-axk8vlfi.c-4.us-east-2.aws.neon.tech'',
               ''ep-withered-cake-axk8vlfi-pooler.c-4.us-east-2.aws.neon.tech''),
      (''production'', ''ep-old-salad-axvsz82z.c-4.us-east-2.aws.neon.tech'',
               ''ep-old-salad-axvsz82z-pooler.c-4.us-east-2.aws.neon.tech'')]"

definition canonical_neon_host :: "string \<Rightarrow> bool \<Rightarrow> string res" where
  "canonical_neon_host environment pooled =
     (case map_of CANONICAL_NEON_ENDPOINTS environment of
        None \<Rightarrow> Inl (RuntimeError ''No canonical Neon endpoint'')
      | Some (direct, pool) \<Rightarrow> Inr (if pooled then pool else direct))"

record database_config =
  db_name :: string
  db_user :: string
  db_password :: string
  db_host :: string
  db_port :: string
  db_options :: "(string \<times> string) list"

definition strong_tls :: "string \<Rightarrow> string \<Rightarrow> bool" where
  "strong_tls sslmode channel_binding \<longleftrightarrow>
     sslmode = ''verify-full'' \<or> sslmode = ''require'' \<and> channel_binding = ''require''"

definition tls_options :: "bool \<Rightarrow> string \<Rightarrow> (string \<times> string) list" where
  "tls_options ca_bundle q =
     (let sslmode = query_first q ''sslmode'' [];
          channel_binding = query_first q ''channel_binding'' [];
          default_ca = (if ca_bundle then ''/etc/ssl/certs/ca-certificates.crt'' else ''system'')
      in (if sslmode \<noteq> [] then [(''sslmode'', sslmode)] else []) @
         (if sslmode = ''verify-full''
          then [(''sslrootcert'', let r = query_first q ''sslrootcert'' default_ca in if r = [] then default_ca else r)]
          else []) @
         (if channel_binding \<noteq> [] then [(''channel_binding'', channel_binding)] else []))"

definition lstrip_slash :: "string \<Rightarrow> string" where
  "lstrip_slash path = dropWhile (\<lambda>c. c = CHR ''/'') path"

definition database_entry :: "bool \<Rightarrow> string \<Rightarrow> string \<Rightarrow> string \<Rightarrow> database_config res" where
  "database_entry ca_bundle netloc path q =
     res_bind (url_port netloc) (\<lambda>port.
       Inr \<lparr>db_name = unquote (lstrip_slash path),
            db_user = unquote (case url_username netloc of None \<Rightarrow> [] | Some u \<Rightarrow> u),
            db_password = unquote (case url_password netloc of None \<Rightarrow> [] | Some p \<Rightarrow> p),
            db_host = url_hostname netloc,
            db_port = (case port of None \<Rightarrow> ''5432'' | Some p \<Rightarrow> if p = 0 then ''5432'' else int_str p),
            db_options = tls_options ca_bundle q\<rparr>)"

definition database_from_url ::
  "(string \<Rightarrow> bool) \<Rightarrow> bool \<Rightarrow> environ \<Rightarrow> string \<Rightarrow> bool \<Rightarrow> bool option \<Rightarrow> database_config res" where
  "database_from_url host_ok ca_bundle env url require_ssl expected_pooled =
     (case urlsplit host_ok url of
        None \<Rightarrow> Inl (PyValueError ''Invalid URL'')
      | Some (scheme, netloc, path) \<Rightarrow>
          if scheme \<notin> set POSTGRES_SCHEMES
          then Inl (RuntimeError (''DATABASE_URL must use postgres:// or postgresql://; received '' @
                                  redact_database_url host_ok url))
          else if url_hostname netloc = [] \<or> lstrip_slash path = []
          then Inl (RuntimeError ''DATABASE_URL must include a host and database name.'')
          else
            (let is_pooled = py_contains (py_lower (url_hostname netloc)) ''-pooler'';
                 q = url_query url
             in if expected_pooled = Some True \<and> \<not> is_pooled
                then Inl (RuntimeError ''Deployed app DATABASE_URL must use the Neon pooler host.'')
                else if expected_pooled = Some False \<and> is_pooled
                then Inl (RuntimeError ''Direct migration DATABASE_URL must not use the Neon pooler host.'')
                else if require_ssl \<and> \<not> strong_tls (query_first q ''sslmode'' []) (query_first q ''channel_binding'' [])
                then Inl (RuntimeError ''Deployed PostgreSQL URLs must use sslmode=verify-full or sslmode=require'')
                else
                  res_bind
                    (if require_ssl
                     then res_bind (canonical_neon_host (env_get env ''DJANGO_ENV'' []) is_pooled) (\<lambda>host.
                            require (py_lower (url_hostname netloc) = host)
                              (RuntimeError ''DATABASE_URL host does not match the canonical Neon endpoint.''))
                     else Inr ())
                    (\<lambda>_. database_entry ca_bundle netloc path q)))"

section \<open>The settings\<close>

record app_settings =
  environment :: string
  SECRET_KEY :: string
  DEPLOYED :: bool
  CONNECTION_ROLE :: string
  DEBUG :: bool
  ALLOWED_HOSTS :: "string list"
  CORS_ALLOWED_ORIGINS :: "string list"
  NUM_PROXIES :: "int option"
  AUTH :: auth_settings
  ALLOWED_EMAIL_DOMAIN :: string
  STAFF_EMAILS :: "string list"
  secure_transport :: bool
  development_cors :: bool
  DATABASE :: database_config
  GCS_EVIDENCE_BUCKET :: string

definition num_proxies_setting :: "environ \<Rightarrow> int option res" where
  "num_proxies_setting env =
     (let v = py_strip (env_get env ''DJANGO_NUM_PROXIES'' [])
      in if v = [] then Inr None
         else if list_all is_digit v then Inr (Some (digits_int v))
         else Inl (RuntimeError ''DJANGO_NUM_PROXIES must be a non-negative integer.''))"

definition auth_mode_setting :: "environ \<Rightarrow> bool \<Rightarrow> string res" where
  "auth_mode_setting env deployed =
     (let mode = py_lower (py_strip (env_get env ''MICROSOFT_AUTH_MODE'' ''entra''))
      in if mode \<noteq> ''entra'' \<and> mode \<noteq> ''mock''
         then Inl (RuntimeError ''MICROSOFT_AUTH_MODE must be exactly entra or mock.'')
         else if mode = ''mock'' \<and> (env ''DJANGO_ENV'' \<noteq> Some ''dev'' \<or> deployed)
         then Inl (RuntimeError ''MICROSOFT_AUTH_MODE=mock is only allowed with DJANGO_ENV=dev'')
         else Inr mode)"

definition LOCAL_HOSTS :: "string list" where
  "LOCAL_HOSTS = [''127.0.0.1'', ''localhost'', ''::1'', ''db'']"

definition check_mock_database :: "(string \<Rightarrow> bool) \<Rightarrow> string \<Rightarrow> string \<Rightarrow> unit res" where
  "check_mock_database host_ok mode url =
     (if mode \<noteq> ''mock'' then Inr ()
      else (case urlsplit host_ok url of
              None \<Rightarrow> Inl (PyValueError ''Invalid URL'')
            | Some (scheme, netloc, path) \<Rightarrow>
                require (url_hostname netloc \<in> set LOCAL_HOSTS)
                  (RuntimeError ''MICROSOFT_AUTH_MODE=mock requires a local PostgreSQL host.'')))"

definition base_settings :: "(string \<Rightarrow> bool) \<Rightarrow> bool \<Rightarrow> environ \<Rightarrow> app_settings res" where
  "base_settings host_ok ca_bundle env =
     res_bind (required env ''DJANGO_SECRET_KEY'') (\<lambda>key.
     res_bind (required_bool env ''DJANGO_DEPLOYED'') (\<lambda>deployed.
     res_bind (required env ''DJANGO_CONNECTION_ROLE'') (\<lambda>con_role.
     res_bind (require (con_role = ''app'' \<or> con_role = ''direct'')
                 (RuntimeError ''DJANGO_CONNECTION_ROLE must be exactly app or direct.'')) (\<lambda>_.
     res_bind (csv_setting env ''DJANGO_ALLOWED_HOSTS'') (\<lambda>hosts.
     res_bind (num_proxies_setting env) (\<lambda>proxies.
     res_bind (auth_mode_setting env deployed) (\<lambda>mode.
     res_bind (required env ''DATABASE_URL'') (\<lambda>url.
     res_bind (check_mock_database host_ok mode url) (\<lambda>_.
     res_bind (database_from_url host_ok ca_bundle env url deployed (Some (deployed \<and> con_role = ''app''))) (\<lambda>database.
       let local = (env ''DJANGO_ENV'' = Some ''dev'' \<and> \<not> deployed)
       in Inr \<lparr>environment = env_get env ''DJANGO_ENV'' [], SECRET_KEY = key, DEPLOYED = deployed,
               CONNECTION_ROLE = con_role, DEBUG = False, ALLOWED_HOSTS = hosts,
               CORS_ALLOWED_ORIGINS =
                 (if local then csv_entries (env_get env ''CORS_ALLOWED_ORIGINS'' ''http://localhost:3000'') else []),
               NUM_PROXIES = proxies,
               AUTH = \<lparr>auth_mode = mode, auth_tenant = py_strip (env_get env ''MICROSOFT_TENANT_ID'' []),
                       auth_client = py_strip (env_get env ''MICROSOFT_CLIENT_ID'' [])\<rparr>,
               ALLOWED_EMAIL_DOMAIN = py_lower (py_strip (env_get env ''ALLOWED_EMAIL_DOMAIN'' ''iteso.mx'')),
               STAFF_EMAILS = map py_lower (csv_entries (env_get env ''STAFF_EMAILS'' [])),
               secure_transport = deployed, development_cors = local, DATABASE = database,
               GCS_EVIDENCE_BUCKET = py_strip (env_get env ''GCS_EVIDENCE_BUCKET'' [])\<rparr>))))))))))"

definition load_settings :: "(string \<Rightarrow> bool) \<Rightarrow> bool \<Rightarrow> environ \<Rightarrow> app_settings res" where
  "load_settings host_ok ca_bundle env =
     (let e = env_get env ''DJANGO_ENV'' []
      in if e = [] then Inl (RuntimeError ''DJANGO_ENV is required'')
         else if e \<noteq> ''dev'' \<and> e \<noteq> ''staging'' \<and> e \<noteq> ''production'' then Inl (RuntimeError ''Unsupported DJANGO_ENV'')
         else res_bind (base_settings host_ok ca_bundle env) (\<lambda>cfg.
                if e = ''dev'' then Inr (cfg\<lparr>DEBUG := \<not> DEPLOYED cfg\<rparr>)
                else if \<not> DEPLOYED cfg then Inl (RuntimeError (''DJANGO_ENV='' @ e @ '' requires DJANGO_DEPLOYED=true.''))
                else Inr cfg))"

section \<open>Workers and the channel layer\<close>

definition IN_MEMORY_LAYER :: string where
  "IN_MEMORY_LAYER = ''channels.layers.InMemoryChannelLayer''"

text \<open>\<open>int(raw)\<close>: an optional sign and digits with single underscores, between white space.\<close>

definition py_int :: "string \<Rightarrow> int option" where
  "py_int raw =
     (let w = py_strip raw;
          ds = (if py_startswith w ''-'' \<or> py_startswith w ''+'' then drop 1 w else w);
          sg = (if py_startswith w ''-'' then - 1 else 1)
      in if list_all (\<lambda>part. part \<noteq> [] \<and> list_all is_digit part) (py_split_on (CHR ''_'') ds)
         then Some (sg * digits_int (filter is_digit ds)) else None)"

definition web_concurrency :: "environ \<Rightarrow> int option" where
  "web_concurrency env =
     (let raw = py_strip (env_get env ''WEB_CONCURRENCY'' []) in if raw = [] then Some 1 else py_int raw)"

text \<open>The ids of the errors found.\<close>

definition check_channel_layer_matches_workers :: "string option \<Rightarrow> environ \<Rightarrow> string list" where
  "check_channel_layer_matches_workers backend env =
     (if backend \<noteq> Some IN_MEMORY_LAYER then []
      else (case web_concurrency env of
              None \<Rightarrow> [''notifications.E002'']
            | Some workers \<Rightarrow> if workers \<le> 1 then [] else [''notifications.E001'']))"

section \<open>Browsers in local development\<close>

record http_request =
  http_method :: string
  http_origin :: string
  http_preflight :: string

record http_response =
  http_status :: nat
  allow_origin :: "string option"

text \<open>\<open>DevelopmentCorsMiddleware\<close>; \<open>get_response\<close> is the rest of the application.\<close>

definition development_cors_middleware ::
  "string list \<Rightarrow> (http_request \<Rightarrow> http_response) \<Rightarrow> http_request \<Rightarrow> http_response" where
  "development_cors_middleware allowed_origins get_response r =
     (let response = (if http_method r = ''OPTIONS'' \<and> http_origin r \<in> set allowed_origins \<and> http_preflight r \<noteq> []
                      then \<lparr>http_status = 204, allow_origin = None\<rparr> else get_response r)
      in if http_origin r \<in> set allowed_origins then response\<lparr>allow_origin := Some (http_origin r)\<rparr> else response)"

end
