(* ===== verification/Settings_Rules.thy ===== *)
theory Settings_Rules
  imports Settings
begin

text \<open>
  What a process that started can rely on: a deployed one talks over verified TLS to the reviewed
  database of its environment and never accepts mock identities, and a start that fails says
  nothing about the database URL.
\<close>

section \<open>Databases\<close>

lemma database_from_url_InrD:
  assumes "database_from_url host_ok ca env url ssl pooled = Inr db"
  obtains scheme netloc path where "urlsplit host_ok url = Some (scheme, netloc, path)"
    "db_host db = url_hostname netloc" "db_options db = tls_options ca (url_query url)"
    "pooled = Some True \<longrightarrow> py_contains (py_lower (url_hostname netloc)) ''-pooler''"
    "pooled = Some False \<longrightarrow> \<not> py_contains (py_lower (url_hostname netloc)) ''-pooler''"
    "ssl \<longrightarrow> strong_tls (query_first (url_query url) ''sslmode'' []) (query_first (url_query url) ''channel_binding'' [])"
    "ssl \<longrightarrow> canonical_neon_host (env_get env ''DJANGO_ENV'' [])
        (py_contains (py_lower (url_hostname netloc)) ''-pooler'') = Inr (py_lower (url_hostname netloc))"
  using assms
  by (auto simp: database_from_url_def database_entry_def Let_def elim!: res_bind_InrE
      split: option.splits if_splits)

lemma tls_options_strong:
  assumes "strong_tls (query_first q ''sslmode'' []) (query_first q ''channel_binding'' [])"
  shows "map_of (tls_options ca q) ''sslmode'' = Some ''verify-full'' \<or>
    map_of (tls_options ca q) ''sslmode'' = Some ''require'' \<and>
    map_of (tls_options ca q) ''channel_binding'' = Some ''require''"
  using assms by (auto simp: strong_tls_def tls_options_def Let_def)

text \<open>The configuration demands an encrypted, verified connection.\<close>

definition verified_tls :: "database_config \<Rightarrow> bool" where
  "verified_tls d \<longleftrightarrow>
     map_of (db_options d) ''sslmode'' = Some ''verify-full'' \<or>
     map_of (db_options d) ''sslmode'' = Some ''require'' \<and>
     map_of (db_options d) ''channel_binding'' = Some ''require''"

lemma deployed_database:
  assumes "database_from_url host_ok ca env url True (Some b) = Inr db"
  shows "verified_tls db" "canonical_neon_host (env_get env ''DJANGO_ENV'' []) b = Inr (py_lower (db_host db))"
  by (rule database_from_url_InrD [OF assms]; cases b; simp add: verified_tls_def tls_options_strong)+

section \<open>Settings\<close>

lemma auth_mode_setting_InrD:
  assumes "auth_mode_setting env deployed = Inr mode"
  shows "mode = ''entra'' \<or> mode = ''mock'' \<and> env ''DJANGO_ENV'' = Some ''dev'' \<and> \<not> deployed"
  using assms by (auto simp: auth_mode_setting_def Let_def split: if_splits)

lemma base_settings_InrD:
  assumes "base_settings host_ok ca env = Inr cfg"
  obtains mode url where
    "auth_mode_setting env (DEPLOYED cfg) = Inr mode" "auth_mode (AUTH cfg) = mode"
    "check_mock_database host_ok mode url = Inr ()"
    "database_from_url host_ok ca env url (DEPLOYED cfg)
       (Some (DEPLOYED cfg \<and> CONNECTION_ROLE cfg = ''app'')) = Inr (DATABASE cfg)"
    "environment cfg = env_get env ''DJANGO_ENV'' []" "\<not> DEBUG cfg" "secure_transport cfg = DEPLOYED cfg"
    "development_cors cfg \<longleftrightarrow> env ''DJANGO_ENV'' = Some ''dev'' \<and> \<not> DEPLOYED cfg"
    "DEPLOYED cfg \<longrightarrow> CORS_ALLOWED_ORIGINS cfg = []"
    "CONNECTION_ROLE cfg = ''app'' \<or> CONNECTION_ROLE cfg = ''direct''"
  using assms by (auto simp: base_settings_def Let_def elim!: res_bind_InrE)

lemma mock_database_local:
  assumes "check_mock_database host_ok ''mock'' url = Inr ()" "database_from_url host_ok ca env url ssl p = Inr db"
  shows "db_host db \<in> set LOCAL_HOSTS"
proof (rule database_from_url_InrD [OF assms(2)])
  fix scheme netloc path
  assume "urlsplit host_ok url = Some (scheme, netloc, path)" "db_host db = url_hostname netloc"
  then show ?thesis using assms(1) by (simp add: check_mock_database_def)
qed

lemma load_settings_InrD:
  assumes "load_settings host_ok ca env = Inr cfg"
  obtains c where "base_settings host_ok ca env = Inr c" "cfg = c\<lparr>DEBUG := environment c = ''dev'' \<and> \<not> DEPLOYED c\<rparr>"
    "environment c \<in> {''dev'', ''staging'', ''production''}" "environment c \<noteq> ''dev'' \<longrightarrow> DEPLOYED c"
proof -
  obtain c where c: "base_settings host_ok ca env = Inr c"
    using assms by (auto simp: load_settings_def Let_def elim!: res_bind_InrE split: if_splits)
  have "environment c = env_get env ''DJANGO_ENV'' []" "\<not> DEBUG c" by (rule base_settings_InrD [OF c]; simp)+
  then show thesis
    using assms c that [of c] by (auto simp: load_settings_def Let_def split: if_splits)
qed

section \<open>What a start says when it fails\<close>

text \<open>Every error of the settings modules, given the name of the environment.\<close>

definition missing_errors :: "exc list" where
  "missing_errors = map (\<lambda>name. RuntimeError (name @ '' is missing or empty''))
     [''DJANGO_SECRET_KEY'', ''DJANGO_DEPLOYED'', ''DJANGO_CONNECTION_ROLE'', ''DJANGO_ALLOWED_HOSTS'', ''DATABASE_URL'']"

definition url_errors :: "exc list" where
  "url_errors =
     [PyValueError ''Invalid URL'', PyValueError ''port'',
      RuntimeError (''DATABASE_URL must use postgres:// or postgresql://; received '' @ REDACTED),
      RuntimeError ''DATABASE_URL must include a host and database name.'',
      RuntimeError ''Deployed app DATABASE_URL must use the Neon pooler host.'',
      RuntimeError ''Direct migration DATABASE_URL must not use the Neon pooler host.'',
      RuntimeError ''Deployed PostgreSQL URLs must use sslmode=verify-full or sslmode=require'',
      RuntimeError ''No canonical Neon endpoint'',
      RuntimeError ''DATABASE_URL host does not match the canonical Neon endpoint.'',
      RuntimeError ''MICROSOFT_AUTH_MODE=mock requires a local PostgreSQL host.'']"

definition startup_errors :: "string \<Rightarrow> exc list" where
  "startup_errors e = missing_errors @ url_errors @
     [RuntimeError ''DJANGO_ENV is required'', RuntimeError ''Unsupported DJANGO_ENV'',
      RuntimeError ''DJANGO_DEPLOYED must be exactly true or false'',
      RuntimeError ''DJANGO_CONNECTION_ROLE must be exactly app or direct.'',
      RuntimeError ''DJANGO_NUM_PROXIES must be a non-negative integer.'',
      RuntimeError ''MICROSOFT_AUTH_MODE must be exactly entra or mock.'',
      RuntimeError ''MICROSOFT_AUTH_MODE=mock is only allowed with DJANGO_ENV=dev'',
      RuntimeError (''DJANGO_ENV='' @ e @ '' requires DJANGO_DEPLOYED=true.'')]"

text \<open>The exceptions a computation may raise, by its structure.\<close>

definition raises_only :: "exc list \<Rightarrow> 'a res \<Rightarrow> bool" where
  "raises_only es r \<longleftrightarrow> (\<forall>e. r = Inl e \<longrightarrow> e \<in> set es)"

lemma raises_only_intros:
  "e \<in> set es \<Longrightarrow> raises_only es (Inl e)" "raises_only es (Inr v)"
  "e \<in> set es \<Longrightarrow> raises_only es (require b e)"
  by (auto simp: raises_only_def)

lemma raises_only_if: "(c \<Longrightarrow> raises_only es p) \<Longrightarrow> (\<not> c \<Longrightarrow> raises_only es q) \<Longrightarrow> raises_only es (if c then p else q)"
  by simp

lemma raises_only_bind: "raises_only es r \<Longrightarrow> (\<And>x. raises_only es (f x)) \<Longrightarrow> raises_only es (res_bind r f)"
  by (cases r) (auto simp: raises_only_def)

lemmas raises_only_rules = raises_only_intros raises_only_if raises_only_bind

lemma raises_only_more: "raises_only es r \<Longrightarrow> set es \<subseteq> set es' \<Longrightarrow> raises_only es' r"
  by (auto simp: raises_only_def)

lemma redact_other_scheme:
  "urlsplit host_ok url = Some (scheme, netloc, path) \<Longrightarrow> scheme \<notin> set POSTGRES_SCHEMES \<Longrightarrow>
   redact_database_url host_ok url = REDACTED"
  by (auto simp: redact_database_url_def split: sum.splits)

lemma url_errors_members:
  "PyValueError ''Invalid URL'' \<in> set url_errors" "PyValueError ''port'' \<in> set url_errors"
  "RuntimeError (''DATABASE_URL must use postgres:// or postgresql://; received '' @ REDACTED) \<in> set url_errors"
  "RuntimeError ''DATABASE_URL must include a host and database name.'' \<in> set url_errors"
  "RuntimeError ''Deployed app DATABASE_URL must use the Neon pooler host.'' \<in> set url_errors"
  "RuntimeError ''Direct migration DATABASE_URL must not use the Neon pooler host.'' \<in> set url_errors"
  "RuntimeError ''Deployed PostgreSQL URLs must use sslmode=verify-full or sslmode=require'' \<in> set url_errors"
  "RuntimeError ''No canonical Neon endpoint'' \<in> set url_errors"
  "RuntimeError ''DATABASE_URL host does not match the canonical Neon endpoint.'' \<in> set url_errors"
  "RuntimeError ''MICROSOFT_AUTH_MODE=mock requires a local PostgreSQL host.'' \<in> set url_errors"
  by (simp_all add: url_errors_def)

lemma database_entry_raises: "raises_only url_errors (database_entry ca n p q)"
  unfolding database_entry_def url_port_def Let_def
  by (intro raises_only_rules url_errors_members)

lemma canonical_neon_host_raises: "raises_only url_errors (canonical_neon_host e b)"
  using url_errors_members(8) by (auto simp: canonical_neon_host_def raises_only_def split: option.splits)

lemma database_from_url_raises: "raises_only url_errors (database_from_url host_ok ca env url ssl pooled)"
proof (cases "urlsplit host_ok url")
  case None
  then show ?thesis unfolding database_from_url_def None option.case by (intro raises_only_rules url_errors_members)
next
  case (Some p)
  obtain scheme netloc path where p: "p = (scheme, netloc, path)" by (cases p)
  have red: "raises_only url_errors (Inl (RuntimeError
      (''DATABASE_URL must use postgres:// or postgresql://; received '' @ redact_database_url host_ok url)))"
    if "scheme \<notin> set POSTGRES_SCHEMES"
    unfolding redact_other_scheme [OF Some [unfolded p] that] by (intro raises_only_rules url_errors_members)
  show ?thesis
    unfolding database_from_url_def Some p option.case prod.case Let_def
    by (rule raises_only_if, erule red,
        intro raises_only_rules url_errors_members canonical_neon_host_raises database_entry_raises)
qed

lemma missing_raises:
  assumes "name \<in> set [''DJANGO_SECRET_KEY'', ''DJANGO_DEPLOYED'', ''DJANGO_CONNECTION_ROLE'', ''DJANGO_ALLOWED_HOSTS'', ''DATABASE_URL'']"
  shows "raises_only (startup_errors x) (required env name)"
proof -
  have "RuntimeError (name @ '' is missing or empty'') \<in> set missing_errors"
    unfolding missing_errors_def set_map by (rule imageI) (rule assms)
  then have "RuntimeError (name @ '' is missing or empty'') \<in> set (startup_errors x)"
    by (simp only: startup_errors_def set_append Un_iff simp_thms)
  then show ?thesis unfolding required_def Let_def by (intro raises_only_rules)
qed

lemma url_raises: "raises_only url_errors r \<Longrightarrow> raises_only (startup_errors x) r"
  by (erule raises_only_more) (auto simp only: startup_errors_def set_append)

lemma startup_members:
  "RuntimeError ''DJANGO_ENV is required'' \<in> set (startup_errors x)"
  "RuntimeError ''Unsupported DJANGO_ENV'' \<in> set (startup_errors x)"
  "RuntimeError ''DJANGO_DEPLOYED must be exactly true or false'' \<in> set (startup_errors x)"
  "RuntimeError ''DJANGO_CONNECTION_ROLE must be exactly app or direct.'' \<in> set (startup_errors x)"
  "RuntimeError ''DJANGO_NUM_PROXIES must be a non-negative integer.'' \<in> set (startup_errors x)"
  "RuntimeError ''MICROSOFT_AUTH_MODE must be exactly entra or mock.'' \<in> set (startup_errors x)"
  "RuntimeError ''MICROSOFT_AUTH_MODE=mock is only allowed with DJANGO_ENV=dev'' \<in> set (startup_errors x)"
  "RuntimeError (''DJANGO_ENV='' @ x @ '' requires DJANGO_DEPLOYED=true.'') \<in> set (startup_errors x)"
  by (simp_all add: startup_errors_def)

lemma required_bool_raises: "raises_only (startup_errors x) (required_bool env ''DJANGO_DEPLOYED'')"
proof -
  have "RuntimeError (''DJANGO_DEPLOYED'' @ '' must be exactly true or false'') \<in> set (startup_errors x)"
    using startup_members(3) by simp
  then show ?thesis
    unfolding required_bool_def Let_def by (intro raises_only_rules missing_raises) simp_all
qed

lemma check_mock_database_raises: "raises_only url_errors (check_mock_database host_ok m u)"
  unfolding check_mock_database_def
  by (cases "urlsplit host_ok u") (auto intro: raises_only_rules url_errors_members)

lemma base_settings_raises: "raises_only (startup_errors x) (base_settings host_ok ca env)"
  unfolding base_settings_def csv_setting_def num_proxies_setting_def auth_mode_setting_def Let_def
  by (intro raises_only_rules startup_members required_bool_raises
      url_raises [OF check_mock_database_raises] url_raises [OF database_from_url_raises]) (rule missing_raises, simp)+

section \<open>A start that succeeds and one that fails\<close>

definition demo_url :: string where
  "demo_url = ''postgresql://u:p@EP-old-salad-axvsz82z-pooler.c-4.us-east-2.aws.neon.tech/db?sslmode=verify-full''"

definition demo_environ :: "string \<Rightarrow> environ" where
  "demo_environ url = map_of
     [(''DJANGO_ENV'', ''production''), (''DJANGO_SECRET_KEY'', ''key''), (''DJANGO_DEPLOYED'', ''True''),
      (''DJANGO_CONNECTION_ROLE'', ''app''), (''DJANGO_ALLOWED_HOSTS'', ''api.example, ''),
      (''DATABASE_URL'', url)]"

definition demo_database :: database_config where
  "demo_database = \<lparr>db_name = ''db'', db_user = ''u'', db_password = ''p'',
     db_host = ''ep-old-salad-axvsz82z-pooler.c-4.us-east-2.aws.neon.tech'', db_port = ''5432'',
     db_options = [(''sslmode'', ''verify-full''), (''sslrootcert'', ''/etc/ssl/certs/ca-certificates.crt'')]\<rparr>"

lemma demo_parts:
  "urlsplit (\<lambda>h. True) demo_url = Some (''postgresql'', ''u:p@EP-old-salad-axvsz82z-pooler.c-4.us-east-2.aws.neon.tech'', ''/db'')"
  "url_query demo_url = ''sslmode=verify-full''"
  "tls_options True ''sslmode=verify-full'' = db_options demo_database"
  "strong_tls (query_first ''sslmode=verify-full'' ''sslmode'' []) (query_first ''sslmode=verify-full'' ''channel_binding'' [])"
  "database_entry True ''u:p@EP-old-salad-axvsz82z-pooler.c-4.us-east-2.aws.neon.tech'' ''/db'' ''sslmode=verify-full'' = Inr demo_database"
  "url_hostname ''u:p@EP-old-salad-axvsz82z-pooler.c-4.us-east-2.aws.neon.tech'' = db_host demo_database"
  "py_lower (db_host demo_database) = db_host demo_database"
  "py_contains (db_host demo_database) ''-pooler''"
  "canonical_neon_host ''production'' True = Inr (db_host demo_database)"
  "db_host demo_database \<noteq> []" "''postgresql'' \<in> set POSTGRES_SCHEMES" "lstrip_slash ''/db'' \<noteq> []"
  by code_simp+

lemma demo_environ_name: "env_get (demo_environ url) ''DJANGO_ENV'' [] = ''production''"
  by (simp add: env_get_def demo_environ_def)

lemma demo_database_loads:
  "database_from_url (\<lambda>h. True) True (demo_environ demo_url) demo_url True (Some True) = Inr demo_database"
  unfolding database_from_url_def demo_parts(1) option.case prod.case Let_def demo_parts(2)
  by (simp only: demo_parts demo_environ_name not_not if_False if_True HOL.simp_thms option.inject res_bind_simps require_simps refl)

definition demo_bad_url :: string where
  "demo_bad_url = ''mysql://u:hunter2@db/x''"

lemma demo_environ_parts:
  "required (demo_environ url) ''DJANGO_SECRET_KEY'' = Inr ''key''"
  "required_bool (demo_environ url) ''DJANGO_DEPLOYED'' = Inr True"
  "required (demo_environ url) ''DJANGO_CONNECTION_ROLE'' = Inr ''app''"
  "csv_setting (demo_environ url) ''DJANGO_ALLOWED_HOSTS'' = Inr [''api.example'']"
  "num_proxies_setting (demo_environ url) = Inr None"
  "auth_mode_setting (demo_environ url) True = Inr ''entra''"
proof -
  have "py_lower ''True'' = ''true''" "py_lower ''entra'' = ''entra''" by code_simp+
  then show
    "required (demo_environ url) ''DJANGO_SECRET_KEY'' = Inr ''key''"
    "required_bool (demo_environ url) ''DJANGO_DEPLOYED'' = Inr True"
    "required (demo_environ url) ''DJANGO_CONNECTION_ROLE'' = Inr ''app''"
    "csv_setting (demo_environ url) ''DJANGO_ALLOWED_HOSTS'' = Inr [''api.example'']"
    "num_proxies_setting (demo_environ url) = Inr None"
    "auth_mode_setting (demo_environ url) True = Inr ''entra''"
    by (simp_all add: required_def required_bool_def csv_setting_def csv_entries_def num_proxies_setting_def
        auth_mode_setting_def env_get_def demo_environ_def py_strip_def is_space_def)
qed

lemma demo_environ_urls:
  "required (demo_environ demo_url) ''DATABASE_URL'' = Inr demo_url"
  "required (demo_environ demo_bad_url) ''DATABASE_URL'' = Inr demo_bad_url"
  by code_simp+

lemma demo_settings_load:
  "\<exists>cfg. load_settings (\<lambda>h. True) True (demo_environ demo_url) = Inr cfg \<and> DEPLOYED cfg \<and> CONNECTION_ROLE cfg = ''app'' \<and>
     ALLOWED_HOSTS cfg = [''api.example''] \<and> environment cfg = ''production'' \<and> DATABASE cfg = demo_database"
  by (simp add: load_settings_def base_settings_def demo_environ_parts demo_environ_urls demo_environ_name
      demo_database_loads check_mock_database_def)

lemma demo_bad_url_fails:
  "load_settings (\<lambda>h. True) True (demo_environ demo_bad_url) =
     Inl (RuntimeError (''DATABASE_URL must use postgres:// or postgresql://; received '' @ REDACTED))"
proof -
  have u: "urlsplit (\<lambda>h. True) demo_bad_url = Some (''mysql'', ''u:hunter2@db'', ''/x'')"
    "''mysql'' \<notin> set POSTGRES_SCHEMES" by code_simp+
  then have "database_from_url (\<lambda>h. True) True (demo_environ demo_bad_url) demo_bad_url True (Some True) =
      Inl (RuntimeError (''DATABASE_URL must use postgres:// or postgresql://; received '' @ REDACTED))"
    by (simp add: database_from_url_def redact_other_scheme [OF u])
  then show ?thesis
    by (simp add: load_settings_def base_settings_def demo_environ_parts demo_environ_urls demo_environ_name
        check_mock_database_def)
qed

section \<open>What a start guarantees\<close>

lemma settings_pinned:
  assumes "load_settings host_ok ca_bundle env = Inr cfg"
  shows "DEPLOYED cfg \<longrightarrow> verified_tls (DATABASE cfg) \<and>
    canonical_neon_host (environment cfg) (CONNECTION_ROLE cfg = ''app'') = Inr (py_lower (db_host (DATABASE cfg)))"
proof (rule load_settings_InrD [OF assms], erule base_settings_InrD)
  fix c url
  assume "cfg = c\<lparr>DEBUG := environment c = ''dev'' \<and> \<not> DEPLOYED c\<rparr>"
    "environment c = env_get env ''DJANGO_ENV'' []"
    "database_from_url host_ok ca_bundle env url (DEPLOYED c)
       (Some (DEPLOYED c \<and> CONNECTION_ROLE c = ''app'')) = Inr (DATABASE c)"
  then show ?thesis
    using deployed_database [of host_ok ca_bundle env url "CONNECTION_ROLE c = ''app''" "DATABASE c"]
    by (cases "DEPLOYED c") simp_all
qed

text \<open>
  C13. The configuration fails closed. A process that started has one of the three environments, and
  staging and production are always deployed. A deployed process shows no debug pages, redirects to
  HTTPS, allows no foreign origin, accepts Microsoft identities only, and uses the database host
  reviewed for its environment and connection role over verified TLS. Mock identities are accepted
  only in a local development process with a local database.
\<close>

theorem settings_fail_closed:
  assumes "load_settings host_ok ca_bundle env = Inr cfg"
  shows "environment cfg \<in> {''dev'', ''staging'', ''production''} \<and>
    (environment cfg \<noteq> ''dev'' \<longrightarrow> DEPLOYED cfg) \<and>
    (DEPLOYED cfg \<longrightarrow> \<not> DEBUG cfg \<and> secure_transport cfg \<and> \<not> development_cors cfg \<and>
       CORS_ALLOWED_ORIGINS cfg = [] \<and> auth_mode (AUTH cfg) = ''entra'' \<and> verified_tls (DATABASE cfg) \<and>
       canonical_neon_host (environment cfg) (CONNECTION_ROLE cfg = ''app'') = Inr (py_lower (db_host (DATABASE cfg)))) \<and>
    (auth_mode (AUTH cfg) = ''mock'' \<longrightarrow>
       environment cfg = ''dev'' \<and> \<not> DEPLOYED cfg \<and> db_host (DATABASE cfg) \<in> set LOCAL_HOSTS)"
proof (rule load_settings_InrD [OF assms])
  fix c
  assume c: "base_settings host_ok ca_bundle env = Inr c" "cfg = c\<lparr>DEBUG := environment c = ''dev'' \<and> \<not> DEPLOYED c\<rparr>"
    "environment c \<in> {''dev'', ''staging'', ''production''}" "environment c \<noteq> ''dev'' \<longrightarrow> DEPLOYED c"
  show ?thesis
  proof (rule base_settings_InrD [OF c(1)])
    fix mode url
    assume m: "auth_mode_setting env (DEPLOYED c) = Inr mode" "auth_mode (AUTH c) = mode"
      "check_mock_database host_ok mode url = Inr ()"
      and d: "database_from_url host_ok ca_bundle env url (DEPLOYED c)
        (Some (DEPLOYED c \<and> CONNECTION_ROLE c = ''app'')) = Inr (DATABASE c)"
      and e: "environment c = env_get env ''DJANGO_ENV'' []" "secure_transport c = DEPLOYED c"
        "development_cors c \<longleftrightarrow> env ''DJANGO_ENV'' = Some ''dev'' \<and> \<not> DEPLOYED c"
        "DEPLOYED c \<longrightarrow> CORS_ALLOWED_ORIGINS c = []"
    have "DEPLOYED c \<longrightarrow> verified_tls (DATABASE c) \<and>
        canonical_neon_host (environment c) (CONNECTION_ROLE c = ''app'') = Inr (py_lower (db_host (DATABASE c)))"
      using settings_pinned [OF assms] c(2) by simp
    moreover have "mode = ''mock'' \<longrightarrow> db_host (DATABASE c) \<in> set LOCAL_HOSTS"
      using mock_database_local [OF _ d] m(3) by blast
    ultimately show ?thesis
      using c(2-4) auth_mode_setting_InrD [OF m(1)] m(2) e by (auto simp: env_get_def)
  qed
qed

theorem settings_fail_closed_witness:
  "\<exists>cfg. load_settings (\<lambda>h. True) True (demo_environ demo_url) = Inr cfg \<and> DEPLOYED cfg \<and>
     DATABASE cfg = demo_database \<and> auth_mode (AUTH cfg) = ''entra'' \<and> verified_tls demo_database \<and>
     canonical_neon_host ''production'' True = Inr (py_lower (db_host demo_database))"
proof -
  obtain cfg where c: "load_settings (\<lambda>h. True) True (demo_environ demo_url) = Inr cfg" "DEPLOYED cfg"
    "CONNECTION_ROLE cfg = ''app''" "environment cfg = ''production''" "DATABASE cfg = demo_database"
    using demo_settings_load by blast
  have "auth_mode (AUTH cfg) = ''entra'' \<and> verified_tls (DATABASE cfg) \<and>
      canonical_neon_host (environment cfg) (CONNECTION_ROLE cfg = ''app'') = Inr (py_lower (db_host (DATABASE cfg)))"
    using settings_fail_closed [OF c(1)] c(2) by blast
  then show ?thesis using c(1,2,5) by (intro exI [of _ cfg]) (simp only: c(3-5) simp_thms)
qed



end
