(* ===== verification/Operations.thy ===== *)
theory Operations
  imports Settings_Rules "HOL-Library.AList"
begin

text \<open>
  Commands of the operators: \<open>assign_user_role\<close>, the guards of \<open>seed_neon_dev\<close> and the read-only
  probe \<open>db_smoke\<close>. Parameters are SHA-256, \<open>json.loads\<close> and \<open>datetime.fromisoformat\<close> as for the
  catalog, the tables Django manages, and what PostgreSQL answers. A timeout is in microseconds.
\<close>

section \<open>Roles\<close>

definition assign_user_role_command :: "db \<Rightarrow> datetime \<Rightarrow> string \<Rightarrow> string \<Rightarrow> db res" where
  "assign_user_role_command s now email_arg role_arg =
     (if role_arg \<notin> set [''STUDENT'', ''STAFF'', ''ADMIN''] then Inl (CommandError ''argument role: invalid choice'')
      else
        (let e = py_lower (py_strip email_arg); r = py_upper role_arg
         in case qs_first user_id (filter (\<lambda>x. py_lower (email x) = e) (users s)) of
              None \<Rightarrow> Inl (CommandError ''User does not exist.'')
            | Some x \<Rightarrow>
                if Some (role x) = role_of_string r then Inr s
                else (case update_user_role s now None (user_id x) r of
                        Inl CannotDemoteLastAdminError \<Rightarrow> Inl (CommandError ''CannotDemoteLastAdminError'')
                      | Inl e \<Rightarrow> Inl e
                      | Inr (y, s') \<Rightarrow> Inr s')))"

section \<open>Seeding the shared development database\<close>

definition ensure_neon_dev_target :: "environ \<Rightarrow> app_settings \<Rightarrow> unit res" where
  "ensure_neon_dev_target env cfg =
     (if env ''DJANGO_ENV'' \<noteq> Some ''dev'' \<or> \<not> DEPLOYED cfg
      then Inl (CommandError ''seed_neon_dev requires DJANGO_ENV=dev and DJANGO_DEPLOYED=true.'')
      else if CONNECTION_ROLE cfg \<noteq> ''app''
      then Inl (CommandError ''seed_neon_dev requires the pooled app connection role.'')
      else res_bind (canonical_neon_host ''dev'' True) (\<lambda>host.
        if py_lower (db_host (DATABASE cfg)) \<noteq> host
        then Inl (CommandError ''seed_neon_dev requires the canonical Neon dev pooler host.'')
        else if db_user (DATABASE cfg) \<noteq> ''greeniteso_dev_app''
        then Inl (CommandError ''seed_neon_dev requires the greeniteso_dev_app role.'')
        else if \<not> verified_tls (DATABASE cfg)
        then Inl (CommandError ''seed_neon_dev requires sslmode=verify-full'')
        else Inr ()))"

definition load_dev_synthetic_catalog ::
  "(string \<Rightarrow> bool option) \<Rightarrow> (string \<Rightarrow> string) \<Rightarrow> (string \<Rightarrow> json option) \<Rightarrow> environ \<Rightarrow> string option \<Rightarrow> catalog_data res" where
  "load_dev_synthetic_catalog aware sha256 parse env file =
     (let expected = py_lower (py_strip (env_get env ''NEON_DEV_SYNTHETIC_CATALOG_SHA256'' []))
      in if length expected \<noteq> 64 \<or> \<not> list_all (\<lambda>c. c \<in> set ''0123456789abcdef'') expected
         then Inl (CommandError ''must contain the dev fixture SHA-256'')
         else case file of
           None \<Rightarrow> Inl (CommandError ''Could not read the fixed dev synthetic catalog'')
         | Some bytes \<Rightarrow>
             if sha256 bytes \<noteq> expected
             then Inl (CommandError ''The dev synthetic catalog does not match its pinned SHA-256.'')
             else load_catalog_content aware ''DRAFT'' (parse bytes))"

text \<open>\<open>parse_as_of\<close>: \<open>fromiso\<close> is \<open>fromisoformat\<close>, the instant with None for a naive one.\<close>

definition parse_as_of :: "(string \<Rightarrow> datetime option option) \<Rightarrow> datetime \<Rightarrow> string option \<Rightarrow> datetime res" where
  "parse_as_of fromiso now v =
     (case v of
        None \<Rightarrow> Inr now
      | Some t \<Rightarrow>
          (case fromiso (concat (map (\<lambda>c. if c = CHR ''Z'' then ''+00:00'' else [c]) (py_strip t))) of
             None \<Rightarrow> Inl (CommandError ''--as-of must be an ISO-8601 timestamp'')
           | Some None \<Rightarrow> Inl (CommandError ''--as-of must include a timezone offset.'')
           | Some (Some d) \<Rightarrow> Inr d))"

text \<open>
  The command up to its transaction: the catalog and the anchor the seed is written with. \<open>tls\<close> is
  None when the connection fails and otherwise what libpq says of the encryption.
\<close>

definition seed_neon_dev_checks ::
  "(string \<Rightarrow> bool option) \<Rightarrow> (string \<Rightarrow> string) \<Rightarrow> (string \<Rightarrow> json option) \<Rightarrow> (string \<Rightarrow> datetime option option) \<Rightarrow>
   environ \<Rightarrow> app_settings \<Rightarrow> bool option option \<Rightarrow> datetime \<Rightarrow> string option \<Rightarrow> string option \<Rightarrow> string option \<Rightarrow>
   (catalog_data \<times> datetime) res" where
  "seed_neon_dev_checks aware sha256 parse fromiso env cfg tls now file confirm_target as_of =
     (if confirm_target \<noteq> Some ''dev''
      then Inl (CommandError ''Shared seed writes require the explicit --confirm-target dev option.'')
      else
        res_bind (ensure_neon_dev_target env cfg) (\<lambda>_.
        res_bind (load_dev_synthetic_catalog aware sha256 parse env file) (\<lambda>cat.
        res_bind (parse_as_of fromiso now as_of) (\<lambda>anchor.
        (case tls of
           None \<Rightarrow> Inl (CommandError ''Cannot verify the Neon dev TLS connection'')
         | Some ssl \<Rightarrow>
             if ssl \<noteq> Some True then Inl (CommandError ''seed_neon_dev requires an encrypted PostgreSQL connection.'')
             else Inr (cat, anchor))))))"

section \<open>The smoke check\<close>

definition MAX_TIMEOUT :: int where
  "MAX_TIMEOUT = 30 * 1000000"

record table_grant =
  grant_table :: string
  may_select :: bool
  may_insert :: bool
  may_update :: bool
  may_delete :: bool
  may_truncate :: bool

text \<open>The answers to the three queries of \<open>_check_app_grants\<close>.\<close>

record grant_rows =
  schema_usage :: bool
  schema_create :: bool
  table_grants :: "table_grant list"
  sequence_grants :: "bool list"

datatype smoke_failure =
    GrantMismatch | DeadlineExceeded
  | DatabaseFailure "string option" string bool
  | UnexpectedFailure

definition expected_grants :: "string \<Rightarrow> bool list" where
  "expected_grants name =
     (if name = ''django_migrations'' then [True, False, False, False, False] else [True, True, True, True, False])"

definition grants_of :: "table_grant \<Rightarrow> bool list" where
  "grants_of g = [may_select g, may_insert g, may_update g, may_delete g, may_truncate g]"

definition check_app_grants :: "string list \<Rightarrow> grant_rows \<Rightarrow> smoke_failure + nat \<times> nat" where
  "check_app_grants managed rows =
     (if sequence_grants rows = [] then Inl GrantMismatch
      else if (schema_usage rows, schema_create rows) \<noteq> (True, False) \<or> table_grants rows = [] \<or>
        \<not> set (''django_migrations'' # managed) \<subseteq> set (map grant_table (table_grants rows)) \<or>
        list_ex (\<lambda>g. grants_of g \<noteq> expected_grants (grant_table g)) (table_grants rows) \<or>
        list_ex (\<lambda>b. \<not> b) (sequence_grants rows)
      then Inl GrantMismatch
      else Inr (length (table_grants rows), length (sequence_grants rows)))"

text \<open>\<open>_is_missing_schema\<close> of a \<open>DatabaseError\<close> with its SQLSTATE and its text.\<close>

definition is_missing_schema :: "string option \<Rightarrow> string \<Rightarrow> bool" where
  "is_missing_schema sqlstate text \<longleftrightarrow>
     sqlstate = Some ''42P01'' \<or> sqlstate = Some ''42703'' \<or>
     py_contains (py_lower text) ''does not exist'' \<and>
       (py_contains (py_lower text) ''relation'' \<or> py_contains (py_lower text) ''column'')"

datatype smoke_phase = Connection | Read

fun diagnosis :: "smoke_phase \<Rightarrow> smoke_failure \<Rightarrow> string" where
  "diagnosis phase GrantMismatch = ''GRANT_MISMATCH''"
| "diagnosis phase DeadlineExceeded = ''CONNECTION_FAILURE''"
| "diagnosis phase (DatabaseFailure sqlstate text operational) =
     (if is_missing_schema sqlstate text then ''MISSING_MIGRATIONS''
      else if phase = Connection \<or> operational then ''CONNECTION_FAILURE''
      else ''READ_FAILURE'')"
| "diagnosis phase UnexpectedFailure = (if phase = Connection then ''CONNECTION_FAILURE'' else ''READ_FAILURE'')"

record smoke_readings =
  user_count :: nat
  action_log_count :: nat
  ssl_status :: string
  table_count :: nat
  sequence_count :: nat

definition client_ssl_status :: "bool option \<Rightarrow> string" where
  "client_ssl_status ssl =
     (case ssl of Some True \<Rightarrow> ''activo'' | Some False \<Rightarrow> ''inactivo'' | None \<Rightarrow> ''desconocido'')"

text \<open>
  \<open>conn\<close> opens the connection and \<open>probe\<close> runs the first read, each with the options it is given;
  \<open>rows\<close> are the grants. The read transaction writes nothing, so the database is only read.
\<close>

definition read_smoke ::
  "string list \<Rightarrow> db \<Rightarrow> bool option \<Rightarrow> smoke_failure option \<Rightarrow> grant_rows \<Rightarrow> bool \<Rightarrow> smoke_failure + smoke_readings" where
  "read_smoke managed s ssl probe rows check_grants =
     (case probe of
        Some f \<Rightarrow> Inl f
      | None \<Rightarrow>
          (let reading = (\<lambda>t q. \<lparr>user_count = length (users s), action_log_count = length (action_logs s),
                                ssl_status = client_ssl_status ssl, table_count = t, sequence_count = q\<rparr>)
           in if check_grants
              then (case check_app_grants managed rows of Inl f \<Rightarrow> Inl f | Inr (t, q) \<Rightarrow> Inr (reading t q))
              else Inr (reading 0 0)))"

type_synonym conn_options = "(string \<times> int) list"

definition set_bounded_options :: "int \<Rightarrow> conn_options \<Rightarrow> conn_options" where
  "set_bounded_options timeout options =
     AList.update ''connect_timeout'' (max 1 (- ((- timeout) div 1000000))) options"

text \<open>The outcome and the connection options the process is left with.\<close>

definition db_smoke_command ::
  "string list \<Rightarrow> db \<Rightarrow> bool option \<Rightarrow> (conn_options \<Rightarrow> smoke_failure option) \<Rightarrow> (conn_options \<Rightarrow> smoke_failure option) \<Rightarrow>
   grant_rows \<Rightarrow> int \<Rightarrow> bool \<Rightarrow> conn_options \<Rightarrow> smoke_readings res \<times> conn_options" where
  "db_smoke_command managed s ssl conn probe rows timeout check_grants options =
     (if \<not> (100000 \<le> timeout \<and> timeout \<le> MAX_TIMEOUT)
      then (Inl (CommandError ''--timeout debe estar entre 0.1 y 30 segundos.''), options)
      else
        (let original = options; bounded = set_bounded_options timeout options
         in (case conn bounded of
               Some f \<Rightarrow> Inl (CommandError (diagnosis Connection f))
             | None \<Rightarrow>
                 (case read_smoke managed s ssl (probe bounded) rows check_grants of
                    Inl f \<Rightarrow> Inl (CommandError (diagnosis Read f))
                  | Inr r \<Rightarrow> Inr r), original)))"

section \<open>What the commands keep\<close>

text \<open>The command line cannot take the last administrator away either.\<close>

lemma assign_user_role_keeps_admin:
  assumes "accounts_ok s" "assign_user_role_command s now e r = Inr s'"
  shows "accounts_ok s' \<and> (has_admin s \<longrightarrow> has_admin s')"
  using assms update_user_role_ok [OF assms(1)]
  by (auto simp: assign_user_role_command_def Let_def split: if_splits option.splits sum.splits exc.splits)

text \<open>
  Whatever PostgreSQL answers, the probe leaves the connection options of the process as they were
  and its error is one of the fixed diagnoses: no text of the driver is passed on.
\<close>

lemma diagnosis_cases:
  "diagnosis p f \<in> {''GRANT_MISMATCH'', ''CONNECTION_FAILURE'', ''MISSING_MIGRATIONS'', ''READ_FAILURE''}"
  by (cases "(p, f)" rule: diagnosis.cases) simp_all

lemma db_smoke_clean:
  assumes "db_smoke_command managed s ssl conn probe rows timeout check_grants options = (r, options')"
  shows "options' = options"
    "r = Inl e \<Longrightarrow> e = CommandError ''--timeout debe estar entre 0.1 y 30 segundos.'' \<or>
       (\<exists>p f. e = CommandError (diagnosis p f))"
  using assms by (auto simp: db_smoke_command_def Let_def split: if_splits option.splits sum.splits)

text \<open>
  A probe with \<open>--check-grants\<close> succeeds only on a role that reads and writes every application
  table, cannot create in the schema, cannot truncate, and only reads the record of migrations.
\<close>

lemma check_app_grants_InrD:
  assumes "check_app_grants managed rows = Inr (t, q)" "name \<in> set managed \<or> name = ''django_migrations''"
  shows "\<exists>g \<in> set (table_grants rows). grant_table g = name \<and> grants_of g = expected_grants name"
    "\<not> schema_create rows" "\<forall>g \<in> set (table_grants rows). \<not> may_truncate g"
proof -
  have sub: "set (''django_migrations'' # managed) \<subseteq> set (map grant_table (table_grants rows))"
    and ex: "\<forall>g \<in> set (table_grants rows). grants_of g = expected_grants (grant_table g)"
    and "\<not> schema_create rows"
    using assms(1) unfolding check_app_grants_def list_ex_iff by (simp_all split: if_splits)
  then show "\<not> schema_create rows" by blast
  have "name \<in> grant_table ` set (table_grants rows)" using sub assms(2) by (auto simp del: set_map simp: subset_iff) auto
  then show "\<exists>g \<in> set (table_grants rows). grant_table g = name \<and> grants_of g = expected_grants name"
    using ex by auto
  show "\<forall>g \<in> set (table_grants rows). \<not> may_truncate g"
    using ex by (auto simp: grants_of_def expected_grants_def split: if_splits)
qed

section \<open>The commands and the settings\<close>

text \<open>
  \<open>seed_neon_dev\<close> writes to the shared development database only. For a process whose settings
  loaded, its target check passes exactly in a deployed development process with the app
  connection and the database role \<open>greeniteso_dev_app\<close>; the settings have already pinned the host
  to the reviewed pooler and the connection to verified TLS, so those two tests of the command
  never fail on their own.
\<close>

theorem neon_seed_target_is_dev:
  assumes "load_settings host_ok ca_bundle env = Inr cfg"
  shows "ensure_neon_dev_target env cfg = Inr () \<longleftrightarrow>
    environment cfg = ''dev'' \<and> DEPLOYED cfg \<and> CONNECTION_ROLE cfg = ''app'' \<and>
    db_user (DATABASE cfg) = ''greeniteso_dev_app''"
proof -
  have start: "environment cfg = env_get env ''DJANGO_ENV'' []"
    by (rule load_settings_InrD [OF assms], erule base_settings_InrD) simp
  have pin: "DEPLOYED cfg \<longrightarrow> verified_tls (DATABASE cfg) \<and>
      canonical_neon_host (environment cfg) (CONNECTION_ROLE cfg = ''app'') = Inr (py_lower (db_host (DATABASE cfg)))"
    using settings_pinned [OF assms] .
  show ?thesis
  proof (cases "env ''DJANGO_ENV'' = Some ''dev'' \<and> DEPLOYED cfg \<and> CONNECTION_ROLE cfg = ''app''")
    case True
    then have dev: "environment cfg = ''dev''" by (simp add: start env_get_def)
    have "canonical_neon_host ''dev'' True = Inr (py_lower (db_host (DATABASE cfg)))" "verified_tls (DATABASE cfg)"
      using pin True dev by (simp_all only: simp_thms)
    then show ?thesis using True dev by (simp add: ensure_neon_dev_target_def)
  next
    case False
    then show ?thesis
      by (auto simp: ensure_neon_dev_target_def start env_get_def split: option.splits)
  qed
qed

theorem neon_seed_target_is_dev_witness:
  "\<exists>cfg. load_settings (\<lambda>h. True) True (demo_environ demo_url) = Inr cfg \<and> DEPLOYED cfg \<and>
     ensure_neon_dev_target (demo_environ demo_url) cfg \<noteq> Inr ()"
proof -
  obtain cfg where c: "load_settings (\<lambda>h. True) True (demo_environ demo_url) = Inr cfg" "DEPLOYED cfg"
    "environment cfg = ''production''"
    using demo_settings_load by blast
  then have "environment cfg \<noteq> ''dev''" by simp
  then show ?thesis using neon_seed_target_is_dev [OF c(1)] c(1,2) by blast
qed

end
