(* ===== verification/Spec2Isabelle.thy ===== *)
theory Spec2Isabelle
  imports Clan_Access Image_Storage Spending Campaign_Rules Metrics Catalog_Rules Release_Rules
    Identity_Rules Throttling Account_Access Socket_Rules Operations
begin

text \<open>
  \<^bold>\<open>GreenITESO back end: a verification library\<close>

  The repository is a Django and Django REST Framework back end for a university programme of
  ecological actions. People sign in with Microsoft, belong to one institutional clan and up to
  five private ones, register actions that earn points for themselves and their clans, join
  campaigns whose missions count approved actions, earn badges, spend points on cosmetics and
  nicknames, post to a feed and receive notifications. The code is under \<open>src/app/green_iteso\<close>, the
  gates of the release pipeline under \<open>src/scripts\<close>.

  \<^bold>\<open>The state.\<close> \<open>GI_Prelude\<close> has the Python and ORM values (keys, instants, days, exceptions,
  QuerySet operations on a table held as the list of its rows) and \<open>Schema\<close> the tables: one
  record per model with the columns the code reads or writes, one datatype per \<open>TextChoices\<close>,
  and the record \<open>db\<close> with all tables, the stored objects (\<open>media\<close>), the messages pushed to
  sockets and a counter that stands for \<open>uuid4\<close>. A service is a function from \<open>db\<close> and its
  arguments to \<open>exc + 'a \<times> db\<close>: \<^term>\<open>Inl\<close> is the exception, and then the transaction leaves
  the old state. A check, unique or range error of PostgreSQL is an \<open>IntegrityError\<close> or
  \<open>DataError\<close> of the insert or save that meets it. A request is run at one clock value \<open>now\<close>.

  \<^bold>\<open>Components.\<close>
  \<^item> \<open>Notifications\<close>: \<open>notifications/{templates,services,views}.py\<close>. Rendering of templates, single
    and bulk creation in batches of 500, delivery to sockets, the five requests. Locale
    \<open>quiet_notifier\<close>: what every \<open>notify_*\<close> helper promises its caller.
  \<^item> \<open>Image_Storage\<close>: \<open>core/image_storage.py\<close>, \<open>actions/evidence.py\<close>, the two \<open>avatars.py\<close>. Magic
    bytes, size bounds, object keys and their owners, saving and deletion.
  \<^item> \<open>Accounts\<close>: \<open>accounts/services.py\<close>. Sign-in, profile, nickname, avatar, roles, deactivation.
  \<^item> \<open>Invite_Codes\<close>: \<open>clans/invite_codes.py\<close>.
  \<^item> \<open>Roster\<close>: the abstract specification of clan membership as sets of rows with an inductive
    step relation and its invariant; \<open>Clans\<close>: \<open>clans/{services,selectors,notifications}.py\<close>, each
    service shown to refine steps of the roster; \<open>Clan_Rules\<close>: the machine of clan services; \<open>Clan_Views\<close>:
    \<open>clans/{views,serializers}.py\<close> with \<open>IsClanLeader\<close>; \<open>Clan_Access\<close>: who may see and change a clan.
  \<^item> \<open>Calendar\<close>: local days, with the locale \<open>calendar\<close> for what the code needs of a time zone.
  \<^item> \<open>Campaigns\<close>: \<open>campaigns/{services,notifications,models}.py\<close>; \<open>Campaign_Views\<close>:
    \<open>campaigns/{views,serializers}.py\<close>; \<open>Campaign_Rules\<close>: the machine of campaign requests.
  \<^item> \<open>Gamification\<close>: badges and rankings. \<open>Feed\<close>: posts, their validation and permissions.
  \<^item> \<open>Actions\<close>: \<open>actions/{services,selectors,views,serializers}.py\<close>; \<open>Ledger\<close>: conservation of
    points over the requests that move them; \<open>Action_Rules\<close>: logs, limits and audits; \<open>Spending\<close>:
    every spent point is a cosmetic or a nickname.
  \<^item> \<open>Catalog\<close>: \<open>actions/management/commands/{load,release}_catalog.py\<close>. Validation of the JSON
    payload, the import and the release with its drift checks; \<open>Catalog_Rules\<close>: importing twice is
    importing once (locale \<open>reference_import\<close> for the three loops).
  \<^item> \<open>Metrics\<close>: \<open>accounts/selectors.py\<close>. Impact totals, filtered and grouped metrics, the weekly trend.
  \<^item> \<open>Json\<close>: JSON documents and what Python does with them. \<open>Identity\<close>: \<open>accounts/identity/\<close>, the
    Entra and the mock provider with the URLs that receive the bearer token; \<open>Identity_Rules\<close>: a sign-in
    rests on a verified token.
  \<^item> \<open>Throttling\<close>: \<open>core/throttling.py\<close>. Keys and order of the limits on sign-in, refresh and logout.
  \<^item> \<open>Account_Views\<close>: \<open>accounts/{views,serializers}.py\<close>; \<open>Account_Access\<close>: the endpoints only touch
    what is the caller's and fail with errors of the interface.
  \<^item> \<open>Release_Gate\<close>: \<open>scripts/{should-run-neon-migration,verify-dev-migration-evidence}.py\<close>;
    \<open>Release_Rules\<close>: the gate accepts only proven commits and always answers (locale \<open>counted_pages\<close>
    for its three paging loops).

  \<^item> \<open>Sockets\<close>: \<open>notifications/consumers.py\<close> with the pushes of \<open>notifications/services.py\<close>. A
    consumer split at its \<open>await\<close>s, interleaved with all other sockets, commits, pushes and the clock;
    \<open>Socket_Rules\<close>: what a socket carries, what it never misses and when it ends (locale
    \<open>guarded_machine\<close>, interpreted for each invariant of the hub).
  \<^item> \<open>Settings\<close>: \<open>settings/\<close>, \<open>security.py\<close>, \<open>notifications/checks.py\<close>, \<open>core/middleware.py\<close>. From the
    environment to the settings or the error; \<open>Settings_Rules\<close>: a start fails closed and tells nothing.
  \<^item> \<open>Operations\<close>: \<open>assign_user_role\<close>, the guards of \<open>seed_neon_dev\<close> and \<open>db_smoke\<close>.

  \<^bold>\<open>How they interact.\<close> A registered or approved log (Actions) pays the profile (Accounts) and two
  clans (Clans), awards badges (Gamification), credits missions (Campaigns), may publish a post
  (Feed) and notifies (Notifications). Campaign permissions read the memberships of Clans.
  Deactivation (Accounts) removes memberships, enrolments, badges and progress. Each commit leaves
  events (\<open>pushed\<close>) that the hub of Sockets hands to the group of the user. The settings choose the
  identity provider (Identity) and the target the commands (Operations, Catalog) check.

  \<^bold>\<open>What is shown.\<close> For each application a machine of requests (locales \<open>service_machine\<close> and
  \<open>monotone_machine\<close> of the prelude, interpreted on the model's own step functions) keeps an
  invariant or moves along an order in every run, whatever requests are refused: clan rules,
  what somebody who does not lead a clan leaves alone of it, what account requests leave alone of
  others, the last administrator, conservation
  of points, what points were spent on, the log book, the daily limit, the life of a campaign, the
  feed. Single operations have functional specifications on every branch; the optimised or iterative ones (batches, streaks, grouping, status sync, the precomputed
  permission flag) are equal to a direct definition. Every loop is a total function but the paging
  loops of the evidence gate, which are partial functions into \<open>option\<close>: they are shown to return
  whenever the totals GitHub reports are bounded. The hub of sockets is a machine with guards: the
  clock does not pass a timer that is due before it has run, and is shown never to be stuck. The pages of Graph are bounded by the code's own
  limit of three.

  \<^bold>\<open>Parameters.\<close> What is not under \<open>src/\<close> is an argument: the time zone database (record \<open>zone\<close>,
  law \<open>zone_ok\<close>, satisfied by the fixed offset of Mexico City), the URL validator, SHA-256 of
  evidence, the HMAC of invite codes, accent folding, PyJWT and the signing keys, the HTTP client,
  \<open>json.loads\<close>, \<open>uuid5\<close>, ISO timestamps, the counters of the framework's throttles (law
  \<open>counts_apart\<close>), the channel layer (laws \<open>documented_layer\<close> and \<open>lossless_layer\<close>), the verification
  of access tokens (laws \<open>auth_users\<close> and \<open>auth_lifetime\<close>) and the GitHub CLI. No property assumes more of them than its statement says.

  \<^bold>\<open>Not modelled.\<close> Concurrency of requests: they run one after another, as the row locks of the code
  make them; the retry after a lost insert race is therefore unreachable. (The sockets do run
  interleaved.) Pagination, OpenAPI
  annotations, HTML error bodies and the texts of several field errors at once (the model
  answers the first). The issue, rotation and blacklisting of session tokens by the token library,
  the calls to the cloud bucket, admin pages, migrations, the demo rows of \<open>bootstrap_dev\<close>, the
  recovery drills, and the shell scripts of the deployment.
\<close>

section \<open>Streaks and deactivation\<close>


definition demo_leaver :: db where
  "demo_leaver = demo_streak\<lparr>users := [demo_user 1 STUDENT]\<rparr>"

lemma demo_leaver_leaves:
  "case deactivate_account demo_leaver (local_midnight mexico_city 100) 1 of Inl _ \<Rightarrow> False
   | Inr (_, s') \<Rightarrow> map current_streak (profiles s') = [0]"
  by code_simp

lemma demo_leaver_streak: "fst (recalculate_streak mexico_city demo_leaver (local_midnight mexico_city 100) 1) = 3"
  by code_simp


end
